(* ===== verification/Prelude.thy ===== *)
theory Prelude
  imports Main "HOL-Library.Word" "HOL-Library.Multiset" "HOL-Library.Code_Target_Nat"
begin

text \<open>
  Shared vocabulary of the Bandwidth Broker development.

  \<^item> The machine integer types and the error model of \<open>error.hpp\<close>: every fallible
    operation of the program returns \<open>Status\<close> or \<open>Result<T>\<close>, here \<open>'a result\<close>, a sum whose
    left side is a failure.  A failure is an \<open>ErrorCode\<close>, or \<open>Undefined\<close> where the
    C++ has undefined behaviour (dereferencing an empty optional through \<open>value()\<close>, or a
    null pointer).  The message of an \<open>Error\<close> is diagnostic text and is not modelled.
  \<^item> Sequencing of results (\<open>bindr\<close>, the \<open>BB_RETURN_IF_ERROR\<close> macro) and loops with an
    early error return (\<open>fold_res\<close>), with the rules every component proof uses.
  \<^item> \<open>std::sort\<close> with a comparison function (\<open>sort_by\<close>).  The comparators of the program are
    total on the elements they sort, so the order does not depend on the algorithm.
  \<^item> \<open>std::map\<close> as an association list kept in ascending key order, because the program
    iterates over its maps, together with the interface locale its clients rely on.
\<close>

named_theorems result_simps \<open>evaluation of results\<close>
named_theorems ensures_simps \<open>conditions on the value of a result\<close>
named_theorems omap_simps \<open>lookup in ordered maps\<close>

section \<open>Machine integers\<close>

type_synonym u8 = "8 word"
type_synonym u32 = "32 word"
type_synonym u64 = "64 word"

section \<open>Error codes and results\<close>

datatype error_code =
    EC_Ok | EC_InvalidArgument | EC_InvalidIdentity | EC_IdentityConflict
  | EC_GenerationMismatch | EC_EpochMismatch | EC_BootFenced | EC_PolicyGenerationMismatch
  | EC_ResourceGenerationMismatch | EC_RequesterGenerationMismatch
  | EC_ReservationGenerationMismatch | EC_TenantConfigGenerationMismatch
  | EC_CapacityUnknown | EC_CapacityInsufficient | EC_ContradictoryRequest
  | EC_NumericOverflow | EC_OutOfRange | EC_BoundsExceeded | EC_NotFound | EC_AlreadyExists
  | EC_InvalidStateTransition | EC_StaleGrant | EC_GrantRevoked | EC_GrantFenced
  | EC_DuplicateRelease | EC_PolicyInvalid | EC_PersistenceCorrupt | EC_PersistenceIo
  | EC_PersistenceVersionUnsupported | EC_ProtocolMalformed | EC_ProtocolVersionUnsupported
  | EC_ProtocolPayloadTooLarge | EC_ProtocolTruncated | EC_ProtocolChecksum
  | EC_HandshakeRejected | EC_UnknownSession | EC_ConnectionClosed | EC_IoError
  | EC_ResourceExhausted | EC_Cancelled | EC_ShuttingDown | EC_InternalError
  | EC_AccountingInvariantViolation | EC_NotAuthoritative | EC_RevalidationRequired
  | EC_Unsupported | EC_NoCapacityAuthority | EC_CapacityWithdrawn

datatype failure = Err error_code | Undefined

type_synonym 'a result = "failure + 'a"
type_synonym status = "unit result"

abbreviation fail :: "error_code \<Rightarrow> 'a result" where
  "fail c \<equiv> Inl (Err c)"

abbreviation success :: status where
  "success \<equiv> Inr ()"

definition is_ok :: "'a result \<Rightarrow> bool" where
  "is_ok r = (case r of Inl _ \<Rightarrow> False | Inr _ \<Rightarrow> True)"

definition bindr :: "'a result \<Rightarrow> ('a \<Rightarrow> 'b result) \<Rightarrow> 'b result" where
  "bindr m f = (case m of Inl e \<Rightarrow> Inl e | Inr x \<Rightarrow> f x)"

text \<open>\<open>Result::value()\<close> dereferences an optional that is empty when the result is an error.\<close>

definition value_of :: "'a result \<Rightarrow> 'a result" where
  "value_of m = (case m of Inl _ \<Rightarrow> Inl Undefined | Inr x \<Rightarrow> Inr x)"

text \<open>Dereferencing a pointer or an optional that may be empty.\<close>

definition deref :: "'a option \<Rightarrow> 'a result" where
  "deref p = (case p of None \<Rightarrow> Inl Undefined | Some x \<Rightarrow> Inr x)"

primrec fold_res :: "('a \<Rightarrow> 's \<Rightarrow> 's result) \<Rightarrow> 'a list \<Rightarrow> 's \<Rightarrow> 's result" where
  "fold_res f [] s = Inr s"
| "fold_res f (x # xs) s = bindr (f x s) (fold_res f xs)"

primrec all_ok :: "('a \<Rightarrow> status) \<Rightarrow> 'a list \<Rightarrow> status" where
  "all_ok f [] = success"
| "all_ok f (x # xs) = bindr (f x) (\<lambda>_. all_ok f xs)"

section \<open>Sorting with a comparison function\<close>

primrec insert_by :: "('a \<Rightarrow> 'a \<Rightarrow> bool) \<Rightarrow> 'a \<Rightarrow> 'a list \<Rightarrow> 'a list" where
  "insert_by lt x [] = [x]"
| "insert_by lt x (y # ys) = (if lt y x then y # insert_by lt x ys else x # y # ys)"

primrec sort_by :: "('a \<Rightarrow> 'a \<Rightarrow> bool) \<Rightarrow> 'a list \<Rightarrow> 'a list" where
  "sort_by lt [] = []"
| "sort_by lt (x # xs) = insert_by lt x (sort_by lt xs)"

section \<open>Ordered maps\<close>

type_synonym ('k, 'v) omap = "('k \<times> 'v) list"

fun om_find :: "('k, 'v) omap \<Rightarrow> 'k \<Rightarrow> 'v option" where
  "om_find [] k = None"
| "om_find ((a, b) # m) k = (if k = a then Some b else om_find m k)"

fun om_set :: "'k::linorder \<Rightarrow> 'v \<Rightarrow> ('k, 'v) omap \<Rightarrow> ('k, 'v) omap" where
  "om_set k v [] = [(k, v)]"
| "om_set k v ((a, b) # m) =
     (if k < a then (k, v) # (a, b) # m
      else if k = a then (k, v) # m
      else (a, b) # om_set k v m)"

fun om_erase :: "'k \<Rightarrow> ('k, 'v) omap \<Rightarrow> ('k, 'v) omap" where
  "om_erase k [] = []"
| "om_erase k ((a, b) # m) = (if k = a then m else (a, b) # om_erase k m)"

definition om_map_values :: "('v \<Rightarrow> 'v) \<Rightarrow> ('k, 'v) omap \<Rightarrow> ('k, 'v) omap" where
  "om_map_values f m = map (\<lambda>(k, v). (k, f v)) m"

definition om_ok :: "('k::linorder, 'v) omap \<Rightarrow> bool" where
  "om_ok m = sorted_wrt (<) (map fst m)"

section \<open>Rules for results\<close>

lemma bindr_simps [simp, result_simps]:
  "bindr (Inl e) f = Inl e"
  "bindr (Inr x) f = f x"
  by (simp_all add: bindr_def)

lemma bindr_eq_Inr [simp]: "bindr m f = Inr y \<longleftrightarrow> (\<exists>x. m = Inr x \<and> f x = Inr y)"
  by (cases m) auto

lemma bindr_eq_Inl: "bindr m f = Inl e \<longleftrightarrow> m = Inl e \<or> (\<exists>x. m = Inr x \<and> f x = Inl e)"
  by (cases m) auto

lemma bindr_cong [fundef_cong]:
  "m = m' \<Longrightarrow> (\<And>x. m' = Inr x \<Longrightarrow> f x = f' x) \<Longrightarrow> bindr m f = bindr m' f'"
  by (cases m') auto

lemma bindr_assoc: "bindr (bindr m f) g = bindr m (\<lambda>x. bindr (f x) g)"
  by (cases m) auto

lemma is_ok_simps [simp, result_simps]: "is_ok (Inr x)" "\<not> is_ok (Inl e)"
  by (simp_all add: is_ok_def)

lemma is_ok_iff: "is_ok r \<longleftrightarrow> (\<exists>x. r = Inr x)"
  by (cases r) auto

lemma value_of_eq_Inr [simp]: "value_of m = Inr x \<longleftrightarrow> m = Inr x"
  by (cases m) (auto simp: value_of_def)

lemma value_of_Inr [simp, result_simps]: "value_of (Inr x) = Inr x"
  by simp

lemma deref_eq_Inr [simp]: "deref p = Inr x \<longleftrightarrow> p = Some x"
  by (cases p) (auto simp: deref_def)

lemma deref_simps [simp, result_simps]: "deref (Some x) = Inr x" "deref None = Inl Undefined"
  by (simp_all add: deref_def)

lemma fold_res_append:
  "fold_res f (xs @ ys) s = bindr (fold_res f xs s) (fold_res f ys)"
  by (induction xs arbitrary: s) (auto simp: bindr_assoc intro: bindr_cong)

text \<open>The invariant rule for loops with an early error return.\<close>

lemma fold_res_invariant:
  assumes "fold_res f xs s = Inr t" and "P s"
    and "\<And>x s s'. x \<in> set xs \<Longrightarrow> P s \<Longrightarrow> f x s = Inr s' \<Longrightarrow> P s'"
  shows "P t"
  using assms by (induction xs arbitrary: s) auto

text \<open>The total variant: the loop body never fails on states satisfying the invariant.\<close>

lemma fold_res_total:
  assumes "P s"
    and "\<And>x s. x \<in> set xs \<Longrightarrow> P s \<Longrightarrow> \<exists>s'. f x s = Inr s' \<and> P s'"
  shows "\<exists>t. fold_res f xs s = Inr t \<and> P t"
  using assms by (induction xs arbitrary: s) fastforce+

text \<open>
  What holds of the value of a result, when it has one.  The rules compute the condition
  backwards through the sequencing of a definition, so that a fact about every return of an
  operation is one simplification.
\<close>

definition ensures :: "'a result \<Rightarrow> ('a \<Rightarrow> bool) \<Rightarrow> bool" where
  "ensures m P \<longleftrightarrow> (\<forall>x. m = Inr x \<longrightarrow> P x)"

lemma ensures_Inr [ensures_simps]: "ensures (Inr x) P \<longleftrightarrow> P x"
  by (simp add: ensures_def)

lemma ensures_Inl [ensures_simps]: "ensures (Inl e) P"
  by (simp add: ensures_def)

lemma ensures_bindr [ensures_simps]: "ensures (bindr m f) P \<longleftrightarrow> ensures m (\<lambda>x. ensures (f x) P)"
  by (cases m) (simp_all add: ensures_def)

lemma ensures_if [ensures_simps]:
  "ensures (if c then a else b) P \<longleftrightarrow> (c \<longrightarrow> ensures a P) \<and> (\<not> c \<longrightarrow> ensures b P)"
  by simp

lemma ensures_case_prod [ensures_simps]: "ensures (case_prod f p) P \<longleftrightarrow> ensures (f (fst p) (snd p)) P"
  by (cases p) simp

lemma ensures_case_option [ensures_simps]:
  "ensures (case x of None \<Rightarrow> a | Some y \<Rightarrow> f y) P \<longleftrightarrow>
    (x = None \<longrightarrow> ensures a P) \<and> (\<forall>y. x = Some y \<longrightarrow> ensures (f y) P)"
  by (cases x) simp_all

lemma ensures_True [ensures_simps]: "ensures m (\<lambda>_. True)"
  by (simp add: ensures_def)

lemma ensuresI: "(\<And>x. m = Inr x \<Longrightarrow> P x) \<Longrightarrow> ensures m P"
  by (simp add: ensures_def)

lemma ensuresD: "ensures m P \<Longrightarrow> m = Inr x \<Longrightarrow> P x"
  by (simp add: ensures_def)

lemma ensures_mono: "ensures m P \<Longrightarrow> (\<And>x. P x \<Longrightarrow> Q x) \<Longrightarrow> ensures m Q"
  by (simp add: ensures_def)

lemma all_ok_iff [simp]: "all_ok f xs = success \<longleftrightarrow> (\<forall>x \<in> set xs. f x = success)"
  by (induction xs) auto

section \<open>Rules for sorting\<close>

lemma mset_insert_by [simp]: "mset (insert_by lt x xs) = add_mset x (mset xs)"
  by (induction xs) auto

lemma mset_sort_by [simp]: "mset (sort_by lt xs) = mset xs"
  by (induction xs) auto

lemma set_sort_by [simp]: "set (sort_by lt xs) = set xs"
  by (rule mset_eq_setD) simp

lemma length_sort_by [simp]: "length (sort_by lt xs) = length xs"
  by (rule mset_eq_length) simp

lemma distinct_sort_by [simp]: "distinct (sort_by lt xs) \<longleftrightarrow> distinct xs"
  by (rule mset_eq_imp_distinct_iff) simp

lemma sum_list_sort_by [simp]:
  "sum_list (map f (sort_by lt xs)) = (sum_list (map f xs) :: 'b::comm_monoid_add)"
proof -
  have "mset (map f (sort_by lt xs)) = mset (map f xs)" by (simp add: mset_map)
  then show ?thesis by (metis sum_mset_sum_list)
qed

text \<open>With a comparator that is a strict total order on the elements, the result is sorted.\<close>

definition strict_total :: "('a \<Rightarrow> 'a \<Rightarrow> bool) \<Rightarrow> bool" where
  "strict_total lt \<longleftrightarrow> (\<forall>a. \<not> lt a a) \<and> (\<forall>a b c. lt a b \<longrightarrow> lt b c \<longrightarrow> lt a c) \<and>
     (\<forall>a b. lt a b \<or> a = b \<or> lt b a)"

lemma set_insert_by [simp]: "set (insert_by lt x xs) = insert x (set xs)"
  by (induction xs) auto

lemma sorted_insert_by:
  assumes "strict_total lt"
  shows "sorted_wrt (\<lambda>a b. \<not> lt b a) xs \<Longrightarrow> sorted_wrt (\<lambda>a b. \<not> lt b a) (insert_by lt x xs)"
proof (induction xs)
  case Nil
  then show ?case by simp
next
  case (Cons y ys)
  show ?case
  proof (cases "lt y x")
    case True
    with assms have "\<not> lt x y" unfolding strict_total_def by blast
    with Cons True show ?thesis by simp
  next
    case False
    have "\<not> lt z x" if "z \<in> set ys" for z
      using that Cons.prems assms False unfolding strict_total_def by simp blast
    with False Cons.prems show ?thesis by simp
  qed
qed

lemma sorted_sort_by:
  assumes "strict_total lt"
  shows "sorted_wrt (\<lambda>a b. \<not> lt b a) (sort_by lt xs)"
  by (induction xs) (simp_all add: sorted_insert_by [OF assms])

section \<open>The interface of ordered maps\<close>

text \<open>
  What the components rely on when they keep their state in a \<open>std::map\<close>: lookup after a
  store, an erasure and an in-place update of every value, and that the keys stay in order.
\<close>

locale ordered_map =
  fixes find :: "'m \<Rightarrow> 'k \<Rightarrow> 'v option"
    and store :: "'k \<Rightarrow> 'v \<Rightarrow> 'm \<Rightarrow> 'm"
    and erase :: "'k \<Rightarrow> 'm \<Rightarrow> 'm"
    and map_values :: "('v \<Rightarrow> 'v) \<Rightarrow> 'm \<Rightarrow> 'm"
    and inv :: "'m \<Rightarrow> bool"
  assumes find_store: "find (store k v m) k' = (if k' = k then Some v else find m k')"
    and find_erase: "inv m \<Longrightarrow> find (erase k m) k' = (if k' = k then None else find m k')"
    and find_map_values: "find (map_values f m) k = map_option f (find m k)"
    and inv_store: "inv m \<Longrightarrow> inv (store k v m)"
    and inv_erase: "inv m \<Longrightarrow> inv (erase k m)"
    and inv_map_values: "inv m \<Longrightarrow> inv (map_values f m)"
begin

lemma find_store_same: "find (store k v m) k = Some v"
  by (simp add: find_store)

lemma store_store: "find (store k v (store k w m)) k' = find (store k v m) k'"
  by (simp add: find_store)

lemma erase_store: "inv m \<Longrightarrow> find m k = None \<Longrightarrow> find (erase k (store k v m)) k' = find m k'"
  by (simp add: find_erase find_store inv_store)

text \<open>A property of every stored value survives each of the three updates.\<close>

lemma values_store:
  "(\<And>k' v'. find m k' = Some v' \<Longrightarrow> P v') \<Longrightarrow> P v \<Longrightarrow> find (store k v m) k' = Some v' \<Longrightarrow> P v'"
  by (auto simp: find_store split: if_splits)

lemma values_erase:
  "inv m \<Longrightarrow> (\<And>k' v'. find m k' = Some v' \<Longrightarrow> P v') \<Longrightarrow> find (erase k m) k' = Some v' \<Longrightarrow> P v'"
  by (auto simp: find_erase split: if_splits)

lemma values_map:
  "(\<And>k' v'. find m k' = Some v' \<Longrightarrow> P (f v')) \<Longrightarrow> find (map_values f m) k' = Some v' \<Longrightarrow> P v'"
  by (auto simp: find_map_values)

end

lemma om_find_set: "om_find (om_set k v m) k' = (if k' = k then Some v else om_find m k')"
  by (induction k v m rule: om_set.induct) auto

lemma keys_om_set: "fst ` set (om_set k v m) = insert k (fst ` set m)"
  by (induction k v m rule: om_set.induct) auto

lemma om_find_none: "k \<notin> fst ` set m \<Longrightarrow> om_find m k = None"
  by (induction m k rule: om_find.induct) auto

lemma om_find_some: "om_find m k = Some v \<Longrightarrow> (k, v) \<in> set m"
  by (induction m k rule: om_find.induct) (auto split: if_splits)

lemma om_find_mem: "om_ok m \<Longrightarrow> (k, v) \<in> set m \<Longrightarrow> om_find m k = Some v"
  by (induction m k rule: om_find.induct) (force simp: om_ok_def)+

lemma keys_om_erase_subset: "fst ` set (om_erase k m) \<subseteq> fst ` set m"
  by (induction k m rule: om_erase.induct) auto

lemma om_find_erase:
  "om_ok m \<Longrightarrow> om_find (om_erase k m) k' = (if k' = k then None else om_find m k')"
proof (induction k m rule: om_erase.induct)
  case (2 k a b m)
  then have "om_ok m" and "a \<notin> fst ` set m" by (auto simp: om_ok_def)
  with 2 show ?case by (auto intro: om_find_none)
qed simp

lemma om_ok_set: "om_ok m \<Longrightarrow> om_ok (om_set k v m)"
proof (induction k v m rule: om_set.induct)
  case (2 k v a b m)
  have keys: "fst ` set (om_set k v m) = insert k (fst ` set m)" by (rule keys_om_set)
  from 2 keys show ?case by (auto simp: om_ok_def)
qed (simp add: om_ok_def)

lemma om_ok_erase: "om_ok m \<Longrightarrow> om_ok (om_erase k m)"
proof (induction k m rule: om_erase.induct)
  case (2 k a b m)
  have "\<forall>x \<in> fst ` set (om_erase k m). x \<in> fst ` set m"
    using keys_om_erase_subset [of k m] by blast
  with 2 show ?case by (fastforce simp: om_ok_def)
qed (simp add: om_ok_def)

lemma om_find_map_values: "om_find (om_map_values f m) k = map_option f (om_find m k)"
  by (induction m k rule: om_find.induct) (auto simp: om_map_values_def)

lemma om_ok_map_values: "om_ok (om_map_values f m) = om_ok m"
  by (simp add: om_ok_def om_map_values_def comp_def case_prod_beta)

interpretation om: ordered_map om_find om_set om_erase om_map_values om_ok
  by unfold_locales
    (simp_all add: om_find_set om_find_erase om_find_map_values om_ok_set om_ok_erase
      om_ok_map_values)

declare om_find_set [omap_simps] om_find_erase [omap_simps] om_find_map_values [omap_simps]
  om_ok_set [omap_simps] om_ok_erase [omap_simps] om_ok_map_values [omap_simps]

lemma om_ok_Nil [simp]: "om_ok []"
  by (simp add: om_ok_def)

section \<open>List arithmetic\<close>

lemma sum_list_map_le:
  "(\<And>x. x \<in> set xs \<Longrightarrow> f x \<le> g x) \<Longrightarrow> sum_list (map f xs) \<le> sum_list (map g xs)"
  for f g :: "'a \<Rightarrow> nat"
  by (induction xs) (auto intro: add_mono)

lemma member_le_sum_list_map: "x \<in> set xs \<Longrightarrow> f x \<le> sum_list (map f xs)"
  for f :: "'a \<Rightarrow> nat"
  by (induction xs) auto

lemma sum_list_update_nth:
  fixes f :: "'a \<Rightarrow> nat"
  assumes "i < length xs"
  shows "sum_list (map f (xs[i := y])) + f (xs ! i) = sum_list (map f xs) + f y"
  using assms by (induction xs arbitrary: i) (auto split: nat.splits simp: less_Suc_eq_0_disj)

end
