(* ===== verification/Numeric.thy ===== *)
theory Numeric
  imports Prelude
begin

text \<open>
  Exact integer helpers of \<open>numeric.hpp\<close>: the 128-bit accumulator built from 64-bit limbs,
  its multiplication, addition, comparison and shift-subtract division, and the checked
  64-bit helpers.  All values are machine words, so every intermediate operation wraps as
  the C++ does; the lemmas show that the results are nevertheless exact.
\<close>

unbundle bit_operations_syntax

record u128 =
  u_hi :: u64
  u_lo :: u64

definition u128_val :: "u128 \<Rightarrow> nat" where
  "u128_val r = unat (u_hi r) * 2 ^ 64 + unat (u_lo r)"

definition u128_mul :: "u64 \<Rightarrow> u64 \<Rightarrow> u128" where
  "u128_mul a b =
    (let a_lo = a AND 0xFFFFFFFF; a_hi = drop_bit 32 a;
         b_lo = b AND 0xFFFFFFFF; b_hi = drop_bit 32 b;
         p0 = a_lo * b_lo; p1 = a_lo * b_hi; p2 = a_hi * b_lo; p3 = a_hi * b_hi;
         mid = drop_bit 32 p0 + (p1 AND 0xFFFFFFFF) + (p2 AND 0xFFFFFFFF)
     in \<lparr> u_hi = p3 + drop_bit 32 p1 + drop_bit 32 p2 + drop_bit 32 mid,
          u_lo = push_bit 32 mid OR (p0 AND 0xFFFFFFFF) \<rparr>)"

definition u128_add :: "u128 \<Rightarrow> u128 \<Rightarrow> u128 \<times> bool" where
  "u128_add a b =
    (let lo = u_lo a + u_lo b;
         carry = (if lo < u_lo a then 1 else 0 :: u64);
         hi = u_hi a + u_hi b;
         hi_carry = hi < u_hi a;
         hi' = hi + carry
     in (\<lparr> u_hi = hi', u_lo = lo \<rparr>, hi_carry \<or> hi' < carry))"

definition u128_cmp :: "u128 \<Rightarrow> u128 \<Rightarrow> int" where
  "u128_cmp a b =
    (if u_hi a \<noteq> u_hi b then (if u_hi a < u_hi b then -1 else 1)
     else if u_lo a \<noteq> u_lo b then (if u_lo a < u_lo b then -1 else 1)
     else 0)"

definition cmp_mul_u64 :: "u64 \<Rightarrow> u64 \<Rightarrow> u64 \<Rightarrow> u64 \<Rightarrow> int" where
  "cmp_mul_u64 a b c d = u128_cmp (u128_mul a b) (u128_mul c d)"

text \<open>
  The loop \<open>for (int i = 127; i >= 0; --i)\<close> of the division; the first argument is \<open>i + 1\<close>.
  The result is the quotient, the remainder and the overflow flag.
\<close>

fun div_loop :: "nat \<Rightarrow> u128 \<Rightarrow> u64 \<Rightarrow> u64 \<Rightarrow> u64 \<Rightarrow> u64 \<times> u64 \<times> bool" where
  "div_loop 0 n d q r = (q, r, False)"
| "div_loop (Suc i) n d q r =
    (let bit = (if i \<ge> 64 then drop_bit (i - 64) (u_hi n) AND 1 else drop_bit i (u_lo n) AND 1);
         carry = drop_bit 63 r;
         r' = push_bit 1 r OR bit
     in if carry \<noteq> 0 \<or> r' \<ge> d
        then (if i \<ge> 64 then (0, 0, True)
              else div_loop i n d (q OR push_bit i 1) (r' - d))
        else div_loop i n d q r')"

definition u128_div_u64 :: "u128 \<Rightarrow> u64 \<Rightarrow> u64 \<times> u64 \<times> bool" where
  "u128_div_u64 n d =
    (if d = 0 then (0, 0, True)
     else if u_hi n = 0 then (u_lo n div d, u_lo n mod d, False)
     else div_loop 128 n d 0 0)"

definition mul_div_floor_u64 :: "u64 \<Rightarrow> u64 \<Rightarrow> u64 \<Rightarrow> u64 \<times> bool" where
  "mul_div_floor_u64 a b d =
    (case u128_div_u64 (u128_mul a b) d of (q, rem, overflow) \<Rightarrow> (q, overflow))"

definition div_floor_u64 :: "u64 \<Rightarrow> u64 \<Rightarrow> u64 \<times> bool" where
  "div_floor_u64 a b = (if b = 0 then (0, True) else (a div b, False))"

definition add_u64 :: "u64 \<Rightarrow> u64 \<Rightarrow> u64 \<times> bool" where
  "add_u64 a b = (let s = a + b in (s, s < a))"

definition div_ceil_u64 :: "u64 \<Rightarrow> u64 \<Rightarrow> u64" where
  "div_ceil_u64 a b = a div b + (if a mod b \<noteq> 0 then 1 else 0)"

section \<open>Words as natural numbers\<close>

lemma unat_lt64 [simp]: "unat (x :: u64) < 2 ^ 64"
  using unsigned_less [of x, where ?'a = nat] by simp

lemma unat_low32 [simp]: "unat ((x :: u64) AND 0xFFFFFFFF) = unat x mod 2 ^ 32"
proof -
  have "(0xFFFFFFFF :: u64) = mask 32" by (simp add: mask_eq_exp_minus_1)
  then have "x AND 0xFFFFFFFF = take_bit 32 x" by (simp add: take_bit_eq_mask)
  moreover have "unat (take_bit 32 x) = take_bit 32 (unat x)" by (simp add: unsigned_take_bit_eq)
  ultimately show ?thesis by (simp only: take_bit_eq_mod [where ?'a = nat])
qed

lemma unat_drop [simp]: "unat (drop_bit k (x :: u64)) = unat x div 2 ^ k"
  by (simp only: unat_drop_bit_eq drop_bit_eq_div [where ?'a = nat])

lemma unat_bit0 [simp]: "unat ((x :: u64) AND 1) = unat x mod 2"
  by (simp add: and_one_eq unat_mod)

lemma of_nat_unat64 [simp]: "(of_nat (unat w) :: u64) = w"
  by simp

lemma unat_of_nat64: "x < 2 ^ 64 \<Longrightarrow> unat (of_nat x :: u64) = x"
  by (simp add: unat_of_nat)

lemma unat_add64: "unat a + unat b < 2 ^ 64 \<Longrightarrow> unat (a + b :: u64) = unat a + unat b"
  by (simp add: unat_word_ariths)

lemma unat_add_eq:
  "unat a = x \<Longrightarrow> unat b = y \<Longrightarrow> x + y < 2 ^ 64 \<Longrightarrow> unat (a + b :: u64) = x + y"
  using unat_add64 [of a b] by simp

lemma unat_mult64: "unat a * unat b < 2 ^ 64 \<Longrightarrow> unat (a * b :: u64) = unat a * unat b"
  by (simp add: unat_word_ariths)

lemma unat_or_disjoint:
  fixes a b :: u64
  assumes "\<And>n. \<not> bit a n \<or> \<not> bit b n" and "unat a + unat b < 2 ^ 64"
  shows "unat (a OR b) = unat a + unat b"
  using assms disjunctive_add [of a b] unat_add64 [of a b] by simp

lemma bit_low32: "bit ((x :: u64) AND 0xFFFFFFFF) n \<Longrightarrow> n < 32"
proof -
  have "(0xFFFFFFFF :: u64) = mask 32" by (simp add: mask_eq_exp_minus_1)
  then show "bit (x AND 0xFFFFFFFF) n \<Longrightarrow> n < 32"
    by (simp add: bit_and_iff bit_mask_iff)
qed

lemma unat_push [simp]: "unat (push_bit k (x :: u64)) = (unat x * 2 ^ k) mod 2 ^ 64"
proof -
  have "unat (push_bit k x) = take_bit 64 (push_bit k (unat x))" by (simp add: unsigned_push_bit_eq)
  then show ?thesis by (simp only: take_bit_eq_mod [where ?'a = nat] push_bit_eq_mult [where ?'a = nat])
qed

lemma unat_push32: "unat (push_bit 32 (x :: u64)) = (unat x mod 2 ^ 32) * 2 ^ 32"
proof -
  have "(unat x * 2 ^ 32) mod (2 ^ 32 * 2 ^ 32) = (unat x mod 2 ^ 32) * 2 ^ 32"
    by (rule mod_mult_mult2)
  then show ?thesis by (simp only: unat_push flip: power_add) simp
qed

section \<open>Multiplication\<close>

lemma schoolbook:
  fixes a b :: nat
  defines "A1 \<equiv> a div 2 ^ 32" and "A0 \<equiv> a mod 2 ^ 32" and "B1 \<equiv> b div 2 ^ 32" and "B0 \<equiv> b mod 2 ^ 32"
  shows "a * b = A1 * B1 * 2 ^ 64 + (A0 * B1 + A1 * B0) * 2 ^ 32 + A0 * B0"
proof -
  have "a = A1 * 2 ^ 32 + A0" "b = B1 * 2 ^ 32 + B0" by (simp_all add: assms)
  then have "a * b = (A1 * 2 ^ 32 + A0) * (B1 * 2 ^ 32 + B0)" by simp
  then show ?thesis by (simp add: algebra_simps)
qed

lemma limb_sum:
  fixes p0 p1 p2 p3 W :: nat
  defines "mid \<equiv> p0 div W + p1 mod W + p2 mod W"
  shows "(p3 + p1 div W + p2 div W + mid div W) * (W * W) + ((mid mod W) * W + p0 mod W)
    = p3 * (W * W) + (p1 + p2) * W + p0"
proof -
  have m: "mid div W * (W * W) + (mid mod W) * W = mid * W"
    by (metis add_mult_distrib mult.assoc div_mult_mod_eq)
  have p: "p1 div W * (W * W) + p1 mod W * W = p1 * W" "p2 div W * (W * W) + p2 mod W * W = p2 * W"
    by (metis add_mult_distrib mult.assoc div_mult_mod_eq)+
  have "(p3 + p1 div W + p2 div W + mid div W) * (W * W) + ((mid mod W) * W + p0 mod W)
    = p3 * (W * W) + p1 div W * (W * W) + p2 div W * (W * W) + (mid * W + p0 mod W)"
    by (simp add: add_mult_distrib flip: m)
  also have "mid * W = p0 div W * W + p1 mod W * W + p2 mod W * W"
    by (simp add: mid_def add_mult_distrib)
  also have "p3 * (W * W) + p1 div W * (W * W) + p2 div W * (W * W)
      + (p0 div W * W + p1 mod W * W + p2 mod W * W + p0 mod W)
    = p3 * (W * W) + p1 * W + p2 * W + (p0 div W * W + p0 mod W)"
    by (simp flip: p)
  finally show ?thesis by (simp add: add_mult_distrib)
qed

lemma pow32_square: "(2 :: nat) ^ 32 * 2 ^ 32 = 2 ^ 64"
  by simp

lemma low_pair_bound: "x mod 2 ^ 32 * 2 ^ 32 + y mod 2 ^ 32 < (2 ^ 64 :: nat)"
proof -
  have "x mod 2 ^ 32 < (2 ^ 32 :: nat)" "y mod 2 ^ 32 < (2 ^ 32 :: nat)" by simp_all
  then show ?thesis by simp
qed

lemma mult_limb_bound: "(a :: nat) < 2 ^ 32 \<Longrightarrow> b < 2 ^ 32 \<Longrightarrow> a * b \<le> (2 ^ 32 - 1) * (2 ^ 32 - 1)"
  by (intro mult_le_mono) simp_all

lemma u128_mul_val: "u128_val (u128_mul a b) = unat a * unat b"
proof -
  let ?A1 = "unat a div 2 ^ 32" and ?A0 = "unat a mod 2 ^ 32"
  let ?B1 = "unat b div 2 ^ 32" and ?B0 = "unat b mod 2 ^ 32"
  let ?p0 = "?A0 * ?B0" and ?p1 = "?A0 * ?B1" and ?p2 = "?A1 * ?B0" and ?p3 = "?A1 * ?B1"
  let ?mid = "?p0 div 2 ^ 32 + ?p1 mod 2 ^ 32 + ?p2 mod 2 ^ 32"
  define a0 a1 b0 b1 where abs: "a0 = a AND 0xFFFFFFFF" "a1 = drop_bit 32 a"
    "b0 = b AND 0xFFFFFFFF" "b1 = drop_bit 32 b"
  define q0 q1 q2 q3 where qs: "q0 = a0 * b0" "q1 = a0 * b1" "q2 = a1 * b0" "q3 = a1 * b1"
  define m where m: "m = drop_bit 32 q0 + (q1 AND 0xFFFFFFFF) + (q2 AND 0xFFFFFFFF)"
  have lt: "?A1 < 2 ^ 32" "?B1 < 2 ^ 32" "?A0 < 2 ^ 32" "?B0 < 2 ^ 32"
    using unat_lt64 [of a] unat_lt64 [of b] by (auto simp: less_mult_imp_div_less)
  have bound: "?p0 \<le> (2 ^ 32 - 1) * (2 ^ 32 - 1)" "?p1 \<le> (2 ^ 32 - 1) * (2 ^ 32 - 1)"
    "?p2 \<le> (2 ^ 32 - 1) * (2 ^ 32 - 1)" "?p3 \<le> (2 ^ 32 - 1) * (2 ^ 32 - 1)"
    using lt by (blast intro: mult_limb_bound)+
  have u: "unat q0 = ?p0" "unat q1 = ?p1" "unat q2 = ?p2" "unat q3 = ?p3"
    using bound unfolding qs abs by (subst unat_mult64; simp)+
  have "?p0 div 2 ^ 32 < 2 ^ 32" using bound(1) by (intro less_mult_imp_div_less) simp
  moreover have "?p1 mod 2 ^ 32 < 2 ^ 32" "?p2 mod 2 ^ 32 < 2 ^ 32" by simp_all
  ultimately have mlt: "?mid < 3 * 2 ^ 32" by linarith
  have um: "unat m = ?mid"
  proof -
    have "unat (drop_bit 32 q0 + (q1 AND 0xFFFFFFFF)) = ?p0 div 2 ^ 32 + ?p1 mod 2 ^ 32"
      by (rule unat_add_eq; (simp only: unat_drop unat_low32 u)?) (use mlt in simp)
    then show ?thesis
      unfolding m by (rule unat_add_eq; (simp only: unat_low32 u)?) (use mlt in simp)
  qed
  have lo: "unat (push_bit 32 m OR (q0 AND 0xFFFFFFFF)) = (?mid mod 2 ^ 32) * 2 ^ 32 + ?p0 mod 2 ^ 32"
  proof -
    have sh: "unat (push_bit 32 m) = (?mid mod 2 ^ 32) * 2 ^ 32"
      by (simp only: unat_push32 um)
    have "unat (push_bit 32 m) + unat (q0 AND 0xFFFFFFFF) < 2 ^ 64"
      by (simp only: sh unat_low32 u low_pair_bound)
    moreover have "\<not> bit (push_bit 32 m) n \<or> \<not> bit (q0 AND 0xFFFFFFFF) n" for n
      using bit_low32 [of q0 n] by (auto simp: bit_push_bit_iff)
    ultimately have "unat (push_bit 32 m OR (q0 AND 0xFFFFFFFF)) = unat (push_bit 32 m) + unat (q0 AND 0xFFFFFFFF)"
      by (intro unat_or_disjoint)
    then show ?thesis by (simp only: sh unat_low32 u)
  qed
  let ?hi = "?p3 + ?p1 div 2 ^ 32 + ?p2 div 2 ^ 32 + ?mid div 2 ^ 32"
  have hi_lt: "?hi < 2 ^ 64"
  proof -
    have "?p1 div 2 ^ 32 \<le> (2 ^ 32 - 1) * (2 ^ 32 - 1) div 2 ^ 32"
      "?p2 div 2 ^ 32 \<le> (2 ^ 32 - 1) * (2 ^ 32 - 1) div 2 ^ 32"
      using bound(2,3) by (blast intro: div_le_mono)+
    moreover have "?mid div 2 ^ 32 < 3" using mlt by (rule less_mult_imp_div_less)
    ultimately show ?thesis using bound(4) by simp
  qed
  have hi: "unat (q3 + drop_bit 32 q1 + drop_bit 32 q2 + drop_bit 32 m) = ?hi"
  proof -
    have "unat (q3 + drop_bit 32 q1) = ?p3 + ?p1 div 2 ^ 32"
      by (rule unat_add_eq; (simp only: unat_drop u)?) (use hi_lt in simp)
    then have "unat (q3 + drop_bit 32 q1 + drop_bit 32 q2) = ?p3 + ?p1 div 2 ^ 32 + ?p2 div 2 ^ 32"
      by (rule unat_add_eq; (simp only: unat_drop u)?) (use hi_lt in simp)
    then show ?thesis
      by (rule unat_add_eq; (simp only: unat_drop um)?) (use hi_lt in simp)
  qed
  have "u128_val (u128_mul a b) = ?hi * 2 ^ 64 + ((?mid mod 2 ^ 32) * 2 ^ 32 + ?p0 mod 2 ^ 32)"
    unfolding u128_val_def u128_mul_def Let_def abs [symmetric] qs [symmetric] m [symmetric]
    by (simp only: u128.simps hi lo)
  also have "\<dots> = ?p3 * 2 ^ 64 + (?p1 + ?p2) * 2 ^ 32 + ?p0" 
    using limb_sum [of ?p3 ?p1 "2 ^ 32" ?p2 ?p0] by (simp only: pow32_square)
  also have "\<dots> = unat a * unat b" by (simp only: schoolbook [of "unat a" "unat b"])
  finally show ?thesis .
qed

section \<open>Addition and comparison\<close>

lemma add_u64_spec:
  "add_u64 a b = (a + b, unat a + unat b \<ge> 2 ^ 64)"
proof -
  have "a + b < a \<longleftrightarrow> unat a + unat b \<ge> 2 ^ 64"
  proof (cases "unat a + unat b < 2 ^ 64")
    case True
    then show ?thesis using unat_add64 [of a b] by (simp add: word_less_nat_alt)
  next
    case False
    then have "unat (a + b) = unat a + unat b - 2 ^ 64"
      using unat_lt64 [of a] unat_lt64 [of b]
      by (simp only: unat_word_ariths len_bit0 len_num1) (simp add: mod_if)
    with False show ?thesis using unat_lt64 [of b] by (simp add: word_less_nat_alt)
  qed
  then show ?thesis by (simp add: add_u64_def)
qed

lemma radix_less: "b < W \<Longrightarrow> a < c \<Longrightarrow> a * W + b < c * W + d" for a b c d W :: nat
proof -
  assume "b < W" "a < c"
  then have "Suc a * W \<le> c * W" by (intro mult_le_mono1) simp
  with \<open>b < W\<close> show ?thesis by simp
qed

lemma u128_less_iff:
  "u128_val a < u128_val b \<longleftrightarrow> u_hi a < u_hi b \<or> u_hi a = u_hi b \<and> u_lo a < u_lo b"
  using radix_less [OF unat_lt64, of "unat (u_hi a)" "unat (u_hi b)" "u_lo a" "unat (u_lo b)"]
    radix_less [OF unat_lt64, of "unat (u_hi b)" "unat (u_hi a)" "u_lo b" "unat (u_lo a)"]
  by (cases "u_hi a" "u_hi b" rule: linorder_cases)
    (auto simp: u128_val_def word_less_nat_alt)

lemma u128_eq_iff: "u128_val a = u128_val b \<longleftrightarrow> u_hi a = u_hi b \<and> u_lo a = u_lo b"
  using u128_less_iff [of a b] u128_less_iff [of b a] by (metis linorder_neq_iff)

lemma u128_cmp_spec:
  "u128_cmp a b = (if u128_val a < u128_val b then -1 else if u128_val a = u128_val b then 0 else 1)"
  by (auto simp: u128_cmp_def u128_less_iff u128_eq_iff)

lemma cmp_mul_u64_spec:
  "cmp_mul_u64 a b c d =
    (if unat a * unat b < unat c * unat d then -1
     else if unat a * unat b = unat c * unat d then 0 else 1)"
  by (simp add: cmp_mul_u64_def u128_cmp_spec u128_mul_val)

section \<open>Division\<close>

lemma u128_val_bound: "u128_val n < 2 ^ 128"
proof -
  have "unat (u_hi n) * 2 ^ 64 + unat (u_lo n) \<le> (2 ^ 64 - 1) * 2 ^ 64 + (2 ^ 64 - 1)"
    using unat_lt64 [of "u_hi n"] unat_lt64 [of "u_lo n"] by (intro add_mono mult_le_mono) simp_all
  then show ?thesis by (simp add: u128_val_def)
qed

lemma bit_of_u128:
  assumes "i < 128"
  shows "u128_val n div 2 ^ i mod 2 =
    (if i \<ge> 64 then unat (u_hi n) div 2 ^ (i - 64) mod 2 else unat (u_lo n) div 2 ^ i mod 2)"
proof (cases "i \<ge> 64")
  case True
  then have "(2 :: nat) ^ i = 2 ^ 64 * 2 ^ (i - 64)" by (simp only: le_add_diff_inverse flip: power_add)
  then have "u128_val n div 2 ^ i = u128_val n div 2 ^ 64 div 2 ^ (i - 64)"
    by (simp only: div_mult2_eq)
  also have "u128_val n div 2 ^ 64 = unat (u_hi n)"
    using unat_lt64 [of "u_lo n"] by (simp add: u128_val_def)
  finally show ?thesis using True by simp
next
  case False
  then have "(64 :: nat) = (63 - i) + 1 + i" by simp
  then have e: "(2 :: nat) ^ 64 = 2 ^ (63 - i) * 2 * 2 ^ i"
    by (metis power_add power_one_right)
  have "u128_val n = unat (u_lo n) + (unat (u_hi n) * (2 ^ (63 - i) * 2)) * 2 ^ i"
    by (simp only: u128_val_def e ac_simps)
  then have "u128_val n div 2 ^ i = unat (u_hi n) * (2 ^ (63 - i) * 2) + unat (u_lo n) div 2 ^ i"
    by (simp only: div_mult_self1) simp
  then have "u128_val n div 2 ^ i mod 2 = (unat (u_lo n) div 2 ^ i + (unat (u_hi n) * 2 ^ (63 - i)) * 2) mod 2"
    by (simp only: ac_simps)
  then show ?thesis using False by (simp only: mod_mult_self1) simp
qed

lemma div_less_pow_iff: "0 < D \<Longrightarrow> N div D < 2 ^ 64 \<longleftrightarrow> N div 2 ^ 64 < (D :: nat)"
  by (simp add: div_less_iff_less_mult mult.commute)

lemma shift_in_bit:
  fixes r b :: u64
  assumes "unat b < 2"
  shows "push_bit 1 r OR b = of_nat (2 * unat r + unat b)"
proof -
  have "b = 0 \<or> b = 1" using assms
    by (auto simp: word_unat_eq_iff)
  moreover have "\<not> bit (push_bit 1 r) n \<or> \<not> bit (1 :: u64) n" for n
    by (auto simp only: bit_push_bit_iff bit_1_iff)
  ultimately have "push_bit 1 r OR b = push_bit 1 r + b"
    by (metis bit_0_eq bot_apply bot_bool_def disjunctive_add)
  then show ?thesis by (simp add: push_bit_eq_mult mult.commute)
qed

lemma set_quotient_bit:
  fixes q :: u64
  assumes "unat q = X * 2 ^ Suc k" and "k < 64" and "(2 * X + 1) * 2 ^ k < 2 ^ 64"
  shows "unat (q OR push_bit k 1) = (2 * X + 1) * 2 ^ k"
proof -
  have q: "q = push_bit (Suc k) (of_nat X)"
    using assms(1) by (metis of_nat_mult of_nat_numeral of_nat_power push_bit_eq_mult of_nat_unat64)
  have one: "unat (push_bit k (1 :: u64)) = 2 ^ k"
  proof -
    have "(2 :: nat) ^ k < 2 ^ 64" using assms(2) by (intro power_strict_increasing) simp_all
    then show ?thesis by (simp only: unat_push unat_1 mult_1 mod_less)
  qed
  have "\<not> bit q n \<or> \<not> bit (push_bit k (1 :: u64)) n" for n
    unfolding q by (auto simp only: bit_push_bit_iff bit_1_iff)
  moreover have "unat q + unat (push_bit k (1 :: u64)) < 2 ^ 64"
    using assms by (simp only: one) (simp add: algebra_simps)
  ultimately have "unat (q OR push_bit k 1) = unat q + unat (push_bit k (1 :: u64))"
    by (rule unat_or_disjoint)
  then show ?thesis by (simp only: one assms(1)) (simp add: algebra_simps)
qed

text \<open>One step of long division in terms of the 65-bit partial remainder.\<close>

lemma div_step:
  fixes N D i :: nat
  assumes "0 < D"
  defines "T \<equiv> 2 * (N div 2 ^ Suc i mod D) + N div 2 ^ i mod 2"
  shows "T < 2 * D" and "N div 2 ^ i mod D = (if T \<ge> D then T - D else T)"
    and "N div 2 ^ i div D = 2 * (N div 2 ^ Suc i div D) + (if T \<ge> D then 1 else 0)"
proof -
  define M where "M = N div 2 ^ Suc i"
  have M: "N div 2 ^ i = 2 * M + N div 2 ^ i mod 2"
    unfolding M_def power_Suc2 div_mult2_eq by simp
  have "M mod D < D" using assms by simp
  then show less: "T < 2 * D" by (simp add: T_def M_def)
  have "M = M div D * D + M mod D" by (rule div_mult_mod_eq [symmetric])
  then have "N div 2 ^ i = T + 2 * (M div D * D)"
    using M unfolding T_def M_def [symmetric] by linarith
  then have eq: "N div 2 ^ i = T + 2 * (M div D) * D" by (simp only: mult.assoc)
  then have "N div 2 ^ i mod D = T mod D" by simp
  then show "N div 2 ^ i mod D = (if T \<ge> D then T - D else T)"
    using less by (auto simp: mod_if)
  have "N div 2 ^ i div D = T div D + 2 * (M div D)" using eq assms(1) by simp
  moreover have "T div D = (if T \<ge> D then 1 else 0)"
    using less assms(1) by (auto intro!: div_nat_eqI)
  ultimately show "N div 2 ^ i div D = 2 * (N div 2 ^ Suc i div D) + (if T \<ge> D then 1 else 0)"
    by (simp add: M_def)
qed

lemma div_loop_correct:
  fixes n :: u128 and d q r :: u64
  defines "N \<equiv> u128_val n" and "D \<equiv> unat d"
  assumes "0 < D" and "i \<le> 128" and "unat r = N div 2 ^ i mod D"
    and "unat q = N div 2 ^ i div D * 2 ^ i" and "N div 2 ^ max i 64 < D"
  shows "div_loop i n d q r =
    (if N div D < 2 ^ 64 then (of_nat (N div D), of_nat (N mod D), False) else (0, 0, True))"
  using assms(4-)
proof (induction i arbitrary: q r)
  case 0
  then have "q = of_nat (N div D)" "r = of_nat (N mod D)"
    by (metis div_by_1 mult_1_right power_0 of_nat_unat64)+
  moreover have "N div D < 2 ^ 64"
    using 0 unfolding div_less_pow_iff [OF assms(3)] by simp
  ultimately show ?case by simp
next
  case (Suc i)
  define b where "b = (if i \<ge> 64 then drop_bit (i - 64) (u_hi n) AND 1 else drop_bit i (u_lo n) AND 1)"
  define T where "T = 2 * (N div 2 ^ Suc i mod D) + N div 2 ^ i mod 2"
  note step = div_step [OF assms(3), of N i, folded T_def]
  have ub: "unat b = N div 2 ^ i mod 2"
    using Suc.prems(1) by (simp add: b_def N_def bit_of_u128)
  have T: "T = 2 * unat r + unat b" by (simp add: T_def ub Suc.prems)
  have r': "push_bit 1 r OR b = of_nat T" unfolding T by (rule shift_in_bit) (simp add: ub)
  have cond: "drop_bit 63 r \<noteq> 0 \<or> push_bit 1 r OR b \<ge> d \<longleftrightarrow> T \<ge> D"
  proof (cases "unat r < 2 ^ 63")
    case True
    then have "T < 2 ^ 64" using ub by (simp add: T)
    then have "unat (of_nat T :: u64) = T" by (rule unat_of_nat64)
    moreover have "drop_bit 63 r = 0" using True by (simp only: word_unat_eq_iff unat_drop) simp
    ultimately show ?thesis by (simp only: r' word_le_nat_alt D_def) simp
  next
    case False
    then have "T \<ge> D" using unat_lt64 [of d] by (simp add: T D_def)
    moreover have "unat (drop_bit 63 r) \<noteq> 0" using False by simp
    then have "drop_bit 63 r \<noteq> 0" by (metis unat_0)
    ultimately show ?thesis by blast
  qed
  have loop: "div_loop (Suc i) n d q r =
    (if T \<ge> D then (if i \<ge> 64 then (0, 0, True) else div_loop i n d (q OR push_bit i 1) (of_nat T - d))
     else div_loop i n d q (of_nat T))"
    using cond by (simp only: div_loop.simps Let_def b_def [symmetric] r')
  show ?case
  proof (cases "T \<ge> D")
    case True
    have sub: "unat (of_nat T - d) = T - D"
    proof -
      have "of_nat T - d = of_nat (T - D)" using True by (simp add: D_def)
      moreover have "T - D < 2 ^ 64" using step(1) unat_lt64 [of d] by (simp add: D_def)
      ultimately show ?thesis by (simp only: unat_of_nat64)
    qed
    show ?thesis
    proof (cases "i \<ge> 64")
      case True
      have "N div 2 ^ i div D \<noteq> 0" using step(3) \<open>T \<ge> D\<close> by simp
      then have "D \<le> N div 2 ^ i" by (metis div_less not_le)
      moreover have "N div 2 ^ i \<le> N div 2 ^ 64" using True by (intro div_le_mono2 power_increasing) simp_all
      ultimately have "\<not> N div D < 2 ^ 64" unfolding div_less_pow_iff [OF assms(3)] by simp
      with True \<open>T \<ge> D\<close> show ?thesis unfolding loop by simp
    next
      case False
      have nd: "N div D < 2 ^ 64"
        using Suc.prems(4) False unfolding div_less_pow_iff [OF assms(3)]
        by (simp add: max_def split: if_splits)
      have "N div 2 ^ i div D = N div D div 2 ^ i" by (simp add: mult.commute flip: div_mult2_eq)
      then have "N div 2 ^ i div D * 2 ^ i \<le> N div D" by (simp only: div_times_less_eq_dividend)
      then have lt: "N div 2 ^ i div D * 2 ^ i < 2 ^ 64" using nd by (rule le_less_trans)
      have q': "unat (q OR push_bit i 1) = N div 2 ^ i div D * 2 ^ i"
        using set_quotient_bit [OF Suc.prems(3)] False True lt step(3) by (simp only: if_True not_le)
      have "div_loop i n d (q OR push_bit i 1) (of_nat T - d) =
        (if N div D < 2 ^ 64 then (of_nat (N div D), of_nat (N mod D), False) else (0, 0, True))"
      proof (rule Suc.IH)
        show "i \<le> 128" using Suc.prems(1) by simp
        show "unat (of_nat T - d) = N div 2 ^ i mod D" using step(2) True by (simp only: sub) simp
        show "unat (q OR push_bit i 1) = N div 2 ^ i div D * 2 ^ i" by (rule q')
        show "N div 2 ^ max i 64 < D" using Suc.prems(4) False by (simp add: max_def split: if_splits)
      qed
      with True False show ?thesis unfolding loop by simp
    qed
  next
    case False
    then have "unat (of_nat T :: u64) = T"
      using unat_lt64 [of d] by (intro unat_of_nat64) (simp add: D_def)
    moreover have "N div 2 ^ max i 64 < D"
    proof (cases "i \<ge> 64")
      case True
      with Suc.prems(4) False step(3) have "N div 2 ^ i div D = 0" by (simp add: max_def)
      with True assms(3) show ?thesis by (simp add: max_def div_eq_0_iff)
    next
      case False
      with Suc.prems(4) show ?thesis by (simp add: max_def split: if_splits)
    qed
    moreover have "unat q = N div 2 ^ i div D * 2 ^ i"
      using Suc.prems(3) False step(3) by simp
    ultimately have "div_loop i n d q (of_nat T) =
      (if N div D < 2 ^ 64 then (of_nat (N div D), of_nat (N mod D), False) else (0, 0, True))"
      using Suc.prems(1) False step(2) by (intro Suc.IH) simp_all
    with False show ?thesis unfolding loop by simp
  qed
qed

theorem u128_div_u64_spec:
  assumes "d \<noteq> 0"
  shows "u128_div_u64 n d =
    (if u128_val n div unat d < 2 ^ 64
     then (of_nat (u128_val n div unat d), of_nat (u128_val n mod unat d), False)
     else (0, 0, True))"
proof (cases "u_hi n = 0")
  case True
  then have "u128_val n = unat (u_lo n)" by (simp add: u128_val_def)
  moreover have "unat (u_lo n) div unat d < 2 ^ 64"
    using unat_lt64 [of "u_lo n"] by (rule le_less_trans [OF div_le_dividend])
  moreover have "u_lo n div d = of_nat (unat (u_lo n) div unat d)"
    "u_lo n mod d = of_nat (unat (u_lo n) mod unat d)"
    by (simp_all flip: unat_div unat_mod)
  ultimately show ?thesis using True assms by (simp add: u128_div_u64_def)
next
  case False
  have "0 < unat d" using assms by (simp add: unat_gt_0)
  moreover have "u128_val n div 2 ^ 128 = 0" using u128_val_bound by (rule div_less)
  ultimately have "div_loop 128 n d 0 0 =
    (if u128_val n div unat d < 2 ^ 64
     then (of_nat (u128_val n div unat d), of_nat (u128_val n mod unat d), False) else (0, 0, True))"
    by (intro div_loop_correct) simp_all
  with False assms show ?thesis by (simp add: u128_div_u64_def)
qed

text \<open>The form the callers use: \<open>floor(a * b / d)\<close> on natural numbers.\<close>

theorem mul_div_floor_u64_spec:
  assumes "d \<noteq> 0"
  shows "mul_div_floor_u64 a b d =
    (if unat a * unat b div unat d < 2 ^ 64 then (of_nat (unat a * unat b div unat d), False)
     else (0, True))"
  by (simp add: mul_div_floor_u64_def u128_div_u64_spec [OF assms] u128_mul_val del: power.simps)

lemma div_floor_u64_spec: "b \<noteq> 0 \<Longrightarrow> div_floor_u64 a b = (a div b, False)"
  by (simp add: div_floor_u64_def)

lemma div_ceil_u64_spec:
  assumes "b \<noteq> 0"
  shows "unat (div_ceil_u64 a b) = (unat a + unat b - 1) div unat b"
proof -
  have b: "0 < unat b" using assms by (simp add: unat_gt_0)
  define q r where "q = unat a div unat b" and "r = unat a mod unat b"
  have a: "unat a = q * unat b + r" and r: "r < unat b" using b by (simp_all add: q_def r_def)
  have "unat a mod unat b \<noteq> 0 \<Longrightarrow> q + 1 < 2 ^ 64"
  proof -
    assume "unat a mod unat b \<noteq> 0"
    then have "unat b \<ge> 2" using b by (cases "unat b = 1") auto
    then have "q * 2 \<le> unat a" using mult_le_mono2 [of 2 "unat b" q] a by linarith
    then show ?thesis using unat_lt64 [of a] by simp
  qed
  then have "unat (div_ceil_u64 a b) = q + (if r \<noteq> 0 then 1 else 0)"
    unfolding div_ceil_u64_def q_def r_def
    by (auto simp: unat_div unat_mod word_unat_eq_iff intro!: unat_add_eq [where y = 1, simplified])
  moreover have "(unat a + unat b - 1) div unat b = q + (if r \<noteq> 0 then 1 else 0)"
    using b r unfolding a by (auto intro!: div_nat_eqI simp: algebra_simps)
  ultimately show ?thesis by simp
qed

lemma carry_split:
  obtains c where "unat a + unat b = (if a + b < (a :: u64) then 1 else 0) * 2 ^ 64 + unat (a + b)"
proof -
  have "a + b < a \<longleftrightarrow> unat a + unat b \<ge> 2 ^ 64" using add_u64_spec [of a b] by (simp add: add_u64_def Let_def)
  moreover have "unat (a + b) = (unat a + unat b) mod 2 ^ 64" by (simp add: unat_word_ariths)
  moreover have "unat a + unat b < 2 * 2 ^ 64" using unat_lt64 [of a] unat_lt64 [of b] by simp
  ultimately have "unat a + unat b = (if a + b < a then 1 else 0) * 2 ^ 64 + unat (a + b)"
    by (auto simp: mod_if)
  then show ?thesis by (rule that)
qed

theorem u128_add_spec:
  "u128_val (fst (u128_add a b)) + (if snd (u128_add a b) then 2 ^ 128 else 0)
    = u128_val a + u128_val b"
proof -
  define lo hi c where "lo = u_lo a + u_lo b" and "hi = u_hi a + u_hi b"
    and "c = (if lo < u_lo a then 1 else 0 :: u64)"
  have L: "unat (u_lo a) + unat (u_lo b) = unat c * 2 ^ 64 + unat lo"
    unfolding lo_def c_def by (rule carry_split [of "u_lo a" "u_lo b"]) auto
  have H: "unat (u_hi a) + unat (u_hi b) = (if hi < u_hi a then 1 else 0) * 2 ^ 64 + unat hi"
    unfolding hi_def by (rule carry_split [of "u_hi a" "u_hi b"])
  have C: "unat hi + unat c = (if hi + c < c then 1 else 0) * 2 ^ 64 + unat (hi + c)"
    by (rule carry_split [of c hi]) (simp add: ac_simps)
  have excl: "\<not> (hi < u_hi a \<and> hi + c < c)"
  proof
    assume *: "hi < u_hi a \<and> hi + c < c"
    then have "unat hi + 2 ^ 64 \<le> (2 ^ 64 - 1) + (2 ^ 64 - 1)"
      using H unat_lt64 [of "u_hi a"] unat_lt64 [of "u_hi b"] by simp
    moreover have "unat hi + unat c \<ge> 2 ^ 64" using C * by simp
    moreover have "unat c \<le> 1" by (simp add: c_def)
    ultimately show False by simp
  qed
  have "u128_add a b = (\<lparr> u_hi = hi + c, u_lo = lo \<rparr>, hi < u_hi a \<or> hi + c < c)"
    by (simp add: u128_add_def Let_def lo_def hi_def c_def)
  with L H C excl show ?thesis by (auto simp: u128_val_def)
qed

end
