(* ===== verification/Quantity.thy ===== *)
theory Quantity
  imports Numeric
begin

text \<open>
  The quantities of \<open>quantity.hpp\<close> and \<open>quantity.cpp\<close>.  A \<open>Bandwidth\<close> is an exact number of
  bits per second.  Its constructor is private and every way to build one checks the range,
  so the model keeps the value as a natural number; the inputs of the checked constructors
  are \<open>int\<close>, and \<open>bw_ok\<close> is the class invariant \<open>value \<le> kMaxBitsPerSecond\<close>.
  Arithmetic either stays in range or reports an error; multiplication and scaling go through
  the 128-bit helpers of \<open>Numeric\<close>.
\<close>

type_synonym bandwidth = nat

definition kMaxBitsPerSecond :: nat where
  "kMaxBitsPerSecond = 1000000000000000"

abbreviation bw_ok :: "bandwidth \<Rightarrow> bool" where
  "bw_ok b \<equiv> b \<le> kMaxBitsPerSecond"

definition from_bits_per_second :: "int \<Rightarrow> bandwidth result" where
  "from_bits_per_second b =
    (if b < 0 then fail EC_OutOfRange
     else if b > int kMaxBitsPerSecond then fail EC_OutOfRange
     else Inr (nat b))"

definition checked_scale :: "int \<Rightarrow> int \<Rightarrow> bandwidth result" where
  "checked_scale v factor =
    (if v < 0 then fail EC_OutOfRange
     else if v > int kMaxBitsPerSecond div factor then fail EC_OutOfRange
     else from_bits_per_second (v * factor))"

definition from_kilobits_per_second :: "int \<Rightarrow> bandwidth result" where
  "from_kilobits_per_second kbps = checked_scale kbps 1000"

definition from_megabits_per_second :: "int \<Rightarrow> bandwidth result" where
  "from_megabits_per_second mbps = checked_scale mbps 1000000"

definition from_gigabits_per_second :: "int \<Rightarrow> bandwidth result" where
  "from_gigabits_per_second gbps = checked_scale gbps 1000000000"

definition checked_add :: "bandwidth \<Rightarrow> bandwidth \<Rightarrow> bandwidth result" where
  "checked_add a b =
    (if int b > int kMaxBitsPerSecond - int a then fail EC_NumericOverflow else Inr (a + b))"

definition checked_sub :: "bandwidth \<Rightarrow> bandwidth \<Rightarrow> bandwidth result" where
  "checked_sub a b = (if b > a then fail EC_NumericOverflow else Inr (a - b))"

definition checked_mul :: "bandwidth \<Rightarrow> u64 \<Rightarrow> bandwidth result" where
  "checked_mul a factor =
    (case mul_div_floor_u64 (of_nat a) factor 1 of (product, overflow) \<Rightarrow>
      if overflow \<or> product > of_nat kMaxBitsPerSecond then fail EC_NumericOverflow
      else Inr (unat product))"

definition scaled :: "bandwidth \<Rightarrow> u64 \<Rightarrow> u64 \<Rightarrow> bandwidth result" where
  "scaled a numerator denominator =
    (if denominator = 0 then fail EC_InvalidArgument
     else case mul_div_floor_u64 (of_nat a) numerator denominator of (quot, overflow) \<Rightarrow>
       if overflow \<or> quot > of_nat kMaxBitsPerSecond then fail EC_NumericOverflow
       else Inr (unat quot))"

definition bw_sum :: "bandwidth list \<Rightarrow> bandwidth result" where
  "bw_sum values = fold_res (\<lambda>v total. checked_add total v) values 0"

definition saturating_sub :: "bandwidth \<Rightarrow> bandwidth \<Rightarrow> bandwidth" where
  "saturating_sub a b = (if a \<ge> b then a - b else 0)"

definition bw_min :: "bandwidth \<Rightarrow> bandwidth \<Rightarrow> bandwidth" where
  "bw_min a b = (if a \<le> b then a else b)"

definition max_of :: "bandwidth \<Rightarrow> bandwidth \<Rightarrow> bandwidth" where
  "max_of a b = (if a \<ge> b then a else b)"

definition is_positive :: "bandwidth \<Rightarrow> bool" where
  "is_positive a = (a > 0)"

definition is_zero :: "bandwidth \<Rightarrow> bool" where
  "is_zero a = (a = 0)"

definition kMaxNanoseconds :: int where
  "kMaxNanoseconds = 1000000000000000000"

definition duration_from_nanoseconds :: "int \<Rightarrow> nat result" where
  "duration_from_nanoseconds ns =
    (if ns < 0 then fail EC_OutOfRange
     else if ns > kMaxNanoseconds then fail EC_OutOfRange else Inr (nat ns))"

definition duration_from_milliseconds :: "int \<Rightarrow> nat result" where
  "duration_from_milliseconds ms =
    (if ms < 0 \<or> ms > kMaxNanoseconds div 1000000 then fail EC_OutOfRange
     else Inr (nat (ms * 1000000)))"

definition duration_from_seconds :: "int \<Rightarrow> nat result" where
  "duration_from_seconds s =
    (if s < 0 \<or> s > kMaxNanoseconds div 1000000000 then fail EC_OutOfRange
     else Inr (nat (s * 1000000000)))"

definition timestamp_from_unix_nanoseconds :: "int \<Rightarrow> nat result" where
  "timestamp_from_unix_nanoseconds ns = (if ns < 0 then fail EC_OutOfRange else Inr (nat ns))"

section \<open>Laws of the arithmetic\<close>

text \<open>The value-level helpers are the order and truncated subtraction of the naturals.\<close>

lemma saturating_sub_eq [simp]: "saturating_sub a b = a - b"
  by (simp add: saturating_sub_def)

lemma bw_min_eq [simp]: "bw_min a b = min a b"
  by (simp add: bw_min_def)

lemma max_of_eq [simp]: "max_of a b = max a b"
  by (simp add: max_of_def)

lemma is_positive_eq [simp]: "is_positive a \<longleftrightarrow> 0 < a"
  by (simp add: is_positive_def)

lemma is_zero_eq [simp]: "is_zero a \<longleftrightarrow> a = 0"
  by (simp add: is_zero_def)

lemma checked_add_eq_Inr [simp]:
  "checked_add a b = Inr c \<longleftrightarrow> c = a + b \<and> a + b \<le> kMaxBitsPerSecond"
  by (auto simp: checked_add_def)

lemma checked_add_eval: "a + b \<le> kMaxBitsPerSecond \<Longrightarrow> checked_add a b = Inr (a + b)"
  by simp

lemma checked_sub_eq_Inr [simp]: "checked_sub a b = Inr c \<longleftrightarrow> c + b = a"
  by (auto simp: checked_sub_def)

lemma checked_add_fail: "checked_add a b = Inl e \<longleftrightarrow> e = Err EC_NumericOverflow \<and> kMaxBitsPerSecond < a + b"
  by (auto simp: checked_add_def)

lemma kMax_lt_64: "kMaxBitsPerSecond < 2 ^ 64"
  by (simp add: kMaxBitsPerSecond_def)

lemma unat_bw [simp]: "bw_ok a \<Longrightarrow> unat (of_nat a :: u64) = a"
  using kMax_lt_64 by (intro unat_of_nat64) simp

lemma bw_sum_eq_Inr:
  "bw_sum values = Inr s \<longleftrightarrow> s = sum_list values \<and> sum_list values \<le> kMaxBitsPerSecond"
proof -
  have "fold_res (\<lambda>v total. checked_add total v) values t =
      (if t + sum_list values \<le> kMaxBitsPerSecond then Inr (t + sum_list values)
       else fail EC_NumericOverflow)" if "t \<le> kMaxBitsPerSecond" for t
    using that by (induction "values" arbitrary: t) (auto simp: checked_add_def)
  from this [of 0] show ?thesis by (auto simp: bw_sum_def)
qed

text \<open>
  Scaling computes the exact floor of the rational product: no intermediate truncation, and
  an error exactly when the quotient leaves the range.
\<close>

lemma scaled_spec:
  assumes "bw_ok a" and "denominator \<noteq> 0"
  shows "scaled a numerator denominator =
    (let q = a * unat numerator div unat denominator
     in if q \<le> kMaxBitsPerSecond then Inr q else fail EC_NumericOverflow)"
proof -
  let ?q = "a * unat numerator div unat denominator"
  have m: "mul_div_floor_u64 (of_nat a) numerator denominator =
      (if ?q < 2 ^ 64 then (of_nat ?q, False) else (0, True))"
    using mul_div_floor_u64_spec [OF assms(2), of "of_nat a" numerator] assms(1) by simp
  show ?thesis
  proof (cases "?q < 2 ^ 64")
    case True
    then have u: "unat (of_nat ?q :: u64) = ?q" by (rule unat_of_nat64)
    have "(of_nat ?q > (of_nat kMaxBitsPerSecond :: u64)) \<longleftrightarrow> ?q > kMaxBitsPerSecond"
      using u by (simp add: word_less_nat_alt)
    with True u m assms(2) show ?thesis by (simp add: scaled_def Let_def)
  next
    case False
    with m assms(2) kMax_lt_64 show ?thesis by (simp add: scaled_def Let_def)
  qed
qed

lemma scaled_le:
  assumes "scaled a n d = Inr q" and "bw_ok a" and "unat n \<le> unat d"
  shows "q \<le> a"
proof -
  from assms(1) have d: "d \<noteq> 0" by (auto simp: scaled_def split: if_splits)
  then have "0 < unat d" by (simp add: unat_gt_0)
  moreover have "a * unat n \<le> a * unat d" using assms(3) by simp
  ultimately have "a * unat n div unat d \<le> a"
    by (metis div_le_mono div_mult_self_is_m)
  with assms(1,2) d show ?thesis by (auto simp: scaled_spec Let_def split: if_splits)
qed

lemma scaled_total:
  assumes "bw_ok a" and "unat n \<le> unat d" and "d \<noteq> 0"
  shows "\<exists>q. scaled a n d = Inr q \<and> q \<le> a"
proof -
  have "0 < unat d" using assms(3) by (simp add: unat_gt_0)
  moreover have "a * unat n \<le> a * unat d" using assms(2) by simp
  ultimately have "a * unat n div unat d \<le> a"
    by (metis div_le_mono div_mult_self_is_m)
  with assms show ?thesis by (simp add: scaled_spec Let_def)
qed

lemma checked_mul_spec:
  assumes "bw_ok a"
  shows "checked_mul a factor =
    (if a * unat factor \<le> kMaxBitsPerSecond then Inr (a * unat factor) else fail EC_NumericOverflow)"
proof -
  have "checked_mul a factor = scaled a factor 1" by (simp add: checked_mul_def scaled_def)
  then show ?thesis using scaled_spec [OF assms, of 1 factor] by (simp add: Let_def)
qed

text \<open>No constructor and no operation leaves the class invariant.\<close>

lemma from_bits_ok: "from_bits_per_second b = Inr w \<Longrightarrow> bw_ok w \<and> int w = b"
  by (auto simp: from_bits_per_second_def split: if_splits)

lemma checked_scale_ok:
  assumes "0 < f"
  shows "checked_scale v f = Inr w \<Longrightarrow> bw_ok w \<and> int w = v * f"
    and "0 \<le> v \<Longrightarrow> v * f \<le> int kMaxBitsPerSecond \<Longrightarrow> checked_scale v f = Inr (nat (v * f))"
proof -
  have "v > int kMaxBitsPerSecond div f \<longleftrightarrow> v * f > int kMaxBitsPerSecond" if "0 \<le> v"
  proof -
    have "v \<le> K div f \<longleftrightarrow> v * f \<le> K" for K
    proof
      assume "v \<le> K div f"
      then have "v * f \<le> K div f * f" using assms by (intro mult_right_mono) simp_all
      also have "\<dots> \<le> K" using assms by (metis div_mult_mod_eq le_add_same_cancel1 pos_mod_sign)
      finally show "v * f \<le> K" .
    next
      assume "v * f \<le> K"
      then have "v * f div f \<le> K div f" using assms by (rule zdiv_mono1)
      then show "v \<le> K div f" using assms by simp
    qed
    from this [of "int kMaxBitsPerSecond"]
    show ?thesis by linarith
  qed

  then show "checked_scale v f = Inr w \<Longrightarrow> bw_ok w \<and> int w = v * f"
    and "0 \<le> v \<Longrightarrow> v * f \<le> int kMaxBitsPerSecond \<Longrightarrow> checked_scale v f = Inr (nat (v * f))"
    using assms by (auto simp: checked_scale_def from_bits_per_second_def mult_less_0_iff split: if_splits)
qed

lemma scaled_ok: "scaled a n d = Inr w \<Longrightarrow> bw_ok w"
  by (cases "mul_div_floor_u64 (of_nat a) n d")
    (auto simp: scaled_def word_less_nat_alt not_less split: if_splits)

end
