(* ===== verification/Checksum.thy ===== *)
theory Checksum
  imports Prelude
begin

text \<open>
  The integrity primitives of \<open>checksum.hpp\<close> and \<open>checksum.cpp\<close>: CRC-32C with a 256-entry
  table, FNV-1a, and the canonical content hasher.  Byte sequences are lists of 8-bit words.
  The lemmas show that the table-driven CRC is the bitwise one, that it is compositional in
  the data, and that it detects every corruption confined to one byte.
\<close>

unbundle bit_operations_syntax

type_synonym bytes = "u8 list"

definition kPolynomial :: u32 where
  "kPolynomial = 0x82F63B78"

definition crc_bit_step :: "u32 \<Rightarrow> u32" where
  "crc_bit_step crc = (if crc AND 1 \<noteq> 0 then drop_bit 1 crc XOR kPolynomial else drop_bit 1 crc)"

text \<open>One entry of \<open>Crc32cTable\<close>: eight bit steps from the index.\<close>

definition crc_table :: "u32 \<Rightarrow> u32" where
  "crc_table i = fold (\<lambda>_. crc_bit_step) [0..<8::nat] i"

definition crc_byte :: "u8 \<Rightarrow> u32 \<Rightarrow> u32" where
  "crc_byte b crc = crc_table ((crc XOR ucast b) AND 0xFF) XOR drop_bit 8 crc"

definition crc_update :: "bytes \<Rightarrow> u32 \<Rightarrow> u32" where
  "crc_update data value = fold crc_byte data value"

definition crc32c :: "bytes \<Rightarrow> u32" where
  "crc32c data = crc_update data 0xFFFFFFFF XOR 0xFFFFFFFF"

definition kFnvOffsetBasis :: u64 where
  "kFnvOffsetBasis = 14695981039346656037"

definition kFnvPrime :: u64 where
  "kFnvPrime = 1099511628211"

definition fnv1a64_continue :: "u64 \<Rightarrow> bytes \<Rightarrow> u64" where
  "fnv1a64_continue state data = fold (\<lambda>b hash. (hash XOR ucast b) * kFnvPrime) data state"

definition fnv1a64 :: "bytes \<Rightarrow> u64" where
  "fnv1a64 data = fnv1a64_continue kFnvOffsetBasis data"

text \<open>\<open>ContentHasher\<close>: the state is the running FNV value; multi-byte values are little endian.\<close>

definition le_bytes :: "nat \<Rightarrow> u64 \<Rightarrow> bytes" where
  "le_bytes n v = map (\<lambda>i. ucast (drop_bit (8 * i) v AND 0xFF)) [0..<n]"

definition hash_raw :: "bytes \<Rightarrow> u64 \<Rightarrow> u64" where
  "hash_raw data state = fnv1a64_continue state data"

definition hash_u8 :: "u8 \<Rightarrow> u64 \<Rightarrow> u64" where
  "hash_u8 v = hash_raw [v]"

definition hash_u32 :: "u32 \<Rightarrow> u64 \<Rightarrow> u64" where
  "hash_u32 v = hash_raw (le_bytes 4 (ucast v))"

definition hash_u64 :: "u64 \<Rightarrow> u64 \<Rightarrow> u64" where
  "hash_u64 v = hash_raw (le_bytes 8 v)"

definition hash_bool :: "bool \<Rightarrow> u64 \<Rightarrow> u64" where
  "hash_bool v = hash_u8 (if v then 1 else 0)"

definition hash_text :: "bytes \<Rightarrow> u64 \<Rightarrow> u64" where
  "hash_text t state = hash_raw t (hash_u64 (of_nat (length t)) state)"

section \<open>Compositionality\<close>

lemma crc_update_append: "crc_update (xs @ ys) v = crc_update ys (crc_update xs v)"
  by (simp add: crc_update_def)

lemma fnv1a64_continue_append:
  "fnv1a64_continue s (xs @ ys) = fnv1a64_continue (fnv1a64_continue s xs) ys"
  by (simp add: fnv1a64_continue_def)

lemma hash_raw_append: "hash_raw (xs @ ys) s = hash_raw ys (hash_raw xs s)"
  by (simp add: hash_raw_def fnv1a64_continue_append)

section \<open>The table-driven update is the bitwise update\<close>

lemma word_xor_cancel_right [simp]: "x XOR z = y XOR z \<longleftrightarrow> x = (y :: 'a::len word)"
  by (metis xor.assoc xor_self_eq xor.right_neutral)

lemma word_xor_cancel_left [simp]: "z XOR x = z XOR y \<longleftrightarrow> x = (y :: 'a::len word)"
  by (metis xor.commute word_xor_cancel_right)

lemma crc_table_steps: "crc_table i = (crc_bit_step ^^ 8) i"
  by (simp add: crc_table_def upt_rec numeral_eq_Suc)

lemma and_one_nonzero: "(x :: u32) AND 1 \<noteq> 0 \<longleftrightarrow> bit x 0"
  by (simp add: and_one_eq bit_0 odd_iff_mod_2_eq_one)

lemma crc_bit_step_alt:
  "crc_bit_step x = (if bit x 0 then drop_bit 1 x XOR kPolynomial else drop_bit 1 x)"
  by (simp only: crc_bit_step_def and_one_nonzero)

lemma bit_crc_step:
  "bit (crc_bit_step z) n \<longleftrightarrow> (bit (drop_bit 1 z) n \<noteq> (bit z 0 \<and> bit kPolynomial n))"
  by (cases "bit z 0") (simp_all only: crc_bit_step_alt bit_xor_iff if_True if_False simp_thms)

lemma crc_bit_step_xor: "crc_bit_step (x XOR y) = crc_bit_step x XOR crc_bit_step y"
  by (rule bit_eqI) (simp only: bit_crc_step bit_xor_iff drop_bit_xor, blast)

lemma crc_steps_xor: "(crc_bit_step ^^ n) (x XOR y) = (crc_bit_step ^^ n) x XOR (crc_bit_step ^^ n) y"
  by (induction n) (simp_all add: crc_bit_step_xor)

lemma crc_steps_zero_low:
  assumes "\<And>i. i < n \<Longrightarrow> \<not> bit x i"
  shows "(crc_bit_step ^^ n) x = drop_bit n x"
  using assms
proof (induction n)
  case (Suc n)
  then have "(crc_bit_step ^^ n) x = drop_bit n x" by simp
  moreover have "\<not> bit (drop_bit n x) 0" using Suc.prems [of n] by (simp only: bit_drop_bit_eq o_apply) simp
  ultimately have "(crc_bit_step ^^ Suc n) x = drop_bit 1 (drop_bit n x)"
    by (simp only: funpow.simps o_apply crc_bit_step_alt if_False)
  then show ?case by (simp only: drop_bit_drop_bit plus_1_eq_Suc)
qed simp

theorem crc_byte_bitwise: "crc_byte b crc = (crc_bit_step ^^ 8) (crc XOR ucast b)"
proof -
  let ?x = "crc XOR ucast b"
  have ff: "(0xFF :: u32) = mask 8" by (simp add: mask_eq_exp_minus_1)
  define hi where "hi = ?x AND NOT 0xFF"
  have split: "?x = (?x AND 0xFF) XOR hi"
    unfolding hi_def by (rule bit_eqI) (auto simp: bit_simps)
  have "\<not> bit hi i" if "i < 8" for i
    using that by (simp add: hi_def ff bit_and_iff bit_not_iff bit_mask_iff)
  then have hi: "(crc_bit_step ^^ 8) hi = drop_bit 8 hi" by (rule crc_steps_zero_low)
  have "drop_bit 8 hi = drop_bit 8 crc"
    by (rule bit_eqI)
      (auto simp: hi_def ff bit_drop_bit_eq bit_and_iff bit_not_iff bit_mask_iff bit_xor_iff
        bit_unsigned_iff dest: bit_imp_le_length)
  with hi split show ?thesis
    by (metis crc_byte_def crc_table_steps crc_steps_xor)
qed

section \<open>Single-byte corruption is detected\<close>

lemma crc_bit_step_inj: "crc_bit_step x = crc_bit_step y \<Longrightarrow> x = y"
proof -
  assume eq: "crc_bit_step x = crc_bit_step y"
  have top: "bit (crc_bit_step z) 31 \<longleftrightarrow> bit z 0" for z
  proof -
    have "\<not> bit z 32" by (auto dest: bit_imp_le_length)
    then have "\<not> bit (drop_bit 1 z) 31" by (simp add: bit_drop_bit_eq)
    moreover have "bit kPolynomial 31" by (simp add: kPolynomial_def)
    ultimately show ?thesis by (cases "bit z 0") (simp_all only: crc_bit_step_alt bit_xor_iff if_True if_False, simp_all)
  qed
  have low: "bit x 0 = bit y 0" using eq top by metis
  then have "drop_bit 1 x = drop_bit 1 y"
    using eq by (cases "bit x 0") (simp_all only: crc_bit_step_alt if_True if_False word_xor_cancel_right)
  then have "bit x (Suc n) = bit y (Suc n)" for n
    by (metis bit_drop_bit_eq comp_apply plus_1_eq_Suc)
  with low show "x = y" by (intro bit_eqI) (metis not0_implies_Suc)
qed

lemma crc_steps_inj: "(crc_bit_step ^^ n) x = (crc_bit_step ^^ n) y \<Longrightarrow> x = y"
  by (induction n) (auto dest: crc_bit_step_inj)

lemma crc_byte_inj_state: "crc_byte b s = crc_byte b t \<Longrightarrow> s = t"
  unfolding crc_byte_bitwise by (drule crc_steps_inj) simp

lemma crc_byte_inj_byte: "crc_byte a s = crc_byte b s \<Longrightarrow> a = b"
proof -
  assume "crc_byte a s = crc_byte b s"
  then have "ucast a = (ucast b :: u32)"
    unfolding crc_byte_bitwise by (drule_tac crc_steps_inj) simp
  moreover have "unat (ucast c :: u32) = unat c" for c :: u8
    using unsigned_less [of c, where ?'a = nat] by (simp add: unsigned_ucast_eq take_bit_nat_eq_self)
  ultimately show "a = b" by (metis word_unat_eq_iff)
qed

lemma crc_update_inj_state: "crc_update data s = crc_update data t \<Longrightarrow> s = t"
  by (induction data arbitrary: s t) (auto simp: crc_update_def dest: crc_byte_inj_state)

theorem crc32c_detects_one_byte:
  assumes "a \<noteq> b"
  shows "crc32c (xs @ a # ys) \<noteq> crc32c (xs @ b # ys)"
proof
  assume "crc32c (xs @ a # ys) = crc32c (xs @ b # ys)"
  then have "crc_update ys (crc_byte a (crc_update xs 0xFFFFFFFF)) =
      crc_update ys (crc_byte b (crc_update xs 0xFFFFFFFF))"
    by (simp only: crc32c_def word_xor_cancel_right crc_update_append) (simp add: crc_update_def)
  then have "crc_byte a (crc_update xs 0xFFFFFFFF) = crc_byte b (crc_update xs 0xFFFFFFFF)"
    by (rule crc_update_inj_state)
  then show False using assms by (blast dest: crc_byte_inj_byte)
qed

end
