(* ===== verification/Identity.thy ===== *)
theory Identity
  imports Quantity Checksum
begin

text \<open>
  Identities, generations, boot identities, provenance and the authority vector of
  \<open>identity.hpp\<close> and \<open>identity.cpp\<close>.  Every \<open>Id<Tag>\<close> and \<open>Generation<Tag>\<close> is a 64-bit word;
  the phantom tags keep C++ from mixing them and are type synonyms here.  The value 0 is
  reserved for an absent identity or a generation that was never established.
\<close>

type_synonym ident = u64
type_synonym generation = u64

definition valid_id :: "u64 \<Rightarrow> bool" where
  "valid_id v = (v \<noteq> 0)"

definition id_make :: "u64 \<Rightarrow> ident result" where
  "id_make v = (if v = 0 then fail EC_InvalidIdentity else Inr v)"

definition kMaxValue :: u64 where
  "kMaxValue = 0xFFFFFFFFFFFFFFFF"

definition gen_initial :: generation where
  "gen_initial = 1"

definition gen_make :: "u64 \<Rightarrow> generation result" where
  "gen_make v = (if v = 0 then fail EC_InvalidIdentity else Inr v)"

definition gen_next :: "generation \<Rightarrow> generation result" where
  "gen_next v =
    (if v = 0 then fail EC_InvalidIdentity
     else if v = kMaxValue then fail EC_OutOfRange
     else Inr (v + 1))"

definition next_fabric_epoch :: "ident \<Rightarrow> ident result" where
  "next_fabric_epoch current =
    (if \<not> valid_id current then fail EC_InvalidIdentity
     else if current = kMaxValue then fail EC_OutOfRange
     else Inr (current + 1))"

section \<open>Parsing\<close>

text \<open>A character of a \<open>string_view\<close> is a byte; the digits are 0x30 to 0x39.\<close>

fun decimal_loop :: "bytes \<Rightarrow> u64 \<Rightarrow> u64 result" where
  "decimal_loop [] value = Inr value"
| "decimal_loop (c # cs) value =
    (if c < 0x30 \<or> c > 0x39 then fail EC_InvalidIdentity
     else let digit = ucast (c - 0x30) :: u64 in
       if value > (0xFFFFFFFFFFFFFFFF - digit) div 10 then fail EC_OutOfRange
       else decimal_loop cs (value * 10 + digit))"

definition parse_u64_decimal :: "bytes \<Rightarrow> u64 result" where
  "parse_u64_decimal text =
    (if text = [] then fail EC_InvalidIdentity
     else if length text > 20 then fail EC_OutOfRange
     else decimal_loop text 0)"

definition id_parse :: "bytes \<Rightarrow> ident result" where
  "id_parse text = bindr (parse_u64_decimal text) id_make"

definition hex_value :: "u8 \<Rightarrow> nat option" where
  "hex_value c =
    (if c \<ge> 0x30 \<and> c \<le> 0x39 then Some (unat (c - 0x30))
     else if c \<ge> 0x61 \<and> c \<le> 0x66 then Some (unat (c - 0x61) + 10)
     else if c \<ge> 0x41 \<and> c \<le> 0x46 then Some (unat (c - 0x41) + 10)
     else None)"

fun hex_loop :: "bytes \<Rightarrow> u64 \<Rightarrow> u64 result" where
  "hex_loop [] value = Inr value"
| "hex_loop (c # cs) value =
    (case hex_value c of None \<Rightarrow> fail EC_InvalidIdentity
     | Some digit \<Rightarrow> hex_loop cs (or (push_bit 4 value) (of_nat digit)))"

definition parse_u64_hex :: "bytes \<Rightarrow> u64 result" where
  "parse_u64_hex text =
    (if text = [] \<or> length text > 16 then fail EC_InvalidIdentity else hex_loop text 0)"

section \<open>Boot identities\<close>

type_synonym boot_id = bytes

definition kBootSize :: nat where
  "kBootSize = 16"

definition boot_unset :: boot_id where
  "boot_unset = replicate 16 0"

definition boot_valid :: "boot_id \<Rightarrow> bool" where
  "boot_valid b = (\<exists>x \<in> set b. x \<noteq> 0)"

definition boot_from_bytes :: "bytes \<Rightarrow> boot_id result" where
  "boot_from_bytes bs = (if list_all (\<lambda>b. b = 0) bs then fail EC_InvalidIdentity else Inr bs)"

definition boot_hash :: "boot_id \<Rightarrow> u64" where
  "boot_hash b = fnv1a64 b"

definition boot_id_from_u64 :: "u64 \<Rightarrow> u64 \<Rightarrow> boot_id result" where
  "boot_id_from_u64 hi lo =
    (let bs = map (\<lambda>i. ucast (and (drop_bit (56 - i * 8) hi) 0xFF)) [0..<8] @
              map (\<lambda>i. ucast (and (drop_bit (56 - i * 8) lo) 0xFF)) [0..<8]
     in value_of (boot_from_bytes (bs[0 := or (bs ! 0) 0x01])))"

definition kHexDigits :: bytes where
  "kHexDigits = [0x30, 0x31, 0x32, 0x33, 0x34, 0x35, 0x36, 0x37, 0x38, 0x39,
                 0x61, 0x62, 0x63, 0x64, 0x65, 0x66]"

fun boot_parse_loop :: "bytes \<Rightarrow> bytes result" where
  "boot_parse_loop (h # l # cs) =
    (case hex_value h of None \<Rightarrow> fail EC_InvalidIdentity
     | Some high \<Rightarrow> case hex_value l of None \<Rightarrow> fail EC_InvalidIdentity
       | Some low \<Rightarrow> bindr (boot_parse_loop cs) (\<lambda>bs.
           Inr (or (push_bit 4 (of_nat high)) (of_nat low) # bs)))"
| "boot_parse_loop _ = Inr []"

definition boot_parse :: "bytes \<Rightarrow> boot_id result" where
  "boot_parse hex =
    (if length hex \<noteq> kBootSize * 2 then fail EC_InvalidIdentity
     else bindr (boot_parse_loop hex) boot_from_bytes)"

definition boot_to_string :: "boot_id \<Rightarrow> bytes" where
  "boot_to_string b =
    concat (map (\<lambda>x. [kHexDigits ! unat (and (drop_bit 4 x) 0x0F), kHexDigits ! unat (and x 0x0F)]) b)"

section \<open>Provenance and authority\<close>

datatype node_kind =
    NK_Unknown | NK_Operator | NK_CapacityPublisher | NK_Requester | NK_Coordinator | NK_Recovery

record provenance =
  pv_source_kind :: node_kind
  pv_source_id :: u64
  pv_source_boot :: boot_id
  pv_epoch :: ident
  pv_coordinator :: ident
  pv_source_sequence :: u64
  pv_recorded_at :: nat
  pv_detail :: bytes

definition provenance_valid :: "provenance \<Rightarrow> bool" where
  "provenance_valid p \<longleftrightarrow>
    pv_source_kind p \<noteq> NK_Unknown \<and> valid_id (pv_epoch p) \<and> boot_valid (pv_source_boot p)"

record authority_vector =
  av_fabric_epoch :: ident
  av_coordinator :: ident
  av_resource :: ident
  av_resource_generation :: generation
  av_capacity_generation :: generation
  av_policy :: ident
  av_policy_generation :: generation
  av_request :: ident
  av_request_generation :: generation
  av_reservation :: ident
  av_reservation_generation :: generation
  av_fairness_group :: ident
  av_fairness_config_generation :: generation
  av_tenant_config_generation :: generation
  av_publisher :: ident
  av_publisher_boot :: boot_id
  av_publisher_sequence :: u64
  av_monotonic_tick :: u64

definition same_binding :: "authority_vector \<Rightarrow> authority_vector \<Rightarrow> bool" where
  "same_binding a b \<longleftrightarrow>
    av_fabric_epoch a = av_fabric_epoch b \<and> av_coordinator a = av_coordinator b \<and>
    av_resource a = av_resource b \<and> av_resource_generation a = av_resource_generation b \<and>
    av_capacity_generation a = av_capacity_generation b \<and>
    av_policy a = av_policy b \<and> av_policy_generation a = av_policy_generation b \<and>
    av_request a = av_request b \<and> av_request_generation a = av_request_generation b \<and>
    av_reservation a = av_reservation b \<and>
    av_reservation_generation a = av_reservation_generation b \<and>
    av_fairness_group a = av_fairness_group b \<and>
    av_fairness_config_generation a = av_fairness_config_generation b \<and>
    av_tenant_config_generation a = av_tenant_config_generation b \<and>
    av_publisher a = av_publisher b \<and> av_publisher_boot a = av_publisher_boot b"

definition av_equal :: "authority_vector \<Rightarrow> authority_vector \<Rightarrow> bool" where
  "av_equal a b \<longleftrightarrow> same_binding a b \<and>
    av_publisher_sequence a = av_publisher_sequence b \<and> av_monotonic_tick a = av_monotonic_tick b"

definition default_authority :: authority_vector where
  "default_authority = \<lparr> av_fabric_epoch = 0, av_coordinator = 0, av_resource = 0,
     av_resource_generation = 0, av_capacity_generation = 0, av_policy = 0,
     av_policy_generation = 0, av_request = 0, av_request_generation = 0, av_reservation = 0,
     av_reservation_generation = 0, av_fairness_group = 0, av_fairness_config_generation = 0,
     av_tenant_config_generation = 0, av_publisher = 0, av_publisher_boot = boot_unset,
     av_publisher_sequence = 0, av_monotonic_tick = 0 \<rparr>"

definition default_provenance :: provenance where
  "default_provenance = \<lparr> pv_source_kind = NK_Unknown, pv_source_id = 0,
     pv_source_boot = boot_unset, pv_epoch = 0, pv_coordinator = 0, pv_source_sequence = 0,
     pv_recorded_at = 0, pv_detail = [] \<rparr>"

section \<open>Generations never wrap\<close>

lemma unat_kMaxValue: "unat kMaxValue = 2 ^ 64 - 1"
  by (simp add: kMaxValue_def)

lemma unat_succ64: "v \<noteq> kMaxValue \<Longrightarrow> unat (v + 1) = unat v + 1"
proof -
  assume "v \<noteq> kMaxValue"
  then have "unat v \<noteq> 2 ^ 64 - 1" by (metis unat_kMaxValue word_unat_eq_iff)
  then have "unat v + 1 < 2 ^ 64" using unat_lt64 [of v] by simp
  then show ?thesis using unat_add64 [of v 1] by simp
qed

lemma gen_next_Inr:
  "gen_next v = Inr w \<longleftrightarrow> v \<noteq> 0 \<and> v \<noteq> kMaxValue \<and> w = v + 1"
  by (auto simp: gen_next_def)

lemma gen_next_unat: "gen_next v = Inr w \<Longrightarrow> unat w = unat v + 1"
  by (auto simp: gen_next_Inr unat_succ64)

lemma gen_next_less: "gen_next v = Inr w \<Longrightarrow> v < w \<and> w \<noteq> 0"
  using gen_next_unat [of v w] by (auto simp: word_less_nat_alt)

lemma next_fabric_epoch_Inr:
  "next_fabric_epoch e = Inr e' \<longleftrightarrow> e \<noteq> 0 \<and> e \<noteq> kMaxValue \<and> e' = e + 1"
  by (auto simp: next_fabric_epoch_def valid_id_def)

lemma next_fabric_epoch_less: "next_fabric_epoch e = Inr e' \<Longrightarrow> e < e' \<and> valid_id e'"
  using unat_succ64 [of e] by (auto simp: next_fabric_epoch_Inr word_less_nat_alt valid_id_def)

section \<open>The authority binding ignores exactly the tick and the publisher sequence\<close>

lemma same_binding_iff:
  "same_binding a b \<longleftrightarrow>
    a\<lparr>av_publisher_sequence := 0, av_monotonic_tick := 0\<rparr> =
    b\<lparr>av_publisher_sequence := 0, av_monotonic_tick := 0\<rparr>"
  by (cases a; cases b) (auto simp: same_binding_def)

lemma av_equal_iff: "av_equal a b \<longleftrightarrow> a = b"
  by (cases a; cases b) (auto simp: av_equal_def same_binding_def)

lemma same_binding_refl [simp]: "same_binding a a"
  by (simp add: same_binding_def)

lemma same_binding_sym: "same_binding a b \<longleftrightarrow> same_binding b a"
  by (auto simp: same_binding_def)

section \<open>Boot identities print and parse\<close>

lemma boot_from_bytes_Inr [simp]: "boot_from_bytes bs = Inr b \<longleftrightarrow> b = bs \<and> boot_valid bs"
  by (auto simp: boot_from_bytes_def boot_valid_def list_all_iff)

lemma hex_digit_round: "n < 16 \<Longrightarrow> hex_value (kHexDigits ! n) = Some n"
proof -
  have "\<forall>n \<in> set [0..<16]. hex_value (kHexDigits ! n) = Some n" by code_simp
  then show "n < 16 \<Longrightarrow> ?thesis" by simp
qed

lemma nibbles_join: "or (push_bit 4 (of_nat (unat (and (drop_bit 4 x) 0x0F)))) (of_nat (unat (and x 0x0F))) = (x :: u8)"
proof -
  have m: "(0x0F :: u8) = mask 4" by (simp add: mask_eq_exp_minus_1)
  have "or (push_bit 4 (and (drop_bit 4 x) (mask 4))) (and x (mask 4)) = x"
    by (rule bit_eqI) (auto simp: bit_or_iff bit_push_bit_iff bit_and_iff bit_drop_bit_eq bit_mask_iff
        simp del: push_bit_and dest: bit_imp_le_length)
  then show ?thesis unfolding m by (simp del: push_bit_and)
qed

lemma nibble_bound: "unat (and x 0x0F :: u8) < 16"
proof -
  have "and x 0x0F \<le> (0x0F :: u8)" by (rule word_and_le1)
  then show ?thesis by (simp add: word_le_nat_alt)
qed

lemma boot_parse_loop_to_string: "boot_parse_loop (boot_to_string b) = Inr b"
  by (induction b)
    (simp_all add: boot_to_string_def hex_digit_round nibble_bound nibbles_join del: of_nat_unat push_bit_and)

lemma length_boot_to_string: "length (boot_to_string b) = 2 * length b"
  by (induction b) (simp_all add: boot_to_string_def)

theorem boot_round_trip:
  assumes "length b = kBootSize" and "boot_valid b"
  shows "boot_parse (boot_to_string b) = Inr b"
  using assms by (simp add: boot_parse_def length_boot_to_string boot_parse_loop_to_string)

text \<open>\<open>generate_boot_id\<close> and \<open>boot_id_from_u64\<close> force a marker bit, so they cannot fail.\<close>

lemma boot_id_from_u64_total: "\<exists>b. boot_id_from_u64 hi lo = Inr b \<and> boot_valid b \<and> length b = kBootSize"
proof -
  define bs :: bytes where "bs = map (\<lambda>i. ucast (and (drop_bit (56 - i * 8) hi) 0xFF)) [0..<8] @
    map (\<lambda>i. ucast (and (drop_bit (56 - i * 8) lo) 0xFF)) [0..<8]"
  have len: "length bs = 16" by (simp add: bs_def)
  have "bit (or (bs ! 0) 0x01) 0" by (simp add: bit_or_iff)
  then have "or (bs ! 0) 0x01 \<noteq> 0" by (metis bit_0_eq bot_apply bot_bool_def)
  moreover have "or (bs ! 0) 0x01 \<in> set (bs[0 := or (bs ! 0) 0x01])"
    using len by (intro set_update_memI) simp
  ultimately have "boot_valid (bs[0 := or (bs ! 0) 0x01])" by (auto simp: boot_valid_def)
  then show ?thesis using len
    by (simp add: boot_id_from_u64_def Let_def bs_def [symmetric] kBootSize_def)
qed

section \<open>Decimal identities\<close>

definition decimal_value :: "bytes \<Rightarrow> nat \<Rightarrow> nat" where
  "decimal_value cs v = fold (\<lambda>c a. a * 10 + unat (c - 0x30)) cs v"

lemma digit_bound: "\<not> (c < 0x30 \<or> c > 0x39) \<Longrightarrow> unat (c - 0x30 :: u8) \<le> 9"
  by unat_arith

lemma decimal_step_ok:
  assumes "digit \<le> 9" and "v \<le> (0xFFFFFFFFFFFFFFFF - of_nat digit :: u64) div 10"
  shows "unat (v * 10 + of_nat digit) = unat v * 10 + digit"
proof -
  have d: "unat (of_nat digit :: u64) = digit" using assms(1) by (intro unat_of_nat64) simp
  have "unat (0xFFFFFFFFFFFFFFFF - of_nat digit :: u64) = 2 ^ 64 - 1 - digit"
    using assms(1) d by (subst unat_sub) (simp_all add: word_le_nat_alt)
  then have "unat v \<le> (2 ^ 64 - 1 - digit) div 10"
    using assms(2) by (simp add: word_le_nat_alt unat_div)
  then have "unat v * 10 + digit < 2 ^ 64" using assms(1) by simp
  then show ?thesis using d
    by (subst unat_add64) (simp_all add: unat_mult64)
qed

theorem decimal_loop_value:
  "decimal_loop cs v = Inr w \<Longrightarrow>
    list_all (\<lambda>c. 0x30 \<le> c \<and> c \<le> 0x39) cs \<and> unat w = decimal_value cs (unat v)"
proof (induction cs arbitrary: v)
  case Nil
  then show ?case by (simp add: decimal_value_def)
next
  case (Cons c cs)
  define digit where "digit = unat (c - 0x30)"
  have range: "\<not> (c < 0x30 \<or> c > 0x39)" using Cons.prems by (auto split: if_splits)
  have u: "ucast (c - 0x30) = (of_nat digit :: u64)" by (simp add: digit_def)
  from Cons.prems range have g: "v \<le> (0xFFFFFFFFFFFFFFFF - of_nat digit) div 10"
    and rec: "decimal_loop cs (v * 10 + of_nat digit) = Inr w"
    by (auto simp: u Let_def not_less split: if_splits)
  have "unat (v * 10 + of_nat digit) = unat v * 10 + digit"
    using digit_bound [OF range] g unfolding digit_def by (rule decimal_step_ok)
  with Cons.IH [OF rec] range show ?case by (simp add: decimal_value_def digit_def not_less)
qed

end
