(* ===== verification/TextCheck.thy ===== *)
theory TextCheck
  imports Checksum
begin

text \<open>
  Text validation of \<open>text.hpp\<close> and \<open>text.cpp\<close>.  A \<open>string_view\<close> is its list of bytes; the index
  loop of \<open>is_valid_utf8\<close> is a recursion on the bytes from the current index on.
\<close>

unbundle bit_operations_syntax

definition is_continuation :: "u8 \<Rightarrow> bool" where
  "is_continuation b = (b AND 0xC0 = 0x80)"

text \<open>The lead byte: number of continuation bytes and the bits it contributes.\<close>

definition utf8_lead :: "u8 \<Rightarrow> (nat \<times> u32) option" where
  "utf8_lead b =
    (if b AND 0xE0 = 0xC0 then
       (let code_point = ucast (b AND 0x1F) :: u32
        in if code_point < 0x02 then None else Some (1, code_point))
     else if b AND 0xF0 = 0xE0 then Some (2, ucast (b AND 0x0F))
     else if b AND 0xF8 = 0xF0 then
       (let code_point = ucast (b AND 0x07) :: u32
        in if code_point > 0x04 then None else Some (3, code_point))
     else None)"

fun utf8_tail :: "bytes \<Rightarrow> u32 \<Rightarrow> u32 option" where
  "utf8_tail [] code_point = Some code_point"
| "utf8_tail (b # bs) code_point =
    (if \<not> is_continuation b then None
     else utf8_tail bs (push_bit 6 code_point OR ucast (b AND 0x3F)))"

function is_valid_utf8 :: "bytes \<Rightarrow> bool" where
  "is_valid_utf8 [] = True"
| "is_valid_utf8 (b # rest) =
    (if b < 0x80 then is_valid_utf8 rest
     else case utf8_lead b of None \<Rightarrow> False
     | Some (extra, lead) \<Rightarrow>
         if length rest < extra then False
         else case utf8_tail (take extra rest) lead of None \<Rightarrow> False
         | Some code_point \<Rightarrow>
             if extra = 2 \<and> code_point < 0x0800 then False
             else if extra = 3 \<and> code_point < 0x10000 then False
             else if code_point \<ge> 0xD800 \<and> code_point \<le> 0xDFFF then False
             else if code_point > 0x10FFFF then False
             else is_valid_utf8 (drop extra rest))"
  by pat_completeness auto
termination
  by (relation "measure length") auto

definition is_control_byte :: "u8 \<Rightarrow> bool" where
  "is_control_byte b = (b < 0x20 \<or> b = 0x7F \<or> (b \<ge> 0x80 \<and> b \<le> 0x9F))"

definition is_valid_text :: "bytes \<Rightarrow> bool" where
  "is_valid_text text = (is_valid_utf8 text \<and> list_all (\<lambda>b. \<not> is_control_byte b) text)"

definition is_valid_text_bounded :: "bytes \<Rightarrow> nat \<Rightarrow> bool" where
  "is_valid_text_bounded text max_bytes = (length text \<le> max_bytes \<and> is_valid_text text)"

definition validate_text :: "bytes \<Rightarrow> nat \<Rightarrow> status" where
  "validate_text text max_bytes =
    (if length text > max_bytes then fail EC_BoundsExceeded
     else if \<not> is_valid_utf8 text then fail EC_InvalidArgument
     else if list_ex is_control_byte text then fail EC_InvalidArgument
     else success)"

section \<open>The two entry points agree\<close>

lemma validate_text_success:
  "validate_text text n = success \<longleftrightarrow> is_valid_text_bounded text n"
  by (auto simp: validate_text_def is_valid_text_bounded_def is_valid_text_def list_all_iff list_ex_iff)

lemma utf8_ascii: "list_all (\<lambda>b. b < 0x80) cs \<Longrightarrow> is_valid_utf8 cs"
  by (induction cs) auto

lemma validate_text_Nil [simp]: "validate_text [] n = success"
  by (simp add: validate_text_def)

lemma validate_text_ascii:
  "length cs \<le> n \<Longrightarrow> list_all (\<lambda>b. 0x20 \<le> b \<and> b < 0x7F) cs \<Longrightarrow> validate_text cs n = success"
proof -
  assume len: "length cs \<le> n" and range: "list_all (\<lambda>b. 0x20 \<le> b \<and> b < 0x7F) cs"
  have "b < 0x80 \<and> \<not> is_control_byte b" if "0x20 \<le> b" "b < 0x7F" for b :: u8
    using that unfolding is_control_byte_def by unat_arith
  with range have "list_all (\<lambda>b. b < 0x80) cs" "list_all (\<lambda>b. \<not> is_control_byte b) cs"
    by (auto simp: list_all_iff)
  with len show ?thesis
    by (simp add: validate_text_success is_valid_text_bounded_def is_valid_text_def utf8_ascii)
qed

end
