(* ===== verification/Capacity.thy ===== *)
theory Capacity
  imports Identity TextCheck
begin

text \<open>
  The capacity model of \<open>capacity.hpp\<close> and \<open>capacity.cpp\<close>: targets, evidence and
  generation-bound snapshots.  \<open>CapacityTarget\<close> keys the coordinator's maps, so its
  \<open>operator<\<close> is its \<open>linorder\<close> instance.  The limits of \<open>limits.hpp\<close> that the components
  use are collected here as well.
\<close>

section \<open>Limits\<close>

definition kMaxNameBytes :: nat where "kMaxNameBytes = 64"
definition kMaxProvenanceDetailBytes :: nat where "kMaxProvenanceDetailBytes = 96"
definition kMaxPolicyLabels :: nat where "kMaxPolicyLabels = 16"
definition kMaxLabelKeyBytes :: nat where "kMaxLabelKeyBytes = 32"
definition kMaxLabelValueBytes :: nat where "kMaxLabelValueBytes = 64"
definition kMaxExplanationTextBytes :: nat where "kMaxExplanationTextBytes = 256"
definition kMaxPriorityClasses :: nat where "kMaxPriorityClasses = 64"
definition kMaxFairnessGroups :: nat where "kMaxFairnessGroups = 1024"
definition kMaxWeight :: u64 where "kMaxWeight = 1000000"
definition kMaxPermille :: u32 where "kMaxPermille = 1000"
definition kMaxAgingMultiplier :: u32 where "kMaxAgingMultiplier = 64"
definition kMaxAgingThresholdRounds :: u32 where "kMaxAgingThresholdRounds = 4096"
definition kMaxPromotions :: u32 where "kMaxPromotions = 8"
definition kMaxHysteresisRounds :: u32 where "kMaxHysteresisRounds = 4096"
definition kMaxRecallGraceRounds :: u32 where "kMaxRecallGraceRounds = 4096"
definition kMaxOversubscriptionNumerator :: u32 where "kMaxOversubscriptionNumerator = 16"
definition kMaxRequestsPerRound :: nat where "kMaxRequestsPerRound = 100000"
definition kMaxObligationsPerResource :: nat where "kMaxObligationsPerResource = 100000"
definition kMaxBootFenceRecords :: nat where "kMaxBootFenceRecords = 100000"

section \<open>Targets\<close>

datatype capacity_target = CapacityTarget
  (ct_resource: ident) (ct_resource_generation: generation)
  (ct_pool: ident) (ct_pool_generation: generation)

definition target_valid :: "capacity_target \<Rightarrow> bool" where
  "target_valid t =
    (if \<not> valid_id (ct_resource t) \<or> \<not> valid_id (ct_resource_generation t) then False
     else if valid_id (ct_pool t) \<noteq> valid_id (ct_pool_generation t) then False
     else True)"

definition target_validate :: "capacity_target \<Rightarrow> status" where
  "target_validate t =
    (if \<not> valid_id (ct_resource t) then fail EC_InvalidIdentity
     else if \<not> valid_id (ct_resource_generation t) then fail EC_InvalidIdentity
     else if valid_id (ct_pool t) \<and> \<not> valid_id (ct_pool_generation t) then fail EC_InvalidIdentity
     else if \<not> valid_id (ct_pool t) \<and> valid_id (ct_pool_generation t) then fail EC_InvalidIdentity
     else success)"

definition target_less :: "capacity_target \<Rightarrow> capacity_target \<Rightarrow> bool" where
  "target_less a b =
    (if ct_resource a \<noteq> ct_resource b then ct_resource a < ct_resource b
     else if ct_pool a \<noteq> ct_pool b then ct_pool a < ct_pool b
     else if ct_resource_generation a \<noteq> ct_resource_generation b
       then ct_resource_generation a < ct_resource_generation b
     else ct_pool_generation a < ct_pool_generation b)"

instantiation capacity_target :: linorder
begin

definition less_capacity_target :: "capacity_target \<Rightarrow> capacity_target \<Rightarrow> bool" where
  "less_capacity_target a b = target_less a b"

definition less_eq_capacity_target :: "capacity_target \<Rightarrow> capacity_target \<Rightarrow> bool" where
  "less_eq_capacity_target a b = (target_less a b \<or> a = b)"

instance
proof
  fix x y z :: capacity_target
  show "(x < y) = (x \<le> y \<and> \<not> y \<le> x)"
    by (cases x; cases y) (auto simp: less_capacity_target_def less_eq_capacity_target_def target_less_def)
  show "x \<le> x" by (simp add: less_eq_capacity_target_def)
  show "x \<le> y \<Longrightarrow> y \<le> z \<Longrightarrow> x \<le> z"
    by (cases x; cases y; cases z) (auto simp: less_eq_capacity_target_def target_less_def split: if_splits)
  show "x \<le> y \<Longrightarrow> y \<le> x \<Longrightarrow> x = y"
    by (cases x; cases y) (auto simp: less_eq_capacity_target_def target_less_def split: if_splits)
  show "x \<le> y \<or> y \<le> x"
    by (cases x; cases y) (auto simp: less_eq_capacity_target_def target_less_def)
qed

end

section \<open>Snapshots\<close>

datatype evidence_state = EV_Unknown | EV_Known | EV_Stale

record capacity_snapshot =
  cs_target :: capacity_target
  cs_snapshot :: ident
  cs_generation :: generation
  cs_evidence :: evidence_state
  cs_physical_configured :: "bandwidth option"
  cs_administratively_unavailable :: bandwidth
  cs_degraded_loss :: bandwidth
  cs_headroom_target :: bandwidth
  cs_reserved_committed :: bandwidth
  cs_provenance :: provenance
  cs_authority :: authority_vector
  cs_observed_at :: nat
  cs_publisher_sequence :: u64

definition is_usable :: "capacity_snapshot \<Rightarrow> bool" where
  "is_usable s = (cs_evidence s = EV_Known \<and> cs_physical_configured s \<noteq> None)"

definition snapshot_amounts_validate :: "capacity_snapshot \<Rightarrow> status" where
  "snapshot_amounts_validate s =
    (case cs_physical_configured s of
       None \<Rightarrow>
         if cs_administratively_unavailable s \<noteq> 0 \<or> cs_degraded_loss s \<noteq> 0 \<or>
            cs_headroom_target s \<noteq> 0 \<or> cs_reserved_committed s \<noteq> 0
         then fail EC_InvalidArgument else success
     | Some physical \<Rightarrow>
         if cs_administratively_unavailable s > physical then fail EC_InvalidArgument
         else bindr (checked_sub physical (cs_administratively_unavailable s)) (\<lambda>after_admin.
           if cs_degraded_loss s > after_admin then fail EC_InvalidArgument else success))"

definition snapshot_validate :: "capacity_snapshot \<Rightarrow> status" where
  "snapshot_validate s =
    bindr (target_validate (cs_target s)) (\<lambda>_.
    let authority = cs_authority s in
    if \<not> valid_id (cs_snapshot s) then fail EC_InvalidIdentity
    else if \<not> valid_id (cs_generation s) then fail EC_InvalidIdentity
    else if \<not> valid_id (av_fabric_epoch authority) then fail EC_InvalidIdentity
    else if \<not> valid_id (av_coordinator authority) then fail EC_InvalidIdentity
    else if \<not> valid_id (av_publisher authority) then fail EC_InvalidIdentity
    else if \<not> boot_valid (av_publisher_boot authority) then fail EC_InvalidIdentity
    else if av_resource authority \<noteq> ct_resource (cs_target s) then fail EC_InvalidArgument
    else if av_resource_generation authority \<noteq> ct_resource_generation (cs_target s)
      then fail EC_InvalidArgument
    else if av_capacity_generation authority \<noteq> cs_generation s then fail EC_InvalidArgument
    else if av_publisher_sequence authority \<noteq> cs_publisher_sequence s then fail EC_InvalidArgument
    else if cs_evidence s = EV_Known \<and> cs_physical_configured s = None then fail EC_InvalidArgument
    else bindr (snapshot_amounts_validate s) (\<lambda>_.
      validate_text (pv_detail (cs_provenance s)) kMaxProvenanceDetailBytes))"

definition effective_physical :: "capacity_snapshot \<Rightarrow> bandwidth result" where
  "effective_physical s =
    (if \<not> is_usable s then fail EC_CapacityUnknown
     else bindr (deref (cs_physical_configured s)) (\<lambda>physical.
       bindr (checked_sub physical (cs_administratively_unavailable s)) (\<lambda>after_admin.
         checked_sub after_admin (cs_degraded_loss s))))"

definition combine_headroom :: "bandwidth \<Rightarrow> bandwidth \<Rightarrow> bandwidth result" where
  "combine_headroom target permille_share = Inr (max_of target permille_share)"

lemma unat_ucast32 [simp]: "unat (ucast (x :: u32) :: u64) = unat x"
proof -
  have "unat x < 2 ^ 64" using unsigned_less [of x, where 'a = nat] by simp
  then show ?thesis by (simp add: unsigned_ucast_eq take_bit_nat_eq_self)
qed

section \<open>Validated snapshots have an effective capacity\<close>

lemma target_validate_iff: "target_validate t = success \<longleftrightarrow> target_valid t"
  by (auto simp: target_validate_def target_valid_def)

lemma snapshot_validate_amounts:
  assumes "snapshot_validate s = success" and "cs_physical_configured s = Some p"
  shows "cs_administratively_unavailable s + cs_degraded_loss s \<le> p"
  using assms by (auto simp: snapshot_validate_def snapshot_amounts_validate_def Let_def split: if_splits)

text \<open>
  The effective capacity of a validated usable snapshot is exactly the configured capacity
  less the two losses; the checked subtractions cannot fail.
\<close>

lemma effective_physical_validated:
  assumes "snapshot_validate s = success" and "is_usable s"
  obtains p where "cs_physical_configured s = Some p"
    and "effective_physical s = Inr (p - cs_administratively_unavailable s - cs_degraded_loss s)"
proof -
  from assms(2) obtain p where p: "cs_physical_configured s = Some p" by (auto simp: is_usable_def)
  with snapshot_validate_amounts [OF assms(1) p] assms(2) have
    "effective_physical s = Inr (p - cs_administratively_unavailable s - cs_degraded_loss s)"
    by (simp add: effective_physical_def checked_sub_def)
  with p show ?thesis by (rule that)
qed

lemma effective_physical_le:
  "effective_physical s = Inr e \<Longrightarrow> \<exists>p. cs_physical_configured s = Some p \<and> e \<le> p"
  by (auto simp: effective_physical_def split: if_splits)

text \<open>Evidence that is not current has no effective capacity.\<close>

lemma effective_physical_unusable:
  "\<not> is_usable s \<Longrightarrow> effective_physical s = fail EC_CapacityUnknown"
  by (simp add: effective_physical_def)

end
