(* ===== verification/Policy.thy ===== *)
theory Policy
  imports Capacity
begin

text \<open>
  Arbitration policy (\<open>policy.hpp\<close>, \<open>policy.cpp\<close>): the configuration records, the validation
  that every published policy passes, class and group lookup, the allocation quantum, and
  the starvation promotion of ranks and weights.  The lemmas collect what a validated policy
  gives the arbitrator and show that promotion never leaves the configured range.
\<close>

datatype scheduling_mode = StrictPriority | WeightedFairShare

record priority_class =
  pc_id :: ident
  pc_name :: bytes
  pc_rank :: u32
  pc_weight :: u64
  pc_emergency :: bool
  pc_preemptible :: bool
  pc_borrowing_eligible :: bool
  pc_allow_discretionary :: bool

record fairness_group_config =
  fg_id :: ident
  fg_tenant :: ident
  fg_name :: bytes
  fg_weight :: u64
  fg_maximum_cap :: bandwidth
  fg_maximum_cap_permille :: u32
  fg_borrowing_eligible :: bool
  fg_preemptible :: bool

record borrow_policy =
  bp_enabled :: bool
  bp_lend_obligations :: bool
  bp_max_lend_permille :: u32
  bp_max_borrow_permille :: u32
  bp_borrow_from_headroom :: bool

record starvation_policy =
  sp_enabled :: bool
  sp_aging_threshold_rounds :: u32
  sp_aging_weight_multiplier :: u32
  sp_maximum_promotions :: u32

record preemption_policy =
  pp_enabled :: bool
  pp_recall_discretionary :: bool
  pp_recall_grace_rounds :: u32

record oversubscription_policy =
  os_numerator :: u32
  os_denominator :: u32

definition oversubscription_enabled :: "oversubscription_policy \<Rightarrow> bool" where
  "oversubscription_enabled p = (os_numerator p > os_denominator p)"

record policy =
  po_id :: ident
  po_generation :: generation
  po_scheduling :: scheduling_mode
  po_priority_classes :: "priority_class list"
  po_fairness_groups :: "fairness_group_config list"
  po_headroom_target :: bandwidth
  po_headroom_permille :: u32
  po_emergency_reserve_permille :: u32
  po_borrow :: borrow_policy
  po_starvation :: starvation_policy
  po_preemption :: preemption_policy
  po_oversubscription :: oversubscription_policy
  po_minimum_allocation_quantum :: bandwidth
  po_hysteresis_rounds :: u32
  po_fairness_config_generation :: generation
  po_tenant_config_generation :: generation
  po_provenance :: provenance

section \<open>Validation\<close>

definition validate_weight :: "u64 \<Rightarrow> status" where
  "validate_weight weight =
    (if weight = 0 then fail EC_PolicyInvalid
     else if weight > kMaxWeight then fail EC_PolicyInvalid
     else success)"

text \<open>
  The loop over the classes; its state is the pair of sets \<open>class_ids\<close> and \<open>ranks\<close>, and
  \<open>insert(...).second\<close> is false exactly when the element is already present.
\<close>

definition validate_class ::
  "priority_class \<Rightarrow> ident list \<times> u32 list \<Rightarrow> (ident list \<times> u32 list) result" where
  "validate_class c s =
    (case s of (class_ids, ranks) \<Rightarrow>
      if \<not> valid_id (pc_id c) then fail EC_InvalidIdentity
      else if pc_id c \<in> set class_ids then fail EC_PolicyInvalid
      else if pc_rank c \<in> set ranks then fail EC_PolicyInvalid
      else if pc_rank c > 10000 then fail EC_PolicyInvalid
      else bindr (validate_weight (pc_weight c)) (\<lambda>_.
        bindr (validate_text (pc_name c) kMaxNameBytes) (\<lambda>_.
          if pc_name c = [] then fail EC_PolicyInvalid
          else Inr (pc_id c # class_ids, pc_rank c # ranks))))"

definition validate_group :: "fairness_group_config \<Rightarrow> ident list \<Rightarrow> ident list result" where
  "validate_group g group_ids =
    (if \<not> valid_id (fg_id g) then fail EC_InvalidIdentity
     else if fg_id g \<in> set group_ids then fail EC_PolicyInvalid
     else if \<not> valid_id (fg_tenant g) then fail EC_InvalidIdentity
     else bindr (validate_weight (fg_weight g)) (\<lambda>_.
       if fg_maximum_cap_permille g > kMaxPermille then fail EC_PolicyInvalid
       else bindr (validate_text (fg_name g) kMaxNameBytes) (\<lambda>_.
         if fg_name g = [] then fail EC_PolicyInvalid
         else Inr (fg_id g # group_ids))))"

definition validate_shares :: "policy \<Rightarrow> status" where
  "validate_shares p =
    (if po_headroom_permille p > kMaxPermille then fail EC_PolicyInvalid
     else if po_emergency_reserve_permille p > kMaxPermille then fail EC_PolicyInvalid
     else if po_headroom_permille p + po_emergency_reserve_permille p > kMaxPermille
       then fail EC_PolicyInvalid
     else success)"

definition validate_borrow :: "policy \<Rightarrow> status" where
  "validate_borrow p =
    (let b = po_borrow p in
     if bp_max_lend_permille b > kMaxPermille then fail EC_PolicyInvalid
     else if bp_max_borrow_permille b > kMaxPermille then fail EC_PolicyInvalid
     else if \<not> bp_enabled b then
       (if bp_lend_obligations b \<or> bp_max_lend_permille b \<noteq> 0 \<or> bp_max_borrow_permille b \<noteq> 0
        then fail EC_PolicyInvalid else success)
     else
       (if bp_max_borrow_permille b = 0 then fail EC_PolicyInvalid
        else if bp_lend_obligations b \<and> bp_max_lend_permille b = 0 then fail EC_PolicyInvalid
        else if \<not> bp_lend_obligations b \<and> bp_max_lend_permille b \<noteq> 0 then fail EC_PolicyInvalid
        else bindr (all_ok (\<lambda>g. if fg_borrowing_eligible g \<and> \<not> fg_preemptible g
                                then fail EC_PolicyInvalid else success) (po_fairness_groups p)) (\<lambda>_.
          all_ok (\<lambda>c. if pc_borrowing_eligible c \<and> \<not> pc_preemptible c
                      then fail EC_PolicyInvalid else success) (po_priority_classes p))))"

definition validate_starvation :: "policy \<Rightarrow> status" where
  "validate_starvation p =
    (let s = po_starvation p in
     if sp_aging_threshold_rounds s = 0 then fail EC_PolicyInvalid
     else if sp_aging_threshold_rounds s > kMaxAgingThresholdRounds then fail EC_PolicyInvalid
     else if sp_aging_weight_multiplier s = 0 \<or> sp_aging_weight_multiplier s > kMaxAgingMultiplier
       then fail EC_PolicyInvalid
     else if sp_maximum_promotions s > kMaxPromotions then fail EC_PolicyInvalid
     else success)"

definition validate_preemption :: "policy \<Rightarrow> status" where
  "validate_preemption p =
    (let pr = po_preemption p in
     if pp_recall_grace_rounds pr > kMaxRecallGraceRounds then fail EC_PolicyInvalid
     else if \<not> pp_enabled pr \<and> pp_recall_discretionary pr then fail EC_PolicyInvalid
     else success)"

definition validate_oversubscription :: "policy \<Rightarrow> status" where
  "validate_oversubscription p =
    (let ov = po_oversubscription p in
     if os_denominator ov = 0 then fail EC_PolicyInvalid
     else if os_numerator ov < os_denominator ov then fail EC_PolicyInvalid
     else if (ucast (os_numerator ov) :: u64)
               > ucast (os_denominator ov) * ucast kMaxOversubscriptionNumerator
       then fail EC_PolicyInvalid
     else success)"

definition validate_quantum :: "policy \<Rightarrow> status" where
  "validate_quantum p =
    (if po_minimum_allocation_quantum p > 0 then
       bindr (from_bits_per_second (int (kMaxBitsPerSecond div 2))) (\<lambda>quantum_limit.
         if po_minimum_allocation_quantum p > quantum_limit then fail EC_PolicyInvalid else success)
     else success)"

definition policy_validate :: "policy \<Rightarrow> status" where
  "policy_validate p =
    (if \<not> valid_id (po_id p) then fail EC_InvalidIdentity
     else if \<not> valid_id (po_generation p) then fail EC_InvalidIdentity
     else if \<not> valid_id (po_fairness_config_generation p) then fail EC_InvalidIdentity
     else if \<not> valid_id (po_tenant_config_generation p) then fail EC_InvalidIdentity
     else if po_priority_classes p = [] then fail EC_PolicyInvalid
     else if length (po_priority_classes p) > kMaxPriorityClasses then fail EC_PolicyInvalid
     else if length (po_fairness_groups p) > kMaxFairnessGroups then fail EC_PolicyInvalid
     else bindr (fold_res validate_class (po_priority_classes p) ([], [])) (\<lambda>_.
       bindr (fold_res validate_group (po_fairness_groups p) []) (\<lambda>_.
       bindr (validate_shares p) (\<lambda>_.
       bindr (validate_borrow p) (\<lambda>_.
       bindr (validate_starvation p) (\<lambda>_.
       bindr (validate_preemption p) (\<lambda>_.
       bindr (validate_oversubscription p) (\<lambda>_.
       bindr (if po_hysteresis_rounds p > kMaxHysteresisRounds then fail EC_PolicyInvalid
              else success) (\<lambda>_.
       bindr (validate_quantum p) (\<lambda>_.
         validate_text (pv_detail (po_provenance p)) kMaxProvenanceDetailBytes))))))))))"

section \<open>Queries\<close>

definition find_class :: "policy \<Rightarrow> ident \<Rightarrow> priority_class option" where
  "find_class p i = find (\<lambda>c. pc_id c = i) (po_priority_classes p)"

definition find_group :: "policy \<Rightarrow> ident \<Rightarrow> fairness_group_config option" where
  "find_group p i = find (\<lambda>g. fg_id g = i) (po_fairness_groups p)"

definition quantum :: "policy \<Rightarrow> bandwidth result" where
  "quantum p =
    (if is_positive (po_minimum_allocation_quantum p) then Inr (po_minimum_allocation_quantum p)
     else from_bits_per_second 1)"

definition strongest_rank :: "policy \<Rightarrow> u32" where
  "strongest_rank p =
    fold (\<lambda>c best. if pc_rank c > best then pc_rank c else best) (po_priority_classes p) 0"

definition weakest_rank :: "policy \<Rightarrow> u32" where
  "weakest_rank p =
    fst (fold (\<lambda>c (worst, first). if first \<or> pc_rank c < worst then (pc_rank c, False)
                                  else (worst, first)) (po_priority_classes p) (0, True))"

definition promotion_applies :: "policy \<Rightarrow> u64 \<Rightarrow> bool" where
  "promotion_applies p wait_rounds \<longleftrightarrow>
    sp_enabled (po_starvation p) \<and>
    wait_rounds \<ge> ucast (sp_aging_threshold_rounds (po_starvation p)) \<and>
    sp_maximum_promotions (po_starvation p) > 0"

definition effective_rank :: "policy \<Rightarrow> ident \<Rightarrow> u64 \<Rightarrow> u32 result" where
  "effective_rank p class_id wait_rounds =
    (case find_class p class_id of
       None \<Rightarrow> fail EC_PolicyInvalid
     | Some c \<Rightarrow>
         if promotion_applies p wait_rounds then
           (let rank = pc_rank c + sp_maximum_promotions (po_starvation p)
            in if rank > strongest_rank p then Inr (strongest_rank p) else Inr rank)
         else Inr (pc_rank c))"

definition effective_class_weight :: "policy \<Rightarrow> ident \<Rightarrow> u64 \<Rightarrow> u64 result" where
  "effective_class_weight p class_id wait_rounds =
    (case find_class p class_id of
       None \<Rightarrow> fail EC_PolicyInvalid
     | Some c \<Rightarrow>
         if promotion_applies p wait_rounds then
           (let multiplier = ucast (sp_aging_weight_multiplier (po_starvation p)) :: u64
            in if pc_weight c > kMaxWeight div multiplier then Inr kMaxWeight
               else Inr (pc_weight c * multiplier))
         else Inr (pc_weight c))"

section \<open>Content hash and equality\<close>

definition scheduling_code :: "scheduling_mode \<Rightarrow> u8" where
  "scheduling_code m = (case m of StrictPriority \<Rightarrow> 0 | WeightedFairShare \<Rightarrow> 1)"

definition hash_class :: "priority_class \<Rightarrow> u64 \<Rightarrow> u64" where
  "hash_class c h =
    hash_text (pc_name c) (hash_bool (pc_allow_discretionary c) (hash_bool (pc_borrowing_eligible c)
      (hash_bool (pc_preemptible c) (hash_bool (pc_emergency c) (hash_u64 (pc_weight c)
      (hash_u64 (ucast (pc_rank c)) (hash_u64 (pc_id c) h)))))))"

definition hash_group :: "fairness_group_config \<Rightarrow> u64 \<Rightarrow> u64" where
  "hash_group g h =
    hash_text (fg_name g) (hash_bool (fg_preemptible g) (hash_bool (fg_borrowing_eligible g)
      (hash_u32 (fg_maximum_cap_permille g) (hash_u64 (of_nat (fg_maximum_cap g))
      (hash_u64 (fg_weight g) (hash_u64 (fg_tenant g) (hash_u64 (fg_id g) h)))))))"

definition policy_content_hash :: "policy \<Rightarrow> u64" where
  "policy_content_hash p =
    (let b = po_borrow p; s = po_starvation p; pr = po_preemption p; ov = po_oversubscription p in
     fold (\<lambda>f h. f h)
      [hash_u64 (po_id p), hash_u64 (po_generation p), hash_u8 (scheduling_code (po_scheduling p)),
       hash_u64 (of_nat (length (po_priority_classes p))),
       fold hash_class (po_priority_classes p),
       hash_u64 (of_nat (length (po_fairness_groups p))),
       fold hash_group (po_fairness_groups p),
       hash_u64 (of_nat (po_headroom_target p)), hash_u32 (po_headroom_permille p),
       hash_u32 (po_emergency_reserve_permille p),
       hash_bool (bp_enabled b), hash_bool (bp_lend_obligations b),
       hash_u32 (bp_max_lend_permille b), hash_u32 (bp_max_borrow_permille b),
       hash_bool (bp_borrow_from_headroom b),
       hash_bool (sp_enabled s), hash_u32 (sp_aging_threshold_rounds s),
       hash_u32 (sp_aging_weight_multiplier s), hash_u32 (sp_maximum_promotions s),
       hash_bool (pp_enabled pr), hash_bool (pp_recall_discretionary pr),
       hash_u32 (pp_recall_grace_rounds pr),
       hash_u32 (os_numerator ov), hash_u32 (os_denominator ov),
       hash_u64 (of_nat (po_minimum_allocation_quantum p)), hash_u32 (po_hysteresis_rounds p),
       hash_u64 (po_fairness_config_generation p), hash_u64 (po_tenant_config_generation p)]
      kFnvOffsetBasis)"

definition policy_equal :: "policy \<Rightarrow> policy \<Rightarrow> bool" where
  "policy_equal a b \<longleftrightarrow>
    po_id a = po_id b \<and> po_generation a = po_generation b \<and> po_scheduling a = po_scheduling b \<and>
    po_priority_classes a = po_priority_classes b \<and> po_fairness_groups a = po_fairness_groups b \<and>
    po_headroom_target a = po_headroom_target b \<and> po_headroom_permille a = po_headroom_permille b \<and>
    po_emergency_reserve_permille a = po_emergency_reserve_permille b \<and> po_borrow a = po_borrow b \<and>
    po_starvation a = po_starvation b \<and> po_preemption a = po_preemption b \<and>
    po_oversubscription a = po_oversubscription b \<and>
    po_minimum_allocation_quantum a = po_minimum_allocation_quantum b \<and>
    po_hysteresis_rounds a = po_hysteresis_rounds b \<and>
    po_fairness_config_generation a = po_fairness_config_generation b \<and>
    po_tenant_config_generation a = po_tenant_config_generation b"

section \<open>What a validated policy provides\<close>

lemma find_class_member: "find_class p i = Some c \<Longrightarrow> c \<in> set (po_priority_classes p) \<and> pc_id c = i"
  by (auto simp: find_class_def find_Some_iff)

lemma find_group_member: "find_group p i = Some g \<Longrightarrow> g \<in> set (po_fairness_groups p) \<and> fg_id g = i"
  by (auto simp: find_group_def find_Some_iff)

lemma validate_weight_iff: "validate_weight w = success \<longleftrightarrow> w \<noteq> 0 \<and> w \<le> kMaxWeight"
  by (auto simp: validate_weight_def)

lemma validate_class_Inr:
  "validate_class c (ids, ranks) = Inr s' \<longleftrightarrow>
    s' = (pc_id c # ids, pc_rank c # ranks) \<and> valid_id (pc_id c) \<and> pc_id c \<notin> set ids \<and>
    pc_rank c \<notin> set ranks \<and> pc_rank c \<le> 10000 \<and> pc_weight c \<noteq> 0 \<and> pc_weight c \<le> kMaxWeight \<and>
    validate_text (pc_name c) kMaxNameBytes = success \<and> pc_name c \<noteq> []"
  by (auto simp: validate_class_def validate_weight_iff)

lemma validate_classes:
  "fold_res validate_class cs (ids, ranks) = Inr s' \<Longrightarrow> distinct ids \<Longrightarrow> distinct ranks \<Longrightarrow>
    distinct (map pc_id cs) \<and> set (map pc_id cs) \<inter> set ids = {} \<and>
    distinct (map pc_rank cs) \<and> set (map pc_rank cs) \<inter> set ranks = {} \<and>
    (\<forall>c \<in> set cs. valid_id (pc_id c) \<and> pc_rank c \<le> 10000 \<and> pc_weight c \<noteq> 0 \<and> pc_weight c \<le> kMaxWeight)"
  by (induction cs arbitrary: ids ranks) (fastforce simp: validate_class_Inr)+

lemma validate_group_Inr:
  "validate_group g ids = Inr s' \<longleftrightarrow>
    s' = fg_id g # ids \<and> valid_id (fg_id g) \<and> fg_id g \<notin> set ids \<and> valid_id (fg_tenant g) \<and>
    fg_weight g \<noteq> 0 \<and> fg_weight g \<le> kMaxWeight \<and> fg_maximum_cap_permille g \<le> kMaxPermille \<and>
    validate_text (fg_name g) kMaxNameBytes = success \<and> fg_name g \<noteq> []"
  by (auto simp: validate_group_def validate_weight_iff)

lemma validate_groups:
  "fold_res validate_group gs ids = Inr s' \<Longrightarrow> distinct ids \<Longrightarrow>
    distinct (map fg_id gs) \<and> set (map fg_id gs) \<inter> set ids = {} \<and>
    (\<forall>g \<in> set gs. valid_id (fg_id g) \<and> fg_weight g \<noteq> 0 \<and> fg_weight g \<le> kMaxWeight \<and>
       fg_maximum_cap_permille g \<le> kMaxPermille)"
  by (induction gs arbitrary: ids) (fastforce simp: validate_group_Inr)+

text \<open>The facts of a successful validation, one per check that later components rely on.\<close>

lemma policy_validate_steps:
  assumes "policy_validate p = success"
  shows "valid_id (po_id p)" "valid_id (po_generation p)"
    and "valid_id (po_fairness_config_generation p)" "valid_id (po_tenant_config_generation p)"
    and "po_priority_classes p \<noteq> []"
    and "\<exists>s. fold_res validate_class (po_priority_classes p) ([], []) = Inr s"
    and "\<exists>s. fold_res validate_group (po_fairness_groups p) [] = Inr s"
    and "validate_shares p = success" "validate_borrow p = success"
    and "validate_starvation p = success" "validate_preemption p = success"
    and "validate_oversubscription p = success" "validate_quantum p = success"
  using assms by (auto simp: policy_validate_def split: if_splits)

lemma policy_classes:
  assumes "policy_validate p = success"
  shows "distinct (map pc_id (po_priority_classes p))"
    and "distinct (map pc_rank (po_priority_classes p))"
    and "c \<in> set (po_priority_classes p) \<Longrightarrow>
           valid_id (pc_id c) \<and> pc_rank c \<le> 10000 \<and> pc_weight c \<noteq> 0 \<and> pc_weight c \<le> kMaxWeight"
  using policy_validate_steps(6) [OF assms] validate_classes [where ids = "[]" and ranks = "[]"]
  by auto

lemma policy_groups:
  assumes "policy_validate p = success"
  shows "distinct (map fg_id (po_fairness_groups p))"
    and "g \<in> set (po_fairness_groups p) \<Longrightarrow>
           fg_weight g \<noteq> 0 \<and> fg_weight g \<le> kMaxWeight \<and> fg_maximum_cap_permille g \<le> kMaxPermille"
  using policy_validate_steps(7) [OF assms] validate_groups [where ids = "[]"]
  by auto

lemma policy_shares:
  assumes "policy_validate p = success"
  shows "unat (po_headroom_permille p) + unat (po_emergency_reserve_permille p) \<le> 1000"
proof -
  have h: "po_headroom_permille p \<le> 1000" and e: "po_emergency_reserve_permille p \<le> 1000"
    and s: "po_headroom_permille p + po_emergency_reserve_permille p \<le> 1000"
    using policy_validate_steps(8) [OF assms]
    by (auto simp: validate_shares_def kMaxPermille_def split: if_splits)
  from h have h': "unat (po_headroom_permille p) \<le> 1000" by (simp add: word_le_nat_alt)
  from e have e': "unat (po_emergency_reserve_permille p) \<le> 1000" by (simp add: word_le_nat_alt)
  have "unat (po_headroom_permille p + po_emergency_reserve_permille p)
      = unat (po_headroom_permille p) + unat (po_emergency_reserve_permille p)"
    using h' e' by (subst unat_word_ariths) simp
  with s show ?thesis by (simp add: word_le_nat_alt)
qed

text \<open>A group that may borrow under a policy with borrowing enabled is preemptible.\<close>

lemma policy_borrowers_preemptible:
  assumes "policy_validate p = success" and "bp_enabled (po_borrow p)"
    and "g \<in> set (po_fairness_groups p)" and "fg_borrowing_eligible g"
  shows "fg_preemptible g"
  using policy_validate_steps(9) [OF assms(1)] assms(2-)
  by (auto simp: validate_borrow_def Let_def split: if_splits)

lemma quantum_positive: "quantum p = Inr q \<Longrightarrow> 0 < q"
  by (auto simp: quantum_def from_bits_per_second_def kMaxBitsPerSecond_def split: if_splits)

lemma quantum_total: "\<exists>q. quantum p = Inr q"
  by (auto simp: quantum_def from_bits_per_second_def kMaxBitsPerSecond_def)

section \<open>Ranks and starvation promotion\<close>

lemma strongest_rank_fold:
  "fold (\<lambda>c best. if pc_rank c > best then pc_rank c else best) cs b = Max (insert b (pc_rank ` set cs))"
proof (induction cs arbitrary: b)
  case (Cons c cs)
  have "Max (insert b (pc_rank ` set (c # cs))) = Max (insert (max b (pc_rank c)) (pc_rank ` set cs))"
    by (cases "set cs = {}") (auto simp: max.assoc max.commute)
  then show ?case by (simp add: Cons.IH max_def not_less)
qed simp

lemma strongest_rank_upper:
  "c \<in> set (po_priority_classes p) \<Longrightarrow> pc_rank c \<le> strongest_rank p"
  by (simp add: strongest_rank_def strongest_rank_fold)

lemma unat_add32: "unat (x + y :: u32) = (unat x + unat y) mod 2 ^ 32"
  by (simp add: unat_word_ariths)

text \<open>
  Promotion of a starved request strengthens its rank, and never beyond the strongest rank the
  policy configures.
\<close>

lemma effective_rank_range:
  assumes valid: "policy_validate p = success"
    and cls: "find_class p i = Some c" and eff: "effective_rank p i w = Inr r"
  shows "pc_rank c \<le> r" and "r \<le> strongest_rank p"
proof -
  let ?m = "sp_maximum_promotions (po_starvation p)"
  from cls have mem: "c \<in> set (po_priority_classes p)" by (auto dest: find_class_member)
  have r: "pc_rank c \<le> 10000" using policy_classes(3) [OF valid mem] by simp
  have m: "?m \<le> 8" using policy_validate_steps(10) [OF valid]
    by (auto simp: validate_starvation_def Let_def kMaxPromotions_def split: if_splits)
  have "unat (pc_rank c + ?m) = unat (pc_rank c) + unat ?m"
    using r m by (subst unat_add32) (simp add: word_le_nat_alt)
  then have up: "pc_rank c \<le> pc_rank c + ?m" by (simp add: word_le_nat_alt)
  show "pc_rank c \<le> r" "r \<le> strongest_rank p"
    using eff cls up strongest_rank_upper [OF mem]
    by (auto simp: effective_rank_def Let_def not_less split: if_splits)
qed

lemma effective_rank_total: "find_class p i = Some c \<Longrightarrow> \<exists>r. effective_rank p i w = Inr r"
  by (auto simp: effective_rank_def Let_def)

text \<open>The promoted weight stays a legal weight, and aging never lowers it.\<close>

lemma effective_class_weight_range:
  assumes valid: "policy_validate p = success"
    and cls: "find_class p i = Some c" and eff: "effective_class_weight p i w = Inr x"
  shows "pc_weight c \<le> x" and "x \<le> kMaxWeight" and "x \<noteq> 0"
proof -
  let ?m = "ucast (sp_aging_weight_multiplier (po_starvation p)) :: u64"
  from cls have mem: "c \<in> set (po_priority_classes p)" by (auto dest: find_class_member)
  have c: "pc_weight c \<le> kMaxWeight" "pc_weight c \<noteq> 0" using policy_classes(3) [OF valid mem] by simp_all
  have "sp_aging_weight_multiplier (po_starvation p) \<noteq> 0" using policy_validate_steps(10) [OF valid]
    by (auto simp: validate_starvation_def Let_def split: if_splits)
  then have m: "0 < unat ?m" by (simp add: unat_gt_0)
  have prod: "pc_weight c \<le> pc_weight c * ?m \<and> pc_weight c * ?m \<le> kMaxWeight"
    if "pc_weight c \<le> kMaxWeight div ?m"
  proof -
    have "unat (pc_weight c) \<le> 1000000 div unat ?m"
      using that by (simp add: word_le_nat_alt unat_div kMaxWeight_def)
    then have le: "unat (pc_weight c) * unat ?m \<le> 1000000"
      by (metis div_times_less_eq_dividend le_trans mult_le_mono1)
    then have "unat (pc_weight c * ?m) = unat (pc_weight c) * unat ?m"
      by (simp add: unat_mult64)
    with le m show ?thesis by (simp add: word_le_nat_alt kMaxWeight_def)
  qed
  have range: "pc_weight c \<le> x \<and> x \<le> kMaxWeight"
    using eff cls c prod by (auto simp: effective_class_weight_def Let_def not_less split: if_splits)
  then show "pc_weight c \<le> x" "x \<le> kMaxWeight" by simp_all
  from range c show "x \<noteq> 0" by auto
qed

end
