(* ===== verification/Obligation.thy ===== *)
theory Obligation
  imports Policy
begin

text \<open>
  Hard obligations (\<open>obligation.hpp\<close>, \<open>obligation.cpp\<close>): committed capacity imported from the
  reservation system, validated, ordered canonically, and lendable up to a declared share.
\<close>

record obligation =
  ob_reservation :: ident
  ob_generation :: generation
  ob_target :: capacity_target
  ob_amount :: bandwidth
  ob_lendable :: bool
  ob_max_lend_permille :: u32
  ob_provenance :: provenance

definition obligation_validate :: "obligation \<Rightarrow> status" where
  "obligation_validate ob =
    (if \<not> valid_id (ob_reservation ob) then fail EC_InvalidIdentity
     else if \<not> valid_id (ob_generation ob) then fail EC_InvalidIdentity
     else bindr (target_validate (ob_target ob)) (\<lambda>_.
       if \<not> is_positive (ob_amount ob) then fail EC_InvalidArgument
       else if ob_max_lend_permille ob > kMaxPermille then fail EC_OutOfRange
       else if \<not> ob_lendable ob \<and> ob_max_lend_permille ob \<noteq> 0 then fail EC_InvalidArgument
       else if ob_lendable ob \<and> ob_max_lend_permille ob = 0 then fail EC_InvalidArgument
       else validate_text (pv_detail (ob_provenance ob)) kMaxProvenanceDetailBytes))"

definition lendable_ceiling :: "obligation \<Rightarrow> bandwidth result" where
  "lendable_ceiling ob =
    (if \<not> ob_lendable ob then Inr 0
     else scaled (ob_amount ob) (ucast (ob_max_lend_permille ob)) (ucast kMaxPermille))"

definition obligation_less :: "obligation \<Rightarrow> obligation \<Rightarrow> bool" where
  "obligation_less a b =
    (if ob_reservation a \<noteq> ob_reservation b then ob_reservation a < ob_reservation b
     else if ob_generation a \<noteq> ob_generation b then ob_generation a < ob_generation b
     else ob_target a < ob_target b)"

definition obligation_equal :: "obligation \<Rightarrow> obligation \<Rightarrow> bool" where
  "obligation_equal a b \<longleftrightarrow>
    ob_reservation a = ob_reservation b \<and> ob_generation a = ob_generation b \<and>
    ob_target a = ob_target b \<and> ob_amount a = ob_amount b \<and> ob_lendable a = ob_lendable b \<and>
    ob_max_lend_permille a = ob_max_lend_permille b"

section \<open>Laws\<close>

lemma obligation_validate_positive: "obligation_validate ob = success \<Longrightarrow> 0 < ob_amount ob"
  by (auto simp: obligation_validate_def split: if_splits)

text \<open>An obligation never lends more than it commits.\<close>

lemma lendable_ceiling_le:
  assumes "obligation_validate ob = success" and "bw_ok (ob_amount ob)"
    and "lendable_ceiling ob = Inr c"
  shows "c \<le> ob_amount ob"
proof (cases "ob_lendable ob")
  case True
  have "ob_max_lend_permille ob \<le> kMaxPermille"
    using assms(1) by (auto simp: obligation_validate_def split: if_splits)
  then have "unat (ucast (ob_max_lend_permille ob) :: u64) \<le> unat (ucast kMaxPermille :: u64)"
    by (simp add: word_le_nat_alt)
  with True assms(2,3) show ?thesis by (auto simp: lendable_ceiling_def intro: scaled_le)
qed (use assms(3) in \<open>simp add: lendable_ceiling_def\<close>)

lemma obligation_less_irrefl: "\<not> obligation_less a a"
  by (simp add: obligation_less_def)

lemma obligation_less_trans: "obligation_less a b \<Longrightarrow> obligation_less b c \<Longrightarrow> obligation_less a c"
  by (auto simp: obligation_less_def split: if_splits)

end
