(* ===== verification/Request.thy ===== *)
theory Request
  imports Obligation
begin

text \<open>
  Bandwidth requests (\<open>request.hpp\<close>, \<open>request.cpp\<close>): the requester's claim, its derived
  guarantee class and recall tolerance, the validation of the request and of its authority
  vector, and the canonical content hash that tells a resubmission from a conflict.
  A \<open>std::string\<close> key is a byte list; \<open>operator<\<close> on keys is the lexicographic order of
  unsigned bytes.
\<close>

datatype guarantee_class = GC_Unspecified | GC_Guaranteed | GC_BestEffort

datatype recall_tolerance = RT_Unspecified | RT_Immediate | RT_GracePeriod | RT_NoRecall

record policy_label =
  pl_key :: bytes
  pl_value :: bytes

record reservation_binding =
  rb_reservation :: ident
  rb_generation :: generation

record request_window =
  rw_start_tick :: u64
  rw_end_tick :: "u64 option"

record bandwidth_request =
  rq_id :: ident
  rq_generation :: generation
  rq_authority :: authority_vector
  rq_target :: capacity_target
  rq_minimum :: bandwidth
  rq_desired :: bandwidth
  rq_maximum :: bandwidth
  rq_guarantee_class :: guarantee_class
  rq_priority :: ident
  rq_tenant :: ident
  rq_fairness_group :: ident
  rq_borrowing_eligible :: bool
  rq_preemptible :: bool
  rq_recall_tolerance :: recall_tolerance
  rq_reservation :: "reservation_binding option"
  rq_window :: "request_window option"
  rq_latency_slo :: ident
  rq_labels :: "policy_label list"
  rq_provenance :: provenance

definition rb_valid :: "reservation_binding \<Rightarrow> bool" where
  "rb_valid b \<longleftrightarrow> valid_id (rb_reservation b) \<and> valid_id (rb_generation b)"

definition window_contains :: "request_window \<Rightarrow> u64 \<Rightarrow> bool" where
  "window_contains w tick \<longleftrightarrow>
    tick \<ge> rw_start_tick w \<and> (case rw_end_tick w of None \<Rightarrow> True | Some e \<Rightarrow> tick < e)"

definition effective_guarantee_class :: "bandwidth_request \<Rightarrow> guarantee_class" where
  "effective_guarantee_class r =
    (if rq_guarantee_class r \<noteq> GC_Unspecified then rq_guarantee_class r
     else if is_positive (rq_minimum r) then GC_Guaranteed else GC_BestEffort)"

definition effective_recall_tolerance :: "bandwidth_request \<Rightarrow> recall_tolerance" where
  "effective_recall_tolerance r =
    (if rq_recall_tolerance r \<noteq> RT_Unspecified then rq_recall_tolerance r
     else if rq_preemptible r then RT_Immediate else RT_NoRecall)"

definition is_revocable :: "bandwidth_request \<Rightarrow> bool" where
  "is_revocable r = (effective_recall_tolerance r \<noteq> RT_NoRecall)"

definition rq_ceiling :: "bandwidth_request \<Rightarrow> bandwidth" where
  "rq_ceiling r = bw_min (rq_desired r) (rq_maximum r)"

section \<open>Validation\<close>

definition requester_authority_well_formed :: "authority_vector \<Rightarrow> bool" where
  "requester_authority_well_formed a =
    (if \<not> valid_id (av_fabric_epoch a) then False
     else if \<not> valid_id (av_resource a) \<or> \<not> valid_id (av_resource_generation a) then False
     else if \<not> valid_id (av_policy a) \<or> \<not> valid_id (av_policy_generation a) then False
     else if \<not> valid_id (av_request a) \<or> \<not> valid_id (av_request_generation a) then False
     else if \<not> valid_id (av_fairness_group a) then False
     else if \<not> valid_id (av_fairness_config_generation a) then False
     else if \<not> valid_id (av_tenant_config_generation a) then False
     else if \<not> valid_id (av_publisher a) \<or> \<not> boot_valid (av_publisher_boot a) then False
     else if valid_id (av_reservation a) \<noteq> valid_id (av_reservation_generation a) then False
     else if valid_id (av_coordinator a) then False
     else if valid_id (av_capacity_generation a) then False
     else if av_monotonic_tick a \<noteq> 0 then False
     else True)"

definition validate_requester_authority :: "authority_vector \<Rightarrow> status" where
  "validate_requester_authority a =
    (if \<not> valid_id (av_fabric_epoch a) then fail EC_InvalidIdentity
     else if \<not> valid_id (av_resource a) \<or> \<not> valid_id (av_resource_generation a)
       then fail EC_InvalidIdentity
     else if \<not> valid_id (av_policy a) \<or> \<not> valid_id (av_policy_generation a) then fail EC_InvalidIdentity
     else if \<not> valid_id (av_request a) \<or> \<not> valid_id (av_request_generation a)
       then fail EC_InvalidIdentity
     else if \<not> valid_id (av_fairness_group a) then fail EC_InvalidIdentity
     else if \<not> valid_id (av_fairness_config_generation a) then fail EC_InvalidIdentity
     else if \<not> valid_id (av_tenant_config_generation a) then fail EC_InvalidIdentity
     else if \<not> valid_id (av_publisher a) \<or> \<not> boot_valid (av_publisher_boot a)
       then fail EC_InvalidIdentity
     else if valid_id (av_reservation a) \<noteq> valid_id (av_reservation_generation a)
       then fail EC_InvalidArgument
     else if valid_id (av_coordinator a) then fail EC_NotAuthoritative
     else if valid_id (av_capacity_generation a) then fail EC_NotAuthoritative
     else if av_monotonic_tick a \<noteq> 0 then fail EC_NotAuthoritative
     else success)"

definition validate_request_identity :: "bandwidth_request \<Rightarrow> status" where
  "validate_request_identity r =
    (let a = rq_authority r in
     if \<not> valid_id (rq_id r) then fail EC_InvalidIdentity
     else if \<not> valid_id (rq_generation r) then fail EC_InvalidIdentity
     else bindr (target_validate (rq_target r)) (\<lambda>_.
       bindr (validate_requester_authority a) (\<lambda>_.
         if av_request a \<noteq> rq_id r then fail EC_InvalidArgument
         else if av_request_generation a \<noteq> rq_generation r then fail EC_InvalidArgument
         else if av_resource a \<noteq> ct_resource (rq_target r) \<or>
                 av_resource_generation a \<noteq> ct_resource_generation (rq_target r)
           then fail EC_InvalidArgument
         else success)))"

definition validate_request_amounts :: "bandwidth_request \<Rightarrow> status" where
  "validate_request_amounts r =
    (if is_zero (rq_maximum r) then fail EC_ContradictoryRequest
     else if rq_minimum r > rq_maximum r then fail EC_ContradictoryRequest
     else if rq_desired r > rq_maximum r then fail EC_ContradictoryRequest
     else if rq_desired r < rq_minimum r then fail EC_ContradictoryRequest
     else if rq_guarantee_class r = GC_Guaranteed \<and> is_zero (rq_minimum r)
       then fail EC_ContradictoryRequest
     else if rq_guarantee_class r = GC_BestEffort \<and> is_positive (rq_minimum r)
       then fail EC_ContradictoryRequest
     else if rq_borrowing_eligible r \<and> \<not> rq_preemptible r then fail EC_ContradictoryRequest
     else if rq_borrowing_eligible r \<and> rq_recall_tolerance r = RT_NoRecall
       then fail EC_ContradictoryRequest
     else if rq_preemptible r \<and> rq_recall_tolerance r = RT_NoRecall then fail EC_ContradictoryRequest
     else if \<not> rq_preemptible r \<and> rq_recall_tolerance r \<noteq> RT_Unspecified \<and>
             rq_recall_tolerance r \<noteq> RT_NoRecall
       then fail EC_ContradictoryRequest
     else success)"

definition validate_request_binding :: "bandwidth_request \<Rightarrow> status" where
  "validate_request_binding r =
    (let a = rq_authority r in
     if \<not> valid_id (rq_priority r) then fail EC_InvalidIdentity
     else if \<not> valid_id (rq_tenant r) then fail EC_InvalidIdentity
     else if \<not> valid_id (rq_fairness_group r) then fail EC_InvalidIdentity
     else if av_fairness_group a \<noteq> rq_fairness_group r then fail EC_InvalidArgument
     else (case rq_reservation r of
         Some b \<Rightarrow>
           if \<not> rb_valid b then fail EC_InvalidIdentity
           else if effective_guarantee_class r \<noteq> GC_Guaranteed then fail EC_ContradictoryRequest
           else if av_reservation a \<noteq> rb_reservation b \<or>
                   av_reservation_generation a \<noteq> rb_generation b
             then fail EC_InvalidArgument
           else success
       | None \<Rightarrow> if valid_id (av_reservation a) then fail EC_InvalidArgument else success))"

definition validate_request_window :: "bandwidth_request \<Rightarrow> status" where
  "validate_request_window r =
    (case rq_window r of None \<Rightarrow> success
     | Some w \<Rightarrow> (case rw_end_tick w of None \<Rightarrow> success
         | Some e \<Rightarrow> if e \<le> rw_start_tick w then fail EC_ContradictoryRequest else success))"

fun bytes_less :: "bytes \<Rightarrow> bytes \<Rightarrow> bool" where
  "bytes_less _ [] = False"
| "bytes_less [] (_ # _) = True"
| "bytes_less (a # as) (b # bs) = (if a < b then True else if b < a then False else bytes_less as bs)"

text \<open>The label loop; \<open>previous_key\<close> is \<open>None\<close> at the first iteration (\<open>i = 0\<close>).\<close>

definition validate_label :: "policy_label \<Rightarrow> bytes option \<Rightarrow> bytes option result" where
  "validate_label l previous_key =
    bindr (validate_text (pl_key l) kMaxLabelKeyBytes) (\<lambda>_.
    bindr (validate_text (pl_value l) kMaxLabelValueBytes) (\<lambda>_.
      if pl_key l = [] then fail EC_InvalidArgument
      else if (case previous_key of None \<Rightarrow> False | Some k \<Rightarrow> \<not> bytes_less k (pl_key l))
        then fail EC_InvalidArgument
      else Inr (Some (pl_key l))))"

definition request_validate :: "bandwidth_request \<Rightarrow> status" where
  "request_validate r =
    bindr (validate_request_identity r) (\<lambda>_.
    bindr (validate_request_amounts r) (\<lambda>_.
    bindr (validate_request_binding r) (\<lambda>_.
    bindr (validate_request_window r) (\<lambda>_.
      if length (rq_labels r) > kMaxPolicyLabels then fail EC_BoundsExceeded
      else bindr (fold_res validate_label (rq_labels r) None) (\<lambda>_.
        validate_text (pv_detail (rq_provenance r)) kMaxProvenanceDetailBytes)))))"

section \<open>Content hash and equality\<close>

definition guarantee_code :: "guarantee_class \<Rightarrow> u8" where
  "guarantee_code g = (case g of GC_Unspecified \<Rightarrow> 0 | GC_Guaranteed \<Rightarrow> 1 | GC_BestEffort \<Rightarrow> 2)"

definition recall_code :: "recall_tolerance \<Rightarrow> u8" where
  "recall_code t = (case t of RT_Unspecified \<Rightarrow> 0 | RT_Immediate \<Rightarrow> 1 | RT_GracePeriod \<Rightarrow> 2 | RT_NoRecall \<Rightarrow> 3)"

definition hash_window :: "request_window \<Rightarrow> u64 \<Rightarrow> u64" where
  "hash_window w h =
    (let h1 = hash_bool (rw_end_tick w \<noteq> None) (hash_u64 (rw_start_tick w) h)
     in case rw_end_tick w of None \<Rightarrow> h1 | Some e \<Rightarrow> hash_u64 e h1)"

definition request_content_hash :: "bandwidth_request \<Rightarrow> u64" where
  "request_content_hash r =
    (let t = rq_target r; a = rq_authority r in
     fold (\<lambda>f h. f h)
      [hash_u64 (rq_id r), hash_u64 (rq_generation r), hash_u64 (ct_resource t),
       hash_u64 (ct_resource_generation t), hash_u64 (ct_pool t), hash_u64 (ct_pool_generation t),
       hash_u64 (of_nat (rq_minimum r)), hash_u64 (of_nat (rq_desired r)),
       hash_u64 (of_nat (rq_maximum r)), hash_u8 (guarantee_code (rq_guarantee_class r)),
       hash_u64 (rq_priority r), hash_u64 (rq_tenant r), hash_u64 (rq_fairness_group r),
       hash_bool (rq_borrowing_eligible r), hash_bool (rq_preemptible r),
       hash_u8 (recall_code (rq_recall_tolerance r)),
       hash_bool (rq_reservation r \<noteq> None),
       (case rq_reservation r of None \<Rightarrow> (\<lambda>h. h)
        | Some b \<Rightarrow> (\<lambda>h. hash_u64 (rb_generation b) (hash_u64 (rb_reservation b) h))),
       hash_bool (rq_window r \<noteq> None),
       (case rq_window r of None \<Rightarrow> (\<lambda>h. h) | Some w \<Rightarrow> hash_window w),
       hash_u64 (rq_latency_slo r), hash_u64 (of_nat (length (rq_labels r))),
       fold (\<lambda>l h. hash_text (pl_value l) (hash_text (pl_key l) h)) (rq_labels r),
       hash_u64 (av_fabric_epoch a), hash_u64 (av_policy a), hash_u64 (av_policy_generation a),
       hash_u64 (av_fairness_config_generation a), hash_u64 (av_tenant_config_generation a),
       hash_u64 (av_publisher a), hash_u64 (av_publisher_sequence a),
       hash_raw (av_publisher_boot a)]
      kFnvOffsetBasis)"

definition request_equal :: "bandwidth_request \<Rightarrow> bandwidth_request \<Rightarrow> bool" where
  "request_equal a b \<longleftrightarrow>
    rq_id a = rq_id b \<and> rq_generation a = rq_generation b \<and> rq_target a = rq_target b \<and>
    rq_minimum a = rq_minimum b \<and> rq_desired a = rq_desired b \<and> rq_maximum a = rq_maximum b \<and>
    rq_guarantee_class a = rq_guarantee_class b \<and> rq_priority a = rq_priority b \<and>
    rq_tenant a = rq_tenant b \<and> rq_fairness_group a = rq_fairness_group b \<and>
    rq_borrowing_eligible a = rq_borrowing_eligible b \<and> rq_preemptible a = rq_preemptible b \<and>
    rq_recall_tolerance a = rq_recall_tolerance b \<and> rq_reservation a = rq_reservation b \<and>
    rq_window a = rq_window b \<and> rq_latency_slo a = rq_latency_slo b \<and>
    rq_labels a = rq_labels b \<and> av_equal (rq_authority a) (rq_authority b)"

section \<open>What a validated request provides\<close>

lemma requester_authority_iff:
  "validate_requester_authority a = success \<longleftrightarrow> requester_authority_well_formed a"
  by (simp add: validate_requester_authority_def requester_authority_well_formed_def)

lemma request_validate_amounts:
  assumes "request_validate r = success"
  shows "0 < rq_maximum r" "rq_minimum r \<le> rq_desired r" "rq_desired r \<le> rq_maximum r"
  using assms by (auto simp: request_validate_def validate_request_amounts_def split: if_splits)

text \<open>The largest amount a valid request may hold is exactly what it desires.\<close>

lemma request_ceiling_desired: "request_validate r = success \<Longrightarrow> rq_ceiling r = rq_desired r"
  by (simp add: rq_ceiling_def request_validate_amounts)

text \<open>Borrowed bandwidth is always revocable: a valid borrowing request accepts recall.\<close>

lemma borrowing_request_revocable:
  assumes "request_validate r = success" and "rq_borrowing_eligible r"
  shows "is_revocable r"
  using assms
  by (auto simp: request_validate_def validate_request_amounts_def is_revocable_def
      effective_recall_tolerance_def split: if_splits)

text \<open>In a valid request, holding a guarantee is the same as declaring a positive minimum.\<close>

lemma effective_guarantee_iff:
  assumes "request_validate r = success"
  shows "effective_guarantee_class r = GC_Guaranteed \<longleftrightarrow> 0 < rq_minimum r"
  using assms
  by (cases "rq_guarantee_class r")
    (auto simp: request_validate_def validate_request_amounts_def effective_guarantee_class_def
      split: if_splits)

lemma revocable_iff_preemptible:
  assumes "request_validate r = success"
  shows "is_revocable r \<longleftrightarrow> rq_preemptible r"
  using assms
  by (cases "rq_recall_tolerance r")
    (auto simp: request_validate_def validate_request_amounts_def is_revocable_def
      effective_recall_tolerance_def split: if_splits)

lemma bytes_less_irrefl [simp]: "\<not> bytes_less a a"
  by (induction a) auto

lemma bytes_less_trans: "bytes_less a b \<Longrightarrow> bytes_less b c \<Longrightarrow> bytes_less a c"
proof (induction a b arbitrary: c rule: bytes_less.induct)
  case (2 b bs)
  then show ?case by (cases c) auto
next
  case (3 a as b bs)
  then show ?case by (cases c) (auto split: if_splits)
qed auto

lemma validate_label_Inr:
  "validate_label l k = Inr k' \<Longrightarrow> k' = Some (pl_key l) \<and> (\<forall>x. k = Some x \<longrightarrow> bytes_less x (pl_key l))"
  by (auto simp: validate_label_def split: if_splits option.splits)

lemma sorted_irrefl_distinct: "(\<And>x. \<not> R x x) \<Longrightarrow> sorted_wrt R xs \<Longrightarrow> distinct xs"
  by (induction xs) auto

lemma validate_labels_sorted:
  "fold_res validate_label ls k = Inr k' \<Longrightarrow>
    sorted_wrt bytes_less ((case k of None \<Rightarrow> [] | Some x \<Rightarrow> [x]) @ map pl_key ls)"
proof (induction ls arbitrary: k)
  case Nil
  then show ?case by (cases k) auto
next
  case (Cons l ls)
  then obtain k1 where v: "validate_label l k = Inr k1" and r: "fold_res validate_label ls k1 = Inr k'"
    by auto
  from validate_label_Inr [OF v] r have rest: "fold_res validate_label ls (Some (pl_key l)) = Inr k'"
    and prev: "\<forall>x. k = Some x \<longrightarrow> bytes_less x (pl_key l)" by simp_all
  from Cons.IH [OF rest] have s: "sorted_wrt bytes_less (pl_key l # map pl_key ls)" by simp
  show ?case
  proof (cases k)
    case (Some x)
    with prev have "bytes_less x (pl_key l)" by simp
    with s Some show ?thesis by (auto intro: bytes_less_trans)
  qed (use s in simp)
qed

lemma request_labels_distinct:
  assumes "request_validate r = success"
  shows "distinct (map pl_key (rq_labels r))"
proof -
  from assms obtain k where "fold_res validate_label (rq_labels r) None = Inr k"
    by (auto simp: request_validate_def split: if_splits)
  from validate_labels_sorted [OF this] have "sorted_wrt bytes_less (map pl_key (rq_labels r))" by simp
  then show ?thesis by (rule sorted_irrefl_distinct [rotated]) simp
qed

end
