(* ===== verification/Grant.thy ===== *)
theory Grant
  imports Request
begin

text \<open>
  The grant lifecycle of \<open>grant.hpp\<close> and \<open>grant.cpp\<close>: lifecycle states with their transition
  table, the classification of outcomes, the breakdown of a granted amount, the grant record
  with its two checked mutators and its validation, and the recall record.  The contract of a
  lifecycle (terminal states are absorbing and never authorise) is a locale whose
  consequences for whole histories are proved once and interpreted on the transition table.
\<close>

section \<open>States and outcomes\<close>

datatype grant_state =
    GS_Requested | GS_Validated | GS_Queued | GS_GrantedGuaranteed | GS_GrantedBorrowed
  | GS_RecallPending | GS_RevalidationRequired | GS_Released | GS_Expired | GS_Revoked
  | GS_Fenced | GS_Stale | GS_Rejected

datatype allocation_kind = AK_None | AK_Guaranteed | AK_Discretionary | AK_Borrowed | AK_Contingent

text \<open>\<open>OutcomeReason\<close> has an 8-bit underlying type; \<open>OR_Unnamed\<close> is a value without an enumerator, which
  only the decoders of \<open>wire.cpp\<close> can produce.\<close>

datatype outcome_reason =
    OR_None | OR_SatisfiedFully | OR_SatisfiedAtMaximum | OR_PartiallySatisfied
  | OR_MinimumGuaranteedOnly | OR_BelowMinimumWaiting | OR_ZeroCapacityAvailable
  | OR_CapacityUnknown | OR_CapacityWithdrawn | OR_HeadroomPreserved
  | OR_EmergencyReservePreserved | OR_GroupCapReached | OR_FairnessLimited
  | OR_BorrowPoolExhausted | OR_OversubscriptionDisabled | OR_WaitingForStrongerClass
  | OR_DeferredByHysteresis | OR_RecalledByStrongerClass | OR_RecalledByObligationReturn
  | OR_RecalledByCapacityReduction | OR_RecalledByPolicyChange | OR_RefusedContradictory
  | OR_RefusedDuplicateIdentity | OR_RefusedIdentityConflict | OR_RefusedUnknownPriorityClass
  | OR_RefusedUnknownFairnessGroup | OR_RefusedTenantMismatch | OR_RefusedStaleEpoch
  | OR_RefusedStaleResourceGeneration | OR_RefusedStalePolicyGeneration
  | OR_RefusedStaleRequester | OR_RefusedStaleReservation | OR_RefusedStaleTenantConfig
  | OR_RefusedBootFenced | OR_RefusedBelowQuantum | OR_RefusedNoCapacityAuthority
  | OR_Expired | OR_Released | OR_Revoked | OR_Fenced | OR_Stale | OR_RevalidationRequired
  | OR_Unnamed u8

definition is_terminal :: "grant_state \<Rightarrow> bool" where
  "is_terminal s =
    (case s of GS_Released \<Rightarrow> True | GS_Expired \<Rightarrow> True | GS_Revoked \<Rightarrow> True | GS_Fenced \<Rightarrow> True
     | GS_Stale \<Rightarrow> True | GS_Rejected \<Rightarrow> True | _ \<Rightarrow> False)"

definition is_live :: "grant_state \<Rightarrow> bool" where
  "is_live s \<longleftrightarrow> s = GS_GrantedGuaranteed \<or> s = GS_GrantedBorrowed \<or> s = GS_RecallPending \<or>
    s = GS_RevalidationRequired"

definition authorises_consumption :: "grant_state \<Rightarrow> bool" where
  "authorises_consumption s \<longleftrightarrow> s = GS_GrantedGuaranteed \<or> s = GS_GrantedBorrowed"

fun is_legal_grant_transition :: "grant_state \<Rightarrow> grant_state \<Rightarrow> bool" where
  "is_legal_grant_transition from to =
    (if from = to then True
     else (case from of
       GS_Requested \<Rightarrow> to \<in> {GS_Validated, GS_Rejected, GS_Stale}
     | GS_Validated \<Rightarrow> to \<in> {GS_Queued, GS_Rejected, GS_Stale}
     | GS_Queued \<Rightarrow> to \<in> {GS_GrantedGuaranteed, GS_GrantedBorrowed, GS_Rejected, GS_Stale,
                          GS_RevalidationRequired}
     | GS_GrantedGuaranteed \<Rightarrow> to \<in> {GS_RecallPending, GS_Released, GS_Expired, GS_Revoked,
                          GS_Fenced, GS_Stale, GS_RevalidationRequired}
     | GS_GrantedBorrowed \<Rightarrow> to \<in> {GS_RecallPending, GS_Released, GS_Expired, GS_Revoked,
                          GS_Fenced, GS_Stale, GS_RevalidationRequired}
     | GS_RecallPending \<Rightarrow> to \<in> {GS_Released, GS_Expired, GS_Revoked, GS_Fenced, GS_Stale,
                          GS_RevalidationRequired}
     | GS_RevalidationRequired \<Rightarrow> to \<in> {GS_GrantedGuaranteed, GS_GrantedBorrowed, GS_Released,
                          GS_Expired, GS_Revoked, GS_Fenced, GS_Stale}
     | _ \<Rightarrow> False))"

declare is_legal_grant_transition.simps [simp del]

definition is_outcome_waiting :: "outcome_reason \<Rightarrow> bool" where
  "is_outcome_waiting r \<longleftrightarrow> r \<in> {OR_BelowMinimumWaiting, OR_ZeroCapacityAvailable, OR_CapacityUnknown,
    OR_CapacityWithdrawn, OR_HeadroomPreserved, OR_EmergencyReservePreserved, OR_GroupCapReached,
    OR_FairnessLimited, OR_BorrowPoolExhausted, OR_OversubscriptionDisabled,
    OR_WaitingForStrongerClass, OR_PartiallySatisfied, OR_MinimumGuaranteedOnly,
    OR_DeferredByHysteresis}"

definition is_outcome_refused :: "outcome_reason \<Rightarrow> bool" where
  "is_outcome_refused r \<longleftrightarrow> r \<in> {OR_RefusedContradictory, OR_RefusedDuplicateIdentity,
    OR_RefusedIdentityConflict, OR_RefusedUnknownPriorityClass, OR_RefusedUnknownFairnessGroup,
    OR_RefusedTenantMismatch, OR_RefusedStaleEpoch, OR_RefusedStaleResourceGeneration,
    OR_RefusedStalePolicyGeneration, OR_RefusedStaleRequester, OR_RefusedStaleReservation,
    OR_RefusedStaleTenantConfig, OR_RefusedBootFenced, OR_RefusedBelowQuantum,
    OR_RefusedNoCapacityAuthority, OR_Expired, OR_Released, OR_Revoked, OR_Fenced, OR_Stale}"

definition is_outcome_granted :: "outcome_reason \<Rightarrow> bool" where
  "is_outcome_granted r \<longleftrightarrow> r \<in> {OR_SatisfiedFully, OR_SatisfiedAtMaximum}"

section \<open>Allocations, recalls and grants\<close>

record grant_allocation =
  ga_guaranteed :: bandwidth
  ga_discretionary :: bandwidth
  ga_borrowed :: bandwidth
  ga_contingent :: bandwidth

definition no_allocation :: grant_allocation where
  "no_allocation = \<lparr> ga_guaranteed = 0, ga_discretionary = 0, ga_borrowed = 0, ga_contingent = 0 \<rparr>"

definition ga_total :: "grant_allocation \<Rightarrow> bandwidth result" where
  "ga_total a = fold_res (\<lambda>part total. checked_add total part)
     [ga_guaranteed a, ga_discretionary a, ga_borrowed a, ga_contingent a] 0"

definition ga_revocable :: "grant_allocation \<Rightarrow> bandwidth result" where
  "ga_revocable a = fold_res (\<lambda>part total. checked_add total part)
     [ga_discretionary a, ga_borrowed a, ga_contingent a] 0"

definition has_revocable :: "grant_allocation \<Rightarrow> bool" where
  "has_revocable a \<longleftrightarrow>
    is_positive (ga_discretionary a) \<or> is_positive (ga_borrowed a) \<or> is_positive (ga_contingent a)"

definition ga_is_zero :: "grant_allocation \<Rightarrow> bool" where
  "ga_is_zero a \<longleftrightarrow> is_zero (ga_guaranteed a) \<and> is_zero (ga_discretionary a) \<and>
    is_zero (ga_borrowed a) \<and> is_zero (ga_contingent a)"

record recall_record =
  rr_id :: ident
  rr_grant :: ident
  rr_grant_generation :: generation
  rr_request :: ident
  rr_target :: capacity_target
  rr_recalled :: bandwidth
  rr_remaining :: bandwidth
  rr_reason :: outcome_reason
  rr_requested_tick :: u64
  rr_deadline_tick :: u64
  rr_acknowledgement_required :: bool
  rr_authority :: authority_vector

record grant =
  gr_id :: ident
  gr_generation :: generation
  gr_request :: ident
  gr_request_generation :: generation
  gr_target :: capacity_target
  gr_state :: grant_state
  gr_allocation :: grant_allocation
  gr_requested_minimum :: bandwidth
  gr_requested_desired :: bandwidth
  gr_requested_maximum :: bandwidth
  gr_denied :: bandwidth
  gr_satisfied :: bool
  gr_reason :: outcome_reason
  gr_decision :: ident
  gr_recall :: ident
  gr_superseded_by :: "ident option"
  gr_supersedes :: "ident option"
  gr_issued_tick :: u64
  gr_last_revalidated_tick :: u64
  gr_expires_at_tick :: "u64 option"
  gr_wait_rounds :: u64
  gr_obligation_backed :: bandwidth
  gr_reserve_backed :: bandwidth
  gr_authority :: authority_vector

definition default_grant :: grant where
  "default_grant = \<lparr> gr_id = 0, gr_generation = 0, gr_request = 0, gr_request_generation = 0,
     gr_target = CapacityTarget 0 0 0 0, gr_state = GS_Requested, gr_allocation = no_allocation,
     gr_requested_minimum = 0, gr_requested_desired = 0, gr_requested_maximum = 0, gr_denied = 0,
     gr_satisfied = False, gr_reason = OR_None, gr_decision = 0, gr_recall = 0,
     gr_superseded_by = None, gr_supersedes = None, gr_issued_tick = 0,
     gr_last_revalidated_tick = 0, gr_expires_at_tick = None, gr_wait_rounds = 0,
     gr_obligation_backed = 0, gr_reserve_backed = 0, gr_authority = default_authority \<rparr>"

definition transition_to :: "grant_state \<Rightarrow> grant \<Rightarrow> grant result" where
  "transition_to next g =
    (if \<not> is_legal_grant_transition (gr_state g) next then fail EC_InvalidStateTransition
     else Inr (g\<lparr>gr_state := next\<rparr>))"

definition advance_generation :: "grant \<Rightarrow> grant result" where
  "advance_generation g =
    bindr (gen_next (gr_generation g)) (\<lambda>next. Inr (g\<lparr>gr_generation := next\<rparr>))"

definition validate_grant :: "grant \<Rightarrow> status" where
  "validate_grant g =
    (let a = gr_allocation g in
     if \<not> valid_id (gr_id g) then fail EC_InvalidIdentity
     else if \<not> valid_id (gr_generation g) then fail EC_InvalidIdentity
     else if \<not> valid_id (gr_request g) then fail EC_InvalidIdentity
     else if \<not> valid_id (gr_request_generation g) then fail EC_InvalidIdentity
     else bindr (target_validate (gr_target g)) (\<lambda>_.
       bindr (ga_total a) (\<lambda>total.
         if total > gr_requested_maximum g then fail EC_AccountingInvariantViolation
         else if gr_satisfied g \<and> total < gr_requested_minimum g
           then fail EC_AccountingInvariantViolation
         else if ga_guaranteed a > gr_requested_minimum g then fail EC_AccountingInvariantViolation
         else if gr_state g = GS_GrantedGuaranteed \<and> has_revocable a
           then fail EC_AccountingInvariantViolation
         else if gr_obligation_backed g > ga_guaranteed a then fail EC_AccountingInvariantViolation
         else bindr (checked_add (ga_guaranteed a) (ga_discretionary a)) (\<lambda>funded.
           if gr_reserve_backed g > funded then fail EC_AccountingInvariantViolation
           else if gr_state g = GS_GrantedBorrowed \<and> \<not> has_revocable a
             then fail EC_AccountingInvariantViolation
           else if is_terminal (gr_state g) \<and> authorises_consumption (gr_state g)
             then fail EC_AccountingInvariantViolation
           else success))))"

section \<open>The lifecycle contract\<close>

text \<open>
  A lifecycle has a transition table, terminal states and states that authorise consumption.
  The contract is that a terminal state has no successor but itself, and never authorises.
\<close>

locale lifecycle =
  fixes legal :: "'s \<Rightarrow> 's \<Rightarrow> bool"
    and terminal :: "'s \<Rightarrow> bool"
    and authorises :: "'s \<Rightarrow> bool"
  assumes absorbing: "terminal s \<Longrightarrow> legal s t \<Longrightarrow> t = s"
    and stutter: "legal s s"
    and terminal_silent: "terminal s \<Longrightarrow> \<not> authorises s"
begin

inductive history :: "'s \<Rightarrow> 's list \<Rightarrow> bool" where
  start: "history s []"
| step: "legal s t \<Longrightarrow> history t ts \<Longrightarrow> history s (t # ts)"

lemma history_terminal: "history s ts \<Longrightarrow> terminal s \<Longrightarrow> set ts \<subseteq> {s}"
  by (induction rule: history.induct) (auto dest: absorbing)

text \<open>Once a history reaches a terminal state, nothing after it authorises consumption.\<close>

lemma history_after_terminal:
  "history s (xs @ t # ys) \<Longrightarrow> terminal t \<Longrightarrow> u \<in> set ys \<Longrightarrow> u = t \<and> \<not> authorises u"
proof (induction xs arbitrary: s)
  case Nil
  then have "history t ys" by (auto elim: history.cases)
  from history_terminal [OF this] Nil show ?case by (auto dest: terminal_silent)
next
  case (Cons x xs)
  then have "history x (xs @ t # ys)" by (auto elim: history.cases)
  with Cons show ?case by blast
qed

lemma reachable_terminal: "legal\<^sup>*\<^sup>* s t \<Longrightarrow> terminal s \<Longrightarrow> t = s"
  by (induction rule: rtranclp_induct) (auto dest: absorbing)

end

lemma terminal_absorbing: "is_terminal s \<Longrightarrow> is_legal_grant_transition s t \<Longrightarrow> t = s"
  by (cases s) (auto simp: is_terminal_def is_legal_grant_transition.simps split: if_splits)

lemma terminal_not_authorising: "is_terminal s \<Longrightarrow> \<not> authorises_consumption s"
  by (cases s) (auto simp: is_terminal_def authorises_consumption_def)

interpretation gl: lifecycle is_legal_grant_transition is_terminal authorises_consumption
  by unfold_locales
    (simp_all add: terminal_absorbing terminal_not_authorising is_legal_grant_transition.simps)

lemma live_or_terminal_exclusive: "is_live s \<Longrightarrow> \<not> is_terminal s"
  by (cases s) (auto simp: is_live_def is_terminal_def)

lemma authorising_is_live: "authorises_consumption s \<Longrightarrow> is_live s"
  by (auto simp: authorises_consumption_def is_live_def)

text \<open>Consumption is authorised only on entry from a queue or from a revalidation.\<close>

lemma authorising_entry:
  "is_legal_grant_transition s t \<Longrightarrow> authorises_consumption t \<Longrightarrow> s \<noteq> t \<Longrightarrow>
    s = GS_Queued \<or> s = GS_RevalidationRequired"
  by (cases s) (auto simp: authorises_consumption_def is_legal_grant_transition.simps)

lemma outcomes_disjoint:
  "\<not> (is_outcome_waiting r \<and> is_outcome_refused r)"
  "\<not> (is_outcome_waiting r \<and> is_outcome_granted r)"
  "\<not> (is_outcome_refused r \<and> is_outcome_granted r)"
  by (cases r; simp add: is_outcome_waiting_def is_outcome_refused_def is_outcome_granted_def)+

section \<open>Laws of grants\<close>

abbreviation ga_sum :: "grant_allocation \<Rightarrow> nat" where
  "ga_sum a \<equiv> ga_guaranteed a + ga_discretionary a + ga_borrowed a + ga_contingent a"

lemma ga_total_eq_Inr [simp]:
  "ga_total a = Inr t \<longleftrightarrow> t = ga_sum a \<and> ga_sum a \<le> kMaxBitsPerSecond"
  by (auto simp: ga_total_def)

lemma ga_revocable_eq_Inr [simp]:
  "ga_revocable a = Inr t \<longleftrightarrow>
    t = ga_discretionary a + ga_borrowed a + ga_contingent a \<and> t \<le> kMaxBitsPerSecond"
  by (auto simp: ga_revocable_def)

lemma transition_to_Inr [simp]:
  "transition_to s g = Inr g' \<longleftrightarrow> is_legal_grant_transition (gr_state g) s \<and> g' = g\<lparr>gr_state := s\<rparr>"
  by (auto simp: transition_to_def)

lemma advance_generation_Inr:
  "advance_generation g = Inr g' \<Longrightarrow>
    gr_generation g < gr_generation g' \<and> g' = g\<lparr>gr_generation := gr_generation g'\<rparr>"
  by (auto simp: advance_generation_def dest: gen_next_less)

lemma advance_generation_iff:
  "advance_generation g = Inr g' \<longleftrightarrow>
    gr_generation g \<noteq> 0 \<and> gr_generation g \<noteq> kMaxValue \<and>
    g' = g\<lparr>gr_generation := gr_generation g + 1\<rparr>"
  by (auto simp: advance_generation_def gen_next_Inr)

lemma validate_grant_amounts:
  assumes "validate_grant g = success"
  shows "ga_sum (gr_allocation g) \<le> gr_requested_maximum g"
    and "ga_guaranteed (gr_allocation g) \<le> gr_requested_minimum g"
    and "gr_satisfied g \<Longrightarrow> gr_requested_minimum g \<le> ga_sum (gr_allocation g)"
    and "gr_obligation_backed g \<le> ga_guaranteed (gr_allocation g)"
    and "gr_reserve_backed g \<le> ga_guaranteed (gr_allocation g) + ga_discretionary (gr_allocation g)"
    and "gr_state g = GS_GrantedGuaranteed \<Longrightarrow> \<not> has_revocable (gr_allocation g)"
  using assms by (auto simp: validate_grant_def Let_def split: if_splits)

end
