(* ===== verification/Accounting.thy ===== *)
theory Accounting
  imports Grant
begin

text \<open>
  Resource accounting (\<open>accounting.hpp\<close>, \<open>accounting.cpp\<close>): the exact decomposition of a
  target's capacity, the list of violated identities that \<open>validate\<close> reports, and the
  retirement of a grant outside an arbitration round.  A consistent accounting is
  characterised by plain equations; retirement is shown to be exact, and to be refused when
  part of the grant was funded by the emergency reserve.
\<close>

record resource_accounting =
  ac_target :: capacity_target
  ac_capacity_generation :: generation
  ac_evidence :: evidence_state
  ac_physical_configured :: bandwidth
  ac_administratively_unavailable :: bandwidth
  ac_degraded_loss :: bandwidth
  ac_effective_physical :: bandwidth
  ac_obligations_reserved :: bandwidth
  ac_obligations_consumed :: bandwidth
  ac_obligations_lent :: bandwidth
  ac_obligations_idle :: bandwidth
  ac_capacity_deficit :: bandwidth
  ac_allocatable :: bandwidth
  ac_emergency_reserve :: bandwidth
  ac_emergency_reserve_unused :: bandwidth
  ac_headroom :: bandwidth
  ac_arbitrable :: bandwidth
  ac_guaranteed_granted :: bandwidth
  ac_discretionary_granted :: bandwidth
  ac_borrowed_granted :: bandwidth
  ac_contingent_granted :: bandwidth
  ac_unallocated :: bandwidth
  ac_contingent_pool :: bandwidth
  ac_contingent_unallocated :: bandwidth
  ac_authorized_consumption :: bandwidth

definition default_accounting :: resource_accounting where
  "default_accounting = \<lparr> ac_target = CapacityTarget 0 0 0 0, ac_capacity_generation = 0,
     ac_evidence = EV_Unknown, ac_physical_configured = 0, ac_administratively_unavailable = 0,
     ac_degraded_loss = 0, ac_effective_physical = 0, ac_obligations_reserved = 0,
     ac_obligations_consumed = 0, ac_obligations_lent = 0, ac_obligations_idle = 0,
     ac_capacity_deficit = 0, ac_allocatable = 0, ac_emergency_reserve = 0,
     ac_emergency_reserve_unused = 0, ac_headroom = 0, ac_arbitrable = 0,
     ac_guaranteed_granted = 0, ac_discretionary_granted = 0, ac_borrowed_granted = 0,
     ac_contingent_granted = 0, ac_unallocated = 0, ac_contingent_pool = 0,
     ac_contingent_unallocated = 0, ac_authorized_consumption = 0 \<rparr>"

section \<open>Validation\<close>

datatype accounting_violation =
    No_overflow | Physical_closes | Allocatable_closes | Grant_closure
  | Emergency_reserve_unused_within_reserve | Unknown_has_no_emergency_reserve
  | Unknown_has_no_effective_capacity | Unknown_has_no_allocatable_capacity
  | Unknown_has_no_arbitrable_capacity | Unknown_authorizes_nothing
  | Obligations_split_closes | Contingent_split_closes | Borrowed_equals_lent
  | Authorized_consumption_closes | No_silent_oversubscription

definition check_equality ::
  "accounting_violation \<Rightarrow> bandwidth \<Rightarrow> bandwidth \<Rightarrow> accounting_violation list" where
  "check_equality name left right = (if left = right then [] else [name])"

definition check_not_greater ::
  "accounting_violation \<Rightarrow> bandwidth \<Rightarrow> bandwidth \<Rightarrow> accounting_violation list" where
  "check_not_greater name left right = (if left \<le> right then [] else [name])"

text \<open>
  \<open>with_sum terms out k\<close> is the pattern \<open>if (!sum_checked(...)) { push no_overflow; return; }\<close>
  followed by the rest \<open>k\<close> of the function; \<open>out\<close> are the violations collected so far.
\<close>

definition with_sum ::
  "bandwidth list \<Rightarrow> accounting_violation list \<Rightarrow>
   (bandwidth \<Rightarrow> accounting_violation list) \<Rightarrow> accounting_violation list" where
  "with_sum terms out k =
    (case bw_sum terms of Inl _ \<Rightarrow> out @ [No_overflow] | Inr t \<Rightarrow> k t)"

definition validate_tail ::
  "resource_accounting \<Rightarrow> accounting_violation list \<Rightarrow> accounting_violation list" where
  "validate_tail a out =
    with_sum [ac_obligations_consumed a, ac_obligations_lent a, ac_obligations_idle a] out (\<lambda>total1.
    let out1 = out @ check_equality Obligations_split_closes (ac_obligations_reserved a) total1 in
    with_sum [ac_contingent_granted a, ac_contingent_unallocated a] out1 (\<lambda>total2.
    let out2 = out1 @ check_equality Contingent_split_closes (ac_contingent_pool a) total2
                 @ check_equality Borrowed_equals_lent (ac_borrowed_granted a) (ac_obligations_lent a) in
    with_sum [ac_obligations_consumed a, ac_guaranteed_granted a, ac_discretionary_granted a,
              ac_borrowed_granted a, ac_contingent_granted a] out2 (\<lambda>total3.
    let out3 = out2 @ check_equality Authorized_consumption_closes (ac_authorized_consumption a) total3 in
    with_sum [ac_effective_physical a, ac_contingent_pool a] out3 (\<lambda>total4.
      out3 @ check_not_greater No_silent_oversubscription (ac_authorized_consumption a) total4))))"

definition accounting_validate :: "resource_accounting \<Rightarrow> accounting_violation list" where
  "accounting_validate a =
    (if ac_evidence a = EV_Known then
       with_sum [ac_effective_physical a, ac_capacity_deficit a] [] (\<lambda>physical_side.
       with_sum [ac_obligations_reserved a, ac_allocatable a] [] (\<lambda>allocation_side.
       let out1 = check_equality Physical_closes physical_side allocation_side in
       with_sum [ac_emergency_reserve a, ac_headroom a, ac_arbitrable a] out1 (\<lambda>total1.
       let out2 = out1 @ check_equality Allocatable_closes (ac_allocatable a) total1 in
       with_sum [ac_emergency_reserve_unused a, ac_headroom a, ac_guaranteed_granted a,
                 ac_discretionary_granted a, ac_unallocated a] out2 (\<lambda>total2.
       validate_tail a (out2 @ check_equality Grant_closure (ac_allocatable a) total2 @
         check_not_greater Emergency_reserve_unused_within_reserve (ac_emergency_reserve_unused a)
           (ac_emergency_reserve a))))))
     else
       validate_tail a
         (check_equality Unknown_has_no_emergency_reserve (ac_emergency_reserve a) 0 @
          check_equality Unknown_has_no_effective_capacity (ac_effective_physical a) 0 @
          check_equality Unknown_has_no_allocatable_capacity (ac_allocatable a) 0 @
          check_equality Unknown_has_no_arbitrable_capacity (ac_arbitrable a) 0 @
          check_equality Unknown_authorizes_nothing (ac_authorized_consumption a) 0))"

definition accounting_consistent :: "resource_accounting \<Rightarrow> bool" where
  "accounting_consistent a = (accounting_validate a = [])"

section \<open>Retirement of a grant\<close>

definition retire_amounts :: "resource_accounting \<Rightarrow> grant \<Rightarrow> resource_accounting result" where
  "retire_amounts acc g =
    (let alloc = gr_allocation g;
         granted_guaranteed = ga_guaranteed alloc;
         reserved_guaranteed = bw_min (gr_obligation_backed g) granted_guaranteed;
         remaining_guaranteed = saturating_sub granted_guaranteed reserved_guaranteed;
         reserve_in_guaranteed = bw_min (gr_reserve_backed g) remaining_guaranteed;
         arbitrable_guaranteed = saturating_sub remaining_guaranteed reserve_in_guaranteed;
         reserve_in_discretionary = saturating_sub (gr_reserve_backed g) reserve_in_guaranteed;
         arbitrable_discretionary = saturating_sub (ga_discretionary alloc) reserve_in_discretionary
     in
     bindr (value_of (checked_add (ac_obligations_idle acc) reserved_guaranteed)) (\<lambda>idle1.
     bindr (value_of (checked_add idle1 (ga_borrowed alloc))) (\<lambda>idle2.
     bindr (value_of (checked_add (ac_unallocated acc) arbitrable_guaranteed)) (\<lambda>unalloc1.
     bindr (value_of (checked_add unalloc1 arbitrable_discretionary)) (\<lambda>unalloc2.
     bindr (value_of (checked_add (ac_emergency_reserve_unused acc) (gr_reserve_backed g))) (\<lambda>reserve.
     bindr (value_of (checked_add (ac_contingent_unallocated acc) (ga_contingent alloc))) (\<lambda>contingent.
       Inr (acc\<lparr>
         ac_obligations_consumed := saturating_sub (ac_obligations_consumed acc) reserved_guaranteed,
         ac_obligations_idle := idle2,
         ac_obligations_lent := saturating_sub (ac_obligations_lent acc) (ga_borrowed alloc),
         ac_guaranteed_granted := saturating_sub (ac_guaranteed_granted acc) arbitrable_guaranteed,
         ac_discretionary_granted :=
           saturating_sub (ac_discretionary_granted acc) arbitrable_discretionary,
         ac_unallocated := unalloc2,
         ac_emergency_reserve_unused := reserve,
         ac_borrowed_granted := saturating_sub (ac_borrowed_granted acc) (ga_borrowed alloc),
         ac_contingent_granted := saturating_sub (ac_contingent_granted acc) (ga_contingent alloc),
         ac_contingent_unallocated := contingent\<rparr>))))))))"

definition authorized_sum :: "resource_accounting \<Rightarrow> bandwidth result" where
  "authorized_sum acc = fold_res (\<lambda>term authorized. checked_add authorized term)
     [ac_guaranteed_granted acc, ac_discretionary_granted acc, ac_borrowed_granted acc,
      ac_contingent_granted acc] (ac_obligations_consumed acc)"

text \<open>The accounting is passed by reference: the caller sees the changes of a failing call.\<close>

definition apply_grant_retirement ::
  "resource_accounting \<Rightarrow> grant \<Rightarrow> resource_accounting \<times> status" where
  "apply_grant_retirement acc g =
    (case retire_amounts acc g of
       Inl e \<Rightarrow> (acc, Inl e)
     | Inr acc1 \<Rightarrow>
         (case authorized_sum acc1 of
            Inl e \<Rightarrow> (acc1, Inl e)
          | Inr authorized \<Rightarrow>
              (let acc2 = acc1\<lparr>ac_authorized_consumption := authorized\<rparr> in
               if accounting_validate acc2 \<noteq> [] then (acc2, fail EC_AccountingInvariantViolation)
               else (acc2, success))))"

section \<open>The identities of a consistent accounting\<close>

text \<open>Identities (i) to (viii) of \<open>accounting.hpp\<close>, as equations.\<close>

definition pools_close :: "resource_accounting \<Rightarrow> bool" where
  "pools_close a \<longleftrightarrow>
    (if ac_evidence a = EV_Known then
       ac_effective_physical a + ac_capacity_deficit a = ac_obligations_reserved a + ac_allocatable a \<and>
       ac_allocatable a = ac_emergency_reserve a + ac_headroom a + ac_arbitrable a \<and>
       ac_allocatable a = ac_emergency_reserve_unused a + ac_headroom a + ac_guaranteed_granted a +
         ac_discretionary_granted a + ac_unallocated a \<and>
       ac_emergency_reserve_unused a \<le> ac_emergency_reserve a \<and>
       ac_effective_physical a + ac_capacity_deficit a \<le> kMaxBitsPerSecond
     else
       ac_emergency_reserve a = 0 \<and> ac_effective_physical a = 0 \<and> ac_allocatable a = 0 \<and>
       ac_arbitrable a = 0 \<and> ac_authorized_consumption a = 0)"

definition grants_close :: "resource_accounting \<Rightarrow> bool" where
  "grants_close a \<longleftrightarrow>
    ac_obligations_reserved a = ac_obligations_consumed a + ac_obligations_lent a + ac_obligations_idle a \<and>
    ac_contingent_pool a = ac_contingent_granted a + ac_contingent_unallocated a \<and>
    ac_borrowed_granted a = ac_obligations_lent a \<and>
    ac_authorized_consumption a = ac_obligations_consumed a + ac_guaranteed_granted a +
      ac_discretionary_granted a + ac_borrowed_granted a + ac_contingent_granted a \<and>
    ac_authorized_consumption a \<le> ac_effective_physical a + ac_contingent_pool a \<and>
    ac_obligations_reserved a \<le> kMaxBitsPerSecond \<and>
    ac_effective_physical a + ac_contingent_pool a \<le> kMaxBitsPerSecond"

lemma check_equality_Nil [simp]: "check_equality n l r = [] \<longleftrightarrow> l = r"
  by (simp add: check_equality_def)

lemma check_not_greater_Nil [simp]: "check_not_greater n l r = [] \<longleftrightarrow> l \<le> r"
  by (simp add: check_not_greater_def)

lemma with_sum_Nil:
  "with_sum terms out k = [] \<longleftrightarrow> sum_list terms \<le> kMaxBitsPerSecond \<and> k (sum_list terms) = []"
proof (cases "sum_list terms \<le> kMaxBitsPerSecond")
  case True
  then have "bw_sum terms = Inr (sum_list terms)" by (simp add: bw_sum_eq_Inr)
  with True show ?thesis by (simp add: with_sum_def)
next
  case False
  then have "bw_sum terms \<noteq> Inr s" for s by (simp add: bw_sum_eq_Inr)
  with False show ?thesis by (cases "bw_sum terms") (auto simp: with_sum_def)
qed

lemma validate_tail_Nil: "validate_tail a out = [] \<longleftrightarrow> out = [] \<and> grants_close a"
  by (auto simp: validate_tail_def with_sum_Nil grants_close_def Let_def)

text \<open>
  \<open>validate()\<close> reports nothing exactly when the capacity decomposition closes: the identities
  hold and none of their sums leaves the representable range.
\<close>

lemma accounting_consistent_iff: "accounting_consistent a \<longleftrightarrow> pools_close a \<and> grants_close a"
  by (auto simp: accounting_consistent_def accounting_validate_def with_sum_Nil validate_tail_Nil
      pools_close_def Let_def)

lemma consistent_no_oversubscription:
  "accounting_consistent a \<Longrightarrow>
    ac_authorized_consumption a \<le> ac_effective_physical a + ac_contingent_pool a"
  by (simp add: accounting_consistent_iff grants_close_def)

lemma consistent_unknown_authorises_nothing:
  "accounting_consistent a \<Longrightarrow> ac_evidence a \<noteq> EV_Known \<Longrightarrow> ac_authorized_consumption a = 0"
  by (simp add: accounting_consistent_iff pools_close_def)

section \<open>Retirement\<close>

text \<open>
  The contribution of a grant to the accounting of its target, split by funding: what came
  from an obligation, from the emergency reserve, and from arbitrable capacity.
\<close>

definition grant_counted :: "resource_accounting \<Rightarrow> grant \<Rightarrow> bool" where
  "grant_counted acc g \<longleftrightarrow>
    (let a = gr_allocation g in
     gr_obligation_backed g \<le> ga_guaranteed a \<and>
     gr_obligation_backed g + gr_reserve_backed g \<le> ga_guaranteed a + ga_discretionary a \<and>
     gr_obligation_backed g \<le> ac_obligations_consumed acc \<and>
     ga_guaranteed a \<le> ac_guaranteed_granted acc + gr_obligation_backed g \<and>
     ga_discretionary a \<le> ac_discretionary_granted acc \<and>
     ga_borrowed a \<le> ac_borrowed_granted acc \<and>
     ga_contingent a \<le> ac_contingent_granted acc \<and>
     ac_emergency_reserve_unused acc + gr_reserve_backed g \<le> ac_emergency_reserve acc)"

lemma apply_retirement_success:
  "apply_grant_retirement acc g = (acc', success) \<Longrightarrow> accounting_consistent acc'"
  by (auto simp: apply_grant_retirement_def accounting_consistent_def Let_def
      split: sum.splits if_splits)

text \<open>The amounts a retirement moves, in closed form.\<close>

lemma retire_amounts_eval:
  assumes cons: "accounting_consistent acc" and known: "ac_evidence acc = EV_Known"
    and counted: "grant_counted acc g"
  obtains ag ad acc1 where "retire_amounts acc g = Inr acc1"
    and "ac_obligations_consumed acc1 + gr_obligation_backed g = ac_obligations_consumed acc"
      "ac_obligations_idle acc1 = ac_obligations_idle acc + gr_obligation_backed g + ga_borrowed (gr_allocation g)"
      "ac_obligations_lent acc1 + ga_borrowed (gr_allocation g) = ac_obligations_lent acc"
      "ac_guaranteed_granted acc1 + ag = ac_guaranteed_granted acc"
      "ac_discretionary_granted acc1 + ad = ac_discretionary_granted acc"
      "ac_unallocated acc1 = ac_unallocated acc + ag + ad"
      "ac_emergency_reserve_unused acc1 = ac_emergency_reserve_unused acc + gr_reserve_backed g"
      "ac_borrowed_granted acc1 + ga_borrowed (gr_allocation g) = ac_borrowed_granted acc"
      "ac_contingent_granted acc1 + ga_contingent (gr_allocation g) = ac_contingent_granted acc"
      "ac_contingent_unallocated acc1 = ac_contingent_unallocated acc + ga_contingent (gr_allocation g)"
    and "ac_evidence acc1 = EV_Known" "ac_effective_physical acc1 = ac_effective_physical acc"
      "ac_capacity_deficit acc1 = ac_capacity_deficit acc" "ac_target acc1 = ac_target acc"
      "ac_obligations_reserved acc1 = ac_obligations_reserved acc"
      "ac_allocatable acc1 = ac_allocatable acc" "ac_emergency_reserve acc1 = ac_emergency_reserve acc"
      "ac_headroom acc1 = ac_headroom acc" "ac_arbitrable acc1 = ac_arbitrable acc"
      "ac_contingent_pool acc1 = ac_contingent_pool acc"
    and "gr_obligation_backed g + gr_reserve_backed g + ag + ad =
        ga_guaranteed (gr_allocation g) + ga_discretionary (gr_allocation g)"
proof -
  let ?G = "ga_guaranteed (gr_allocation g)" and ?D = "ga_discretionary (gr_allocation g)"
  let ?O = "gr_obligation_backed g" and ?R = "gr_reserve_backed g"
  define rin where "rin = min ?R (?G - ?O)"
  define ag where "ag = ?G - ?O - rin"
  define ad where "ad = ?D - (?R - rin)"
  note c = counted [unfolded grant_counted_def Let_def]
  have k: "pools_close acc" "grants_close acc" using cons by (simp_all add: accounting_consistent_iff)
  note k' = k(1) [unfolded pools_close_def known, simplified] k(2) [unfolded grants_close_def]
  have min_O: "min ?O ?G = ?O" using c by simp
  have rin: "rin \<le> ?R" "rin + ?O \<le> ?G" "?R - rin \<le> ?D"
    using c by (auto simp: rin_def min_def)
  have sum: "?O + ?R + ag + ad = ?G + ?D" and le: "ag + ?O \<le> ?G" "ad \<le> ?D"
    using rin by (simp_all add: ag_def ad_def)
  then have ag: "ag \<le> ac_guaranteed_granted acc" and ad: "ad \<le> ac_discretionary_granted acc"
    using c by linarith+
  have bounds: "ac_obligations_idle acc + ?O + ga_borrowed (gr_allocation g) \<le> kMaxBitsPerSecond"
    "ac_unallocated acc + ag + ad \<le> kMaxBitsPerSecond"
    "ac_emergency_reserve_unused acc + ?R \<le> kMaxBitsPerSecond"
    "ac_contingent_unallocated acc + ga_contingent (gr_allocation g) \<le> kMaxBitsPerSecond"
    using c k' ag ad by linarith+
  let ?acc1 = "acc\<lparr>
        ac_obligations_consumed := ac_obligations_consumed acc - ?O,
        ac_obligations_idle := ac_obligations_idle acc + ?O + ga_borrowed (gr_allocation g),
        ac_obligations_lent := ac_obligations_lent acc - ga_borrowed (gr_allocation g),
        ac_guaranteed_granted := ac_guaranteed_granted acc - ag,
        ac_discretionary_granted := ac_discretionary_granted acc - ad,
        ac_unallocated := ac_unallocated acc + ag + ad,
        ac_emergency_reserve_unused := ac_emergency_reserve_unused acc + ?R,
        ac_borrowed_granted := ac_borrowed_granted acc - ga_borrowed (gr_allocation g),
        ac_contingent_granted := ac_contingent_granted acc - ga_contingent (gr_allocation g),
        ac_contingent_unallocated := ac_contingent_unallocated acc + ga_contingent (gr_allocation g)\<rparr>"
  have eval: "retire_amounts acc g = Inr ?acc1"
    using bounds
    unfolding retire_amounts_def Let_def saturating_sub_eq bw_min_eq min_O rin_def [symmetric]
      ag_def [symmetric] ad_def [symmetric]
    by simp
  have counts: "?O \<le> ac_obligations_consumed acc" "ga_borrowed (gr_allocation g) \<le> ac_borrowed_granted acc"
    "ga_borrowed (gr_allocation g) \<le> ac_obligations_lent acc"
    "ga_contingent (gr_allocation g) \<le> ac_contingent_granted acc"
    using c k' by simp_all
  show ?thesis
    by (rule that [OF eval]) (use counts ag ad known in simp_all, use sum in simp)
qed

lemma retirement_known:
  assumes cons: "accounting_consistent acc" and known: "ac_evidence acc = EV_Known"
    and counted: "grant_counted acc g"
  shows "\<exists>acc'. apply_grant_retirement acc g =
      (acc', if gr_reserve_backed g = 0 then success else fail EC_AccountingInvariantViolation) \<and>
    ac_authorized_consumption acc' + ga_sum (gr_allocation g) =
      ac_authorized_consumption acc + gr_reserve_backed g \<and>
    ac_effective_physical acc' = ac_effective_physical acc \<and> ac_target acc' = ac_target acc"
proof -
  note c = counted [unfolded grant_counted_def Let_def]
  have k: "pools_close acc" "grants_close acc" using cons by (simp_all add: accounting_consistent_iff)
  note k' = k(1) [unfolded pools_close_def known, simplified] k(2) [unfolded grants_close_def]
  obtain ag ad acc1 where acc1: "retire_amounts acc g = Inr acc1"
    and v: "ac_obligations_consumed acc1 + gr_obligation_backed g = ac_obligations_consumed acc"
      "ac_obligations_idle acc1 = ac_obligations_idle acc + gr_obligation_backed g + ga_borrowed (gr_allocation g)"
      "ac_obligations_lent acc1 + ga_borrowed (gr_allocation g) = ac_obligations_lent acc"
      "ac_guaranteed_granted acc1 + ag = ac_guaranteed_granted acc"
      "ac_discretionary_granted acc1 + ad = ac_discretionary_granted acc"
      "ac_unallocated acc1 = ac_unallocated acc + ag + ad"
      "ac_emergency_reserve_unused acc1 = ac_emergency_reserve_unused acc + gr_reserve_backed g"
      "ac_borrowed_granted acc1 + ga_borrowed (gr_allocation g) = ac_borrowed_granted acc"
      "ac_contingent_granted acc1 + ga_contingent (gr_allocation g) = ac_contingent_granted acc"
      "ac_contingent_unallocated acc1 = ac_contingent_unallocated acc + ga_contingent (gr_allocation g)"
    and same: "ac_evidence acc1 = EV_Known" "ac_effective_physical acc1 = ac_effective_physical acc"
      "ac_capacity_deficit acc1 = ac_capacity_deficit acc" "ac_target acc1 = ac_target acc"
      "ac_obligations_reserved acc1 = ac_obligations_reserved acc"
      "ac_allocatable acc1 = ac_allocatable acc" "ac_emergency_reserve acc1 = ac_emergency_reserve acc"
      "ac_headroom acc1 = ac_headroom acc" "ac_arbitrable acc1 = ac_arbitrable acc"
      "ac_contingent_pool acc1 = ac_contingent_pool acc"
    and amounts: "gr_obligation_backed g + gr_reserve_backed g + ag + ad =
        ga_guaranteed (gr_allocation g) + ga_discretionary (gr_allocation g)"
    by (rule retire_amounts_eval [OF assms])
  let ?sum = "ac_obligations_consumed acc1 + ac_guaranteed_granted acc1 + ac_discretionary_granted acc1 +
    ac_borrowed_granted acc1 + ac_contingent_granted acc1"
  let ?acc2 = "acc1\<lparr>ac_authorized_consumption := ?sum\<rparr>"
  have exact: "?sum + ga_sum (gr_allocation g) = ac_authorized_consumption acc + gr_reserve_backed g"
    using k' v amounts by linarith
  have small: "?sum \<le> kMaxBitsPerSecond"
    using k' v by linarith
  have auth: "authorized_sum acc1 = Inr ?sum" using small by (simp add: authorized_sum_def)
  have "ac_obligations_reserved acc1 =
      ac_obligations_consumed acc1 + ac_obligations_lent acc1 + ac_obligations_idle acc1"
    "ac_contingent_pool acc1 = ac_contingent_granted acc1 + ac_contingent_unallocated acc1"
    "ac_borrowed_granted acc1 = ac_obligations_lent acc1"
    "?sum \<le> ac_effective_physical acc1 + ac_contingent_pool acc1"
    using k' v same by linarith+
  then have grants: "grants_close ?acc2" using k' by (simp add: grants_close_def same)
  have "ac_allocatable acc1 = ac_emergency_reserve_unused acc1 + ac_headroom acc1 +
      ac_guaranteed_granted acc1 + ac_discretionary_granted acc1 + ac_unallocated acc1 \<longleftrightarrow>
      gr_reserve_backed g = 0"
    "ac_emergency_reserve_unused acc1 \<le> ac_emergency_reserve acc1"
    using c k' v same by linarith+
  then have pools: "pools_close ?acc2 \<longleftrightarrow> gr_reserve_backed g = 0"
    using k' same by (simp add: pools_close_def)
  have "accounting_validate ?acc2 = [] \<longleftrightarrow> gr_reserve_backed g = 0"
    using accounting_consistent_iff [of ?acc2] pools grants by (simp add: accounting_consistent_def)
  then have "apply_grant_retirement acc g =
      (?acc2, if gr_reserve_backed g = 0 then success else fail EC_AccountingInvariantViolation)"
    by (simp add: apply_grant_retirement_def acc1 auth Let_def)
  with exact same show ?thesis by (intro exI [of _ ?acc2]) simp
qed

end
