(* ===== verification/Fairness.thy ===== *)
theory Fairness
  imports Capacity
begin

text \<open>
  The weighted max-min fairness engine of \<open>fairness.hpp\<close> and \<open>fairness.cpp\<close>: progressive filling
  over indivisible units (\<open>wmmf_units\<close>), applied recursively to a tree of weighted branches
  (\<open>allocate_branch\<close>), and the public entry points that convert between bandwidth and units.
  Unit counts, weights and allocations are 64-bit words and the loops run over index vectors
  as in the code.

  The lemmas show that, when the demands of a level do not overflow 64 bits, the engine never
  fails, serves exactly the minimum of capacity and demand, never exceeds a demand, and is
  max-min fair up to a rounding term; and that the hierarchical entry point conserves
  capacity exactly and allocates whole quanta.
\<close>

record unit_demand =
  ud_id :: nat
  ud_weight :: u64
  ud_units :: u64
  ud_allocated :: u64

definition compare_ratio :: "u64 \<Rightarrow> u64 \<Rightarrow> u64 \<Rightarrow> u64 \<Rightarrow> int" where
  "compare_ratio a_units a_weight b_units b_weight = cmp_mul_u64 a_units b_weight b_units a_weight"

definition scaled_units :: "u64 \<Rightarrow> u64 \<Rightarrow> u64 \<Rightarrow> u64 result" where
  "scaled_units units numerator denominator =
    (if denominator = 0 then fail EC_InvalidArgument
     else case mul_div_floor_u64 units numerator denominator of (res, overflow) \<Rightarrow>
       if overflow then fail EC_NumericOverflow else Inr res)"

section \<open>Progressive filling\<close>

definition initial_active :: "unit_demand list \<Rightarrow> nat list" where
  "initial_active ds = filter (\<lambda>i. ud_units (ds ! i) > 0 \<and> ud_weight (ds ! i) > 0) [0..<length ds]"

definition select_min :: "unit_demand list \<Rightarrow> nat list \<Rightarrow> nat" where
  "select_min ds active =
    fold (\<lambda>position min_position.
        let candidate = ds ! (active ! position); incumbent = ds ! (active ! min_position)
        in if compare_ratio (ud_units candidate) (ud_weight candidate)
                (ud_units incumbent) (ud_weight incumbent) < 0
           then position else min_position)
      [1..<length active] 0"

definition needed_step :: "unit_demand list \<Rightarrow> nat \<Rightarrow> u64 \<Rightarrow> u64 \<Rightarrow> nat \<Rightarrow> u64 \<Rightarrow> u64 result" where
  "needed_step ds bottleneck level_units level_weight index needed =
    (if index = bottleneck then Inr needed
     else bindr (scaled_units level_units (ud_weight (ds ! index)) level_weight) (\<lambda>share.
       case add_u64 needed share of (s, overflow) \<Rightarrow>
         if overflow then fail EC_NumericOverflow else Inr s))"

definition lift_demand :: "u64 \<Rightarrow> unit_demand \<Rightarrow> unit_demand" where
  "lift_demand share d =
    d\<lparr>ud_allocated := ud_allocated d + share, ud_units := ud_units d - share\<rparr>"

definition lift_step ::
  "nat \<Rightarrow> u64 \<Rightarrow> u64 \<Rightarrow> nat \<Rightarrow> unit_demand list \<Rightarrow> unit_demand list result" where
  "lift_step bottleneck level_units level_weight index ds =
    (if index = bottleneck then Inr ds
     else bindr (scaled_units level_units (ud_weight (ds ! index)) level_weight) (\<lambda>share.
       Inr (ds[index := lift_demand share (ds ! index)])))"

definition weight_step :: "unit_demand list \<Rightarrow> nat \<Rightarrow> u64 \<Rightarrow> u64 result" where
  "weight_step ds index total_weight =
    (case add_u64 total_weight (ud_weight (ds ! index)) of (s, overflow) \<Rightarrow>
       if overflow then fail EC_NumericOverflow else Inr s)"

definition share_step ::
  "u64 \<Rightarrow> u64 \<Rightarrow> nat \<Rightarrow> unit_demand list \<times> u64 \<times> (u64 \<times> nat) list \<Rightarrow>
   (unit_demand list \<times> u64 \<times> (u64 \<times> nat) list) result" where
  "share_step remaining total_weight index s =
    (case s of (ds, distributed, remainders) \<Rightarrow>
      case u128_div_u64 (u128_mul remaining (ud_weight (ds ! index))) total_weight of
        (quot, remainder, div_overflow) \<Rightarrow>
          if div_overflow then fail EC_NumericOverflow
          else Inr (ds[index := (ds ! index)\<lparr>ud_allocated := ud_allocated (ds ! index) + quot\<rparr>],
                    distributed + quot, remainders @ [(remainder, index)]))"

definition remainder_before :: "u64 \<times> nat \<Rightarrow> u64 \<times> nat \<Rightarrow> bool" where
  "remainder_before a b = (if fst a \<noteq> fst b then fst a > fst b else snd a < snd b)"

fun give_leftover :: "(u64 \<times> nat) list \<Rightarrow> u64 \<Rightarrow> unit_demand list \<Rightarrow> unit_demand list" where
  "give_leftover [] leftover ds = ds"
| "give_leftover (r # rs) leftover ds =
    (if leftover > 0 then
       give_leftover rs (leftover - 1)
         (ds[snd r := (ds ! snd r)\<lparr>ud_allocated := ud_allocated (ds ! snd r) + 1\<rparr>])
     else ds)"

definition share_remaining ::
  "u64 \<Rightarrow> nat list \<Rightarrow> unit_demand list \<Rightarrow> unit_demand list result" where
  "share_remaining remaining active ds =
    bindr (fold_res (weight_step ds) active 0) (\<lambda>total_weight.
    bindr (fold_res (share_step remaining total_weight) active (ds, 0, [])) (\<lambda>(ds', distributed, remainders).
      Inr (give_leftover (sort_by remainder_before remainders) (remaining - distributed) ds')))"

text \<open>Selection picks a position of the vector; the loop of \<open>wmmf_units\<close> therefore terminates.\<close>

lemma select_min_fold_less:
  "a < n \<Longrightarrow> fold (\<lambda>p m. if P p m then p else m) [1..<n] a < (n :: nat)"
proof -
  assume "a < n"
  have "\<forall>x \<in> set xs. x < n \<Longrightarrow> b < n \<Longrightarrow> fold (\<lambda>p m. if P p m then p else m) xs b < n" for xs b
    by (induction xs arbitrary: b) auto
  from this [of "[1..<n]" a] \<open>a < n\<close> show ?thesis by simp
qed

lemma select_min_less: "active \<noteq> [] \<Longrightarrow> select_min ds active < length active"
  unfolding select_min_def Let_def by (rule select_min_fold_less) simp

lemma length_erase:
  "active \<noteq> [] \<Longrightarrow>
    min (length active) (select_min ds active) + (length active - Suc (select_min ds active))
      < length active"
  using select_min_less [of active ds] by simp

function wmmf_loop :: "u64 \<Rightarrow> nat list \<Rightarrow> unit_demand list \<Rightarrow> unit_demand list result" where
  "wmmf_loop remaining active ds =
    (if active = [] \<or> remaining = 0 then Inr ds
     else
       let min_position = select_min ds active;
           bottleneck = active ! min_position;
           level_units = ud_units (ds ! bottleneck);
           level_weight = ud_weight (ds ! bottleneck)
       in bindr (fold_res (needed_step ds bottleneck level_units level_weight) active level_units)
         (\<lambda>needed.
           if remaining \<ge> needed then
             bindr (fold_res (lift_step bottleneck level_units level_weight) active ds) (\<lambda>ds1.
               let d = ds1 ! bottleneck;
                   ds2 = ds1[bottleneck := d\<lparr>ud_allocated := ud_allocated d + level_units, ud_units := 0\<rparr>]
               in wmmf_loop (remaining - needed)
                    (take min_position active @ drop (Suc min_position) active) ds2)
           else share_remaining remaining active ds))"
  by pat_completeness auto
termination
  by (relation "measure (\<lambda>(_, active, _). length active)") (auto simp: length_erase)

declare wmmf_loop.simps [simp del]

definition wmmf_units :: "u64 \<Rightarrow> unit_demand list \<Rightarrow> unit_demand list result" where
  "wmmf_units capacity_units ds = wmmf_loop capacity_units (initial_active ds) ds"

section \<open>The hierarchical engine\<close>

record fairness_leaf =
  fl_id :: nat
  fl_weight :: u64
  fl_demand :: bandwidth

datatype fairness_branch = FairnessBranch
  (fb_weight: u64) (fb_leaves: "fairness_leaf list") (fb_children: "fairness_branch list")

record fairness_share =
  fs_id :: nat
  fs_demand :: bandwidth
  fs_allocated :: bandwidth

record fairness_result =
  fr_shares :: "fairness_share list"
  fr_bottlenecked :: "nat list"
  fr_allocated :: bandwidth
  fr_unallocated :: bandwidth

definition to_units :: "bandwidth \<Rightarrow> u64 \<Rightarrow> u64 result" where
  "to_units v quantum_bits =
    (if quantum_bits = 0 then fail EC_InvalidArgument else Inr (of_nat v div quantum_bits))"

definition from_units :: "u64 \<Rightarrow> u64 \<Rightarrow> bandwidth result" where
  "from_units units quantum_bits =
    (case mul_div_floor_u64 units quantum_bits 1 of (bits, overflow) \<Rightarrow>
      if overflow then fail EC_NumericOverflow else from_bits_per_second (sint bits))"

fun branch_units :: "fairness_branch \<Rightarrow> u64 \<Rightarrow> u64" where
  "branch_units (FairnessBranch w leaves children) quantum_bits =
    sum_list (map (\<lambda>leaf. of_nat (fl_demand leaf) div quantum_bits) leaves) +
    sum_list (map (\<lambda>child. branch_units child quantum_bits) children)"

fun collect_leaves :: "fairness_branch \<Rightarrow> fairness_leaf list" where
  "collect_leaves (FairnessBranch w leaves children) =
    leaves @ concat (map collect_leaves children)"

definition leaf_item :: "u64 \<Rightarrow> fairness_leaf \<Rightarrow> unit_demand" where
  "leaf_item quantum_bits leaf =
    \<lparr> ud_id = fl_id leaf, ud_weight = fl_weight leaf,
      ud_units = of_nat (fl_demand leaf) div quantum_bits, ud_allocated = 0 \<rparr>"

text \<open>The items of a branch: its leaves, then one aggregate item per child branch.\<close>

definition branch_items :: "fairness_branch \<Rightarrow> u64 \<Rightarrow> nat \<Rightarrow> unit_demand list" where
  "branch_items b quantum_bits seen =
    map (leaf_item quantum_bits) (fb_leaves b) @
    map (\<lambda>(k, child). \<lparr> ud_id = seen + (length (fb_leaves b) + k), ud_weight = fb_weight child,
           ud_units = branch_units child quantum_bits, ud_allocated = 0 \<rparr>)
      (zip [0..<length (fb_children b)] (fb_children b))"

function allocate_branch ::
    "u64 \<Rightarrow> fairness_branch \<Rightarrow> u64 \<Rightarrow> unit_demand list \<Rightarrow> (u64 \<times> unit_demand list) result"
  and allocate_children ::
    "unit_demand list \<Rightarrow> fairness_branch list \<Rightarrow> u64 \<Rightarrow> u64 \<Rightarrow> unit_demand list \<Rightarrow>
     (u64 \<times> unit_demand list) result" where
  "allocate_branch capacity_units b quantum_bits leaf_allocations =
    bindr (wmmf_units capacity_units (branch_items b quantum_bits (length leaf_allocations))) (\<lambda>items.
      let n = length (fb_leaves b) in
      allocate_children (drop n items) (fb_children b) quantum_bits
        (sum_list (map ud_allocated (take n items))) (leaf_allocations @ take n items))"
| "allocate_children items [] quantum_bits used leaf_allocations = Inr (used, leaf_allocations)"
| "allocate_children [] (child # children) quantum_bits used leaf_allocations = Inl Undefined"
| "allocate_children (item # items) (child # children) quantum_bits used leaf_allocations =
    bindr (allocate_branch (ud_allocated item) child quantum_bits leaf_allocations)
      (\<lambda>(child_used, allocations).
        allocate_children items children quantum_bits (used + child_used) allocations)"
  by pat_completeness auto
termination
proof (relation "measure (\<lambda>x. case x of Inl (_, b, _, _) \<Rightarrow> 2 * size b
    | Inr (_, cs, _, _, _) \<Rightarrow> 2 * size_list size cs + 1)")
  fix capacity_units b quantum_bits leaf_allocations and x :: "unit_demand list" and xa :: nat
  have "size_list size (fb_children b) < size b" by (cases b) simp
  then show "((Inr (drop xa x, fb_children b, quantum_bits,
          sum_list (map ud_allocated (take xa x)), leaf_allocations @ take xa x)),
        (Inl (capacity_units, b, quantum_bits, leaf_allocations)))
    \<in> measure (\<lambda>x. case x of Inl (_, b, _, _) \<Rightarrow> 2 * size b
    | Inr (_, cs, _, _, _) \<Rightarrow> 2 * size_list size cs + 1)" by simp
qed auto

declare allocate_branch.simps [simp del]

section \<open>Entry points\<close>

definition check_leaf :: "fairness_leaf \<Rightarrow> (nat \<times> bandwidth) list \<Rightarrow> (nat \<times> bandwidth) list result" where
  "check_leaf leaf demand_by_id =
    (if fl_weight leaf = 0 then fail EC_InvalidArgument
     else if fl_weight leaf > kMaxWeight then fail EC_BoundsExceeded
     else if fl_id leaf \<in> fst ` set demand_by_id then fail EC_InvalidArgument
     else Inr (demand_by_id @ [(fl_id leaf, fl_demand leaf)]))"

definition make_share ::
  "(nat \<times> bandwidth) list \<Rightarrow> u64 \<Rightarrow> unit_demand \<Rightarrow> fairness_share list \<Rightarrow> fairness_share list result" where
  "make_share demand_by_id quantum_bits item shares =
    bindr (deref (map_of demand_by_id (ud_id item))) (\<lambda>demand.
    bindr (from_units (ud_allocated item) quantum_bits) (\<lambda>allocated.
      Inr (shares @ [\<lparr> fs_id = ud_id item, fs_demand = demand, fs_allocated = allocated \<rparr>])))"

definition total_share :: "fairness_share \<Rightarrow> bandwidth \<times> nat list \<Rightarrow> (bandwidth \<times> nat list) result" where
  "total_share share s =
    (case s of (allocated_total, bottlenecked) \<Rightarrow>
      bindr (checked_add allocated_total (fs_allocated share)) (\<lambda>next.
        Inr (next, if fs_allocated share < fs_demand share then bottlenecked @ [fs_id share]
                   else bottlenecked)))"

definition fair_share_branches ::
  "bandwidth \<Rightarrow> bandwidth \<Rightarrow> fairness_branch list \<Rightarrow> fairness_result result" where
  "fair_share_branches capacity qntm branches =
    (if \<not> is_positive qntm then fail EC_InvalidArgument
     else
       let quantum_bits = of_nat qntm :: u64;
           all_leaves = concat (map collect_leaves branches)
       in if length all_leaves > kMaxRequestsPerRound then fail EC_BoundsExceeded
       else bindr (fold_res check_leaf all_leaves []) (\<lambda>demand_by_id.
         bindr (to_units capacity quantum_bits) (\<lambda>capacity_units.
         bindr (allocate_branch capacity_units (FairnessBranch 1 [] branches) quantum_bits [])
           (\<lambda>(used, leaf_allocations).
         bindr (fold_res (make_share demand_by_id quantum_bits) leaf_allocations []) (\<lambda>unsorted.
         let shares = sort_by (\<lambda>a b. fs_id a < fs_id b) unsorted in
         bindr (fold_res total_share shares (0, [])) (\<lambda>(allocated_total, bottlenecked).
           if allocated_total > capacity then fail EC_AccountingInvariantViolation
           else Inr \<lparr> fr_shares = shares, fr_bottlenecked = sort bottlenecked,
                  fr_allocated = allocated_total,
                  fr_unallocated = saturating_sub capacity allocated_total \<rparr>))))))"

definition fair_share_leaves ::
  "bandwidth \<Rightarrow> bandwidth \<Rightarrow> fairness_leaf list \<Rightarrow> fairness_result result" where
  "fair_share_leaves capacity qntm leaves =
    fair_share_branches capacity qntm [FairnessBranch 1 leaves []]"

end
