(* ===== verification/Arbitrator.thy ===== *)
theory Arbitrator
  imports Accounting Fairness
begin

text \<open>
  The arbitration engine (\<open>arbitrator.hpp\<close>, \<open>arbitrator.cpp\<close>): one round for one capacity
  target.  \<open>arbitrate\<close> is split into its phases, in the order of the source; each phase is a
  definition, and the mutable locals of the C++ function are threaded through \<open>arb_state\<close>.

  \<^item> A: authority validation of every candidate (\<open>admit_item\<close>);
  \<^item> B, C: capacity evidence and pools (\<open>arb_physical\<close>, \<open>arb_pools_of\<close>);
  \<^item> D: canonical order and group budgets (\<open>arb_order\<close>, \<open>budget_step\<close>);
  \<^item> E: guaranteed minima (\<open>guarantee_step\<close>);
  \<^item> F: discretionary passes (\<open>arb_pass\<close>), G: borrowing, H: contingent capacity;
  \<^item> I: accounting (\<open>assemble_accounting\<close>);
  \<^item> J: decisions and grants (\<open>make_decision\<close>).

  A pointer into the input is the value it points to, or \<open>None\<close> for the null pointer of a
  refused candidate.  The texts \<open>binding_reason\<close> and \<open>authority_mismatch\<close> never influence a
  decision and are left out, as is the \<open>denied\<close> member of \<open>WorkItem\<close>, which nothing uses.
\<close>

section \<open>Data\<close>

record arbitration_candidate =
  cn_request :: bandwidth_request
  cn_wait_rounds :: u64
  cn_existing_grant :: "grant option"

record arbitration_input =
  ai_target :: capacity_target
  ai_snapshot :: capacity_snapshot
  ai_policy :: policy
  ai_obligations :: "obligation list"
  ai_candidates :: "arbitration_candidate list"
  ai_fenced_boots :: "boot_id list"
  ai_epoch :: ident
  ai_coordinator :: ident
  ai_tick :: u64
  ai_decision :: ident
  ai_next_grant_id :: u64
  ai_next_recall_id :: u64

record arbitration_decision =
  ad_request :: ident
  ad_request_generation :: generation
  ad_state :: grant_state
  ad_reason :: outcome_reason
  ad_allocation :: grant_allocation
  ad_requested_minimum :: bandwidth
  ad_requested_desired :: bandwidth
  ad_requested_maximum :: bandwidth
  ad_denied :: bandwidth
  ad_unmet_minimum :: bandwidth
  ad_satisfied :: bool
  ad_waiting :: bool
  ad_refused :: bool
  ad_starvation_promoted :: bool
  ad_next_wait_rounds :: u64
  ad_effective_rank :: u32
  ad_effective_weight :: u64
  ad_grant :: "grant option"
  ad_previous_grant :: "grant option"
  ad_recall :: "recall_record option"

record arbitration_outcome =
  ao_decision :: ident
  ao_target :: capacity_target
  ao_epoch :: ident
  ao_coordinator :: ident
  ao_policy :: ident
  ao_policy_generation :: generation
  ao_tick :: u64
  ao_accounting :: resource_accounting
  ao_decisions :: "arbitration_decision list"
  ao_next_grant_id :: u64
  ao_next_recall_id :: u64

record work_item =
  wi_candidate_index :: nat
  wi_request :: bandwidth_request
  wi_priority_class :: "priority_class option"
  wi_group :: "fairness_group_config option"
  wi_effective_rank :: u32
  wi_effective_weight :: u64
  wi_starvation_promoted :: bool
  wi_admitted :: bool
  wi_refused :: bool
  wi_capacity_unavailable :: bool
  wi_reason :: outcome_reason
  wi_allocation :: grant_allocation
  wi_obligation_guaranteed :: bandwidth
  wi_reserve_allocated :: bandwidth
  wi_residual :: bandwidth
  wi_unmet_minimum :: bandwidth

record run_state =
  rs_quantum :: bandwidth
  rs_unlimited :: bandwidth
  rs_items :: "work_item list"
  rs_group_cap :: "(ident, bandwidth) omap"
  rs_group_allocated :: "(ident, bandwidth) omap"
  rs_group_weight :: "(ident, u64) omap"

section \<open>Run state operations\<close>

definition om_get :: "'v \<Rightarrow> ('k, 'v) omap \<Rightarrow> 'k \<Rightarrow> 'v" where
  "om_get d m k = (case om_find m k of None \<Rightarrow> d | Some v \<Rightarrow> v)"

definition remaining_budget :: "run_state \<Rightarrow> ident \<Rightarrow> bandwidth" where
  "remaining_budget run g =
    (case om_find (rs_group_cap run) g of
       None \<Rightarrow> rs_unlimited run
     | Some cap \<Rightarrow> saturating_sub cap (om_get 0 (rs_group_allocated run) g))"

definition group_cap_reached :: "run_state \<Rightarrow> ident \<Rightarrow> bool" where
  "group_cap_reached run g = (om_find (rs_group_cap run) g \<noteq> None \<and> is_zero (remaining_budget run g))"

definition add_group_allocated :: "ident \<Rightarrow> bandwidth \<Rightarrow> run_state \<Rightarrow> run_state" where
  "add_group_allocated g amount run =
    (let slot = om_get 0 (rs_group_allocated run) g;
         slot' = (case checked_add slot amount of Inr v \<Rightarrow> v | Inl _ \<Rightarrow> rs_unlimited run)
     in run\<lparr>rs_group_allocated := om_set g slot' (rs_group_allocated run)\<rparr>)"

definition add_allocation ::
  "grant_allocation \<Rightarrow> allocation_kind \<Rightarrow> bandwidth \<Rightarrow> grant_allocation result" where
  "add_allocation a kind amount =
    (case kind of
       AK_Guaranteed \<Rightarrow> bindr (value_of (checked_add (ga_guaranteed a) amount)) (\<lambda>v. Inr (a\<lparr>ga_guaranteed := v\<rparr>))
     | AK_Discretionary \<Rightarrow> bindr (value_of (checked_add (ga_discretionary a) amount)) (\<lambda>v. Inr (a\<lparr>ga_discretionary := v\<rparr>))
     | AK_Borrowed \<Rightarrow> bindr (value_of (checked_add (ga_borrowed a) amount)) (\<lambda>v. Inr (a\<lparr>ga_borrowed := v\<rparr>))
     | AK_Contingent \<Rightarrow> bindr (value_of (checked_add (ga_contingent a) amount)) (\<lambda>v. Inr (a\<lparr>ga_contingent := v\<rparr>))
     | AK_None \<Rightarrow> Inr a)"

definition set_item :: "nat \<Rightarrow> work_item \<Rightarrow> run_state \<Rightarrow> run_state" where
  "set_item i item run = run\<lparr>rs_items := (rs_items run)[i := item]\<rparr>"

definition total_allocation :: "grant_allocation \<Rightarrow> bandwidth" where
  "total_allocation a = (case ga_total a of Inr t \<Rightarrow> t | Inl _ \<Rightarrow> 0)"

definition bucket_leaf ::
  "run_state \<Rightarrow> nat \<Rightarrow> (ident, fairness_leaf list) omap \<Rightarrow> (ident, fairness_leaf list) omap result" where
  "bucket_leaf run index buckets =
    (let item = rs_items run ! index in
     bindr (deref (wi_group item)) (\<lambda>g.
       let demand = bw_min (wi_residual item) (remaining_budget run (fg_id g)) in
       if is_zero demand then Inr buckets
       else Inr (om_set (fg_id g)
              (om_get [] buckets (fg_id g) @
                [\<lparr> fl_id = index, fl_weight = wi_effective_weight item, fl_demand = demand \<rparr>])
              buckets)))"

definition apply_share ::
  "allocation_kind \<Rightarrow> bool \<Rightarrow> fairness_share \<Rightarrow> run_state \<Rightarrow> run_state result" where
  "apply_share kind from_reserve share run =
    (let item = rs_items run ! fs_id share; amount = fs_allocated share in
     bindr (add_allocation (wi_allocation item) kind amount) (\<lambda>allocation.
     bindr (deref (wi_group item)) (\<lambda>g.
       let item1 = item\<lparr>wi_allocation := allocation,
                        wi_residual := saturating_sub (wi_residual item) amount\<rparr> in
       if from_reserve then
         bindr (checked_add (wi_reserve_allocated item) amount) (\<lambda>next.
           Inr (add_group_allocated (fg_id g) amount
                 (set_item (fs_id share) (item1\<lparr>wi_reserve_allocated := next\<rparr>) run)))
       else Inr (add_group_allocated (fg_id g) amount (set_item (fs_id share) item1 run)))))"

definition distribute ::
  "run_state \<Rightarrow> nat list \<Rightarrow> bandwidth \<Rightarrow> allocation_kind \<Rightarrow> bool \<Rightarrow> (run_state \<times> bandwidth) result" where
  "distribute run selection capacity kind from_reserve =
    (if is_zero capacity \<or> selection = [] then Inr (run, 0)
     else bindr (fold_res (bucket_leaf run) selection []) (\<lambda>buckets.
       if buckets = [] then Inr (run, 0)
       else
         let branches = map (\<lambda>(gid, leaves). FairnessBranch (om_get 0 (rs_group_weight run) gid) leaves []) buckets
         in bindr (fair_share_branches capacity (rs_quantum run) branches) (\<lambda>fair.
           bindr (fold_res (apply_share kind from_reserve) (fr_shares fair) run) (\<lambda>run'.
             Inr (run', fr_allocated fair)))))"

section \<open>Input validation\<close>

definition check_obligation :: "capacity_target \<Rightarrow> obligation \<Rightarrow> ident list \<Rightarrow> ident list result" where
  "check_obligation target ob seen =
    bindr (obligation_validate ob) (\<lambda>_.
      if ob_target ob \<noteq> target then fail EC_InvalidArgument
      else if ob_reservation ob \<in> set seen then fail EC_IdentityConflict
      else Inr (ob_reservation ob # seen))"

definition validate_arbitration_input :: "arbitration_input \<Rightarrow> status" where
  "validate_arbitration_input input =
    (let s = ai_snapshot input in
     bindr (target_validate (ai_target input)) (\<lambda>_.
     bindr (snapshot_validate s) (\<lambda>_.
     bindr (policy_validate (ai_policy input)) (\<lambda>_.
       if cs_target s \<noteq> ai_target input then fail EC_InvalidArgument
       else if \<not> valid_id (ai_epoch input) then fail EC_InvalidIdentity
       else if \<not> valid_id (ai_coordinator input) then fail EC_InvalidIdentity
       else if ai_tick input = 0 then fail EC_InvalidArgument
       else if \<not> valid_id (ai_decision input) then fail EC_InvalidIdentity
       else if av_fabric_epoch (cs_authority s) \<noteq> ai_epoch input then fail EC_EpochMismatch
       else if av_coordinator (cs_authority s) \<noteq> ai_coordinator input then fail EC_NotAuthoritative
       else if length (ai_candidates input) > kMaxRequestsPerRound then fail EC_BoundsExceeded
       else if length (ai_obligations input) > kMaxObligationsPerResource then fail EC_BoundsExceeded
       else if length (ai_fenced_boots input) > kMaxBootFenceRecords then fail EC_BoundsExceeded
       else bindr (fold_res (check_obligation (ai_target input)) (ai_obligations input) []) (\<lambda>_. success)))))"

section \<open>Phase A: authority validation\<close>

definition find_obligation :: "obligation list \<Rightarrow> ident \<Rightarrow> obligation option" where
  "find_obligation obs r = find (\<lambda>ob. ob_reservation ob = r) obs"

definition blank_item :: "nat \<Rightarrow> bandwidth_request \<Rightarrow> work_item" where
  "blank_item i request = \<lparr> wi_candidate_index = i, wi_request = request, wi_priority_class = None,
     wi_group = None, wi_effective_rank = 0, wi_effective_weight = 1,
     wi_starvation_promoted = False, wi_admitted = False, wi_refused = False,
     wi_capacity_unavailable = False, wi_reason = OR_None, wi_allocation = no_allocation,
     wi_obligation_guaranteed = 0, wi_reserve_allocated = 0, wi_residual = 0, wi_unmet_minimum = 0 \<rparr>"

definition reject_item :: "outcome_reason \<Rightarrow> work_item \<Rightarrow> work_item" where
  "reject_item reason item = item\<lparr>wi_admitted := False, wi_refused := True, wi_reason := reason\<rparr>"

text \<open>The checks after the identity is recorded, for a structurally valid request.\<close>

definition admit_bound :: "arbitration_input \<Rightarrow> bandwidth \<Rightarrow> arbitration_candidate \<Rightarrow> work_item \<Rightarrow> work_item" where
  "admit_bound input qntm candidate item =
    (let request = cn_request candidate; a = rq_authority request; p = ai_policy input in
     if boot_hash (av_publisher_boot a) \<in> set (map boot_hash (ai_fenced_boots input))
       then reject_item OR_RefusedBootFenced item
     else if av_fabric_epoch a \<noteq> ai_epoch input then reject_item OR_RefusedStaleEpoch item
     else if rq_target request \<noteq> ai_target input then reject_item OR_RefusedStaleResourceGeneration item
     else if av_policy a \<noteq> po_id p \<or> av_policy_generation a \<noteq> po_generation p
       then reject_item OR_RefusedStalePolicyGeneration item
     else if av_fairness_config_generation a \<noteq> po_fairness_config_generation p \<or>
             av_tenant_config_generation a \<noteq> po_tenant_config_generation p
       then reject_item OR_RefusedStaleTenantConfig item
     else (case find_class p (rq_priority request) of
         None \<Rightarrow> reject_item OR_RefusedUnknownPriorityClass item
       | Some c \<Rightarrow> (case find_group p (rq_fairness_group request) of
           None \<Rightarrow> reject_item OR_RefusedUnknownFairnessGroup item
         | Some g \<Rightarrow>
             if fg_tenant g \<noteq> rq_tenant request then reject_item OR_RefusedTenantMismatch item
             else if (case rq_reservation request of None \<Rightarrow> False
                      | Some b \<Rightarrow> (case find_obligation (ai_obligations input) (rb_reservation b) of
                          None \<Rightarrow> True | Some ob \<Rightarrow> ob_generation ob \<noteq> rb_generation b))
               then reject_item OR_RefusedStaleReservation item
             else (case effective_rank p (rq_priority request) (cn_wait_rounds candidate) of
                 Inl _ \<Rightarrow> reject_item OR_RefusedUnknownPriorityClass item
               | Inr rank \<Rightarrow> (case effective_class_weight p (rq_priority request) (cn_wait_rounds candidate) of
                   Inl _ \<Rightarrow> reject_item OR_RefusedUnknownPriorityClass item
                 | Inr weight \<Rightarrow>
                     (let item1 = item\<lparr>wi_priority_class := Some c, wi_group := Some g,
                            wi_effective_rank := rank, wi_effective_weight := weight,
                            wi_starvation_promoted :=
                              (promotion_applies p (cn_wait_rounds candidate) \<and> rank > pc_rank c),
                            wi_admitted := True\<rparr>
                      in if is_zero (rq_ceiling request) \<or> rq_ceiling request < qntm
                         then reject_item OR_RefusedBelowQuantum item1 else item1))))))"

definition admit_item ::
  "arbitration_input \<Rightarrow> bandwidth \<Rightarrow> nat \<times> arbitration_candidate \<Rightarrow>
   (ident \<times> generation) list \<Rightarrow> work_item \<times> (ident \<times> generation) list" where
  "admit_item input qntm ic seen =
    (case ic of (i, candidate) \<Rightarrow>
      let request = cn_request candidate; item = blank_item i request;
          identity = (rq_id request, rq_generation request)
      in if \<not> is_ok (request_validate request) then (reject_item OR_RefusedContradictory item, seen)
         else if identity \<in> set seen then (reject_item OR_RefusedDuplicateIdentity item, seen)
         else (admit_bound input qntm candidate item, identity # seen))"

fun admit_all ::
  "arbitration_input \<Rightarrow> bandwidth \<Rightarrow> (nat \<times> arbitration_candidate) list \<Rightarrow>
   (ident \<times> generation) list \<Rightarrow> work_item list" where
  "admit_all input qntm [] seen = []"
| "admit_all input qntm (ic # ics) seen =
    (case admit_item input qntm ic seen of (item, seen') \<Rightarrow>
      item # admit_all input qntm ics seen')"

section \<open>Phases B and C: evidence and pools\<close>

record arb_pools =
  ap_effective_physical :: bandwidth
  ap_obligations_reserved :: bandwidth
  ap_capacity_deficit :: bandwidth
  ap_allocatable :: bandwidth
  ap_emergency_reserve :: bandwidth
  ap_headroom :: bandwidth
  ap_arbitrable :: bandwidth
  ap_contingent_pool :: bandwidth
  ap_borrow_ceiling :: bandwidth

definition arb_physical :: "arbitration_input \<Rightarrow> bandwidth result" where
  "arb_physical input =
    (if is_usable (ai_snapshot input) then effective_physical (ai_snapshot input) else Inr 0)"

definition contingent_pool_of :: "policy \<Rightarrow> bandwidth \<Rightarrow> bandwidth result" where
  "contingent_pool_of p physical =
    (let ov = po_oversubscription p in
     if oversubscription_enabled ov then
       scaled physical (ucast (os_numerator ov) - ucast (os_denominator ov)) (ucast (os_denominator ov))
     else Inr 0)"

definition borrow_ceiling_of :: "policy \<Rightarrow> bandwidth \<Rightarrow> bandwidth result" where
  "borrow_ceiling_of p physical =
    (if bp_enabled (po_borrow p)
     then scaled physical (ucast (bp_max_borrow_permille (po_borrow p))) (ucast kMaxPermille)
     else Inr 0)"

definition arb_pools_of :: "arbitration_input \<Rightarrow> bandwidth \<Rightarrow> arb_pools result" where
  "arb_pools_of input physical =
    (let p = ai_policy input in
     bindr (fold_res (\<lambda>ob total. checked_add total (ob_amount ob)) (ai_obligations input) 0) (\<lambda>reserved.
     if \<not> is_usable (ai_snapshot input) then
       Inr \<lparr> ap_effective_physical = physical, ap_obligations_reserved = reserved, ap_capacity_deficit = 0,
         ap_allocatable = 0, ap_emergency_reserve = 0, ap_headroom = 0, ap_arbitrable = 0,
         ap_contingent_pool = 0, ap_borrow_ceiling = 0 \<rparr>
     else
       let allocatable = saturating_sub physical reserved in
       bindr (scaled allocatable (ucast (po_emergency_reserve_permille p)) (ucast kMaxPermille)) (\<lambda>emergency.
       bindr (scaled allocatable (ucast (po_headroom_permille p)) (ucast kMaxPermille)) (\<lambda>policy_headroom.
       let headroom = bw_min (max_of (cs_headroom_target (ai_snapshot input)) policy_headroom)
                        (saturating_sub allocatable emergency);
           arbitrable = saturating_sub (saturating_sub allocatable emergency) headroom
       in
       bindr (contingent_pool_of p physical) (\<lambda>contingent_pool.
       bindr (borrow_ceiling_of p physical) (\<lambda>borrow_ceiling.
         Inr \<lparr> ap_effective_physical = physical, ap_obligations_reserved = reserved,
           ap_capacity_deficit = saturating_sub reserved physical, ap_allocatable = allocatable,
           ap_emergency_reserve = emergency, ap_headroom = headroom, ap_arbitrable = arbitrable,
           ap_contingent_pool = contingent_pool, ap_borrow_ceiling = borrow_ceiling \<rparr>))))))"

definition finish_unsatisfied :: "arbitration_input \<Rightarrow> work_item \<Rightarrow> work_item" where
  "finish_unsatisfied input item =
    (if wi_admitted item
     then item\<lparr>wi_reason := (if cs_evidence (ai_snapshot input) = EV_Stale then OR_CapacityWithdrawn
                             else OR_CapacityUnknown),
               wi_capacity_unavailable := True, wi_admitted := False\<rparr>
     else item)"

section \<open>Phase D: order and budgets\<close>

text \<open>Only admitted items are compared; they always carry their group.\<close>

definition item_group_weight :: "work_item \<Rightarrow> u64" where
  "item_group_weight item = (case wi_group item of None \<Rightarrow> 0 | Some g \<Rightarrow> fg_weight g)"

definition item_group_id :: "work_item \<Rightarrow> ident" where
  "item_group_id item = (case wi_group item of None \<Rightarrow> 0 | Some g \<Rightarrow> fg_id g)"

definition item_before :: "work_item \<Rightarrow> work_item \<Rightarrow> bool" where
  "item_before l r =
    (if wi_effective_rank l \<noteq> wi_effective_rank r then wi_effective_rank l > wi_effective_rank r
     else if item_group_weight l \<noteq> item_group_weight r then item_group_weight l > item_group_weight r
     else if item_group_id l \<noteq> item_group_id r then item_group_id l < item_group_id r
     else if rq_tenant (wi_request l) \<noteq> rq_tenant (wi_request r)
       then rq_tenant (wi_request l) < rq_tenant (wi_request r)
     else if rq_id (wi_request l) \<noteq> rq_id (wi_request r) then rq_id (wi_request l) < rq_id (wi_request r)
     else rq_generation (wi_request l) < rq_generation (wi_request r))"

definition arb_order :: "work_item list \<Rightarrow> nat list" where
  "arb_order items =
    sort_by (\<lambda>a b. item_before (items ! a) (items ! b))
      (filter (\<lambda>i. wi_admitted (items ! i)) [0..<length items])"

definition group_cap_of :: "bandwidth \<Rightarrow> bandwidth \<Rightarrow> fairness_group_config \<Rightarrow> bandwidth result" where
  "group_cap_of unlimited physical g =
    (let cap = (if is_positive (fg_maximum_cap g) then bw_min unlimited (fg_maximum_cap g) else unlimited) in
     if fg_maximum_cap_permille g > 0 then
       bindr (scaled physical (ucast (fg_maximum_cap_permille g)) (ucast kMaxPermille)) (\<lambda>share.
         Inr (bw_min cap share))
     else Inr cap)"

definition budget_step :: "bandwidth \<Rightarrow> work_item \<Rightarrow> run_state \<Rightarrow> run_state result" where
  "budget_step physical item run =
    (if \<not> wi_admitted item then Inr run
     else bindr (deref (wi_group item)) (\<lambda>g.
       bindr (group_cap_of (rs_unlimited run) physical g) (\<lambda>cap.
         let cap' = (case om_find (rs_group_cap run) (fg_id g) of
                       None \<Rightarrow> cap | Some existing \<Rightarrow> bw_min existing cap)
         in Inr (run\<lparr>rs_group_weight := om_set (fg_id g) (fg_weight g) (rs_group_weight run),
                     rs_group_cap := om_set (fg_id g) cap' (rs_group_cap run),
                     rs_group_allocated := om_set (fg_id g) 0 (rs_group_allocated run)\<rparr>))))"

definition start_residual :: "work_item \<Rightarrow> work_item" where
  "start_residual item =
    (if wi_admitted item then item\<lparr>wi_residual := rq_ceiling (wi_request item)\<rparr> else item)"

section \<open>Phase E: guaranteed minima\<close>

record arb_state =
  st_run :: run_state
  st_remaining :: bandwidth
  st_emergency :: bandwidth
  st_consumed :: "(ident, bandwidth) omap"

text \<open>Credit an amount to an item: its allocation, its residual and its group's usage.\<close>

definition credit ::
  "nat \<Rightarrow> allocation_kind \<Rightarrow> bandwidth \<Rightarrow> (work_item \<Rightarrow> work_item) \<Rightarrow> run_state \<Rightarrow> run_state result" where
  "credit index kind amount extra run =
    (let item = rs_items run ! index in
     bindr (add_allocation (wi_allocation item) kind amount) (\<lambda>allocation.
     bindr (deref (wi_group item)) (\<lambda>g.
       Inr (add_group_allocated (fg_id g) amount
         (set_item index (extra (item\<lparr>wi_allocation := allocation,
           wi_residual := saturating_sub (wi_residual item) amount\<rparr>)) run)))))"

definition short_item :: "bandwidth \<Rightarrow> work_item \<Rightarrow> work_item" where
  "short_item unmet item = item\<lparr>wi_unmet_minimum := unmet, wi_reason := OR_BelowMinimumWaiting\<rparr>"

definition guarantee_reserved ::
  "obligation \<Rightarrow> nat \<Rightarrow> bandwidth \<Rightarrow> arb_state \<Rightarrow> arb_state result" where
  "guarantee_reserved ob index minimum st =
    (let consumed = om_get 0 (st_consumed st) (ob_reservation ob);
         available = saturating_sub (ob_amount ob) consumed;
         granted = bw_min minimum available
     in bindr (checked_add consumed granted) (\<lambda>next.
        bindr (credit index AK_Guaranteed granted
                (\<lambda>item. (if granted < minimum then short_item (saturating_sub minimum granted) else id)
                   (item\<lparr>wi_obligation_guaranteed := granted\<rparr>)) (st_run st)) (\<lambda>run.
          Inr (st\<lparr>st_run := run, st_consumed := om_set (ob_reservation ob) next (st_consumed st)\<rparr>))))"

definition guarantee_from_reserve ::
  "nat \<Rightarrow> bandwidth \<Rightarrow> arb_state \<Rightarrow> (arb_state \<times> bandwidth) result" where
  "guarantee_from_reserve index wanted st =
    (let item = rs_items (st_run st) ! index in
     bindr (deref (wi_priority_class item)) (\<lambda>c.
       if pc_emergency c \<and> is_positive (st_emergency st) then
         (let from_reserve = bw_min wanted (st_emergency st) in
          bindr (checked_add (wi_reserve_allocated item) from_reserve) (\<lambda>reserve_total.
          bindr (credit index AK_Guaranteed from_reserve
                  (\<lambda>it. it\<lparr>wi_reserve_allocated := reserve_total\<rparr>) (st_run st)) (\<lambda>run.
            Inr (st\<lparr>st_run := run, st_emergency := saturating_sub (st_emergency st) from_reserve\<rparr>,
                 saturating_sub wanted from_reserve))))
       else Inr (st, wanted)))"

definition guarantee_from_pool ::
  "nat \<Rightarrow> bandwidth \<Rightarrow> arb_state \<Rightarrow> (arb_state \<times> bandwidth) result" where
  "guarantee_from_pool index wanted st =
    (if is_positive wanted \<and> is_positive (st_remaining st) then
       (let from_pool = bw_min wanted (st_remaining st) in
        bindr (credit index AK_Guaranteed from_pool id (st_run st)) (\<lambda>run.
          Inr (st\<lparr>st_run := run, st_remaining := saturating_sub (st_remaining st) from_pool\<rparr>,
               saturating_sub wanted from_pool)))
     else Inr (st, wanted))"

definition mark_short :: "nat \<Rightarrow> bandwidth \<Rightarrow> arb_state \<Rightarrow> arb_state" where
  "mark_short index wanted st =
    (if is_positive wanted
     then st\<lparr>st_run := set_item index (short_item wanted (rs_items (st_run st) ! index)) (st_run st)\<rparr>
     else st)"

definition guarantee_step :: "arbitration_input \<Rightarrow> nat \<Rightarrow> arb_state \<Rightarrow> arb_state result" where
  "guarantee_step input index st =
    (let request = wi_request (rs_items (st_run st) ! index); minimum = rq_minimum request in
     if is_zero minimum then Inr st
     else (case rq_reservation request of
         Some b \<Rightarrow>
           bindr (deref (find_obligation (ai_obligations input) (rb_reservation b))) (\<lambda>ob.
             guarantee_reserved ob index minimum st)
       | None \<Rightarrow>
           bindr (guarantee_from_reserve index minimum st) (\<lambda>(st1, wanted1).
           bindr (guarantee_from_pool index wanted1 st1) (\<lambda>(st2, wanted2).
             Inr (mark_short index wanted2 st2)))))"

section \<open>Phase F: discretionary passes\<close>

definition pass_selects :: "bool \<Rightarrow> work_item \<Rightarrow> bool" where
  "pass_selects burst item =
    (let ceiling = (if burst then rq_maximum (wi_request item) else rq_desired (wi_request item)) in
     if total_allocation (wi_allocation item) \<ge> ceiling then False
     else if \<not> burst \<and> \<not> (case wi_priority_class item of None \<Rightarrow> False | Some c \<Rightarrow> pc_allow_discretionary c)
       then False
     else True)"

definition item_emergency :: "work_item \<Rightarrow> bool" where
  "item_emergency item = (case wi_priority_class item of None \<Rightarrow> False | Some c \<Rightarrow> pc_emergency c)"

definition rank_list :: "work_item list \<Rightarrow> nat list \<Rightarrow> u32 list" where
  "rank_list items order =
    sort_by (\<lambda>a b. a > b)
      (fold (\<lambda>index ranks. let r = wi_effective_rank (items ! index) in
              if ranks = [] \<or> last ranks \<noteq> r then ranks @ [r] else ranks) order [])"

definition serve_emergency :: "bool \<Rightarrow> nat list \<Rightarrow> arb_state \<Rightarrow> arb_state result" where
  "serve_emergency burst selection st =
    (let emergency_selection = filter (\<lambda>i. item_emergency (rs_items (st_run st) ! i)) selection in
     if is_positive (st_emergency st) \<and> \<not> burst \<and> emergency_selection \<noteq> [] then
       bindr (distribute (st_run st) emergency_selection (st_emergency st) AK_Discretionary True)
         (\<lambda>(run, granted).
           Inr (st\<lparr>st_run := run, st_emergency := saturating_sub (st_emergency st) granted\<rparr>))
     else Inr st)"

definition serve_pool :: "nat list \<Rightarrow> arb_state \<Rightarrow> arb_state result" where
  "serve_pool selection st =
    bindr (distribute (st_run st) selection (st_remaining st) AK_Discretionary False) (\<lambda>(run, granted).
      Inr (st\<lparr>st_run := run, st_remaining := saturating_sub (st_remaining st) granted\<rparr>))"

definition serve_rank :: "nat list \<Rightarrow> u32 \<Rightarrow> arb_state \<Rightarrow> arb_state result" where
  "serve_rank selection rank st =
    (let rank_selection = filter (\<lambda>i. wi_effective_rank (rs_items (st_run st) ! i) = rank) selection in
     if is_zero (st_remaining st) \<or> rank_selection = [] then Inr st
     else serve_pool rank_selection st)"

definition arb_pass ::
  "arbitration_input \<Rightarrow> nat list \<Rightarrow> u32 list \<Rightarrow> bool \<Rightarrow> arb_state \<Rightarrow> arb_state result" where
  "arb_pass input order ranks burst st =
    (let selection = filter (\<lambda>i. pass_selects burst (rs_items (st_run st) ! i)) order in
     if selection = [] then Inr st
     else bindr (serve_emergency burst selection st) (\<lambda>st1.
       (case po_scheduling (ai_policy input) of
          StrictPriority \<Rightarrow> fold_res (serve_rank selection) ranks st1
        | WeightedFairShare \<Rightarrow> serve_pool selection st1)))"

section \<open>Phases G and H: borrowed and contingent capacity\<close>

definition lendable_step ::
  "arbitration_input \<Rightarrow> (ident, bandwidth) omap \<Rightarrow> obligation \<Rightarrow> bandwidth \<Rightarrow> bandwidth result" where
  "lendable_step input consumed ob lendable =
    (if \<not> ob_lendable ob then Inr lendable
     else bindr (scaled (ob_amount ob)
             (ucast (min (ob_max_lend_permille ob) (bp_max_lend_permille (po_borrow (ai_policy input)))))
             (ucast kMaxPermille)) (\<lambda>ceiling.
       checked_add lendable (saturating_sub ceiling (om_get 0 consumed (ob_reservation ob)))))"

definition borrow_selects :: "work_item \<Rightarrow> bool" where
  "borrow_selects item =
    (let class_allows = (case wi_priority_class item of None \<Rightarrow> False | Some c \<Rightarrow> pc_borrowing_eligible c);
         group_allows = (case wi_group item of None \<Rightarrow> False | Some g \<Rightarrow> fg_borrowing_eligible g)
     in if \<not> rq_borrowing_eligible (wi_request item) \<or> \<not> is_revocable (wi_request item) then False
        else if \<not> class_allows \<and> \<not> group_allows then False
        else if total_allocation (wi_allocation item) \<ge> rq_maximum (wi_request item) then False
        else True)"

text \<open>Recompute the residual of a selected item as the room below its maximum.\<close>

definition burst_residual :: "work_item \<Rightarrow> work_item" where
  "burst_residual item =
    item\<lparr>wi_residual := saturating_sub (rq_maximum (wi_request item)) (total_allocation (wi_allocation item))\<rparr>"

definition refresh_items :: "nat list \<Rightarrow> run_state \<Rightarrow> run_state" where
  "refresh_items selection run =
    fold (\<lambda>i r. set_item i (burst_residual (rs_items r ! i)) r) selection run"

definition room_left :: "run_state \<Rightarrow> nat list \<Rightarrow> nat list" where
  "room_left run selection = filter (\<lambda>i. is_positive (wi_residual (rs_items run ! i))) selection"

definition arb_borrow ::
  "arbitration_input \<Rightarrow> bandwidth \<Rightarrow> nat list \<Rightarrow> arb_state \<Rightarrow> (arb_state \<times> bandwidth) result" where
  "arb_borrow input borrow_ceiling order st =
    (let b = po_borrow (ai_policy input) in
     if is_usable (ai_snapshot input) \<and> bp_enabled b \<and> bp_lend_obligations b then
       bindr (fold_res (lendable_step input (st_consumed st)) (ai_obligations input) 0) (\<lambda>lendable.
         let pool = bw_min lendable borrow_ceiling;
             selection = filter (\<lambda>i. borrow_selects (rs_items (st_run st) ! i)) order
         in if selection \<noteq> [] \<and> is_positive pool then
              (let run = refresh_items selection (st_run st) in
               bindr (distribute run (room_left run selection) pool AK_Borrowed False) (\<lambda>(run', granted).
                 Inr (st\<lparr>st_run := run'\<rparr>, granted)))
            else Inr (st, 0))
     else Inr (st, 0))"

definition contingent_selects :: "work_item \<Rightarrow> bool" where
  "contingent_selects item =
    (if \<not> is_revocable (wi_request item) then False
     else if total_allocation (wi_allocation item) \<ge> rq_maximum (wi_request item) then False
     else True)"

definition arb_contingent ::
  "arbitration_input \<Rightarrow> bandwidth \<Rightarrow> nat list \<Rightarrow> arb_state \<Rightarrow> (arb_state \<times> bandwidth) result" where
  "arb_contingent input contingent_pool order st =
    (if is_usable (ai_snapshot input) \<and> is_positive contingent_pool then
       (let chosen = filter (\<lambda>i. contingent_selects (rs_items (st_run st) ! i)) order;
            run = refresh_items chosen (st_run st);
            selection = room_left run chosen
        in if selection \<noteq> [] then
             bindr (distribute run selection contingent_pool AK_Contingent False) (\<lambda>(run', granted).
               Inr (st\<lparr>st_run := run'\<rparr>, granted))
           else Inr (st\<lparr>st_run := run\<rparr>, 0))
     else Inr (st, 0))"

section \<open>Phase I: accounting\<close>

definition sum_item ::
  "work_item \<Rightarrow> bandwidth \<times> bandwidth \<times> bandwidth \<Rightarrow> (bandwidth \<times> bandwidth \<times> bandwidth) result" where
  "sum_item item s =
    (case s of (guaranteed, discretionary, obligations) \<Rightarrow>
      bindr (checked_add guaranteed
              (saturating_sub (ga_guaranteed (wi_allocation item)) (wi_obligation_guaranteed item))) (\<lambda>g.
      bindr (checked_add discretionary (ga_discretionary (wi_allocation item))) (\<lambda>d.
      bindr (checked_add obligations (wi_obligation_guaranteed item)) (\<lambda>ob.
        Inr (g, d, ob)))))"

definition assemble_accounting ::
  "arbitration_input \<Rightarrow> arb_pools \<Rightarrow> arb_state \<Rightarrow> bandwidth \<Rightarrow> bandwidth \<Rightarrow> resource_accounting result" where
  "assemble_accounting input pools st borrowed contingent =
    (let s = ai_snapshot input; reserved = ap_obligations_reserved pools in
     bindr (fold_res sum_item (rs_items (st_run st)) (0, 0, 0)) (\<lambda>(guaranteed, discretionary, consumed).
     bindr (fold_res (\<lambda>term authorized. checked_add authorized term)
             [guaranteed, discretionary, borrowed, contingent] consumed) (\<lambda>authorized.
       Inr \<lparr> ac_target = ai_target input, ac_capacity_generation = cs_generation s,
         ac_evidence = cs_evidence s,
         ac_physical_configured = (case cs_physical_configured s of None \<Rightarrow> 0 | Some v \<Rightarrow> v),
         ac_administratively_unavailable = cs_administratively_unavailable s,
         ac_degraded_loss = cs_degraded_loss s, ac_effective_physical = ap_effective_physical pools,
         ac_obligations_reserved = reserved, ac_obligations_consumed = consumed,
         ac_obligations_lent = borrowed,
         ac_obligations_idle = saturating_sub (saturating_sub reserved consumed) borrowed,
         ac_capacity_deficit = ap_capacity_deficit pools, ac_allocatable = ap_allocatable pools,
         ac_emergency_reserve = ap_emergency_reserve pools,
         ac_emergency_reserve_unused = st_emergency st, ac_headroom = ap_headroom pools,
         ac_arbitrable = ap_arbitrable pools, ac_guaranteed_granted = guaranteed,
         ac_discretionary_granted = discretionary, ac_borrowed_granted = borrowed,
         ac_contingent_granted = contingent, ac_unallocated = st_remaining st,
         ac_contingent_pool = ap_contingent_pool pools,
         ac_contingent_unallocated = saturating_sub (ap_contingent_pool pools) contingent,
         ac_authorized_consumption = authorized \<rparr>)))"

section \<open>Phase J: decisions and grants\<close>

text \<open>The reason of a request that is neither refused nor without capacity evidence.\<close>

definition base_reason :: "bandwidth_request \<Rightarrow> bandwidth \<Rightarrow> outcome_reason" where
  "base_reason request held =
    (if held \<ge> rq_desired request then
       (if rq_maximum request > rq_desired request \<and> held \<ge> rq_maximum request
        then OR_SatisfiedAtMaximum else OR_SatisfiedFully)
     else if held < rq_minimum request then OR_BelowMinimumWaiting
     else if is_zero held \<and> is_zero (rq_minimum request) then OR_ZeroCapacityAvailable
     else if held = rq_minimum request \<and> rq_desired request > rq_minimum request
       then OR_MinimumGuaranteedOnly
     else OR_PartiallySatisfied)"

definition final_reason :: "arb_pools \<Rightarrow> arb_state \<Rightarrow> work_item \<Rightarrow> bandwidth \<Rightarrow> outcome_reason result" where
  "final_reason pools st item held =
    (let request = wi_request item; reason = base_reason request held in
     if held \<ge> rq_desired request then Inr reason
     else bindr (deref (wi_group item)) (\<lambda>g.
       if group_cap_reached (st_run st) (fg_id g) then
         Inr (if held \<ge> rq_minimum request then OR_PartiallySatisfied else reason)
       else if is_zero (st_remaining st) \<and> is_zero held \<and> \<not> is_zero (ap_arbitrable pools) then Inr reason
       else if is_zero (st_remaining st) \<and> is_zero (ap_arbitrable pools) then
         Inr (if reason = OR_BelowMinimumWaiting then OR_BelowMinimumWaiting else OR_ZeroCapacityAvailable)
       else Inr reason))"

definition granted_state :: "grant_allocation \<Rightarrow> grant_state" where
  "granted_state a = (if has_revocable a then GS_GrantedBorrowed else GS_GrantedGuaranteed)"

definition classify_item ::
  "arbitration_input \<Rightarrow> arb_pools \<Rightarrow> arb_state \<Rightarrow> work_item \<Rightarrow> u64 \<Rightarrow> arbitration_decision result" where
  "classify_item input pools st item previous_wait =
    (let request = wi_request item; held = total_allocation (wi_allocation item);
         satisfied = (held \<ge> rq_desired request);
         unmet = saturating_sub (rq_minimum request) held;
         base = \<lparr> ad_request = rq_id request, ad_request_generation = rq_generation request,
           ad_state = GS_Rejected, ad_reason = OR_None, ad_allocation = wi_allocation item,
           ad_requested_minimum = rq_minimum request, ad_requested_desired = rq_desired request,
           ad_requested_maximum = rq_maximum request,
           ad_denied = saturating_sub (rq_desired request) held,
           ad_unmet_minimum = (if wi_unmet_minimum item > unmet then wi_unmet_minimum item else unmet),
           ad_satisfied = False, ad_waiting = False, ad_refused = False,
           ad_starvation_promoted = wi_starvation_promoted item,
           ad_next_wait_rounds = (if satisfied then 0 else previous_wait + 1),
           ad_effective_rank = wi_effective_rank item, ad_effective_weight = wi_effective_weight item,
           ad_grant = None, ad_previous_grant = None, ad_recall = None \<rparr>
     in if wi_refused item then
          Inr (base\<lparr>ad_state := GS_Rejected, ad_reason := wi_reason item, ad_refused := True\<rparr>)
        else if wi_capacity_unavailable item then
          Inr (base\<lparr>ad_state := GS_Queued, ad_reason := wi_reason item, ad_waiting := True\<rparr>)
        else bindr (final_reason pools st item held) (\<lambda>reason.
          Inr (base\<lparr>ad_state := (if satisfied then granted_state (wi_allocation item) else GS_Queued),
                    ad_reason := reason, ad_satisfied := satisfied, ad_waiting := \<not> satisfied\<rparr>)))"

definition round_authority :: "arbitration_input \<Rightarrow> bandwidth_request \<Rightarrow> authority_vector" where
  "round_authority input request =
    (rq_authority request)\<lparr>av_coordinator := ai_coordinator input,
       av_capacity_generation := cs_generation (ai_snapshot input),
       av_monotonic_tick := ai_tick input\<rparr>"

definition terminal_state_for :: "outcome_reason \<Rightarrow> grant_state" where
  "terminal_state_for reason =
    (if reason = OR_RefusedBootFenced then GS_Fenced
     else if reason = OR_RefusedStaleEpoch \<or> reason = OR_RefusedStaleResourceGeneration \<or>
             reason = OR_RefusedStalePolicyGeneration \<or> reason = OR_RefusedStaleTenantConfig \<or>
             reason = OR_RefusedStaleReservation \<or> reason = OR_CapacityWithdrawn
       then GS_Stale
     else GS_Revoked)"

definition terminate_grant ::
  "arbitration_input \<Rightarrow> work_item \<Rightarrow> grant \<Rightarrow> arbitration_decision \<Rightarrow> u64 \<Rightarrow> (arbitration_decision \<times> u64) result" where
  "terminate_grant input item historical decision next_recall =
    bindr (advance_generation historical) (\<lambda>bumped.
      let target_state = terminal_state_for (wi_reason item);
          marked = bumped\<lparr>gr_reason := (if wi_refused item then wi_reason item else OR_Revoked)\<rparr>
      in bindr (transition_to target_state marked) (\<lambda>terminal.
        let was_held = total_allocation (gr_allocation historical);
            closed = decision\<lparr>ad_previous_grant := Some historical, ad_grant := Some terminal,
                              ad_state := target_state\<rparr>
        in if is_positive was_held then
             bindr (id_make next_recall) (\<lambda>recall_id.
               Inr (closed\<lparr>ad_recall := Some \<lparr> rr_id = recall_id, rr_grant = gr_id terminal,
                   rr_grant_generation = gr_generation terminal, rr_request = rq_id (wi_request item),
                   rr_target = ai_target input, rr_recalled = was_held, rr_remaining = 0,
                   rr_reason = (if target_state = GS_Stale then OR_Stale else OR_Revoked),
                   rr_requested_tick = ai_tick input, rr_deadline_tick = ai_tick input,
                   rr_acknowledgement_required = False, rr_authority = gr_authority terminal \<rparr>\<rparr>,
                 next_recall + 1))
           else Inr (closed, next_recall)))"

text \<open>The members a renewed, an updated and a new grant take from the decision.\<close>

definition stamp_grant :: "arbitration_input \<Rightarrow> bandwidth_request \<Rightarrow> arbitration_decision \<Rightarrow> u64 \<Rightarrow> grant \<Rightarrow> grant" where
  "stamp_grant input request decision wait_rounds g =
    g\<lparr>gr_decision := ai_decision input, gr_last_revalidated_tick := ai_tick input,
      gr_reason := ad_reason decision,
      gr_wait_rounds := (if ad_satisfied decision then 0 else wait_rounds + 1),
      gr_requested_minimum := rq_minimum request, gr_requested_desired := rq_desired request,
      gr_requested_maximum := rq_maximum request, gr_denied := ad_denied decision,
      gr_satisfied := ad_satisfied decision\<rparr>"

definition fund_grant :: "work_item \<Rightarrow> authority_vector \<Rightarrow> grant \<Rightarrow> grant" where
  "fund_grant item authority g =
    g\<lparr>gr_allocation := wi_allocation item, gr_obligation_backed := wi_obligation_guaranteed item,
      gr_reserve_backed := wi_reserve_allocated item, gr_authority := authority,
      gr_state := granted_state (wi_allocation item)\<rparr>"

definition grant_renewable :: "work_item \<Rightarrow> authority_vector \<Rightarrow> bandwidth \<Rightarrow> grant \<Rightarrow> bool" where
  "grant_renewable item authority held previous \<longleftrightarrow>
    same_binding (gr_authority previous) authority \<and>
    total_allocation (gr_allocation previous) = held \<and>
    ((gr_state previous = GS_GrantedGuaranteed) = (\<not> has_revocable (wi_allocation item))) \<and>
    gr_state previous \<noteq> GS_RecallPending"

definition update_grant ::
  "arbitration_input \<Rightarrow> work_item \<Rightarrow> grant \<Rightarrow> arbitration_decision \<Rightarrow> u64 \<Rightarrow> u64 \<Rightarrow>
   (arbitration_decision \<times> u64) result" where
  "update_grant input item previous decision wait_rounds next_recall =
    (let request = wi_request item; authority = round_authority input request;
         held = total_allocation (wi_allocation item);
         previous_total = total_allocation (gr_allocation previous);
         grace = pp_recall_grace_rounds (po_preemption (ai_policy input)) in
     bindr (advance_generation previous) (\<lambda>bumped.
       let updated = fund_grant item authority (stamp_grant input request decision wait_rounds bumped);
           changed = decision\<lparr>ad_previous_grant := Some previous\<rparr>
       in if held < previous_total then
            bindr (id_make next_recall) (\<lambda>recall_id.
              Inr (changed\<lparr>ad_grant := Some (if grace > 0 then updated\<lparr>gr_state := GS_RecallPending\<rparr> else updated),
                    ad_recall := Some \<lparr> rr_id = recall_id, rr_grant = gr_id updated,
                      rr_grant_generation = gr_generation updated, rr_request = rq_id request,
                      rr_target = ai_target input, rr_recalled = saturating_sub previous_total held,
                      rr_remaining = held, rr_reason = OR_RecalledByStrongerClass,
                      rr_requested_tick = ai_tick input,
                      rr_deadline_tick = ai_tick input + ucast grace,
                      rr_acknowledgement_required = (grace > 0), rr_authority = authority \<rparr>\<rparr>,
                next_recall + 1))
          else Inr (changed\<lparr>ad_grant := Some updated\<rparr>, next_recall)))"

definition new_grant ::
  "arbitration_input \<Rightarrow> work_item \<Rightarrow> arbitration_decision \<Rightarrow> u64 \<Rightarrow> u64 \<Rightarrow> (arbitration_decision \<times> u64) result" where
  "new_grant input item decision wait_rounds next_grant =
    (let request = wi_request item in
     bindr (id_make next_grant) (\<lambda>grant_id.
       if next_grant = 0xFFFFFFFFFFFFFFFF then fail EC_OutOfRange
       else
         (let g = fund_grant item (round_authority input request)
                   (stamp_grant input request decision wait_rounds
                     (default_grant\<lparr>gr_id := grant_id, gr_generation := gen_initial,
                        gr_request := rq_id request, gr_request_generation := rq_generation request,
                        gr_target := ai_target input, gr_issued_tick := ai_tick input\<rparr>))
          in Inr (decision\<lparr>ad_grant := Some g, ad_state := gr_state g\<rparr>, next_grant + 1))))"

definition materialise ::
  "arbitration_input \<Rightarrow> work_item \<Rightarrow> arbitration_candidate \<Rightarrow> arbitration_decision \<Rightarrow> u64 \<Rightarrow> u64 \<Rightarrow>
   (arbitration_decision \<times> u64 \<times> u64) result" where
  "materialise input item candidate decision next_grant next_recall =
    (let held = total_allocation (wi_allocation item);
         live = (case cn_existing_grant candidate of None \<Rightarrow> None
                 | Some g \<Rightarrow> if is_live (gr_state g) then Some g else None)
     in case live of
       Some previous \<Rightarrow>
         if wi_refused item \<or> is_zero held then
           bindr (terminate_grant input item previous decision next_recall) (\<lambda>(d, nr). Inr (d, next_grant, nr))
         else if grant_renewable item (round_authority input (wi_request item)) held previous then
           Inr (decision\<lparr>ad_grant := Some (stamp_grant input (wi_request item) decision
                  (cn_wait_rounds candidate) previous)\<rparr>, next_grant, next_recall)
         else bindr (update_grant input item previous decision (cn_wait_rounds candidate) next_recall)
                (\<lambda>(d, nr). Inr (d, next_grant, nr))
     | None \<Rightarrow>
         if \<not> wi_refused item \<and> is_positive held then
           bindr (new_grant input item decision (cn_wait_rounds candidate) next_grant)
             (\<lambda>(d, ng). Inr (d, ng, next_recall))
         else Inr (decision, next_grant, next_recall))"

definition check_decision :: "arbitration_decision \<Rightarrow> arbitration_decision result" where
  "check_decision d =
    (case ad_grant d of None \<Rightarrow> Inr d
     | Some g \<Rightarrow> bindr (validate_grant g) (\<lambda>_. Inr (d\<lparr>ad_state := gr_state g\<rparr>)))"

definition make_decision ::
  "arbitration_input \<Rightarrow> arb_pools \<Rightarrow> arb_state \<Rightarrow> work_item \<Rightarrow>
   arbitration_decision list \<times> u64 \<times> u64 \<Rightarrow> (arbitration_decision list \<times> u64 \<times> u64) result" where
  "make_decision input pools st item acc =
    (case acc of (decisions, next_grant, next_recall) \<Rightarrow>
      let candidate = ai_candidates input ! wi_candidate_index item in
      bindr (classify_item input pools st item (cn_wait_rounds candidate)) (\<lambda>decision.
      bindr (materialise input item candidate decision next_grant next_recall) (\<lambda>(d, ng, nr).
      bindr (check_decision d) (\<lambda>d'.
        Inr (decisions @ [d'], ng, nr)))))"

definition decision_before :: "arbitration_decision \<Rightarrow> arbitration_decision \<Rightarrow> bool" where
  "decision_before a b =
    (if ad_request a \<noteq> ad_request b then ad_request a < ad_request b
     else ad_request_generation a < ad_request_generation b)"

section \<open>The round\<close>

definition arb_prepare :: "arbitration_input \<Rightarrow> bandwidth \<Rightarrow> arb_pools \<Rightarrow> run_state result" where
  "arb_prepare input qntm pools =
    (let items0 = admit_all input qntm (zip [0..<length (ai_candidates input)] (ai_candidates input)) [];
         items1 = (if is_usable (ai_snapshot input) then items0 else map (finish_unsatisfied input) items0)
     in bindr (fold_res (budget_step (ap_effective_physical pools)) items1
            \<lparr> rs_quantum = qntm, rs_unlimited = kMaxBitsPerSecond, rs_items = items1,
              rs_group_cap = [], rs_group_allocated = [], rs_group_weight = [] \<rparr>) (\<lambda>run.
          Inr (run\<lparr>rs_items := map start_residual (rs_items run)\<rparr>)))"

definition arb_allocate ::
  "arbitration_input \<Rightarrow> arb_pools \<Rightarrow> run_state \<Rightarrow> (arb_state \<times> bandwidth \<times> bandwidth) result" where
  "arb_allocate input pools run =
    (let order = arb_order (rs_items run); usable = is_usable (ai_snapshot input);
         ranks = rank_list (rs_items run) order;
         st = \<lparr> st_run = run, st_remaining = ap_arbitrable pools,
                st_emergency = ap_emergency_reserve pools, st_consumed = [] \<rparr>
     in
     bindr (if usable then fold_res (guarantee_step input) order st else Inr st) (\<lambda>st1.
     bindr (if usable then arb_pass input order ranks False st1 else Inr st1) (\<lambda>st2.
     bindr (if usable then arb_pass input order ranks True st2 else Inr st2) (\<lambda>st3.
     bindr (arb_borrow input (ap_borrow_ceiling pools) order st3) (\<lambda>(st4, borrowed).
     bindr (arb_contingent input (ap_contingent_pool pools) order st4) (\<lambda>(st5, contingent).
       Inr (st5, borrowed, contingent)))))))"

definition arbitrate :: "arbitration_input \<Rightarrow> arbitration_outcome result" where
  "arbitrate input =
    bindr (validate_arbitration_input input) (\<lambda>_.
    bindr (quantum (ai_policy input)) (\<lambda>qntm.
    bindr (arb_physical input) (\<lambda>physical.
    bindr (arb_pools_of input physical) (\<lambda>pools.
    bindr (arb_prepare input qntm pools) (\<lambda>run.
    bindr (arb_allocate input pools run) (\<lambda>(st, borrowed, contingent).
    bindr (assemble_accounting input pools st borrowed contingent) (\<lambda>accounting.
    bindr (fold_res (make_decision input pools st) (rs_items (st_run st))
            ([], ai_next_grant_id input, ai_next_recall_id input)) (\<lambda>(decisions, next_grant, next_recall).
      if accounting_validate accounting \<noteq> [] then fail EC_AccountingInvariantViolation
      else Inr \<lparr> ao_decision = ai_decision input, ao_target = ai_target input,
        ao_epoch = ai_epoch input, ao_coordinator = ai_coordinator input,
        ao_policy = po_id (ai_policy input), ao_policy_generation = po_generation (ai_policy input),
        ao_tick = ai_tick input, ao_accounting = accounting,
        ao_decisions = sort_by decision_before decisions,
        ao_next_grant_id = next_grant, ao_next_recall_id = next_recall \<rparr>))))))))"

end
