(* ===== verification/Fairness_Laws.thy ===== *)
theory Fairness_Laws
  imports Fairness Complex_Main
begin

text \<open>
  Correctness of the fairness engine.  The first part evaluates one iteration of progressive
  filling over the naturals; the second proves by induction on the set of active demands that
  the loop is total, conserves capacity and respects every demand; the third bounds how far
  it can be from exact weighted max-min fairness; the last lifts conservation to the tree of
  branches and to the public entry points.
\<close>

abbreviation wt :: "unit_demand list \<Rightarrow> nat \<Rightarrow> nat" where
  "wt ds i \<equiv> unat (ud_weight (ds ! i))"

abbreviation un :: "unit_demand list \<Rightarrow> nat \<Rightarrow> nat" where
  "un ds i \<equiv> unat (ud_units (ds ! i))"

abbreviation al :: "unit_demand list \<Rightarrow> nat \<Rightarrow> nat" where
  "al ds i \<equiv> unat (ud_allocated (ds ! i))"

text \<open>What the loop needs of its state: sums over the active demands stay below 64 bits.\<close>

definition loop_ok :: "nat list \<Rightarrow> unit_demand list \<Rightarrow> bool" where
  "loop_ok act ds \<longleftrightarrow> distinct act \<and>
    (\<forall>i \<in> set act. i < length ds \<and> 0 < wt ds i \<and> al ds i + un ds i < 2 ^ 64) \<and>
    sum_list (map (un ds) act) < 2 ^ 64 \<and> sum_list (map (wt ds) act) < 2 ^ 64"

text \<open>The share of an active demand when the bottleneck \<open>b\<close> is lifted to its full demand.\<close>

definition level_share :: "unit_demand list \<Rightarrow> nat \<Rightarrow> nat \<Rightarrow> nat" where
  "level_share ds b i = un ds b * wt ds i div wt ds b"

definition same_shape :: "unit_demand list \<Rightarrow> unit_demand list \<Rightarrow> bool" where
  "same_shape ds ds' \<longleftrightarrow> length ds' = length ds \<and>
    (\<forall>i < length ds. ud_id (ds' ! i) = ud_id (ds ! i) \<and> ud_weight (ds' ! i) = ud_weight (ds ! i))"

lemma same_shape_refl: "same_shape ds ds"
  by (simp add: same_shape_def)

lemma same_shape_trans: "same_shape a b \<Longrightarrow> same_shape b c \<Longrightarrow> same_shape a c"
  by (simp add: same_shape_def)

section \<open>One iteration\<close>

lemma ratio_trans:
  fixes a b c :: nat
  assumes "a * wb \<le> b * wa" and "b * wc \<le> c * wb" and "0 < wb"
  shows "a * wc \<le> c * wa"
proof -
  have "a * wc * wb = a * wb * wc" by (simp add: ac_simps)
  also have "\<dots> \<le> b * wa * wc" using assms(1) by (rule mult_le_mono1)
  also have "\<dots> = b * wc * wa" by (simp add: ac_simps)
  also have "\<dots> \<le> c * wb * wa" using assms(2) by (rule mult_le_mono1)
  also have "\<dots> = c * wa * wb" by (simp add: ac_simps)
  finally show ?thesis using assms(3) by simp
qed

text \<open>The selected position has the least demand per weight among the active demands.\<close>

lemma select_min_is_min:
  assumes pos: "\<And>i. i \<in> set act \<Longrightarrow> 0 < wt ds i" and p: "p < length act"
  shows "un ds (act ! select_min ds act) * wt ds (act ! p) \<le> un ds (act ! p) * wt ds (act ! select_min ds act)"
proof -
  let ?f = "\<lambda>position min_position.
        let candidate = ds ! (act ! position); incumbent = ds ! (act ! min_position)
        in if compare_ratio (ud_units candidate) (ud_weight candidate)
                (ud_units incumbent) (ud_weight incumbent) < 0
           then position else min_position"
  define m where "m n = fold ?f [1..<n] 0" for n
  have step: "m (Suc n) = (if un ds (act ! n) * wt ds (act ! m n) < un ds (act ! m n) * wt ds (act ! n)
      then n else m n)" if "1 \<le> n" for n
    using that by (simp add: m_def Let_def compare_ratio_def cmp_mul_u64_spec)
  have "m n < n \<and> (\<forall>p < n. un ds (act ! m n) * wt ds (act ! p) \<le> un ds (act ! p) * wt ds (act ! m n))"
    if "1 \<le> n" "n \<le> length act" for n
    using that
  proof (induction n rule: nat_induct_at_least)
    case base
    then show ?case by (simp add: m_def)
  next
    case (Suc n)
    then have less_n: "m n < n"
      and IH: "\<And>p. p < n \<Longrightarrow> un ds (act ! m n) * wt ds (act ! p) \<le> un ds (act ! p) * wt ds (act ! m n)"
      by auto
    have w: "0 < wt ds (act ! m n)" using pos Suc.prems less_n by (auto simp: nth_mem)
    show ?case
    proof (cases "un ds (act ! n) * wt ds (act ! m n) < un ds (act ! m n) * wt ds (act ! n)")
      case True
      have "un ds (act ! n) * wt ds (act ! p) \<le> un ds (act ! p) * wt ds (act ! n)" if "p < n" for p
        using less_imp_le [OF True] IH [OF that] w by (rule ratio_trans)
      then have "\<forall>p < Suc n. un ds (act ! n) * wt ds (act ! p) \<le> un ds (act ! p) * wt ds (act ! n)"
        by (auto simp: less_Suc_eq)
      moreover have "m (Suc n) = n" unfolding step [OF Suc.hyps] using True by simp
      ultimately show ?thesis by simp
    next
      case False
      then have *: "m (Suc n) = m n" unfolding step [OF Suc.hyps] by simp
      have "\<forall>p < Suc n. un ds (act ! m n) * wt ds (act ! p) \<le> un ds (act ! p) * wt ds (act ! m n)"
        using False IH by (auto simp: less_Suc_eq)
      with less_n show ?thesis unfolding * by simp
    qed
  qed
  from this [of "length act"] p show ?thesis unfolding select_min_def m_def by auto
qed

lemma scaled_units_eval:
  "d \<noteq> 0 \<Longrightarrow> unat u * unat n div unat d < 2 ^ 64 \<Longrightarrow>
    scaled_units u n d = Inr (of_nat (unat u * unat n div unat d))"
  by (simp add: scaled_units_def mul_div_floor_u64_spec)

text \<open>Overflow-checked accumulation over a vector of indices.\<close>

lemma fold_add_u64:
  assumes "\<And>i s. i \<in> set ks \<Longrightarrow> f i s =
      (case add_u64 s (of_nat (g i)) of (t, overflow) \<Rightarrow> if overflow then Inl e else Inr t)"
    and "\<And>i. i \<in> set ks \<Longrightarrow> g i < 2 ^ 64"
    and "unat s + sum_list (map g ks) < 2 ^ 64"
  shows "fold_res f ks s = Inr (of_nat (unat s + sum_list (map g ks)))"
  using assms
proof (induction ks arbitrary: s)
  case Nil
  then show ?case by simp
next
  case (Cons i ks)
  have g: "unat (of_nat (g i) :: u64) = g i" using Cons.prems(2) by (intro unat_of_nat64) simp
  have small: "unat s + g i < 2 ^ 64" using Cons.prems(3) by simp
  have u: "unat (s + of_nat (g i)) = unat s + g i" using unat_add_eq [OF refl g small] .
  have f: "f i s = Inr (s + of_nat (g i))"
    using Cons.prems(1) [of i s] small by (simp add: add_u64_spec g del: power_numeral)
  have "fold_res f ks (s + of_nat (g i)) = Inr (of_nat (unat (s + of_nat (g i)) + sum_list (map g ks)))"
    using Cons.prems by (intro Cons.IH) (auto simp: u)
  then show ?case by (simp add: f u add.assoc)
qed

text \<open>An in-place loop that rewrites each visited element from its original value.\<close>

lemma fold_res_update:
  assumes "distinct ks" and "\<And>i. i \<in> set ks \<Longrightarrow> i < length ds"
    and "\<And>i xs. i \<in> set ks \<Longrightarrow> length xs = length ds \<Longrightarrow> xs ! i = ds ! i \<Longrightarrow> f i xs = Inr (xs[i := h i])"
  shows "\<exists>ds'. fold_res f ks ds = Inr ds' \<and> length ds' = length ds \<and>
    (\<forall>j < length ds. ds' ! j = (if j \<in> set ks then h j else ds ! j))"
  using assms
proof (induction ks arbitrary: ds)
  case Nil
  then show ?case by simp
next
  case (Cons i ks)
  have f: "f i ds = Inr (ds[i := h i])" using Cons.prems by simp
  have "\<exists>ds'. fold_res f ks (ds[i := h i]) = Inr ds' \<and> length ds' = length (ds[i := h i]) \<and>
    (\<forall>j < length (ds[i := h i]). ds' ! j = (if j \<in> set ks then h j else (ds[i := h i]) ! j))"
    using Cons.prems by (intro Cons.IH) (auto simp: nth_list_update split: if_splits)
  then obtain ds' where "fold_res f ks (ds[i := h i]) = Inr ds'" "length ds' = length ds"
    and "\<forall>j < length ds. ds' ! j = (if j \<in> set ks then h j else (ds[i := h i]) ! j)" by auto
  with Cons.prems(1) f show ?case by (auto simp: nth_list_update)
qed

text \<open>The facts every iteration uses about its bottleneck.\<close>

definition bottleneck_of :: "nat list \<Rightarrow> unit_demand list \<Rightarrow> nat" where
  "bottleneck_of act ds = act ! select_min ds act"

lemma bottleneck_facts:
  assumes ok: "loop_ok act ds" and ne: "act \<noteq> []"
  shows "bottleneck_of act ds \<in> set act"
    and "i \<in> set act \<Longrightarrow> level_share ds (bottleneck_of act ds) i \<le> un ds i"
    and "i \<in> set act \<Longrightarrow>
      un ds (bottleneck_of act ds) * wt ds i \<le> un ds i * wt ds (bottleneck_of act ds)"
    and "0 < wt ds (bottleneck_of act ds)"
    and "level_share ds (bottleneck_of act ds) (bottleneck_of act ds) = un ds (bottleneck_of act ds)"
proof -
  let ?b = "bottleneck_of act ds"
  show b: "?b \<in> set act" using select_min_less [OF ne] by (simp add: bottleneck_of_def)
  with ok show w: "0 < wt ds ?b" by (auto simp: loop_ok_def)
  show le: "un ds ?b * wt ds i \<le> un ds i * wt ds ?b" if "i \<in> set act" for i
  proof -
    from that obtain p where "p < length act" "act ! p = i" by (auto simp: in_set_conv_nth)
    moreover have "\<And>i. i \<in> set act \<Longrightarrow> 0 < wt ds i" using ok by (auto simp: loop_ok_def)
    ultimately show ?thesis using select_min_is_min [of act ds p] by (auto simp: bottleneck_of_def)
  qed
  show "level_share ds ?b i \<le> un ds i" if "i \<in> set act"
    using div_le_mono [OF le [OF that], of "wt ds ?b"] w by (simp add: level_share_def)
  show "level_share ds ?b ?b = un ds ?b" using w by (simp add: level_share_def)
qed

abbreviation level_need :: "nat list \<Rightarrow> unit_demand list \<Rightarrow> nat" where
  "level_need act ds \<equiv> sum_list (map (level_share ds (bottleneck_of act ds)) act)"

lemma level_need_le:
  "loop_ok act ds \<Longrightarrow> act \<noteq> [] \<Longrightarrow> level_need act ds \<le> sum_list (map (un ds) act)"
  by (intro sum_list_map_le bottleneck_facts)

lemma sum_list_mask:
  fixes g :: "'a \<Rightarrow> nat"
  shows "distinct xs \<Longrightarrow> b \<in> set xs \<Longrightarrow>
    g b + sum_list (map (\<lambda>i. if i = b then 0 else g i) xs) = sum_list (map g xs)"
proof (induction xs)
  case (Cons x xs)
  show ?case
  proof (cases "x = b")
    case True
    with Cons.prems have "map (\<lambda>i. if i = b then 0 else g i) xs = map g xs"
      by (intro map_cong) auto
    with True show ?thesis by (simp only: list.map sum_list.Cons if_True simp_thms add_0)
  qed (use Cons in auto)
qed simp

lemma level_scaled:
  assumes ok: "loop_ok act ds" and i: "i \<in> set act"
  defines "b \<equiv> bottleneck_of act ds"
  shows "scaled_units (ud_units (ds ! b)) (ud_weight (ds ! i)) (ud_weight (ds ! b)) =
      Inr (of_nat (level_share ds b i))"
    and "level_share ds b i < 2 ^ 64"
proof -
  have ne: "act \<noteq> []" using i by auto
  note facts = bottleneck_facts [OF ok ne, folded b_def]
  show lt: "level_share ds b i < 2 ^ 64" using facts(2) [OF i] unat_lt64 le_less_trans by blast
  have "ud_weight (ds ! b) \<noteq> 0" using facts(4) by (auto simp: unat_gt_0)
  then show "scaled_units (ud_units (ds ! b)) (ud_weight (ds ! i)) (ud_weight (ds ! b)) =
      Inr (of_nat (level_share ds b i))"
    using lt unfolding level_share_def by (rule scaled_units_eval)
qed

lemma needed_eval:
  assumes ok: "loop_ok act ds" and ne: "act \<noteq> []"
  defines "b \<equiv> bottleneck_of act ds"
  shows "fold_res (needed_step ds b (ud_units (ds ! b)) (ud_weight (ds ! b))) act (ud_units (ds ! b))
    = Inr (of_nat (level_need act ds))"
proof -
  note facts = bottleneck_facts [OF ok ne, folded b_def]
  let ?g = "\<lambda>i. if i = b then 0 else level_share ds b i"
  have total: "unat (ud_units (ds ! b)) + sum_list (map ?g act) = level_need act ds"
    using sum_list_mask [of act b "level_share ds b"] ok facts(1,5) by (simp add: loop_ok_def b_def)
  have bound: "level_need act ds < 2 ^ 64"
    using level_need_le [OF ok ne] ok by (auto simp: loop_ok_def)
  note lt = level_scaled(2) [OF ok, folded b_def]
  have "fold_res (needed_step ds b (ud_units (ds ! b)) (ud_weight (ds ! b))) act (ud_units (ds ! b))
    = Inr (of_nat (unat (ud_units (ds ! b)) + sum_list (map ?g act)))"
  proof (rule fold_add_u64)
    fix i s assume i: "i \<in> set act"
    show "needed_step ds b (ud_units (ds ! b)) (ud_weight (ds ! b)) i s =
      (case add_u64 s (of_nat (?g i)) of (t, overflow) \<Rightarrow> if overflow then fail EC_NumericOverflow else Inr t)"
      using level_scaled(1) [OF ok i, folded b_def] unat_lt64 [of s]
      by (simp add: needed_step_def add_u64_spec)
  qed (use lt total bound in \<open>simp_all\<close>)
  then show ?thesis unfolding total .
qed

lemma lift_eval:
  assumes ok: "loop_ok act ds" and ne: "act \<noteq> []"
  defines "b \<equiv> bottleneck_of act ds"
  shows "\<exists>ds1. fold_res (lift_step b (ud_units (ds ! b)) (ud_weight (ds ! b))) act ds = Inr ds1 \<and>
    length ds1 = length ds \<and>
    (\<forall>j < length ds. ds1 ! j = (if j \<in> set act
      then (if j = b then ds ! b else lift_demand (of_nat (level_share ds b j)) (ds ! j)) else ds ! j))"
proof (rule fold_res_update)
  note facts = bottleneck_facts [OF ok ne, folded b_def]
  fix i xs assume i: "i \<in> set act" and len: "length xs = length ds" and same: "xs ! i = ds ! i"
  show "lift_step b (ud_units (ds ! b)) (ud_weight (ds ! b)) i xs =
      Inr (xs[i := if i = b then ds ! b else lift_demand (of_nat (level_share ds b i)) (ds ! i)])"
    using same level_scaled(1) [OF ok i, folded b_def]
    by (auto simp: lift_step_def) (metis list_update_id)
qed (use ok in \<open>auto simp: loop_ok_def\<close>)

lemma unat_sub64: "b \<le> a \<Longrightarrow> unat (a - b :: u64) = unat a - unat b"
  by (simp add: unat_sub)

lemma lift_demand_values:
  assumes "s \<le> unat (ud_units d)" and "unat (ud_allocated d) + unat (ud_units d) < 2 ^ 64"
  shows "unat (ud_allocated (lift_demand (of_nat s) d)) = unat (ud_allocated d) + s"
    and "unat (ud_units (lift_demand (of_nat s) d)) = unat (ud_units d) - s"
    and "ud_id (lift_demand (of_nat s) d) = ud_id d" "ud_weight (lift_demand (of_nat s) d) = ud_weight d"
proof -
  have s: "unat (of_nat s :: u64) = s"
    using assms(1) unat_lt64 [of "ud_units d"] by (intro unat_of_nat64) linarith
  have "unat (ud_allocated d) + s < 2 ^ 64" using assms by linarith
  then show "unat (ud_allocated (lift_demand (of_nat s) d)) = unat (ud_allocated d) + s"
    using unat_add_eq [OF refl s] by (simp add: lift_demand_def)
  have "of_nat s \<le> ud_units d" using assms(1) s by (simp only: word_le_nat_alt)
  then show "unat (ud_units (lift_demand (of_nat s) d)) = unat (ud_units d) - s"
    using s by (simp add: lift_demand_def unat_sub64)
qed (simp_all add: lift_demand_def)

text \<open>
  An iteration that lifts the water level: every active demand receives its level share, the
  bottleneck leaves the active set, and the loop goes on with the rest of the capacity.
\<close>

lemma loop_lift:
  assumes ok: "loop_ok act ds" and ne: "act \<noteq> []" and rem: "remaining \<noteq> 0"
    and enough: "level_need act ds \<le> unat remaining"
  defines "b \<equiv> bottleneck_of act ds"
  obtains act' ds' where
    "wmmf_loop remaining act ds = wmmf_loop (of_nat (unat remaining - level_need act ds)) act' ds'"
    "mset act = add_mset b (mset act')" "same_shape ds ds'"
    "\<And>i. i < length ds \<Longrightarrow> i \<notin> set act \<Longrightarrow> ds' ! i = ds ! i"
    "\<And>i. i \<in> set act \<Longrightarrow> al ds' i = al ds i + level_share ds b i"
    "\<And>i. i \<in> set act \<Longrightarrow> un ds' i + level_share ds b i = un ds i"
proof -
  note facts = bottleneck_facts [OF ok ne, folded b_def]
  define m where "m = select_min ds act"
  have m: "m < length act" and b: "b = act ! m"
    using select_min_less [OF ne] by (simp_all add: m_def b_def bottleneck_of_def)
  define act' where "act' = take m act @ drop (Suc m) act"
  have "act = take m act @ act ! m # drop (Suc m) act" using m by (rule id_take_nth_drop)
  then have mset: "mset act = add_mset b (mset act')"
    unfolding act'_def b by (metis mset.simps(2) mset_append union_mset_add_mset_right)
  obtain ds1 where lift: "fold_res (lift_step b (ud_units (ds ! b)) (ud_weight (ds ! b))) act ds = Inr ds1"
    and len: "length ds1 = length ds"
    and nth: "\<And>j. j < length ds \<Longrightarrow> ds1 ! j = (if j \<in> set act
      then (if j = b then ds ! b else lift_demand (of_nat (level_share ds b j)) (ds ! j)) else ds ! j)"
    using lift_eval [OF ok ne, folded b_def] by blast
  define ds' where "ds' = ds1[b := (ds1 ! b)\<lparr>ud_allocated := ud_allocated (ds1 ! b) + ud_units (ds ! b), ud_units := 0\<rparr>]"
  have len': "length ds' = length ds" using len by (simp add: ds'_def)
  have bl: "b < length ds" using facts(1) ok by (auto simp: loop_ok_def)
  have b_lift: "(ds ! b)\<lparr>ud_allocated := ud_allocated (ds ! b) + ud_units (ds ! b), ud_units := 0\<rparr> =
      lift_demand (of_nat (level_share ds b b)) (ds ! b)"
    by (simp add: lift_demand_def facts(5))
  have nth': "ds' ! j = (if j \<in> set act then lift_demand (of_nat (level_share ds b j)) (ds ! j) else ds ! j)"
    if "j < length ds" for j
    using that nth [OF that] nth [OF bl] bl len facts(1) b_lift
    by (auto simp: ds'_def nth_list_update)
  have vals: "al ds' i = al ds i + level_share ds b i" "un ds' i = un ds i - level_share ds b i"
    "ud_id (ds' ! i) = ud_id (ds ! i)" "ud_weight (ds' ! i) = ud_weight (ds ! i)" if "i \<in> set act" for i
    using lift_demand_values [OF facts(2) [OF that]] nth' that ok by (auto simp: loop_ok_def)
  have shape: "same_shape ds ds'"
    using nth' len' by (auto simp: same_shape_def lift_demand_def)
  have bound: "level_need act ds < 2 ^ 64" using level_need_le [OF ok ne] ok by (auto simp: loop_ok_def)
  then have need: "unat (of_nat (level_need act ds) :: u64) = level_need act ds" by (rule unat_of_nat64)
  have le: "of_nat (level_need act ds) \<le> remaining" using enough need by (simp only: word_le_nat_alt)
  have diff: "remaining - of_nat (level_need act ds) = of_nat (unat remaining - level_need act ds)"
    using enough by (simp add: of_nat_diff)
  have "wmmf_loop remaining act ds = wmmf_loop (remaining - of_nat (level_need act ds)) act' ds'"
    using ne rem le needed_eval [OF ok ne] lift
    by (subst wmmf_loop.simps)
      (simp add: Let_def m_def [symmetric] b [symmetric] b_def [symmetric] act'_def ds'_def)
  then show ?thesis
    using that [OF _ mset shape] nth' vals(1,2) facts(2) unfolding diff by simp
qed

lemma share_fold:
  assumes "distinct ks" and "\<And>i. i \<in> set ks \<Longrightarrow> i < length ds \<and> wt ds i = w i"
    and tw: "tw \<noteq> 0" and small: "\<And>i. i \<in> set ks \<Longrightarrow> unat r * w i div unat tw < 2 ^ 64"
  shows "\<exists>ds'. fold_res (share_step r tw) ks (ds, sofar, rs) =
      Inr (ds', sofar + sum_list (map (\<lambda>i. of_nat (unat r * w i div unat tw)) ks),
           rs @ map (\<lambda>i. (of_nat (unat r * w i mod unat tw), i)) ks) \<and> length ds' = length ds \<and>
    (\<forall>j < length ds. ds' ! j = (if j \<in> set ks
      then (ds ! j)\<lparr>ud_allocated := ud_allocated (ds ! j) + of_nat (unat r * w j div unat tw)\<rparr> else ds ! j))"
  using assms(1,2) small
proof (induction ks arbitrary: ds sofar rs)
  case Nil
  then show ?case by simp
next
  case (Cons i ks)
  let ?d = "(ds ! i)\<lparr>ud_allocated := ud_allocated (ds ! i) + of_nat (unat r * w i div unat tw)\<rparr>"
  have step: "share_step r tw i (ds, sofar, rs) = Inr (ds[i := ?d],
      sofar + of_nat (unat r * w i div unat tw), rs @ [(of_nat (unat r * w i mod unat tw), i)])"
    using Cons.prems(2) [of i] Cons.prems(3) [of i]
    by (simp add: share_step_def u128_div_u64_spec [OF tw] u128_mul_val)
  have "\<exists>ds'. fold_res (share_step r tw) ks (ds[i := ?d], sofar + of_nat (unat r * w i div unat tw),
        rs @ [(of_nat (unat r * w i mod unat tw), i)]) =
      Inr (ds', (sofar + of_nat (unat r * w i div unat tw)) + sum_list (map (\<lambda>i. of_nat (unat r * w i div unat tw)) ks),
           (rs @ [(of_nat (unat r * w i mod unat tw), i)]) @ map (\<lambda>i. (of_nat (unat r * w i mod unat tw), i)) ks) \<and>
      length ds' = length (ds[i := ?d]) \<and>
    (\<forall>j < length (ds[i := ?d]). ds' ! j = (if j \<in> set ks
      then (ds[i := ?d] ! j)\<lparr>ud_allocated := ud_allocated (ds[i := ?d] ! j) + of_nat (unat r * w j div unat tw)\<rparr>
      else ds[i := ?d] ! j))"
    using Cons.prems by (intro Cons.IH) (auto simp: nth_list_update)
  then obtain ds' where "fold_res (share_step r tw) (i # ks) (ds, sofar, rs) =
      Inr (ds', sofar + sum_list (map (\<lambda>i. of_nat (unat r * w i div unat tw)) (i # ks)),
           rs @ map (\<lambda>i. (of_nat (unat r * w i mod unat tw), i)) (i # ks))" and "length ds' = length ds"
    and "\<forall>j < length ds. ds' ! j = (if j \<in> set ks
      then (ds[i := ?d] ! j)\<lparr>ud_allocated := ud_allocated (ds[i := ?d] ! j) + of_nat (unat r * w j div unat tw)\<rparr>
      else ds[i := ?d] ! j)"
    by (auto simp: step add.assoc)
  moreover have "i \<notin> set ks" "i < length ds" using Cons.prems(1,2) by auto
  ultimately show ?case by (intro exI [of _ ds']) (auto simp: nth_list_update)
qed

lemma give_leftover_nth:
  assumes "distinct (map snd rs)" and "\<And>x. x \<in> set rs \<Longrightarrow> snd x < length ds"
  shows "length (give_leftover rs l ds) = length ds"
    and "j < length ds \<Longrightarrow> give_leftover rs l ds ! j =
      (if j \<in> snd ` set (take (unat l) rs) then (ds ! j)\<lparr>ud_allocated := ud_allocated (ds ! j) + 1\<rparr> else ds ! j)"
  using assms
proof (induction rs arbitrary: l ds)
  case (Cons x rs)
  {
    case 1
    then show ?case using Cons.IH(1) by simp
  next
    case 2
    show ?case
    proof (cases "l = 0")
      case False
      then have "0 < unat l" by (simp add: unat_gt_0)
      then have l: "unat l = Suc (unat (l - 1))" using False by (simp add: unat_minus_one)
      have "snd x \<notin> snd ` set (take n rs)" for n
        using 2(2) set_take_subset [of n rs] by auto
      with 2 False show ?thesis
        unfolding l by (auto simp: word_neq_0_conv Cons.IH(2) nth_list_update)
    qed simp
  }
qed simp_all

lemma sum_list_indicator:
  assumes "distinct xs" and "L \<subseteq> set xs"
  shows "sum_list (map (\<lambda>i. if i \<in> L then 1 else 0) xs) = card L"
proof -
  have "sum_list (map (\<lambda>i. if i \<in> L then 1 else 0) xs) = (\<Sum>i \<in> set xs. if i \<in> L then 1 else (0::nat))"
    using assms(1) by (simp add: sum_list_distinct_conv_sum_set)
  also have "\<dots> = card (set xs \<inter> L)" by (simp add: sum.If_cases)
  also have "set xs \<inter> L = L" using assms(2) by blast
  finally show ?thesis .
qed

text \<open>The arithmetic of a proportional split of \<open>R\<close> by weights with total \<open>T\<close>.\<close>

lemma split_arith:
  fixes w :: "'a \<Rightarrow> nat"
  assumes T: "T = sum_list (map w xs)" "0 < T"
  shows "sum_list (map (\<lambda>i. R * w i div T) xs) \<le> R"
    and "R - sum_list (map (\<lambda>i. R * w i div T) xs) \<le> length xs"
proof -
  let ?Q = "sum_list (map (\<lambda>i. R * w i div T) xs)" and ?M = "sum_list (map (\<lambda>i. R * w i mod T) xs)"
  have "?Q * T + ?M = sum_list (map (\<lambda>i. R * w i) xs)"
    by (induction xs) (auto simp: algebra_simps)
  moreover have "sum_list (map (\<lambda>i. R * w i) xs) = R * T"
    unfolding T(1) by (simp add: sum_list_const_mult)
  ultimately have eq: "?Q * T + ?M = R * T" by simp
  then have "?Q * T \<le> R * T" by linarith
  then show le: "?Q \<le> R" using T(2) by simp
  have "?M \<le> sum_list (map (\<lambda>_. T) xs)" using T(2) by (intro sum_list_map_le) (simp add: less_imp_le)
  then have "?M \<le> length xs * T" by (simp add: sum_list_triv)
  moreover have "(R - ?Q) * T = ?M" using eq by (simp add: diff_mult_distrib)
  ultimately show "R - ?Q \<le> length xs" using T(2) by (metis mult_le_cancel2)
qed

text \<open>The proportional share of the last round stays strictly below the unmet demand.\<close>

lemma last_share_less:
  assumes ok: "loop_ok act ds" and short: "R < level_need act ds" and i: "i \<in> set act"
  shows "R * wt ds i div sum_list (map (wt ds) act) < un ds i"
proof -
  let ?b = "bottleneck_of act ds" and ?T = "sum_list (map (wt ds) act)"
  have ne: "act \<noteq> []" using i by auto
  note facts = bottleneck_facts [OF ok ne]
  have "wt ds ?b * level_share ds ?b j \<le> un ds ?b * wt ds j" for j
    by (simp add: level_share_def)
  then have "sum_list (map (\<lambda>j. wt ds ?b * level_share ds ?b j) act) \<le> sum_list (map (\<lambda>j. un ds ?b * wt ds j) act)"
    by (rule sum_list_map_le)
  then have level: "wt ds ?b * level_need act ds \<le> un ds ?b * ?T" by (simp add: sum_list_const_mult)
  have "wt ds ?b * R < wt ds ?b * level_need act ds" using short facts(4) by simp
  with level have lt: "wt ds ?b * R < un ds ?b * ?T" by linarith
  have wi: "0 < wt ds i" using ok i by (auto simp: loop_ok_def)
  have "wt ds ?b * (R * wt ds i) = wt ds ?b * R * wt ds i" by simp
  also have "\<dots> < un ds ?b * ?T * wt ds i" using lt wi by simp
  also have "\<dots> = un ds ?b * wt ds i * ?T" by (simp add: ac_simps)
  also have "\<dots> \<le> un ds i * wt ds ?b * ?T" using facts(3) [OF i] by simp
  also have "\<dots> = wt ds ?b * (un ds i * ?T)" by (simp add: ac_simps)
  finally have "R * wt ds i < un ds i * ?T" by simp
  then show ?thesis by (simp add: less_mult_imp_div_less)
qed

lemma weight_fold:
  assumes ok: "loop_ok act ds"
  shows "fold_res (weight_step ds) act 0 = Inr (of_nat (sum_list (map (wt ds) act)))"
proof -
  have "fold_res (weight_step ds) act 0 = Inr (of_nat (unat (0 :: u64) + sum_list (map (wt ds) act)))"
    by (rule fold_add_u64 [where e = "Err EC_NumericOverflow"])
      (use ok in \<open>simp_all only: weight_step_def loop_ok_def of_nat_unat64 unat_lt64 unat_0 add_0\<close>)
  then show ?thesis by simp
qed

lemma sum_list_of_nat: "sum_list (map (\<lambda>i. of_nat (f i)) xs) = (of_nat (sum_list (map f xs)) :: u64)"
  by (induction xs) simp_all

text \<open>
  The last iteration: the rest of the capacity is split in proportion to the weights, each
  active demand receiving its floor share or one unit more, and nothing is lost.
\<close>

lemma share_remaining_eval:
  assumes ok: "loop_ok act ds" and ne: "act \<noteq> []" and short: "unat remaining < level_need act ds"
  defines "q \<equiv> \<lambda>i. unat remaining * wt ds i div sum_list (map (wt ds) act)"
  obtains ds' where "share_remaining remaining act ds = Inr ds'" "same_shape ds ds'"
    "\<And>i. i < length ds \<Longrightarrow> i \<notin> set act \<Longrightarrow> ds' ! i = ds ! i"
    "\<And>i. i \<in> set act \<Longrightarrow> al ds i + q i \<le> al ds' i \<and> al ds' i \<le> al ds i + q i + 1"
    "sum_list (map (al ds') act) = sum_list (map (al ds) act) + unat remaining"
proof -
  let ?T = "sum_list (map (wt ds) act)"
  have distinct: "distinct act" and inb: "\<And>i. i \<in> set act \<Longrightarrow> i < length ds"
    and cap: "\<And>i. i \<in> set act \<Longrightarrow> al ds i + un ds i < 2 ^ 64" and Tlt: "?T < 2 ^ 64"
    using ok by (auto simp: loop_ok_def)
  obtain i0 where i0: "i0 \<in> set act" using ne by (cases act) auto
  have "0 < wt ds i0" using ok i0 by (auto simp: loop_ok_def)
  with member_le_sum_list_map [OF i0, of "wt ds"] have T: "0 < ?T" by linarith
  have uT: "unat (of_nat ?T :: u64) = ?T" using Tlt by (rule unat_of_nat64)
  then have Tnz: "(of_nat ?T :: u64) \<noteq> 0" using T by (metis less_irrefl unat_0)
  have q_less: "q i < un ds i" if "i \<in> set act" for i
    using last_share_less [OF ok short that] by (simp add: q_def)
  have q_small: "q i < 2 ^ 64" if "i \<in> set act" for i
    using q_less [OF that] unat_lt64 less_trans by blast
  obtain ds1 where fold: "fold_res (share_step remaining (of_nat ?T)) act (ds, 0, []) =
      Inr (ds1, of_nat (sum_list (map q act)), map (\<lambda>i. (of_nat (unat remaining * wt ds i mod ?T), i)) act)"
    and len1: "length ds1 = length ds"
    and nth1: "\<And>j. j < length ds \<Longrightarrow> ds1 ! j = (if j \<in> set act
      then (ds ! j)\<lparr>ud_allocated := ud_allocated (ds ! j) + of_nat (q j)\<rparr> else ds ! j)"
  proof -
    have pre: "\<And>i. i \<in> set act \<Longrightarrow> unat remaining * wt ds i div unat (of_nat ?T :: u64) < 2 ^ 64"
      using q_small unfolding q_def uT .
    have sf: "\<exists>ds1. fold_res (share_step remaining (of_nat ?T)) act (ds, 0, []) =
        Inr (ds1, of_nat (sum_list (map q act)), map (\<lambda>i. (of_nat (unat remaining * wt ds i mod ?T), i)) act) \<and>
        length ds1 = length ds \<and> (\<forall>j < length ds. ds1 ! j = (if j \<in> set act
          then (ds ! j)\<lparr>ud_allocated := ud_allocated (ds ! j) + of_nat (q j)\<rparr> else ds ! j))"
      using share_fold [OF distinct _ Tnz pre, where ds = ds and sofar = 0 and rs = "[]"] inb
      unfolding uT q_def sum_list_of_nat by simp
    then show ?thesis using that by blast
  qed
  have Q: "sum_list (map q act) \<le> unat remaining" and L: "unat remaining - sum_list (map q act) \<le> length act"
    using split_arith [OF refl T, of "unat remaining"] by (simp_all add: q_def)
  define left where "left = remaining - of_nat (sum_list (map q act))"
  have left: "unat left = unat remaining - sum_list (map q act)"
  proof -
    have u: "unat (of_nat (sum_list (map q act)) :: u64) = sum_list (map q act)"
      using Q unat_lt64 [of remaining] by (intro unat_of_nat64) linarith
    then have "of_nat (sum_list (map q act)) \<le> remaining" using Q by (simp only: word_le_nat_alt)
    then show ?thesis using u by (simp add: left_def unat_sub64)
  qed
  define rs where "rs = sort_by remainder_before (map (\<lambda>i. (of_nat (unat remaining * wt ds i mod ?T) :: u64, i)) act)"
  have snd_rs: "mset (map snd rs) = mset act"
  proof -
    have "mset (map snd rs) = image_mset snd (mset rs)" by simp
    also have "\<dots> = mset act" by (simp add: rs_def image_mset.compositionality comp_def)
    finally show ?thesis .
  qed
  have rs: "distinct (map snd rs)" "snd ` set rs = set act" "length rs = length act"
    using snd_rs distinct mset_eq_imp_distinct_iff [OF snd_rs] mset_eq_setD [OF snd_rs]
      mset_eq_length [OF snd_rs] by simp_all
  define G where "G = snd ` set (take (unat left) rs)"
  have G: "G \<subseteq> set act" "card G = unat left"
  proof -
    show "G \<subseteq> set act" using rs(2) set_take_subset [of "unat left" rs] by (auto simp: G_def)
    have "distinct (map snd (take (unat left) rs))"
      using rs(1) by (simp add: take_map [symmetric])
    from distinct_card [OF this] show "card G = unat left"
      using L left rs(3) by (simp add: G_def)
  qed
  define ds' where "ds' = give_leftover rs left ds1"
  have rs_inb: "snd x < length ds1" if "x \<in> set rs" for x using that inb rs(2) len1 by auto
  have len': "length ds' = length ds"
    using give_leftover_nth(1) [OF rs(1) rs_inb] len1 by (simp add: ds'_def)
  have nth': "ds' ! j = (if j \<in> G then (ds1 ! j)\<lparr>ud_allocated := ud_allocated (ds1 ! j) + 1\<rparr> else ds1 ! j)"
    if "j < length ds" for j
    using give_leftover_nth(2) [OF rs(1) rs_inb, where j = j and l = left] that len1
    by (simp add: ds'_def G_def)
  have al': "al ds' i = al ds i + (q i + (if i \<in> G then 1 else 0))" if i: "i \<in> set act" for i
  proof -
    have small: "al ds i + q i + 1 < 2 ^ 64" using q_less [OF i] cap [OF i] by linarith
    have 1: "unat (ud_allocated (ds ! i) + of_nat (q i)) = al ds i + q i"
      using small by (intro unat_add_eq refl unat_of_nat64 q_small i) simp
    have 2: "unat (ud_allocated (ds ! i) + of_nat (q i) + 1) = al ds i + q i + 1"
      using small by (intro unat_add_eq 1) simp_all
    show ?thesis using nth' [OF inb [OF i]] nth1 [OF inb [OF i]] i 1 2 by simp
  qed
  have sum: "sum_list (map (al ds') act) = sum_list (map (al ds) act) + unat remaining"
  proof -
    have "sum_list (map (al ds') act) =
        sum_list (map (\<lambda>i. al ds i + (q i + (if i \<in> G then 1 else 0))) act)"
      using al' by (intro arg_cong [where f = sum_list] map_cong) auto
    also have "\<dots> = sum_list (map (al ds) act) + (sum_list (map q act) + card G)"
      by (simp add: sum_list_addf sum_list_indicator [OF distinct G(1)])
    finally show ?thesis using G(2) left Q by simp
  qed
  have "share_remaining remaining act ds = Inr ds'"
    by (simp add: share_remaining_def weight_fold [OF ok] fold rs_def ds'_def left_def)
  moreover have "same_shape ds ds'" using len' nth' nth1 by (auto simp: same_shape_def)
  moreover have "ds' ! i = ds ! i" if "i < length ds" "i \<notin> set act" for i
    using that nth' nth1 G(1) by auto
  ultimately show ?thesis using that al' sum by auto
qed

lemma loop_last:
  assumes ok: "loop_ok act ds" and "act \<noteq> []" and "r \<noteq> 0" and "unat r < level_need act ds"
  shows "wmmf_loop r act ds = share_remaining r act ds"
  using assms needed_eval [OF ok assms(2)] unat_of_nat64 [of "level_need act ds"]
    level_need_le [OF ok assms(2)]
  by (subst wmmf_loop.simps) (simp add: Let_def bottleneck_of_def word_le_nat_alt loop_ok_def)

lemma loop_stop: "act = [] \<or> r = 0 \<Longrightarrow> wmmf_loop r act ds = Inr ds"
  by (subst wmmf_loop.simps) simp

section \<open>Totality, conservation and demand safety of the loop\<close>

lemma sum_list_add_mset:
  fixes f :: "'a \<Rightarrow> 'b::comm_monoid_add"
  assumes "mset xs = add_mset b (mset ys)"
  shows "sum_list (map f xs) = f b + sum_list (map f ys)"
proof -
  have "sum_mset (image_mset f (mset xs)) = f b + sum_mset (image_mset f (mset ys))"
    using assms by simp
  then show ?thesis by (simp add: sum_mset_sum_list flip: mset_map)
qed

lemma loop_ok_lift:
  assumes ok: "loop_ok act ds" and mset: "mset act = add_mset b (mset act')" and shape: "same_shape ds ds'"
    and al: "\<And>i. i \<in> set act \<Longrightarrow> al ds' i = al ds i + g i"
    and un: "\<And>i. i \<in> set act \<Longrightarrow> un ds' i + g i = un ds i"
  shows "loop_ok act' ds'" and "set act = insert b (set act')" and "b \<notin> set act'"
proof -
  show set: "set act = insert b (set act')" using mset_eq_setD [of act "b # act'"] mset by simp
  have d: "distinct (b # act')" using mset_eq_imp_distinct_iff [of act "b # act'"] mset ok
    by (simp add: loop_ok_def)
  then show "b \<notin> set act'" by simp
  have len: "length ds' = length ds" and w: "\<And>i. i < length ds \<Longrightarrow> ud_weight (ds' ! i) = ud_weight (ds ! i)"
    using shape by (auto simp: same_shape_def)
  have elems: "i < length ds' \<and> 0 < wt ds' i \<and> al ds' i + un ds' i < 2 ^ 64" if "i \<in> set act'" for i
  proof -
    have i: "i \<in> set act" using that set by simp
    have "i < length ds" "0 < wt ds i" "al ds i + un ds i < 2 ^ 64" using ok i by (auto simp: loop_ok_def)
    with w len al [OF i] un [OF i] show ?thesis by simp
  qed
  have "sum_list (map (un ds') act') \<le> sum_list (map (un ds) act')"
    using un set by (intro sum_list_map_le) (metis insertCI le_add1)
  also have "\<dots> \<le> sum_list (map (un ds) act)" using sum_list_add_mset [OF mset, of "un ds"] by simp
  finally have su: "sum_list (map (un ds') act') < 2 ^ 64" using ok by (simp add: loop_ok_def)
  have "sum_list (map (wt ds') act') = sum_list (map (wt ds) act')"
    using w set ok by (intro arg_cong [where f = sum_list] map_cong) (auto simp: loop_ok_def)
  also have "\<dots> \<le> sum_list (map (wt ds) act)" using sum_list_add_mset [OF mset, of "wt ds"] by simp
  finally have "sum_list (map (wt ds') act') < 2 ^ 64" using ok by (simp add: loop_ok_def)
  with d elems su show "loop_ok act' ds'" by (simp add: loop_ok_def)
qed

definition loop_post :: "nat \<Rightarrow> nat list \<Rightarrow> unit_demand list \<Rightarrow> unit_demand list \<Rightarrow> bool" where
  "loop_post R act ds ds' \<longleftrightarrow> same_shape ds ds' \<and>
    (\<forall>i < length ds. i \<notin> set act \<longrightarrow> ds' ! i = ds ! i) \<and>
    (\<forall>i \<in> set act. al ds i \<le> al ds' i \<and> al ds' i \<le> al ds i + un ds i) \<and>
    sum_list (map (al ds') act) = sum_list (map (al ds) act) + min R (sum_list (map (un ds) act))"

lemma loop_post_refl: "act = [] \<or> R = 0 \<Longrightarrow> loop_post R act ds ds"
  by (auto simp: loop_post_def same_shape_refl)

lemma min_shift: "n \<le> R \<Longrightarrow> n + min (R - n) S = min R (S + n)" for n R S :: nat
  by (auto simp: min_def)

lemma loop_post_lift:
  assumes ok: "loop_ok act ds" and ne: "act \<noteq> []" and enough: "level_need act ds \<le> R"
    and mset: "mset act = add_mset b (mset act')" and shape: "same_shape ds ds1"
    and b: "b = bottleneck_of act ds"
    and other: "\<And>i. i < length ds \<Longrightarrow> i \<notin> set act \<Longrightarrow> ds1 ! i = ds ! i"
    and al: "\<And>i. i \<in> set act \<Longrightarrow> al ds1 i = al ds i + level_share ds b i"
    and un: "\<And>i. i \<in> set act \<Longrightarrow> un ds1 i + level_share ds b i = un ds i"
    and post: "loop_post (R - level_need act ds) act' ds1 ds'"
  shows "loop_post R act ds ds'"
proof -
  note lifted = loop_ok_lift [OF ok mset shape al un]
  note facts = bottleneck_facts [OF ok ne, folded b]
  note p = post [unfolded loop_post_def]
  have len: "length ds1 = length ds" using shape by (simp add: same_shape_def)
  have inb: "\<And>i. i \<in> set act \<Longrightarrow> i < length ds" using ok by (auto simp: loop_ok_def)
  have bb: "ds' ! b = ds1 ! b" using p lifted(3) len inb [OF facts(1)] by simp
  have b_done: "un ds1 b = 0" using un [OF facts(1)] facts(5) by simp
  have range: "al ds i \<le> al ds' i \<and> al ds' i \<le> al ds i + un ds i" if i: "i \<in> set act" for i
  proof (cases "i = b")
    case True
    then show ?thesis using bb al [OF i] facts(5) by simp
  next
    case False
    then have "i \<in> set act'" using i lifted(2) by simp
    then have "al ds1 i \<le> al ds' i \<and> al ds' i \<le> al ds1 i + un ds1 i" using p by simp
    then show ?thesis using al [OF i] un [OF i] by linarith
  qed
  have sums: "sum_list (map (al ds1) act) = sum_list (map (al ds) act) + level_need act ds"
    "sum_list (map (un ds) act) = sum_list (map (un ds1) act) + level_need act ds"
  proof -
    have "sum_list (map (al ds1) act) = sum_list (map (\<lambda>i. al ds i + level_share ds b i) act)"
      using al by (intro arg_cong [where f = sum_list] map_cong) auto
    then show "sum_list (map (al ds1) act) = sum_list (map (al ds) act) + level_need act ds"
      by (simp add: sum_list_addf b)
    have "sum_list (map (un ds) act) = sum_list (map (\<lambda>i. un ds1 i + level_share ds b i) act)"
      using un by (intro arg_cong [where f = sum_list] map_cong) auto
    then show "sum_list (map (un ds) act) = sum_list (map (un ds1) act) + level_need act ds"
      by (simp add: sum_list_addf b)
  qed
  have "sum_list (map (al ds') act) = sum_list (map (al ds1) act) +
      min (R - level_need act ds) (sum_list (map (un ds1) act'))"
    using sum_list_add_mset [OF mset, of "al ds'"] sum_list_add_mset [OF mset, of "al ds1"] p bb by simp
  also have "sum_list (map (un ds1) act') = sum_list (map (un ds1) act)"
    using sum_list_add_mset [OF mset, of "un ds1"] b_done by simp
  finally have total: "sum_list (map (al ds') act) =
      sum_list (map (al ds) act) + min R (sum_list (map (un ds) act))"
    using sums min_shift [OF enough, of "sum_list (map (un ds1) act)"] by simp
  have "ds' ! i = ds ! i" if "i < length ds" "i \<notin> set act" for i
    using p other that lifted(2) len by simp
  then show ?thesis
    using range total p same_shape_trans [OF shape] by (simp add: loop_post_def)
qed

lemma wmmf_loop_conserves:
  "loop_ok act ds \<Longrightarrow> \<exists>ds'. wmmf_loop r act ds = Inr ds' \<and> loop_post (unat r) act ds ds'"
proof (induction "length act" arbitrary: act ds r rule: less_induct)
  case less
  note ok = less.prems
  consider "act = [] \<or> r = 0" | "act \<noteq> []" "r \<noteq> 0" "level_need act ds \<le> unat r"
    | "act \<noteq> []" "r \<noteq> 0" "unat r < level_need act ds" by linarith
  then show ?case
  proof cases
    case 1
    then show ?thesis using loop_post_refl [of act "unat r" ds] by (auto simp: loop_stop)
  next
    case 2
    obtain act' ds1 where step:
        "wmmf_loop r act ds = wmmf_loop (of_nat (unat r - level_need act ds)) act' ds1"
      and mset: "mset act = add_mset (bottleneck_of act ds) (mset act')" and shape: "same_shape ds ds1"
      and other: "\<And>i. i < length ds \<Longrightarrow> i \<notin> set act \<Longrightarrow> ds1 ! i = ds ! i"
      and al: "\<And>i. i \<in> set act \<Longrightarrow> al ds1 i = al ds i + level_share ds (bottleneck_of act ds) i"
      and un: "\<And>i. i \<in> set act \<Longrightarrow> un ds1 i + level_share ds (bottleneck_of act ds) i = un ds i"
      by (rule loop_lift [OF ok 2]) (rule that)
    have shorter: "length act' < length act" using mset_eq_length [of act "bottleneck_of act ds # act'"] mset by simp
    have u: "unat (of_nat (unat r - level_need act ds) :: u64) = unat r - level_need act ds"
      using unat_lt64 [of r] by (intro unat_of_nat64) linarith
    obtain ds' where "wmmf_loop (of_nat (unat r - level_need act ds)) act' ds1 = Inr ds'"
      "loop_post (unat r - level_need act ds) act' ds1 ds'"
      using less.hyps [OF shorter loop_ok_lift(1) [OF ok mset shape al un]] u by metis
    with step loop_post_lift [OF ok 2(1,3) mset shape refl other al un] show ?thesis by auto
  next
    case 3
    obtain ds' where eval: "share_remaining r act ds = Inr ds'" and shape: "same_shape ds ds'"
      and other: "\<And>i. i < length ds \<Longrightarrow> i \<notin> set act \<Longrightarrow> ds' ! i = ds ! i"
      and share: "\<And>i. i \<in> set act \<Longrightarrow> al ds i + unat r * wt ds i div sum_list (map (wt ds) act) \<le> al ds' i \<and>
        al ds' i \<le> al ds i + unat r * wt ds i div sum_list (map (wt ds) act) + 1"
      and sum: "sum_list (map (al ds') act) = sum_list (map (al ds) act) + unat r"
      by (rule share_remaining_eval [OF ok 3(1,3)]) blast
    have loop: "wmmf_loop r act ds = Inr ds'" using loop_last [OF ok 3] eval by simp
    have "al ds i \<le> al ds' i \<and> al ds' i \<le> al ds i + un ds i" if "i \<in> set act" for i
      using share [OF that] last_share_less [OF ok 3(3) that] by linarith
    moreover have "min (unat r) (sum_list (map (un ds) act)) = unat r"
      using 3(3) level_need_le [OF ok 3(1)] by simp
    ultimately show ?thesis using loop shape other sum by (simp add: loop_post_def)
  qed
qed

section \<open>Distance from exact max-min fairness\<close>

text \<open>
  The water level after a number of rounds is a real number: each active demand has received
  its weight times the level, up to one unit of rounding per round.
\<close>

lemma floor_share_bounds:
  fixes u w v :: nat
  assumes "0 < v"
  shows "real u * real w / real v - 1 \<le> real (u * w div v)"
    and "real (u * w div v) \<le> real u * real w / real v"
proof -
  have "u * w = v * (u * w div v) + u * w mod v" by simp
  then have eq: "real u * real w = real v * real (u * w div v) + real (u * w mod v)"
    by (metis of_nat_add of_nat_mult)
  have lt: "real (u * w mod v) < real v" using assms by simp
  show "real u * real w / real v - 1 \<le> real (u * w div v)"
    using eq lt assms by (simp add: field_simps)
  show "real (u * w div v) \<le> real u * real w / real v"
    using eq assms by (simp add: field_simps)
qed

definition level_bounds :: "real \<Rightarrow> nat \<Rightarrow> nat list \<Rightarrow> unit_demand list \<Rightarrow> bool" where
  "level_bounds lv k act ds \<longleftrightarrow>
    (\<forall>i \<in> set act. lv * real (wt ds i) - real k \<le> real (al ds i) \<and> real (al ds i) \<le> lv * real (wt ds i))"

definition fair_post :: "real \<Rightarrow> nat \<Rightarrow> nat list \<Rightarrow> unit_demand list \<Rightarrow> unit_demand list \<Rightarrow> bool" where
  "fair_post lv k act ds ds' \<longleftrightarrow>
    (\<forall>j \<in> set act. real (al ds' j) \<le> lv * real (wt ds j) + 1) \<and>
    (\<forall>i \<in> set act. al ds' i < al ds i + un ds i \<longrightarrow> lv * real (wt ds i) - real k \<le> real (al ds' i))"

lemma fair_post_lift:
  assumes ok: "loop_ok act ds" and ne: "act \<noteq> []"
    and mset: "mset act = add_mset b (mset act')" and shape: "same_shape ds ds1"
    and b: "b = bottleneck_of act ds"
    and al: "\<And>i. i \<in> set act \<Longrightarrow> al ds1 i = al ds i + level_share ds b i"
    and un: "\<And>i. i \<in> set act \<Longrightarrow> un ds1 i + level_share ds b i = un ds i"
    and same: "ds' ! b = ds1 ! b"
    and bounds: "level_bounds lv k act ds"
  defines "lv1 \<equiv> lv + real (un ds b) / real (wt ds b)"
  shows "level_bounds lv1 (Suc k) act' ds1"
    and "lv1 \<le> lv2 \<Longrightarrow> fair_post lv2 n act' ds1 ds' \<Longrightarrow> fair_post lv2 n act ds ds'"
proof -
  note facts = bottleneck_facts [OF ok ne, folded b]
  note lifted = loop_ok_lift [OF ok mset shape al un]
  have w: "ud_weight (ds1 ! i) = ud_weight (ds ! i)" if "i \<in> set act" for i
    using shape ok that by (auto simp: same_shape_def loop_ok_def)
  have step: "lv1 * real (wt ds i) - real (Suc k) \<le> real (al ds1 i) \<and> real (al ds1 i) \<le> lv1 * real (wt ds i)" if i: "i \<in> set act" for i
  proof -
    have "lv1 * real (wt ds i) = lv * real (wt ds i) + real (un ds b) * real (wt ds i) / real (wt ds b)"
      by (simp add: lv1_def distrib_right)
    moreover have "lv * real (wt ds i) - real k \<le> real (al ds i)" "real (al ds i) \<le> lv * real (wt ds i)"
      using bounds i by (auto simp: level_bounds_def)
    ultimately show ?thesis
      using floor_share_bounds [OF facts(4), of "un ds b" "wt ds i"] al [OF i]
      by (simp add: level_share_def)
  qed
  then show "level_bounds lv1 (Suc k) act' ds1"
    using w lifted(2) by (simp add: level_bounds_def)
  show "fair_post lv2 n act ds ds'" if le: "lv1 \<le> lv2" and post: "fair_post lv2 n act' ds1 ds'"
  proof -
    have "lv1 * real (wt ds b) \<le> lv2 * real (wt ds b)" using le by (rule mult_right_mono) (rule of_nat_0_le_iff)
    then have "real (al ds' b) \<le> lv2 * real (wt ds b) + 1" using step [OF facts(1)] same by simp
    moreover have "\<not> al ds' b < al ds b + un ds b" using same al [OF facts(1)] facts(5) by simp
    moreover have "al ds1 i + un ds1 i = al ds i + un ds i" if "i \<in> set act" for i
      using al [OF that] un [OF that] by simp
    ultimately show ?thesis
      using post w lifted(2) by (simp add: fair_post_def)
  qed
qed

lemma wmmf_loop_fair:
  "loop_ok act ds \<Longrightarrow> level_bounds lv k act ds \<Longrightarrow> wmmf_loop r act ds = Inr ds' \<Longrightarrow>
    \<exists>lv'. lv \<le> lv' \<and> fair_post lv' (k + length act) act ds ds'"
proof (induction "length act" arbitrary: act ds r lv k rule: less_induct)
  case less
  note ok = less.prems(1) and bounds = less.prems(2) and result = less.prems(3)
  consider "act = [] \<or> r = 0" | "act \<noteq> []" "r \<noteq> 0" "level_need act ds \<le> unat r"
    | "act \<noteq> []" "r \<noteq> 0" "unat r < level_need act ds" by linarith
  then show ?case
  proof cases
    case 1
    then have "ds' = ds" using result by (simp add: loop_stop)
    then show ?thesis using bounds
      by (intro exI [of _ lv]) (auto simp: fair_post_def level_bounds_def)
  next
    case 2
    obtain act' ds1 where step:
        "wmmf_loop r act ds = wmmf_loop (of_nat (unat r - level_need act ds)) act' ds1"
      and mset: "mset act = add_mset (bottleneck_of act ds) (mset act')" and shape: "same_shape ds ds1"
      and al: "\<And>i. i \<in> set act \<Longrightarrow> al ds1 i = al ds i + level_share ds (bottleneck_of act ds) i"
      and un: "\<And>i. i \<in> set act \<Longrightarrow> un ds1 i + level_share ds (bottleneck_of act ds) i = un ds i"
      by (rule loop_lift [OF ok 2]) (rule that)
    note lifted = loop_ok_lift [OF ok mset shape al un]
    have run: "wmmf_loop (of_nat (unat r - level_need act ds)) act' ds1 = Inr ds'" using step result by simp
    have "bottleneck_of act ds < length ds1"
      using bottleneck_facts(1) [OF ok 2(1)] ok shape by (auto simp: loop_ok_def same_shape_def)
    moreover obtain R where "loop_post R act' ds1 ds'"
      using wmmf_loop_conserves [OF lifted(1), of "of_nat (unat r - level_need act ds)"] run by auto
    ultimately have "ds' ! bottleneck_of act ds = ds1 ! bottleneck_of act ds"
      using lifted(3) by (simp add: loop_post_def)
    note fp = fair_post_lift [OF ok 2(1) mset shape refl al un this bounds]
    have len: "length act = Suc (length act')"
      using mset_eq_length [of act "bottleneck_of act ds # act'"] mset by simp
    obtain lv' where "lv + real (un ds (bottleneck_of act ds)) / real (wt ds (bottleneck_of act ds)) \<le> lv'"
      and "fair_post lv' (Suc k + length act') act' ds1 ds'"
      using less.hyps [OF _ lifted(1) fp(1) run] len by auto
    moreover have "0 \<le> real (un ds (bottleneck_of act ds)) / real (wt ds (bottleneck_of act ds))"
      by (intro divide_nonneg_nonneg of_nat_0_le_iff)
    ultimately have "lv \<le> lv'" and "fair_post lv' (Suc k + length act') act' ds1 ds'"
      "lv + real (un ds (bottleneck_of act ds)) / real (wt ds (bottleneck_of act ds)) \<le> lv'"
      by linarith+
    then show ?thesis using fp(2) len by auto
  next
    case 3
    let ?T = "sum_list (map (wt ds) act)"
    obtain ds2 where eval: "share_remaining r act ds = Inr ds2"
      and share: "\<And>i. i \<in> set act \<Longrightarrow> al ds i + unat r * wt ds i div ?T \<le> al ds2 i \<and>
        al ds2 i \<le> al ds i + unat r * wt ds i div ?T + 1"
      by (rule share_remaining_eval [OF ok 3(1,3)]) blast
    have "ds2 = ds'" using loop_last [OF ok 3] eval result by simp
    obtain i0 where i0: "i0 \<in> set act" using 3(1) by (cases act) auto
    then have "0 < wt ds i0" using ok by (auto simp: loop_ok_def)
    with member_le_sum_list_map [OF i0, of "wt ds"] have T: "0 < ?T" by linarith
    let ?lv = "lv + real (unat r) / real ?T"
    have "?lv * real (wt ds i) - real (k + length act) \<le> real (al ds' i) \<and> real (al ds' i) \<le> ?lv * real (wt ds i) + 1" if i: "i \<in> set act" for i
    proof -
      have "?lv * real (wt ds i) = lv * real (wt ds i) + real (unat r) * real (wt ds i) / real ?T" by (simp add: distrib_right)
      moreover have "1 \<le> length act" using 3(1) by (cases act) auto
      moreover have "lv * real (wt ds i) - real k \<le> real (al ds i)" "real (al ds i) \<le> lv * real (wt ds i)"
        using bounds i by (auto simp: level_bounds_def)
      moreover note floor_share_bounds [OF T, of "unat r" "wt ds i"] share [OF i]
      ultimately show ?thesis unfolding \<open>ds2 = ds'\<close> by linarith
    qed
    then have "fair_post ?lv (k + length act) act ds ds'" by (simp add: fair_post_def)
    moreover have "0 \<le> real (unat r) / real ?T" by (intro divide_nonneg_nonneg of_nat_0_le_iff)
    then have "lv \<le> ?lv" by linarith
    ultimately show ?thesis by blast
  qed
qed

section \<open>A single level\<close>

definition demands_ok :: "unit_demand list \<Rightarrow> bool" where
  "demands_ok ds \<longleftrightarrow> (\<forall>d \<in> set ds. ud_weight d \<noteq> 0 \<and> ud_allocated d = 0) \<and>
    sum_list (map (unat \<circ> ud_units) ds) < 2 ^ 64 \<and> sum_list (map (unat \<circ> ud_weight) ds) < 2 ^ 64"

lemma sum_list_nth: "sum_list (map f ds) = sum_list (map (\<lambda>i. f (ds ! i)) [0..<length ds])"
  by (rule arg_cong [where f = sum_list], rule nth_equalityI) simp_all

lemma sum_list_filter_le: "sum_list (map f (filter P xs)) \<le> sum_list (map f xs)" for f :: "'a \<Rightarrow> nat"
  by (induction xs) auto

lemma demands_ok_loop: "demands_ok ds \<Longrightarrow> loop_ok (initial_active ds) ds"
proof -
  assume ok: "demands_ok ds"
  have "sum_list (map (un ds) (initial_active ds)) \<le> sum_list (map (un ds) [0..<length ds])"
    "sum_list (map (wt ds) (initial_active ds)) \<le> sum_list (map (wt ds) [0..<length ds])"
    unfolding initial_active_def by (rule sum_list_filter_le)+
  moreover have "sum_list (map (un ds) [0..<length ds]) < 2 ^ 64" "sum_list (map (wt ds) [0..<length ds]) < 2 ^ 64"
    using ok by (simp_all add: demands_ok_def comp_def sum_list_nth [where ds = ds])
  moreover have "al ds i + un ds i < 2 ^ 64" if "i < length ds" for i
    using ok that unat_lt64 [of "ud_units (ds ! i)"] by (simp add: demands_ok_def)
  ultimately show ?thesis
    by (auto simp: loop_ok_def initial_active_def unat_gt_0)
qed

lemma initial_active_complement:
  "demands_ok ds \<Longrightarrow> i < length ds \<Longrightarrow> i \<notin> set (initial_active ds) \<Longrightarrow> un ds i = 0 \<and> al ds i = 0"
  by (auto simp: demands_ok_def initial_active_def simp flip: word_neq_0_conv)

lemma sum_over_active:
  assumes "\<And>i. i < length ds \<Longrightarrow> i \<notin> set (initial_active ds) \<Longrightarrow> f i = 0"
  shows "sum_list (map f (initial_active ds)) = (sum_list (map f [0..<length ds]) :: nat)"
  unfolding initial_active_def
  by (rule sum_list_map_filter) (use assms in \<open>auto simp: initial_active_def\<close>)

lemma wmmf_units_total:
  assumes ok: "demands_ok ds"
  shows "\<exists>ds'. wmmf_units c ds = Inr ds' \<and> same_shape ds ds' \<and>
    (\<forall>i < length ds. al ds' i \<le> un ds i) \<and>
    sum_list (map (unat \<circ> ud_allocated) ds') = min (unat c) (sum_list (map (unat \<circ> ud_units) ds))"
proof -
  obtain ds' where run: "wmmf_units c ds = Inr ds'" and post: "loop_post (unat c) (initial_active ds) ds ds'"
    using wmmf_loop_conserves [OF demands_ok_loop [OF ok]] by (auto simp: wmmf_units_def)
  note p = post [unfolded loop_post_def]
  have zero: "al ds i = 0" if "i < length ds" for i using ok that by (simp add: demands_ok_def)
  have rest: "al ds' i = 0" "un ds i = 0" if "i < length ds" "i \<notin> set (initial_active ds)" for i
    using p initial_active_complement [OF ok that] that by auto
  have "al ds' i \<le> un ds i" if "i < length ds" for i
    using p rest [OF that] zero [OF that] by (cases "i \<in> set (initial_active ds)") auto
  moreover have "sum_list (map (unat \<circ> ud_allocated) ds') = min (unat c) (sum_list (map (unat \<circ> ud_units) ds))"
  proof -
    have len: "length ds' = length ds" using p by (simp add: same_shape_def)
    have "sum_list (map (al ds) (initial_active ds)) = 0"
      using zero by (auto simp: initial_active_def)
    moreover have "sum_list (map (al ds') (initial_active ds)) = sum_list (map (al ds') [0..<length ds])"
      "sum_list (map (un ds) (initial_active ds)) = sum_list (map (un ds) [0..<length ds])"
      using rest by (auto intro!: sum_over_active)
    moreover have "sum_list (map (al ds') (initial_active ds)) = sum_list (map (al ds) (initial_active ds)) +
        min (unat c) (sum_list (map (un ds) (initial_active ds)))" using p by blast
    ultimately have "sum_list (map (al ds') [0..<length ds]) = min (unat c) (sum_list (map (un ds) [0..<length ds]))"
      by linarith
    then show ?thesis by (simp add: sum_list_nth [where ds = ds] sum_list_nth [where ds = ds'] len)
  qed
  ultimately show ?thesis using run p by auto
qed

lemma wmmf_units_level:
  assumes ok: "demands_ok ds" and run: "wmmf_units c ds = Inr ds'"
    and ij: "i < length ds" "j < length ds" and unsat: "al ds' i < un ds i"
  shows "al ds' j * wt ds i \<le> (al ds' i + length ds) * wt ds j + wt ds i"
proof -
  let ?act = "initial_active ds"
  have zero: "al ds k = 0" if "k < length ds" for k using ok that by (simp add: demands_ok_def)
  have len: "length ?act \<le> length ds"
    unfolding initial_active_def by (rule order_trans [OF length_filter_le]) simp
  have post: "loop_post (unat c) ?act ds ds'"
    using wmmf_loop_conserves [OF demands_ok_loop [OF ok], of c] run by (auto simp: wmmf_units_def)
  have "level_bounds 0 0 ?act ds" using zero by (auto simp: level_bounds_def initial_active_def)
  from wmmf_loop_fair [OF demands_ok_loop [OF ok] this run [unfolded wmmf_units_def]]
  obtain lv where fair: "fair_post lv (length ?act) ?act ds ds'" by auto
  have i: "i \<in> set ?act" using initial_active_complement [OF ok ij(1)] unsat by (metis not_less_zero)
  show ?thesis
  proof (cases "j \<in> set ?act")
    case False
    then have "al ds' j = 0" using post initial_active_complement [OF ok ij(2)] ij(2)
      by (simp add: loop_post_def)
    then show ?thesis by simp
  next
    case True
    have Ai: "lv * real (wt ds i) \<le> real (al ds' i + length ds)"
      using fair i unsat zero [OF ij(1)] len by (auto simp: fair_post_def)
    have Aj: "real (al ds' j) \<le> lv * real (wt ds j) + 1" using fair True by (simp add: fair_post_def)
    have "real (al ds' j) * real (wt ds i) \<le> (lv * real (wt ds j) + 1) * real (wt ds i)"
      using Aj by (intro mult_right_mono of_nat_0_le_iff)
    also have "\<dots> = (lv * real (wt ds i)) * real (wt ds j) + real (wt ds i)" by (simp add: algebra_simps)
    also have "\<dots> \<le> real (al ds' i + length ds) * real (wt ds j) + real (wt ds i)"
      using Ai by (intro add_right_mono mult_right_mono of_nat_0_le_iff)
    finally have "real (al ds' j * wt ds i) \<le> real ((al ds' i + length ds) * wt ds j + wt ds i)"
      by (simp only: of_nat_mult of_nat_add)
    then show ?thesis by (simp only: of_nat_le_iff)
  qed
qed

section \<open>The tree of branches\<close>

text \<open>The demand of a branch in whole quanta, without wrap-around.\<close>

fun nat_units :: "nat \<Rightarrow> fairness_branch \<Rightarrow> nat" where
  "nat_units q (FairnessBranch w leaves children) =
    sum_list (map (\<lambda>l. fl_demand l div q) leaves) + sum_list (map (nat_units q) children)"

fun branch_ok :: "fairness_branch \<Rightarrow> bool" where
  "branch_ok (FairnessBranch w leaves children) \<longleftrightarrow>
    (\<forall>l \<in> set leaves. fl_weight l \<noteq> 0 \<and> bw_ok (fl_demand l)) \<and>
    (\<forall>c \<in> set children. fb_weight c \<noteq> 0 \<and> branch_ok c) \<and>
    sum_list (map (unat \<circ> fl_weight) leaves) + sum_list (map (unat \<circ> fb_weight) children) < 2 ^ 64"

lemma unat_div_quantum:
  assumes "bw_ok d" and "q < 2 ^ 64"
  shows "unat (of_nat d div of_nat q :: u64) = d div q"
  using assms by (simp add: unat_div unat_of_nat64)

lemma unat_sum_list:
  "(\<And>x. x \<in> set xs \<Longrightarrow> unat (f x :: u64) = g x) \<Longrightarrow> sum_list (map g xs) < 2 ^ 64 \<Longrightarrow>
    unat (sum_list (map f xs)) = sum_list (map g xs)"
proof (induction xs)
  case (Cons x xs)
  then have "unat (sum_list (map f xs)) = sum_list (map g xs)" by simp
  moreover have "unat (f x) = g x" using Cons.prems by simp
  ultimately show ?case using Cons.prems(2) by (simp add: unat_add64)
qed simp

lemma branch_units_exact:
  "branch_ok b \<Longrightarrow> nat_units q b < 2 ^ 64 \<Longrightarrow> q < 2 ^ 64 \<Longrightarrow> unat (branch_units b (of_nat q)) = nat_units q b"
proof (induction b)
  case (FairnessBranch w leaves children)
  let ?f = "\<lambda>l. of_nat (fl_demand l) div of_nat q :: u64"
  let ?g = "\<lambda>c. branch_units c (of_nat q)"
  have "unat (sum_list (map ?f leaves)) = sum_list (map (\<lambda>l. fl_demand l div q) leaves)"
    using FairnessBranch.prems by (intro unat_sum_list) (auto simp: unat_div_quantum)
  moreover have "unat (sum_list (map ?g children)) = sum_list (map (nat_units q) children)"
  proof (rule unat_sum_list)
    fix c assume c: "c \<in> set children"
    then have "nat_units q c \<le> nat_units q (FairnessBranch w leaves children)"
      using member_le_sum_list_map [OF c, of "nat_units q"] by simp
    then show "unat (?g c) = nat_units q c"
      using FairnessBranch.prems c by (intro FairnessBranch.IH) auto
  qed (use FairnessBranch.prems(2) in simp)
  ultimately show ?case using FairnessBranch.prems(2) by (simp add: unat_add64)
qed

lemma branch_items_ok:
  assumes "branch_ok b" and "nat_units q b < 2 ^ 64" and "q < 2 ^ 64"
  shows "demands_ok (branch_items b (of_nat q) seen)"
    and "map (unat \<circ> ud_units) (branch_items b (of_nat q) seen) =
      map (\<lambda>l. fl_demand l div q) (fb_leaves b) @ map (nat_units q) (fb_children b)"
    and "length (branch_items b (of_nat q) seen) = length (fb_leaves b) + length (fb_children b)"
    and "map ud_id (take (length (fb_leaves b)) (branch_items b (of_nat q) seen)) = map fl_id (fb_leaves b)"
proof -
  obtain w leaves children where b: "b = FairnessBranch w leaves children" by (cases b) auto
  have child: "unat (branch_units c (of_nat q)) = nat_units q c" if "c \<in> set children" for c
    using assms that member_le_sum_list_map [OF that, of "nat_units q"]
    by (intro branch_units_exact) (auto simp: b)
  show len: "length (branch_items b (of_nat q) seen) = length (fb_leaves b) + length (fb_children b)"
    by (simp add: branch_items_def)
  show units: "map (unat \<circ> ud_units) (branch_items b (of_nat q) seen) =
      map (\<lambda>l. fl_demand l div q) (fb_leaves b) @ map (nat_units q) (fb_children b)"
    using assms(1,3) child unfolding b branch_items_def
    by (auto simp: leaf_item_def unat_div_quantum in_set_zip intro!: nth_equalityI)
  have weights: "map (unat \<circ> ud_weight) (branch_items b (of_nat q) seen) =
      map (unat \<circ> fl_weight) (fb_leaves b) @ map (unat \<circ> fb_weight) (fb_children b)"
    unfolding branch_items_def by (auto simp: leaf_item_def intro!: nth_equalityI)
  show "map ud_id (take (length (fb_leaves b)) (branch_items b (of_nat q) seen)) = map fl_id (fb_leaves b)"
    by (simp add: branch_items_def leaf_item_def)
  have "ud_weight d \<noteq> 0 \<and> ud_allocated d = 0" if "d \<in> set (branch_items b (of_nat q) seen)" for d
    using that assms(1) unfolding b branch_items_def by (auto simp: leaf_item_def set_zip)
  with units weights assms(1,2) show "demands_ok (branch_items b (of_nat q) seen)"
    by (simp only: demands_ok_def) (simp add: b)
qed

text \<open>
  What a recursive call promises: it appends one allocation per leaf of its branch, in order,
  none above its demand, and uses exactly the smaller of its capacity and its demand.
\<close>

definition leaf_allocs :: "nat \<Rightarrow> fairness_leaf list \<Rightarrow> unit_demand list \<Rightarrow> bool" where
  "leaf_allocs q leaves allocs \<longleftrightarrow>
    list_all2 (\<lambda>l a. ud_id a = fl_id l \<and> unat (ud_allocated a) \<le> fl_demand l div q) leaves allocs"

lemma leaf_allocs_append:
  "leaf_allocs q ls as \<Longrightarrow> leaf_allocs q ls' as' \<Longrightarrow> leaf_allocs q (ls @ ls') (as @ as')"
  unfolding leaf_allocs_def by (rule list_all2_appendI)

abbreviation alloc_sum :: "unit_demand list \<Rightarrow> nat" where
  "alloc_sum as \<equiv> sum_list (map (unat \<circ> ud_allocated) as)"

definition branch_result ::
  "nat \<Rightarrow> u64 \<Rightarrow> fairness_branch \<Rightarrow> unit_demand list \<Rightarrow> (u64 \<times> unit_demand list) result \<Rightarrow> bool" where
  "branch_result q c b acc res \<longleftrightarrow>
    (\<exists>used as. res = Inr (used, acc @ as) \<and> unat used = alloc_sum as \<and>
      alloc_sum as = min (unat c) (nat_units q b) \<and> leaf_allocs q (collect_leaves b) as)"

definition children_result ::
  "nat \<Rightarrow> unit_demand list \<Rightarrow> fairness_branch list \<Rightarrow> u64 \<Rightarrow> unit_demand list \<Rightarrow>
   (u64 \<times> unit_demand list) result \<Rightarrow> bool" where
  "children_result q items cs used acc res \<longleftrightarrow>
    (\<exists>used' as. res = Inr (used', acc @ as) \<and> unat used' = unat used + alloc_sum as \<and>
      alloc_sum as = alloc_sum items \<and> leaf_allocs q (concat (map collect_leaves cs)) as)"

lemma wmmf_items:
  assumes ok: "branch_ok b" "nat_units q b < 2 ^ 64" "q < 2 ^ 64"
  obtains items where "wmmf_units c (branch_items b (of_nat q) seen) = Inr items"
    and "length items = length (fb_leaves b) + length (fb_children b)"
    and "alloc_sum items = min (unat c) (nat_units q b)"
    and "leaf_allocs q (fb_leaves b) (take (length (fb_leaves b)) items)"
    and "list_all2 (\<lambda>i c. unat (ud_allocated i) \<le> nat_units q c) (drop (length (fb_leaves b)) items) (fb_children b)"
proof -
  note bi = branch_items_ok [OF ok, of seen]
  let ?ds = "branch_items b (of_nat q) seen" and ?n = "length (fb_leaves b)"
  obtain items where run: "wmmf_units c ?ds = Inr items" and shape: "same_shape ?ds items"
    and le: "\<And>i. i < length ?ds \<Longrightarrow> al items i \<le> un ?ds i"
    and sum: "alloc_sum items = min (unat c) (sum_list (map (unat \<circ> ud_units) ?ds))"
    using wmmf_units_total [OF bi(1), of c] by blast
  have len: "length items = ?n + length (fb_children b)" using shape bi(3) by (simp add: same_shape_def)
  have unit: "un ?ds i = (map (\<lambda>l. fl_demand l div q) (fb_leaves b) @ map (nat_units q) (fb_children b)) ! i"
    if "i < ?n + length (fb_children b)" for i
    using bi(2,3) that by (metis comp_apply nth_map)
  have ids: "ud_id (items ! i) = fl_id (fb_leaves b ! i)" if "i < ?n" for i
  proof -
    have "ud_id (items ! i) = ud_id (?ds ! i)" using shape bi(3) that by (simp add: same_shape_def)
    also have "\<dots> = map ud_id (take ?n ?ds) ! i" using that bi(3) by simp
    finally show ?thesis using bi(4) that by simp
  qed
  have "leaf_allocs q (fb_leaves b) (take ?n items)"
    unfolding leaf_allocs_def
  proof (rule list_all2_all_nthI)
    fix i assume i: "i < length (fb_leaves b)"
    then have "al items i \<le> fl_demand (fb_leaves b ! i) div q"
      using le [of i] unit [of i] bi(3) by (simp add: nth_append)
    with ids [OF i] i show "ud_id (take ?n items ! i) = fl_id (fb_leaves b ! i) \<and>
        unat (ud_allocated (take ?n items ! i)) \<le> fl_demand (fb_leaves b ! i) div q" by simp
  qed (use len in simp)
  moreover have "list_all2 (\<lambda>i c. unat (ud_allocated i) \<le> nat_units q c) (drop ?n items) (fb_children b)"
  proof (rule list_all2_all_nthI)
    fix i assume "i < length (drop ?n items)"
    then have i: "i < length (fb_children b)" using len by simp
    then have "al items (?n + i) \<le> nat_units q (fb_children b ! i)"
      using le [of "?n + i"] unit [of "?n + i"] bi(3) by (simp add: nth_append)
    then show "unat (ud_allocated (drop ?n items ! i)) \<le> nat_units q (fb_children b ! i)"
      using len i by simp
  qed (use len in simp)
  moreover have "sum_list (map (unat \<circ> ud_units) ?ds) = nat_units q b"
    unfolding bi(2) by (cases b) simp
  ultimately show ?thesis using that run len sum by simp
qed

lemma allocate_exact:
  shows "branch_ok b \<Longrightarrow> nat_units q b < 2 ^ 64 \<Longrightarrow> q < 2 ^ 64 \<Longrightarrow> qb = of_nat q \<Longrightarrow>
      branch_result q c b acc (allocate_branch c b qb acc)"
    and "list_all2 (\<lambda>i c. unat (ud_allocated i) \<le> nat_units q c) items cs \<Longrightarrow>
      (\<forall>c \<in> set cs. branch_ok c \<and> nat_units q c < 2 ^ 64) \<Longrightarrow> unat used + alloc_sum items < 2 ^ 64 \<Longrightarrow>
      q < 2 ^ 64 \<Longrightarrow> qb = of_nat q \<Longrightarrow>
      children_result q items cs used acc (allocate_children items cs qb used acc)"
proof (induction c b qb acc and items cs qb used acc rule: allocate_branch_allocate_children.induct)
  case (1 c b qb acc)
  let ?n = "length (fb_leaves b)"
  obtain items where run: "wmmf_units c (branch_items b (of_nat q) (length acc)) = Inr items"
    and sum: "alloc_sum items = min (unat c) (nat_units q b)"
    and la: "leaf_allocs q (fb_leaves b) (take ?n items)"
    and ch: "list_all2 (\<lambda>i c. unat (ud_allocated i) \<le> nat_units q c) (drop ?n items) (fb_children b)"
    by (rule wmmf_items [OF 1(2-4), of c "length acc"]) (rule that)
  have split: "alloc_sum (take ?n items) + alloc_sum (drop ?n items) = alloc_sum items"
    by (metis append_take_drop_id map_append sum_list.append)
  have small: "alloc_sum items < 2 ^ 64" using sum unat_lt64 [of c] by linarith
  have used: "unat (sum_list (map ud_allocated (take ?n items))) = alloc_sum (take ?n items)"
    using split small by (intro unat_sum_list) simp_all
  have kids: "\<forall>c \<in> set (fb_children b). branch_ok c \<and> nat_units q c < 2 ^ 64"
  proof
    fix x assume x: "x \<in> set (fb_children b)"
    then have "branch_ok x" using 1(2) by (cases b) auto
    moreover have "nat_units q x \<le> nat_units q b"
      using member_le_sum_list_map [OF x, of "nat_units q"] by (cases b) simp
    ultimately show "branch_ok x \<and> nat_units q x < 2 ^ 64" using 1(3) by linarith
  qed
  have "children_result q (drop ?n items) (fb_children b) (sum_list (map ud_allocated (take ?n items)))
      (acc @ take ?n items) (allocate_children (drop ?n items) (fb_children b) qb
        (sum_list (map ud_allocated (take ?n items))) (acc @ take ?n items))"
    using run 1(4,5) ch kids used split small by (intro 1(1) refl) (simp_all add: comp_def)
  then obtain u as where "allocate_children (drop ?n items) (fb_children b) qb
        (sum_list (map ud_allocated (take ?n items))) (acc @ take ?n items) = Inr (u, (acc @ take ?n items) @ as)"
    and u: "unat u = alloc_sum (take ?n items) + alloc_sum as" "alloc_sum as = alloc_sum (drop ?n items)"
    and as: "leaf_allocs q (concat (map collect_leaves (fb_children b))) as"
    unfolding children_result_def used by blast
  then have eval: "allocate_branch c b qb acc = Inr (u, acc @ (take ?n items @ as))"
    using run 1(5) by (subst allocate_branch.simps) (simp add: Let_def)
  have "leaf_allocs q (collect_leaves b) (take ?n items @ as)"
    using leaf_allocs_append [OF la as] by (cases b) simp
  then show ?case unfolding branch_result_def
    using eval u split sum by (intro exI [of _ u] exI [of _ "take ?n items @ as"]) simp
next
  case (2 items qb used acc)
  then show ?case by (auto simp: children_result_def leaf_allocs_def)
next
  case (3 child children qb used acc)
  then show ?case by simp
next
  case (4 item items child children qb used acc)
  have item: "unat (ud_allocated item) \<le> nat_units q child" using 4(3) by simp
  have "branch_result q (ud_allocated item) child acc (allocate_branch (ud_allocated item) child qb acc)"
    using 4 by simp
  then obtain u as where run: "allocate_branch (ud_allocated item) child qb acc = Inr (u, acc @ as)"
    and u: "unat u = alloc_sum as" "alloc_sum as = unat (ud_allocated item)"
    and la: "leaf_allocs q (collect_leaves child) as"
    using item by (auto simp: branch_result_def)
  have sum: "unat (used + u) = unat used + alloc_sum as" using 4(5) u by (simp add: unat_add64)
  have "children_result q items children (used + u) (acc @ as)
      (allocate_children items children qb (used + u) (acc @ as))"
    using 4(3-) run sum u by (intro 4(2) [OF run refl]) auto
  then obtain u' as' where run': "allocate_children items children qb (used + u) (acc @ as) = Inr (u', (acc @ as) @ as')"
    and u': "unat u' = unat used + alloc_sum as + alloc_sum as'" "alloc_sum as' = alloc_sum items"
    and la': "leaf_allocs q (concat (map collect_leaves children)) as'"
    unfolding children_result_def sum by blast
  show ?case unfolding children_result_def
    using run run' u u' leaf_allocs_append [OF la la']
    by (intro exI [of _ u'] exI [of _ "as @ as'"]) simp
qed

section \<open>The public entry points\<close>

text \<open>
  Whatever the input, a returned result conserves the offered capacity: this is the contract
  the arbitrator relies on.
\<close>

lemma total_share_fold:
  "fold_res total_share shares (t, bs) = Inr (t', bs') \<Longrightarrow>
    t' = t + sum_list (map fs_allocated shares) \<and>
    bs' = bs @ map fs_id (filter (\<lambda>s. fs_allocated s < fs_demand s) shares)"
proof (induction shares arbitrary: t bs)
  case (Cons s shares)
  then obtain t1 bs1 where "total_share s (t, bs) = Inr (t1, bs1)"
    and rest: "fold_res total_share shares (t1, bs1) = Inr (t', bs')" by auto
  then have "t1 = t + fs_allocated s" "bs1 = bs @ (if fs_allocated s < fs_demand s then [fs_id s] else [])"
    by (auto simp: total_share_def)
  with Cons.IH [OF rest] show ?case by simp
qed simp

lemma fair_share_sound:
  assumes "fair_share_branches capacity q branches = Inr r"
  shows "sum_list (map fs_allocated (fr_shares r)) = fr_allocated r"
    and "fr_allocated r + fr_unallocated r = capacity"
  using assms
  by (auto simp: fair_share_branches_def Let_def split: if_splits prod.splits dest!: total_share_fold)

lemma make_share_fold:
  "fold_res (make_share dm qb) items shares = Inr shares' \<Longrightarrow>
    \<exists>new. shares' = shares @ new \<and> map fs_id new = map ud_id items"
proof (induction items arbitrary: shares)
  case (Cons i items)
  then obtain s1 where "make_share dm qb i shares = Inr s1"
    and rest: "fold_res (make_share dm qb) items s1 = Inr shares'" by auto
  then obtain d a where "s1 = shares @ [\<lparr>fs_id = ud_id i, fs_demand = d, fs_allocated = a\<rparr>]"
    by (auto simp: make_share_def)
  with Cons.IH [OF rest] show ?case by auto
qed simp

text \<open>Under the bounds of a policy the computation succeeds and is work conserving.\<close>

definition shares_match :: "nat \<Rightarrow> fairness_leaf list \<Rightarrow> fairness_share list \<Rightarrow> bool" where
  "shares_match q leaves shares \<longleftrightarrow>
    list_all2 (\<lambda>l s. fs_id s = fl_id l \<and> fs_demand s = fl_demand l \<and> q dvd fs_allocated s \<and>
      fs_allocated s \<le> fl_demand l) leaves shares"

lemma sint_of_nat64: "n < 2 ^ 63 \<Longrightarrow> sint (of_nat n :: u64) = int n"
proof -
  assume n: "n < 2 ^ 63"
  have "sint (word_of_int (int n) :: u64) = signed_take_bit 63 (int n)"
    by (subst sint_sbintrunc') simp
  also have "\<dots> = int n" using n by (intro signed_take_bit_int_eq_self) auto
  finally show ?thesis by simp
qed

lemma from_units_eval:
  assumes "unat u * q \<le> kMaxBitsPerSecond" and "q < 2 ^ 64"
  shows "from_units u (of_nat q) = Inr (unat u * q)"
proof -
  have q: "unat (of_nat q :: u64) = q" using assms(2) by (rule unat_of_nat64)
  have small: "unat u * q < 2 ^ 63" using assms(1) by (simp add: kMaxBitsPerSecond_def)
  have "mul_div_floor_u64 u (of_nat q) 1 = (of_nat (unat u * q), False)"
    using small mul_div_floor_u64_spec [of 1 u "of_nat q"] by (simp add: q)
  moreover have "from_bits_per_second (sint (of_nat x :: u64)) = Inr x" if "x < 2 ^ 63" "x \<le> kMaxBitsPerSecond" for x
    using that by (simp add: sint_of_nat64 from_bits_per_second_def)
  ultimately show ?thesis using assms(1) small by (simp only: from_units_def prod.case if_False)
qed

lemma check_leaf_fold:
  assumes "\<And>l. l \<in> set leaves \<Longrightarrow> fl_weight l \<noteq> 0 \<and> fl_weight l \<le> kMaxWeight"
    and "distinct (map fst m @ map fl_id leaves)"
  shows "fold_res check_leaf leaves m = Inr (m @ map (\<lambda>l. (fl_id l, fl_demand l)) leaves)"
  using assms
proof (induction leaves arbitrary: m)
  case (Cons l leaves)
  have "check_leaf l m = Inr (m @ [(fl_id l, fl_demand l)])"
    using Cons.prems(1) [of l] Cons.prems(2) by (auto simp: check_leaf_def)
  then show ?case using Cons by simp
qed simp

lemma make_share_match:
  assumes "leaf_allocs q leaves as" and "list_all (\<lambda>l. bw_ok (fl_demand l) \<and> map_of dm (fl_id l) = Some (fl_demand l)) leaves"
    and "q < 2 ^ 64"
  shows "\<exists>new. fold_res (make_share dm (of_nat q)) as acc = Inr (acc @ new) \<and>
    shares_match q leaves new \<and> sum_list (map fs_allocated new) = q * alloc_sum as"
  using assms(1,2)
proof (induction leaves arbitrary: as acc)
  case Nil
  then show ?case by (simp add: leaf_allocs_def shares_match_def)
next
  case (Cons l leaves)
  then obtain a as' where as: "as = a # as'" and a: "ud_id a = fl_id l" "unat (ud_allocated a) \<le> fl_demand l div q"
    and rest: "leaf_allocs q leaves as'"
    by (auto simp: leaf_allocs_def list_all2_Cons1)
  have le: "unat (ud_allocated a) * q \<le> fl_demand l"
    using mult_le_mono1 [OF a(2), of q] div_times_less_eq_dividend [of "fl_demand l" q] by linarith
  then have "unat (ud_allocated a) * q \<le> kMaxBitsPerSecond" using Cons.prems(2) by simp
  from from_units_eval [OF this assms(3)]
  have step: "make_share dm (of_nat q) a acc =
      Inr (acc @ [\<lparr>fs_id = fl_id l, fs_demand = fl_demand l, fs_allocated = unat (ud_allocated a) * q\<rparr>])"
    using Cons.prems(2) a(1) by (simp add: make_share_def)
  obtain new where "fold_res (make_share dm (of_nat q)) as'
      (acc @ [\<lparr>fs_id = fl_id l, fs_demand = fl_demand l, fs_allocated = unat (ud_allocated a) * q\<rparr>]) =
      Inr ((acc @ [\<lparr>fs_id = fl_id l, fs_demand = fl_demand l, fs_allocated = unat (ud_allocated a) * q\<rparr>]) @ new)"
    and "shares_match q leaves new" "sum_list (map fs_allocated new) = q * alloc_sum as'"
    using Cons.IH [OF rest, where acc = "acc @ [\<lparr>fs_id = fl_id l, fs_demand = fl_demand l,
      fs_allocated = unat (ud_allocated a) * q\<rparr>]"] Cons.prems(2) by (auto simp: comp_def)
  with step le show ?case
    by (intro exI [of _ "\<lparr>fs_id = fl_id l, fs_demand = fl_demand l, fs_allocated = unat (ud_allocated a) * q\<rparr> # new"])
      (simp add: as shares_match_def distrib_left mult.commute comp_def)
qed

lemma total_share_total:
  assumes "t + sum_list (map fs_allocated shares) \<le> kMaxBitsPerSecond"
  shows "\<exists>bs'. fold_res total_share shares (t, bs) = Inr (t + sum_list (map fs_allocated shares), bs')"
  using assms
proof (induction shares arbitrary: t bs)
  case (Cons s shares)
  have "total_share s (t, bs) = Inr (t + fs_allocated s,
      if fs_allocated s < fs_demand s then bs @ [fs_id s] else bs)"
    using Cons.prems by (simp add: total_share_def)
  moreover obtain bs' where "fold_res total_share shares (t + fs_allocated s,
      if fs_allocated s < fs_demand s then bs @ [fs_id s] else bs) =
      Inr (t + fs_allocated s + sum_list (map fs_allocated shares), bs')"
    using Cons.IH [of "t + fs_allocated s"] Cons.prems by (metis add.assoc list.simps(9) sum_list.Cons)
  ultimately show ?case by (simp add: add.assoc)
qed simp

text \<open>The bounds under which the hierarchical computation is exact.\<close>

definition fair_input :: "bandwidth \<Rightarrow> bandwidth \<Rightarrow> fairness_branch list \<Rightarrow> bool" where
  "fair_input capacity q branches \<longleftrightarrow>
    (let root = FairnessBranch 1 [] branches; leaves = collect_leaves root in
     bw_ok capacity \<and> 0 < q \<and> bw_ok q \<and> length leaves \<le> kMaxRequestsPerRound \<and>
     (\<forall>l \<in> set leaves. fl_weight l \<le> kMaxWeight) \<and> distinct (map fl_id leaves) \<and>
     branch_ok root \<and> nat_units q root < 2 ^ 64)"

lemma branch_leaves_ok:
  "branch_ok b \<Longrightarrow> l \<in> set (collect_leaves b) \<Longrightarrow> fl_weight l \<noteq> 0 \<and> bw_ok (fl_demand l)"
  by (induction b) auto

lemma sum_list_concat_map: "sum_list (map f (concat xss)) = sum_list (map (\<lambda>xs. sum_list (map f xs)) xss)"
  for f :: "'a \<Rightarrow> nat"
  by (induction xss) simp_all

lemma nat_units_leaves:
  "nat_units q b = sum_list (map (\<lambda>l. fl_demand l div q) (collect_leaves b))"
proof (induction b)
  case (FairnessBranch w leaves children)
  then have "map (nat_units q) children =
      map (\<lambda>c. sum_list (map (\<lambda>l. fl_demand l div q) (collect_leaves c))) children" by simp
  then have "sum_list (map (nat_units q) children) =
      sum_list (map (\<lambda>c. sum_list (map (\<lambda>l. fl_demand l div q) (collect_leaves c))) children)"
    by (rule arg_cong)
  then show ?case by (simp add: sum_list_concat_map comp_def)
qed

lemma fair_share_total:
  assumes "fair_input capacity q branches"
  defines "leaves \<equiv> concat (map collect_leaves branches)"
  obtains r unsorted where "fair_share_branches capacity q branches = Inr r"
    and "fr_allocated r = q * min (capacity div q) (sum_list (map (\<lambda>l. fl_demand l div q) leaves))"
    and "fr_shares r = sort_by (\<lambda>a b. fs_id a < fs_id b) unsorted" and "shares_match q leaves unsorted"
proof -
  let ?root = "FairnessBranch 1 [] branches"
  have leaves: "leaves = collect_leaves ?root" by (simp add: leaves_def)
  have cap: "bw_ok capacity" and q: "0 < q" "bw_ok q" and n: "length leaves \<le> kMaxRequestsPerRound"
    and w: "\<And>l. l \<in> set leaves \<Longrightarrow> fl_weight l \<le> kMaxWeight" and ids: "distinct (map fl_id leaves)"
    and ok: "branch_ok ?root" and small: "nat_units q ?root < 2 ^ 64"
    using assms(1) by (auto simp: fair_input_def Let_def leaves_def)
  have q64: "q < 2 ^ 64" using q(2) kMax_lt_64 by linarith
  let ?dm = "map (\<lambda>l. (fl_id l, fl_demand l)) leaves" and ?c = "of_nat capacity div of_nat q :: u64"
  have dm: "fold_res check_leaf leaves [] = Inr ?dm"
    using check_leaf_fold [of leaves "[]"] branch_leaves_ok [OF ok] w ids leaves by auto
  have units: "to_units capacity (of_nat q) = Inr ?c"
  proof -
    have "(of_nat q :: u64) \<noteq> 0" using q(1) unat_of_nat64 [OF q64] by (metis less_irrefl unat_0)
    then show ?thesis by (simp add: to_units_def)
  qed
  have c: "unat ?c = capacity div q" using cap q64 by (rule unat_div_quantum)
  obtain used as where alloc: "allocate_branch ?c ?root (of_nat q) [] = Inr (used, as)"
    and sum: "alloc_sum as = min (capacity div q) (nat_units q ?root)" and la: "leaf_allocs q leaves as"
    using allocate_exact(1) [OF ok small q64 refl, of ?c "[]"] c leaves by (auto simp: branch_result_def)
  have "list_all (\<lambda>l. bw_ok (fl_demand l) \<and> map_of ?dm (fl_id l) = Some (fl_demand l)) leaves"
    using branch_leaves_ok [OF ok] ids leaves
    by (auto simp: list_all_iff intro!: map_of_is_SomeI simp: comp_def)
  from make_share_match [OF la this q64, of "[]"] obtain unsorted
    where shares: "fold_res (make_share ?dm (of_nat q)) as [] = Inr unsorted"
      and sm: "shares_match q leaves unsorted" and total: "sum_list (map fs_allocated unsorted) = q * alloc_sum as" by auto
  let ?shares = "sort_by (\<lambda>a b. fs_id a < fs_id b) unsorted"
  have le: "q * alloc_sum as \<le> capacity"
    using sum mult_le_mono2 [of "alloc_sum as" "capacity div q" q] times_div_less_eq_dividend [of q capacity]
    by linarith
  then have "0 + sum_list (map fs_allocated ?shares) \<le> kMaxBitsPerSecond" using total cap by simp
  from total_share_total [OF this] obtain bs
    where tot: "fold_res total_share ?shares (0, []) = Inr (q * alloc_sum as, bs)"
    using total by auto
  have "fair_share_branches capacity q branches =
      Inr \<lparr> fr_shares = ?shares, fr_bottlenecked = sort bs, fr_allocated = q * alloc_sum as,
        fr_unallocated = capacity - q * alloc_sum as \<rparr>"
    using q(1) n dm units alloc shares tot le
    by (simp add: fair_share_branches_def Let_def leaves_def [symmetric])
  then show ?thesis
    by (rule that [where unsorted = unsorted])
      (use sm in \<open>simp_all only: sum nat_units_leaves leaves fairness_result.select_convs\<close>)
qed

end
