(* ===== verification/Arbitrator_Laws.thy ===== *)
theory Arbitrator_Laws
  imports Arbitrator Fairness_Laws
begin

text \<open>
  Conservation laws of an arbitration round.  Every phase only moves capacity: the lemmas
  follow the sums of each kind of allocation through the guaranteed, discretionary, borrowed
  and contingent phases, and show that the accounting assembled at the end is the exact sum of
  the decisions, and that its identities close whenever obligations do not exceed capacity.
\<close>

section \<open>Sums over work items\<close>

abbreviation it_g :: "work_item \<Rightarrow> nat" where "it_g w \<equiv> ga_guaranteed (wi_allocation w)"
abbreviation it_d :: "work_item \<Rightarrow> nat" where "it_d w \<equiv> ga_discretionary (wi_allocation w)"
abbreviation it_b :: "work_item \<Rightarrow> nat" where "it_b w \<equiv> ga_borrowed (wi_allocation w)"
abbreviation it_c :: "work_item \<Rightarrow> nat" where "it_c w \<equiv> ga_contingent (wi_allocation w)"
abbreviation it_o :: "work_item \<Rightarrow> nat" where "it_o w \<equiv> wi_obligation_guaranteed w"

definition total_of :: "(work_item \<Rightarrow> nat) \<Rightarrow> run_state \<Rightarrow> nat" where
  "total_of f run = sum_list (map f (rs_items run))"

text \<open>The part of a work item that no allocation phase changes.\<close>

definition item_frame :: "work_item \<Rightarrow> work_item \<Rightarrow> bool" where
  "item_frame a b \<longleftrightarrow> wi_candidate_index b = wi_candidate_index a \<and> wi_request b = wi_request a \<and>
    wi_priority_class b = wi_priority_class a \<and> wi_group b = wi_group a \<and>
    wi_effective_rank b = wi_effective_rank a \<and> wi_effective_weight b = wi_effective_weight a \<and>
    wi_admitted b = wi_admitted a \<and> wi_refused b = wi_refused a \<and>
    wi_capacity_unavailable b = wi_capacity_unavailable a"

lemma item_frame_refl [simp]: "item_frame a a"
  by (simp add: item_frame_def)

lemma item_frame_trans: "item_frame a b \<Longrightarrow> item_frame b c \<Longrightarrow> item_frame a c"
  by (simp add: item_frame_def)

lemma list_all2_update_refl:
  assumes "\<And>x. R x x" and "R (xs ! i) w"
  shows "list_all2 R xs (xs[i := w])"
proof (cases "i < length xs")
  case True
  with assms show ?thesis by (auto simp: list_all2_conv_all_nth nth_list_update)
next
  case False
  then show ?thesis using assms(1) by (simp add: list_update_beyond list_all2_refl)
qed

lemma list_all2_map_eq: "list_all2 R xs ys \<Longrightarrow> (\<And>x y. R x y \<Longrightarrow> f y = f x) \<Longrightarrow> map f ys = map f xs"
  by (induction rule: list_all2_induct) auto

text \<open>One work item is replaced; everything else of the run but the group usage stays.\<close>

definition item_update :: "nat \<Rightarrow> work_item \<Rightarrow> run_state \<Rightarrow> run_state \<Rightarrow> bool" where
  "item_update i w r r' \<longleftrightarrow> rs_items r' = (rs_items r)[i := w] \<and> rs_quantum r' = rs_quantum r \<and>
    rs_unlimited r' = rs_unlimited r"

lemma total_update:
  assumes "item_update i w r r'" and "i < length (rs_items r)" and "f w = f (rs_items r ! i) + a"
  shows "total_of f r' = total_of f r + a"
  using sum_list_update_nth [OF assms(2), of f w] assms(1,3) by (simp add: total_of_def item_update_def)

lemma add_group_items [simp]:
  "rs_items (add_group_allocated g a r) = rs_items r"
  "rs_quantum (add_group_allocated g a r) = rs_quantum r"
  "rs_unlimited (add_group_allocated g a r) = rs_unlimited r"
  by (simp_all add: add_group_allocated_def Let_def)

lemma set_item_items [simp]:
  "rs_items (set_item i w r) = (rs_items r)[i := w]"
  "rs_quantum (set_item i w r) = rs_quantum r" "rs_unlimited (set_item i w r) = rs_unlimited r"
  by (simp_all add: set_item_def)

lemma item_update_set: "item_update i w r (add_group_allocated g a (set_item i w r))"
  "item_update i w r (set_item i w r)"
  by (simp_all add: item_update_def)

section \<open>Adding to an allocation\<close>

definition kind_part :: "allocation_kind \<Rightarrow> grant_allocation \<Rightarrow> nat" where
  "kind_part k a = (case k of AK_Guaranteed \<Rightarrow> ga_guaranteed a | AK_Discretionary \<Rightarrow> ga_discretionary a
     | AK_Borrowed \<Rightarrow> ga_borrowed a | AK_Contingent \<Rightarrow> ga_contingent a | AK_None \<Rightarrow> 0)"

lemma add_allocation_parts:
  assumes "add_allocation a k amount = Inr a'" and "k \<noteq> AK_None"
  shows "kind_part k a' = kind_part k a + amount"
    and "k' \<noteq> k \<Longrightarrow> kind_part k' a' = kind_part k' a"
  using assms by (cases k; auto simp: add_allocation_def kind_part_def split: allocation_kind.splits)+

abbreviation it_part :: "allocation_kind \<Rightarrow> work_item \<Rightarrow> nat" where
  "it_part k w \<equiv> kind_part k (wi_allocation w)"

lemma kind_part_simps [simp]:
  "kind_part AK_Guaranteed = ga_guaranteed" "kind_part AK_Discretionary = ga_discretionary"
  "kind_part AK_Borrowed = ga_borrowed" "kind_part AK_Contingent = ga_contingent"
  by (simp_all add: fun_eq_iff kind_part_def)

text \<open>
  What crediting an amount of one kind to one item does: the sum of that kind grows by the
  amount, the other kinds and the obligation funding are untouched.
\<close>

definition credited :: "nat \<Rightarrow> allocation_kind \<Rightarrow> nat \<Rightarrow> run_state \<Rightarrow> run_state \<Rightarrow> bool" where
  "credited i k amount r r' \<longleftrightarrow> (\<exists>w. item_update i w r r' \<and> item_frame (rs_items r ! i) w \<and>
    it_part k w = it_part k (rs_items r ! i) + amount \<and>
    (\<forall>k'. k' \<noteq> k \<longrightarrow> it_part k' w = it_part k' (rs_items r ! i)) \<and>
    it_o w = it_o (rs_items r ! i))"

lemma apply_share_credited:
  assumes "apply_share k fr s r = Inr r'" and "k \<noteq> AK_None"
  shows "credited (fs_id s) k (fs_allocated s) r r'"
proof -
  let ?w = "rs_items r ! fs_id s"
  from assms(1) obtain a g where a: "add_allocation (wi_allocation ?w) k (fs_allocated s) = Inr a"
    and g: "wi_group ?w = Some g"
    by (auto simp: apply_share_def Let_def split: if_splits)
  note parts = add_allocation_parts [OF a assms(2)]
  show ?thesis
  proof (cases fr)
    case True
    then obtain n where r': "r' = add_group_allocated (fg_id g) (fs_allocated s) (set_item (fs_id s)
        (?w\<lparr>wi_allocation := a, wi_residual := saturating_sub (wi_residual ?w) (fs_allocated s),
            wi_reserve_allocated := n\<rparr>) r)"
      using assms(1) a g by (auto simp: apply_share_def Let_def)
    show ?thesis unfolding credited_def r'
      by (intro exI conjI, rule item_update_set) (use parts in \<open>auto simp: item_frame_def\<close>)
  next
    case False
    then have r': "r' = add_group_allocated (fg_id g) (fs_allocated s) (set_item (fs_id s)
        (?w\<lparr>wi_allocation := a, wi_residual := saturating_sub (wi_residual ?w) (fs_allocated s)\<rparr>) r)"
      using assms(1) a g by (auto simp: apply_share_def Let_def)
    show ?thesis unfolding credited_def r'
      by (intro exI conjI, rule item_update_set) (use parts in \<open>auto simp: item_frame_def\<close>)
  qed
qed

text \<open>The effect of a whole distribution on the items and on the sums.\<close>

definition item_step :: "allocation_kind \<Rightarrow> work_item \<Rightarrow> work_item \<Rightarrow> bool" where
  "item_step k a b \<longleftrightarrow> item_frame a b \<and> it_o b = it_o a \<and> it_part k a \<le> it_part k b \<and>
    (\<forall>k'. k' \<noteq> k \<longrightarrow> it_part k' b = it_part k' a) \<and>
    (\<not> wi_admitted a \<longrightarrow> wi_allocation b = wi_allocation a)"

lemma item_step_refl: "item_step k a a"
  by (simp add: item_step_def)

lemma item_step_trans: "item_step k a b \<Longrightarrow> item_step k b c \<Longrightarrow> item_step k a c"
  by (auto simp: item_step_def item_frame_def)

definition moved :: "allocation_kind \<Rightarrow> nat \<Rightarrow> run_state \<Rightarrow> run_state \<Rightarrow> bool" where
  "moved k amount r r' \<longleftrightarrow> list_all2 (item_step k) (rs_items r) (rs_items r') \<and>
    rs_quantum r' = rs_quantum r \<and> rs_unlimited r' = rs_unlimited r \<and>
    total_of (it_part k) r' = total_of (it_part k) r + amount"

lemma moved_refl: "moved k 0 r r"
  by (simp add: moved_def list_all2_refl item_step_refl)

lemma moved_trans: "moved k a r r1 \<Longrightarrow> moved k b r1 r2 \<Longrightarrow> moved k (a + b) r r2"
  unfolding moved_def by (auto elim: list_all2_trans [rotated] intro: item_step_trans)

lemma moved_length: "moved k a r r' \<Longrightarrow> length (rs_items r') = length (rs_items r)"
  by (auto simp: moved_def dest: list_all2_lengthD)

lemma moved_nth: "moved k a r r' \<Longrightarrow> i < length (rs_items r) \<Longrightarrow> item_step k (rs_items r ! i) (rs_items r' ! i)"
  by (auto simp: moved_def dest: list_all2_nthD)

lemma credited_moved:
  assumes c: "credited i k amount r r'" and i: "i < length (rs_items r)" and adm: "wi_admitted (rs_items r ! i)"
  shows "moved k amount r r'"
proof -
  from c obtain w where u: "item_update i w r r'" and f: "item_frame (rs_items r ! i) w"
    and k: "it_part k w = it_part k (rs_items r ! i) + amount"
    and others: "\<forall>k'. k' \<noteq> k \<longrightarrow> it_part k' w = it_part k' (rs_items r ! i)"
    and o: "it_o w = it_o (rs_items r ! i)"
    unfolding credited_def by blast
  have "item_step k (rs_items r ! i) w" using f k others o adm by (simp add: item_step_def)
  then have "list_all2 (item_step k) (rs_items r) (rs_items r')"
    using u list_all2_update_refl [of "item_step k", OF item_step_refl] by (simp add: item_update_def)
  with total_update [OF u i, of "it_part k", OF k] u show ?thesis
    by (simp add: moved_def item_update_def)
qed

lemma moved_shares:
  assumes "fold_res (apply_share k fr) shares r = Inr r'" and "k \<noteq> AK_None"
    and "\<And>s. s \<in> set shares \<Longrightarrow> fs_id s < length (rs_items r) \<and> wi_admitted (rs_items r ! fs_id s)"
  shows "moved k (sum_list (map fs_allocated shares)) r r'"
  using assms
proof (induction shares arbitrary: r)
  case Nil
  then show ?case by (simp add: moved_refl)
next
  case (Cons s shares)
  then obtain r1 where r1: "apply_share k fr s r = Inr r1" and rest: "fold_res (apply_share k fr) shares r1 = Inr r'"
    by auto
  have m: "moved k (fs_allocated s) r r1"
    using apply_share_credited [OF r1 Cons.prems(2)] Cons.prems(3) [of s] by (intro credited_moved) auto
  have "fs_id t < length (rs_items r1) \<and> wi_admitted (rs_items r1 ! fs_id t)" if "t \<in> set shares" for t
    using Cons.prems(3) [of t] that moved_length [OF m] moved_nth [OF m, of "fs_id t"]
    by (auto simp: item_step_def item_frame_def)
  from Cons.IH [OF rest Cons.prems(2) this] m show ?case
    using moved_trans by (metis list.simps(9) sum_list.Cons)
qed

section \<open>Distribution\<close>

text \<open>Every share names a leaf of the request.\<close>

lemma check_leaf_keys:
  "fold_res check_leaf leaves m = Inr m' \<Longrightarrow> set (map fst m') = set (map fst m) \<union> fl_id ` set leaves"
proof (induction leaves arbitrary: m)
  case (Cons l leaves)
  then obtain m1 where "check_leaf l m = Inr m1" and rest: "fold_res check_leaf leaves m1 = Inr m'" by auto
  then have "m1 = m @ [(fl_id l, fl_demand l)]" by (auto simp: check_leaf_def split: if_splits)
  with Cons.IH [OF rest] show ?case by auto
qed simp

lemma make_share_keys:
  "fold_res (make_share dm qb) items shares = Inr shares' \<Longrightarrow>
    fs_id ` set shares' \<subseteq> fs_id ` set shares \<union> set (map fst dm)"
proof (induction items arbitrary: shares)
  case (Cons i items)
  then obtain s1 where s1: "make_share dm qb i shares = Inr s1"
    and rest: "fold_res (make_share dm qb) items s1 = Inr shares'" by auto
  then obtain d a where "map_of dm (ud_id i) = Some d"
    "s1 = shares @ [\<lparr>fs_id = ud_id i, fs_demand = d, fs_allocated = a\<rparr>]"
    by (auto simp: make_share_def)
  then have "fs_id ` set s1 \<subseteq> fs_id ` set shares \<union> set (map fst dm)"
    by (auto dest!: map_of_SomeD intro: rev_image_eqI)
  with Cons.IH [OF rest] show ?case by blast
qed simp

lemma fair_share_ids:
  assumes "fair_share_branches capacity q branches = Inr r"
  shows "fs_id ` set (fr_shares r) \<subseteq> fl_id ` set (concat (map collect_leaves branches))"
proof -
  from assms obtain dm units used as unsorted where
      dm: "fold_res check_leaf (concat (map collect_leaves branches)) [] = Inr dm"
    and sh: "fold_res (make_share dm (of_nat q)) as [] = Inr unsorted"
    and r: "fr_shares r = sort_by (\<lambda>a b. fs_id a < fs_id b) unsorted"
    by (auto simp: fair_share_branches_def Let_def split: if_splits prod.splits)
  from make_share_keys [OF sh] check_leaf_keys [OF dm] show ?thesis by (auto simp: r)
qed

lemma bucket_leaf_ids:
  assumes "fold_res (bucket_leaf run) selection buckets = Inr buckets'"
  shows "fl_id ` set (concat (map snd buckets')) \<subseteq> fl_id ` set (concat (map snd buckets)) \<union> set selection"
  using assms
proof (induction selection arbitrary: buckets)
  case (Cons i selection)
  then obtain b1 where b1: "bucket_leaf run i buckets = Inr b1"
    and rest: "fold_res (bucket_leaf run) selection b1 = Inr buckets'" by auto
  have get: "set (om_get [] m g) \<subseteq> set (concat (map snd m))" for m :: "(ident, fairness_leaf list) omap" and g
    by (cases "om_find m g") (force simp: om_get_def dest: om_find_some)+
  have set: "set (concat (map snd (om_set g v m))) \<subseteq> set v \<union> set (concat (map snd m))"
    for m :: "(ident, fairness_leaf list) omap" and g v
    by (induction g v m rule: om_set.induct) auto
  from b1 obtain g where g: "wi_group (rs_items run ! i) = Some g" by (auto simp: bucket_leaf_def Let_def)
  define d where "d = min (wi_residual (rs_items run ! i)) (remaining_budget run (fg_id g))"
  from b1 g have "b1 = buckets \<or> b1 = om_set (fg_id g) (om_get [] buckets (fg_id g) @
      [\<lparr> fl_id = i, fl_weight = wi_effective_weight (rs_items run ! i), fl_demand = d \<rparr>]) buckets"
    by (auto simp: bucket_leaf_def Let_def d_def split: if_splits)
  then have "fl_id ` set (concat (map snd b1)) \<subseteq> insert i (fl_id ` set (concat (map snd buckets)))"
  proof
    assume b1: "b1 = om_set (fg_id g) (om_get [] buckets (fg_id g) @
      [\<lparr> fl_id = i, fl_weight = wi_effective_weight (rs_items run ! i), fl_demand = d \<rparr>]) buckets"
    have "set (concat (map snd b1)) \<subseteq> insert
        \<lparr> fl_id = i, fl_weight = wi_effective_weight (rs_items run ! i), fl_demand = d \<rparr>
        (set (concat (map snd buckets)))"
      unfolding b1 by (rule order_trans [OF set]) (use get [of buckets "fg_id g"] in auto)
    from image_mono [OF this, of fl_id] show ?thesis by simp
  qed blast
  with Cons.IH [OF rest] show ?case by (simp only: list.set) blast
qed simp

text \<open>
  The law of \<open>distribute\<close>: it never grants more than it is offered, and the amount it returns
  is exactly what it added to the items, in the requested kind.
\<close>

lemma distribute_moves:
  assumes d: "distribute run selection capacity k fr = Inr (run', granted)" and k: "k \<noteq> AK_None"
    and sel: "\<And>i. i \<in> set selection \<Longrightarrow> i < length (rs_items run) \<and> wi_admitted (rs_items run ! i)"
  shows "moved k granted run run'" and "granted \<le> capacity"
proof -
  have "moved k granted run run' \<and> granted \<le> capacity"
  proof (cases "run' = run \<and> granted = 0")
    case True
    then show ?thesis by (simp add: moved_refl)
  next
    case False
    with d obtain buckets fair where b: "fold_res (bucket_leaf run) selection [] = Inr buckets"
      and f: "fair_share_branches capacity (rs_quantum run)
        (map (\<lambda>(gid, leaves). FairnessBranch (om_get 0 (rs_group_weight run) gid) leaves []) buckets) = Inr fair"
      and a: "fold_res (apply_share k fr) (fr_shares fair) run = Inr run'" and g: "granted = fr_allocated fair"
      by (auto simp: distribute_def Let_def split: if_splits)
    have leaves: "concat (map collect_leaves (map (\<lambda>(gid, leaves). FairnessBranch (om_get 0 (rs_group_weight run) gid) leaves []) bs))
        = concat (map snd bs)" for bs
      by (induction bs) auto
    have "fs_id ` set (fr_shares fair) \<subseteq> set selection"
      using fair_share_ids [OF f] bucket_leaf_ids [OF b] unfolding leaves by simp
    then have "\<And>s. s \<in> set (fr_shares fair) \<Longrightarrow> fs_id s < length (rs_items run) \<and> wi_admitted (rs_items run ! fs_id s)"
      using sel by blast
    from moved_shares [OF a k this] fair_share_sound [OF f] g show ?thesis by auto
  qed
  then show "moved k granted run run'" "granted \<le> capacity" by simp_all
qed

section \<open>Invariants of the allocation phases\<close>

text \<open>
  Relative to the prepared run \<open>r0\<close>: the fixed members of every item stay, obligation-funded
  capacity is part of the guaranteed capacity, and a candidate that was not admitted holds
  nothing.
\<close>

definition items_inv :: "run_state \<Rightarrow> run_state \<Rightarrow> bool" where
  "items_inv r0 r \<longleftrightarrow> list_all2 item_frame (rs_items r0) (rs_items r) \<and>
    (\<forall>w \<in> set (rs_items r). it_o w \<le> it_g w \<and>
      (\<not> wi_admitted w \<longrightarrow> wi_allocation w = no_allocation \<and> it_o w = 0))"

text \<open>Capacity is moved, never created: what was granted plus what is left is what there was.\<close>

definition funds_inv :: "arb_pools \<Rightarrow> arb_state \<Rightarrow> bool" where
  "funds_inv pools st \<longleftrightarrow>
    total_of it_g (st_run st) + total_of it_d (st_run st) + st_remaining st + st_emergency st =
      ap_arbitrable pools + ap_emergency_reserve pools + total_of it_o (st_run st) \<and>
    st_emergency st \<le> ap_emergency_reserve pools"

text \<open>No reservation is consumed beyond its amount.\<close>

definition oblig_inv :: "arbitration_input \<Rightarrow> arb_state \<Rightarrow> bool" where
  "oblig_inv input st \<longleftrightarrow>
    total_of it_o (st_run st) =
      sum_list (map (\<lambda>ob. om_get 0 (st_consumed st) (ob_reservation ob)) (ai_obligations input)) \<and>
    (\<forall>ob \<in> set (ai_obligations input). om_get 0 (st_consumed st) (ob_reservation ob) \<le> ob_amount ob)"

definition order_ok :: "run_state \<Rightarrow> nat list \<Rightarrow> bool" where
  "order_ok r order \<longleftrightarrow> (\<forall>i \<in> set order. i < length (rs_items r) \<and> wi_admitted (rs_items r ! i))"

lemma order_ok_inv: "order_ok r0 order \<Longrightarrow> items_inv r0 r \<Longrightarrow> order_ok r order"
  by (auto simp: order_ok_def items_inv_def item_frame_def dest: list_all2_lengthD list_all2_nthD)

lemma order_ok_subset: "order_ok r order \<Longrightarrow> set xs \<subseteq> set order \<Longrightarrow> order_ok r xs"
  by (auto simp: order_ok_def)

lemma item_step_inv:
  assumes "item_step k a b" and "it_o a \<le> it_g a" and "\<not> wi_admitted a \<longrightarrow> wi_allocation a = no_allocation \<and> it_o a = 0"
  shows "it_o b \<le> it_g b \<and> (\<not> wi_admitted b \<longrightarrow> wi_allocation b = no_allocation \<and> it_o b = 0)"
proof -
  have "it_g a \<le> it_g b"
    using assms(1) by (cases "k = AK_Guaranteed") (auto simp: item_step_def dest: spec [of _ AK_Guaranteed])
  with assms show ?thesis by (auto simp: item_step_def item_frame_def)
qed

lemma moved_items_inv: "moved k a r r' \<Longrightarrow> items_inv r0 r \<Longrightarrow> items_inv r0 r'"
proof -
  assume m: "moved k a r r'" and inv: "items_inv r0 r"
  have steps: "list_all2 (item_step k) (rs_items r) (rs_items r')" using m by (simp add: moved_def)
  have "list_all2 item_frame (rs_items r0) (rs_items r')"
    by (rule list_all2_trans [OF _ _ steps, where ?P1.0 = item_frame])
      (use inv in \<open>auto simp: items_inv_def item_step_def intro: item_frame_trans\<close>)
  moreover have "it_o w \<le> it_g w \<and> (\<not> wi_admitted w \<longrightarrow> wi_allocation w = no_allocation \<and> it_o w = 0)"
    if "w \<in> set (rs_items r')" for w
  proof -
    from that obtain i where i: "i < length (rs_items r')" "w = rs_items r' ! i" by (auto simp: in_set_conv_nth)
    then have i': "i < length (rs_items r)" using moved_length [OF m] by simp
    show ?thesis unfolding i(2)
      by (rule item_step_inv [OF moved_nth [OF m i']]) (use inv i' in \<open>auto simp: items_inv_def\<close>)
  qed
  ultimately show ?thesis by (simp add: items_inv_def)
qed

lemma moved_totals:
  assumes "moved k a r r'"
  shows "total_of (it_part k) r' = total_of (it_part k) r + a"
    and "k' \<noteq> k \<Longrightarrow> total_of (it_part k') r' = total_of (it_part k') r"
    and "total_of it_o r' = total_of it_o r"
proof -
  show "total_of (it_part k) r' = total_of (it_part k) r + a" using assms by (simp add: moved_def)
  have steps: "list_all2 (item_step k) (rs_items r) (rs_items r')" using assms by (simp add: moved_def)
  show "total_of (it_part k') r' = total_of (it_part k') r" if "k' \<noteq> k"
    using list_all2_map_eq [OF steps, of "it_part k'"] that by (simp add: total_of_def item_step_def)
  show "total_of it_o r' = total_of it_o r"
    using list_all2_map_eq [OF steps, of it_o] by (simp add: total_of_def item_step_def)
qed

text \<open>A discretionary distribution out of one of the two pools keeps the invariants.\<close>

lemma discretionary_inv:
  assumes d: "distribute (st_run st) selection capacity AK_Discretionary fr = Inr (run', granted)"
    and sel: "order_ok (st_run st) selection" and f: "funds_inv pools st" and ob: "oblig_inv input st"
    and st': "st_run st' = run'" "st_consumed st' = st_consumed st"
    and pools: "granted \<le> capacity \<Longrightarrow>
      st_remaining st' + st_emergency st' + granted = st_remaining st + st_emergency st \<and>
      st_emergency st' \<le> st_emergency st"
  shows "funds_inv pools st'" and "oblig_inv input st'" and "moved AK_Discretionary granted (st_run st) (st_run st')"
proof -
  note dm = distribute_moves [OF d _ sel [unfolded order_ok_def, rule_format], simplified]
  show m: "moved AK_Discretionary granted (st_run st) (st_run st')" using dm(1) st' by simp
  note t = moved_totals [OF m]
  have "total_of it_g (st_run st') = total_of it_g (st_run st)" using t(2) [of AK_Guaranteed] by simp
  then show "funds_inv pools st'"
    using t(1,3) f pools [OF dm(2)] by (simp add: funds_inv_def)
  show "oblig_inv input st'" using t(3) ob st' by (simp add: oblig_inv_def)
qed

definition state_inv :: "arbitration_input \<Rightarrow> arb_pools \<Rightarrow> run_state \<Rightarrow> arb_state \<Rightarrow> bool" where
  "state_inv input pools r0 st \<longleftrightarrow> items_inv r0 (st_run st) \<and> funds_inv pools st \<and> oblig_inv input st \<and>
    total_of it_b (st_run st) = 0 \<and> total_of it_c (st_run st) = 0"

lemma state_inv_moved:
  assumes "state_inv input pools r0 st" and "moved AK_Discretionary a (st_run st) (st_run st')"
    and "funds_inv pools st'" and "oblig_inv input st'"
  shows "state_inv input pools r0 st'"
  using assms moved_items_inv [OF assms(2)] moved_totals(2) [OF assms(2), of AK_Borrowed]
    moved_totals(2) [OF assms(2), of AK_Contingent]
  by (simp add: state_inv_def)

lemma serve_pool_inv:
  assumes "serve_pool selection st = Inr st'" and inv: "state_inv input pools r0 st"
    and "order_ok r0 selection"
  shows "state_inv input pools r0 st'"
proof -
  from assms(1) obtain run' granted where
      d: "distribute (st_run st) selection (st_remaining st) AK_Discretionary False = Inr (run', granted)"
    and st': "st' = st\<lparr>st_run := run', st_remaining := st_remaining st - granted\<rparr>"
    by (auto simp: serve_pool_def)
  have "order_ok (st_run st) selection" using assms(3) inv by (auto simp: state_inv_def intro: order_ok_inv)
  note di = discretionary_inv [OF d this, where st' = st' and pools = pools and input = input]
  show ?thesis
    by (rule state_inv_moved [OF inv]) (rule di; use inv in \<open>simp add: state_inv_def st'\<close>)+
qed

lemma serve_rank_inv:
  assumes "serve_rank selection rank st = Inr st'" and "state_inv input pools r0 st" and "order_ok r0 selection"
  shows "state_inv input pools r0 st'"
  using assms order_ok_subset [OF assms(3), of "filter P selection" for P]
  by (auto simp: serve_rank_def Let_def intro: serve_pool_inv split: if_splits)

lemma serve_emergency_inv:
  assumes "serve_emergency burst selection st = Inr st'" and inv: "state_inv input pools r0 st"
    and sel: "order_ok r0 selection"
  shows "state_inv input pools r0 st'"
proof (cases "st' = st")
  case False
  let ?sel = "filter (\<lambda>i. item_emergency (rs_items (st_run st) ! i)) selection"
  from False assms(1) obtain run' granted where
      d: "distribute (st_run st) ?sel (st_emergency st) AK_Discretionary True = Inr (run', granted)"
    and st': "st' = st\<lparr>st_run := run', st_emergency := st_emergency st - granted\<rparr>"
    by (auto simp: serve_emergency_def Let_def split: if_splits)
  have "order_ok (st_run st) ?sel"
    using order_ok_subset [OF sel, of ?sel] inv by (auto simp: state_inv_def intro: order_ok_inv)
  note di = discretionary_inv [OF d this, where st' = st' and pools = pools and input = input]
  show ?thesis
    by (rule state_inv_moved [OF inv]) (rule di; use inv in \<open>simp add: state_inv_def st'\<close>)+
qed (use inv in simp)

lemma arb_pass_inv:
  assumes run: "arb_pass input order ranks burst st = Inr st'" and inv: "state_inv input pools r0 st"
    and order: "order_ok r0 order"
  shows "state_inv input pools r0 st'"
proof -
  define sel where "sel = filter (\<lambda>i. pass_selects burst (rs_items (st_run st) ! i)) order"
  have sel_ok: "order_ok r0 sel" by (rule order_ok_subset [OF order]) (auto simp: sel_def)
  show ?thesis
  proof (cases "sel = []")
    case True
    with run have "st' = st" unfolding sel_def by (simp add: arb_pass_def Let_def)
    with inv show ?thesis by simp
  next
    case False
    then obtain st1 where e: "serve_emergency burst sel st = Inr st1"
      and rest: "(case po_scheduling (ai_policy input) of StrictPriority \<Rightarrow> fold_res (serve_rank sel) ranks st1
        | WeightedFairShare \<Rightarrow> serve_pool sel st1) = Inr st'"
      using run unfolding sel_def by (auto simp: arb_pass_def Let_def)
    note inv1 = serve_emergency_inv [OF e inv sel_ok]
    show ?thesis
    proof (cases "po_scheduling (ai_policy input)")
      case StrictPriority
      with rest have "fold_res (serve_rank sel) ranks st1 = Inr st'" by simp
      then show ?thesis using inv1
        by (rule fold_res_invariant) (use serve_rank_inv sel_ok in blast)
    next
      case WeightedFairShare
      with rest have "serve_pool sel st1 = Inr st'" by simp
      then show ?thesis using inv1 sel_ok by (rule serve_pool_inv)
    qed
  qed
qed

section \<open>Guaranteed minima\<close>

text \<open>
  Crediting guaranteed capacity \<open>a\<close> to one admitted item, of which \<open>ob\<close> is funded by an
  obligation.
\<close>

lemma state_inv_item:
  assumes inv: "state_inv input pools r0 st" and u: "item_update i w (st_run st) (st_run st')"
    and i: "i < length (rs_items (st_run st))" and adm: "wi_admitted (rs_items (st_run st) ! i)"
    and f: "item_frame (rs_items (st_run st) ! i) w"
    and g: "it_g w = it_g (rs_items (st_run st) ! i) + a" and o: "it_o w = it_o (rs_items (st_run st) ! i) + ob"
    and same: "it_d w = it_d (rs_items (st_run st) ! i)" "it_b w = it_b (rs_items (st_run st) ! i)"
      "it_c w = it_c (rs_items (st_run st) ! i)"
    and le: "ob \<le> a"
    and pools: "st_remaining st' + st_emergency st' + a = st_remaining st + st_emergency st + ob"
      "st_emergency st' \<le> st_emergency st"
    and obl: "total_of it_o (st_run st') = total_of it_o (st_run st) + ob \<Longrightarrow> oblig_inv input st'"
  shows "state_inv input pools r0 st'"
proof -
  have t: "total_of it_g (st_run st') = total_of it_g (st_run st) + a"
    "total_of it_o (st_run st') = total_of it_o (st_run st) + ob"
    "total_of it_d (st_run st') = total_of it_d (st_run st) + 0"
    "total_of it_b (st_run st') = total_of it_b (st_run st) + 0"
    "total_of it_c (st_run st') = total_of it_c (st_run st) + 0"
    by (rule total_update [OF u i], simp add: g o same)+
  have items: "rs_items (st_run st') = (rs_items (st_run st))[i := w]" using u by (simp add: item_update_def)
  have upd: "list_all2 item_frame (rs_items (st_run st)) (rs_items (st_run st'))"
    unfolding items by (rule list_all2_update_refl [OF item_frame_refl f])
  have "list_all2 item_frame (rs_items r0) (rs_items (st_run st'))"
    by (rule list_all2_trans [OF _ _ upd, where ?P1.0 = item_frame])
      (use inv in \<open>auto simp: state_inv_def items_inv_def intro: item_frame_trans\<close>)
  moreover have "it_o v \<le> it_g v \<and> (\<not> wi_admitted v \<longrightarrow> wi_allocation v = no_allocation \<and> it_o v = 0)"
    if v: "v \<in> set (rs_items (st_run st'))" for v
  proof -
    from v set_update_subset_insert have "v = w \<or> v \<in> set (rs_items (st_run st))" unfolding items by fast
    then show ?thesis
    proof
      assume "v = w"
      moreover have "it_o (rs_items (st_run st) ! i) \<le> it_g (rs_items (st_run st) ! i)"
        using inv i by (auto simp: state_inv_def items_inv_def)
      ultimately show ?thesis using g o le adm f by (simp add: item_frame_def)
    qed (use inv in \<open>auto simp: state_inv_def items_inv_def\<close>)
  qed
  ultimately have "items_inv r0 (st_run st')" by (simp add: items_inv_def)
  moreover have "funds_inv pools st'" using inv t pools by (simp add: state_inv_def funds_inv_def)
  ultimately show ?thesis using inv t obl by (simp add: state_inv_def)
qed

lemma credit_Inr:
  assumes "credit i AK_Guaranteed amount extra r = Inr r'"
  obtains a where "item_update i (extra ((rs_items r ! i)\<lparr>wi_allocation := a,
        wi_residual := wi_residual (rs_items r ! i) - amount\<rparr>)) r r'"
    and "ga_guaranteed a = it_g (rs_items r ! i) + amount"
    and "ga_discretionary a = it_d (rs_items r ! i)" "ga_borrowed a = it_b (rs_items r ! i)"
      "ga_contingent a = it_c (rs_items r ! i)"
proof -
  from assms obtain a where a: "add_allocation (wi_allocation (rs_items r ! i)) AK_Guaranteed amount = Inr a"
    by (auto simp: credit_def Let_def)
  from assms a obtain g where g: "wi_group (rs_items r ! i) = Some g" by (auto simp: credit_def Let_def)
  have r': "r' = add_group_allocated (fg_id g) amount (set_item i (extra ((rs_items r ! i)\<lparr>wi_allocation := a,
        wi_residual := wi_residual (rs_items r ! i) - amount\<rparr>)) r)"
    using assms a g by (simp add: credit_def Let_def)
  show ?thesis
    by (rule that [where a = a]) (use a in \<open>auto simp: r' item_update_set add_allocation_def\<close>)
qed

text \<open>What a step of the phase keeps about the items it has not reached.\<close>

definition others_same :: "nat \<Rightarrow> arb_state \<Rightarrow> arb_state \<Rightarrow> bool" where
  "others_same i st st' \<longleftrightarrow> (\<forall>j. j \<noteq> i \<longrightarrow> rs_items (st_run st') ! j = rs_items (st_run st) ! j)"

lemma item_update_others: "item_update i w (st_run st) (st_run st') \<Longrightarrow> others_same i st st'"
  by (simp add: others_same_def item_update_def)

lemma others_same_trans: "others_same i a b \<Longrightarrow> others_same i b c \<Longrightarrow> others_same i a c"
  by (simp add: others_same_def)

lemma others_same_refl: "others_same i a a"
  by (simp add: others_same_def)

lemma om_get_set: "om_get d (om_set k v m) k' = (if k' = k then v else om_get d m k')"
  by (simp add: om_get_def om_find_set)

lemma sum_list_change_one:
  fixes f g :: "'a \<Rightarrow> nat"
  assumes "distinct (map key xs)" and "x \<in> set xs" and "g x = f x + n"
    and "\<And>y. y \<in> set xs \<Longrightarrow> key y \<noteq> key x \<Longrightarrow> g y = f y"
  shows "sum_list (map g xs) = sum_list (map f xs) + n"
  using assms
proof (induction xs)
  case (Cons y ys)
  show ?case
  proof (cases "x = y")
    case True
    have "g z = f z" if z: "z \<in> set ys" for z
    proof -
      have "key z \<noteq> key x" using Cons.prems(1) z True by (auto simp: image_iff)
      then show ?thesis using Cons.prems(4) [of z] z by simp
    qed
    then have "map g ys = map f ys" by simp
    then show ?thesis using Cons.prems(3) True by (simp only: list.map sum_list.Cons)
  next
    case False
    then have x: "x \<in> set ys" using Cons.prems(2) by simp
    then have "key y \<noteq> key x" using Cons.prems(1) by (auto simp: image_iff)
    then have "g y = f y" using Cons.prems(4) by simp
    with Cons.IH [OF _ x Cons.prems(3)] Cons.prems(1,4) show ?thesis by simp
  qed
qed simp

lemma guarantee_reserved_Inr:
  assumes "guarantee_reserved ob i minimum st = Inr st'"
  obtains run1 where "credit i AK_Guaranteed (min minimum (ob_amount ob - om_get 0 (st_consumed st) (ob_reservation ob)))
      (\<lambda>item. (if min minimum (ob_amount ob - om_get 0 (st_consumed st) (ob_reservation ob)) < minimum
         then short_item (minimum - min minimum (ob_amount ob - om_get 0 (st_consumed st) (ob_reservation ob))) else id)
        (item\<lparr>wi_obligation_guaranteed := min minimum (ob_amount ob - om_get 0 (st_consumed st) (ob_reservation ob))\<rparr>))
      (st_run st) = Inr run1"
    and "st' = st\<lparr>st_run := run1, st_consumed := om_set (ob_reservation ob) (om_get 0 (st_consumed st) (ob_reservation ob)
      + min minimum (ob_amount ob - om_get 0 (st_consumed st) (ob_reservation ob))) (st_consumed st)\<rparr>"
  using assms unfolding guarantee_reserved_def Let_def saturating_sub_eq bw_min_eq bindr_eq_Inr by auto

lemma guarantee_reserved_inv:
  assumes run: "guarantee_reserved ob i minimum st = Inr st'" and inv: "state_inv input pools r0 st"
    and i: "i < length (rs_items (st_run st))" and adm: "wi_admitted (rs_items (st_run st) ! i)"
    and zero: "it_o (rs_items (st_run st) ! i) = 0"
    and ob: "ob \<in> set (ai_obligations input)" and distinct: "distinct (map ob_reservation (ai_obligations input))"
  shows "state_inv input pools r0 st'" and "others_same i st st'"
proof -
  let ?c = "om_get 0 (st_consumed st) (ob_reservation ob)"
  define granted where "granted = min minimum (ob_amount ob - ?c)"
  let ?x = "\<lambda>item. (if granted < minimum then short_item (minimum - granted) else id)
      (item\<lparr>wi_obligation_guaranteed := granted\<rparr>)"
  obtain run1 where c: "credit i AK_Guaranteed granted ?x (st_run st) = Inr run1"
    and st': "st' = st\<lparr>st_run := run1, st_consumed := om_set (ob_reservation ob) (?c + granted) (st_consumed st)\<rparr>"
    by (rule guarantee_reserved_Inr [OF run, folded granted_def])
  obtain a where u: "item_update i (?x ((rs_items (st_run st) ! i)\<lparr>wi_allocation := a,
        wi_residual := wi_residual (rs_items (st_run st) ! i) - granted\<rparr>)) (st_run st) (st_run st')"
    and a: "ga_guaranteed a = it_g (rs_items (st_run st) ! i) + granted"
      "ga_discretionary a = it_d (rs_items (st_run st) ! i)" "ga_borrowed a = it_b (rs_items (st_run st) ! i)"
      "ga_contingent a = it_c (rs_items (st_run st) ! i)"
    by (rule credit_Inr [OF c]) (auto simp: st' intro: that)
  show "others_same i st st'" by (rule item_update_others [OF u])
  have room: "?c \<le> ob_amount ob" using inv ob by (simp add: state_inv_def oblig_inv_def)
  have obl: "oblig_inv input st'" if t: "total_of it_o (st_run st') = total_of it_o (st_run st) + granted"
  proof -
    have other: "om_get 0 (st_consumed st') (ob_reservation y) = om_get 0 (st_consumed st) (ob_reservation y)"
      if "ob_reservation y \<noteq> ob_reservation ob" for y
      using that by (simp add: st' om_get_set)
    have this_ob: "om_get 0 (st_consumed st') (ob_reservation ob) = ?c + granted" by (simp add: st' om_get_set)
    have "om_get 0 (st_consumed st') (ob_reservation y) \<le> ob_amount y" if y: "y \<in> set (ai_obligations input)" for y
    proof (cases "ob_reservation y = ob_reservation ob")
      case True
      with y ob distinct have "y = ob" by (auto simp: distinct_map inj_on_def)
      with this_ob room show ?thesis by (simp add: granted_def)
    next
      case False
      with other [OF False] y inv show ?thesis by (simp add: state_inv_def oblig_inv_def)
    qed
    moreover have "sum_list (map (\<lambda>y. om_get 0 (st_consumed st') (ob_reservation y)) (ai_obligations input)) =
        sum_list (map (\<lambda>y. om_get 0 (st_consumed st) (ob_reservation y)) (ai_obligations input)) + granted"
      by (rule sum_list_change_one [OF distinct ob]) (use this_ob other in auto)
    ultimately show ?thesis using t inv by (simp add: state_inv_def oblig_inv_def)
  qed
  show "state_inv input pools r0 st'"
    by (rule state_inv_item [OF inv u i adm, where a = granted and ob = granted])
      (use a zero obl in \<open>auto simp: item_frame_def short_item_def st'\<close>)
qed

lemma oblig_inv_same:
  "oblig_inv input st \<Longrightarrow> st_consumed st' = st_consumed st \<Longrightarrow>
    total_of it_o (st_run st') = total_of it_o (st_run st) \<Longrightarrow> oblig_inv input st'"
  by (simp add: oblig_inv_def)

lemma credit_pool_inv:
  assumes c: "credit i AK_Guaranteed amount extra (st_run st) = Inr run1" and inv: "state_inv input pools r0 st"
    and i: "i < length (rs_items (st_run st))" and adm: "wi_admitted (rs_items (st_run st) ! i)"
    and extra: "\<And>w. item_frame w (extra w) \<and> wi_allocation (extra w) = wi_allocation w \<and> it_o (extra w) = it_o w"
    and st': "st_run st' = run1" "st_consumed st' = st_consumed st"
    and pools: "st_remaining st' + st_emergency st' + amount = st_remaining st + st_emergency st"
      "st_emergency st' \<le> st_emergency st"
  shows "state_inv input pools r0 st'" and "others_same i st st'"
proof -
  obtain a where u: "item_update i (extra ((rs_items (st_run st) ! i)\<lparr>wi_allocation := a,
        wi_residual := wi_residual (rs_items (st_run st) ! i) - amount\<rparr>)) (st_run st) (st_run st')"
    and a: "ga_guaranteed a = it_g (rs_items (st_run st) ! i) + amount"
      "ga_discretionary a = it_d (rs_items (st_run st) ! i)" "ga_borrowed a = it_b (rs_items (st_run st) ! i)"
      "ga_contingent a = it_c (rs_items (st_run st) ! i)"
    by (rule credit_Inr [OF c]) (auto simp: st' intro: that)
  show "others_same i st st'" by (rule item_update_others [OF u])
  have frame: "item_frame (rs_items (st_run st) ! i) (extra ((rs_items (st_run st) ! i)\<lparr>wi_allocation := a,
        wi_residual := wi_residual (rs_items (st_run st) ! i) - amount\<rparr>))"
    by (rule item_frame_trans [OF _ extra [THEN conjunct1]]) (simp add: item_frame_def)
  have ob: "oblig_inv input st" using inv by (simp add: state_inv_def)
  show "state_inv input pools r0 st'"
    by (rule state_inv_item [OF inv u i adm frame, where a = amount and ob = 0])
      (use a extra pools oblig_inv_same [OF ob st'(2)] in simp_all)
qed

lemma guarantee_from_reserve_inv:
  assumes run: "guarantee_from_reserve i wanted st = Inr (st', wanted')" and inv: "state_inv input pools r0 st"
    and i: "i < length (rs_items (st_run st))" and adm: "wi_admitted (rs_items (st_run st) ! i)"
  shows "state_inv input pools r0 st' \<and> others_same i st st'"
proof (cases "st' = st")
  case True
  then show ?thesis using inv by (simp add: others_same_refl)
next
  case False
  then obtain run1 n where
      c: "credit i AK_Guaranteed (min wanted (st_emergency st)) (\<lambda>it. it\<lparr>wi_reserve_allocated := n\<rparr>) (st_run st) = Inr run1"
    and st': "st' = st\<lparr>st_run := run1, st_emergency := st_emergency st - min wanted (st_emergency st)\<rparr>"
    using run by (auto simp: guarantee_from_reserve_def Let_def split: if_splits)
  note ci = credit_pool_inv [OF c inv i adm, where st' = st']
  show ?thesis by (intro conjI; rule ci) (simp_all add: st' item_frame_def)
qed

lemma guarantee_from_pool_inv:
  assumes run: "guarantee_from_pool i wanted st = Inr (st', wanted')" and inv: "state_inv input pools r0 st"
    and i: "i < length (rs_items (st_run st))" and adm: "wi_admitted (rs_items (st_run st) ! i)"
  shows "state_inv input pools r0 st' \<and> others_same i st st'"
proof (cases "st' = st")
  case True
  then show ?thesis using inv by (simp add: others_same_refl)
next
  case False
  then obtain run1 where c: "credit i AK_Guaranteed (min wanted (st_remaining st)) id (st_run st) = Inr run1"
    and st': "st' = st\<lparr>st_run := run1, st_remaining := st_remaining st - min wanted (st_remaining st)\<rparr>"
    using run by (auto simp: guarantee_from_pool_def Let_def split: if_splits)
  note ci = credit_pool_inv [OF c inv i adm, where st' = st']
  show ?thesis by (intro conjI; rule ci) (simp_all add: st')
qed

lemma mark_short_inv:
  assumes inv: "state_inv input pools r0 st" and i: "i < length (rs_items (st_run st))"
    and adm: "wi_admitted (rs_items (st_run st) ! i)"
  shows "state_inv input pools r0 (mark_short i wanted st) \<and> others_same i st (mark_short i wanted st)"
proof (cases "is_positive wanted")
  case True
  let ?w = "short_item wanted (rs_items (st_run st) ! i)"
  have u: "item_update i ?w (st_run st) (st_run (mark_short i wanted st))"
    using True by (simp add: mark_short_def item_update_set)
  have ob: "oblig_inv input st" using inv by (simp add: state_inv_def)
  have "state_inv input pools r0 (mark_short i wanted st)"
    by (rule state_inv_item [OF inv u i adm, where a = 0 and ob = 0])
      (use True oblig_inv_same [OF ob, of "mark_short i wanted st"] in
        \<open>simp_all add: mark_short_def short_item_def item_frame_def\<close>)
  with item_update_others [OF u] show ?thesis by simp
qed (use inv in \<open>simp add: mark_short_def others_same_refl\<close>)

lemma state_inv_order:
  "state_inv input pools r0 st \<Longrightarrow> order_ok r0 order \<Longrightarrow> i \<in> set order \<Longrightarrow>
    i < length (rs_items (st_run st)) \<and> wi_admitted (rs_items (st_run st) ! i)"
  using order_ok_inv [of r0 order "st_run st"] by (auto simp: state_inv_def order_ok_def)

lemma guarantee_step_inv:
  assumes run: "guarantee_step input i st = Inr st'" and inv: "state_inv input pools r0 st"
    and order: "order_ok r0 [i]" and zero: "it_o (rs_items (st_run st) ! i) = 0"
    and distinct: "distinct (map ob_reservation (ai_obligations input))"
  shows "state_inv input pools r0 st' \<and> others_same i st st'"
proof -
  let ?m = "rq_minimum (wi_request (rs_items (st_run st) ! i))"
  have at: "i < length (rs_items (st_run s)) \<and> wi_admitted (rs_items (st_run s) ! i)"
    if "state_inv input pools r0 s" for s
    by (rule state_inv_order [OF that order]) simp
  consider "st' = st" | b ob where "find_obligation (ai_obligations input) b = Some ob"
      "guarantee_reserved ob i ?m st = Inr st'"
    | st1 w1 st2 w2 where "guarantee_from_reserve i ?m st = Inr (st1, w1)"
      "guarantee_from_pool i w1 st1 = Inr (st2, w2)" "st' = mark_short i w2 st2"
    using run by (auto simp: guarantee_step_def Let_def split: if_splits option.splits)
  then show ?thesis
  proof cases
    case 1
    with inv show ?thesis by (simp add: others_same_refl)
  next
    case 2
    then have "ob \<in> set (ai_obligations input)"
      by (auto simp: find_obligation_def find_Some_iff)
    with guarantee_reserved_inv [OF 2(2) inv _ _ zero _ distinct] at [OF inv] show ?thesis by simp
  next
    case 3
    have 1: "state_inv input pools r0 st1 \<and> others_same i st st1"
      using guarantee_from_reserve_inv [OF 3(1) inv] at [OF inv] by simp
    have 2: "state_inv input pools r0 st2 \<and> others_same i st1 st2"
      using guarantee_from_pool_inv [OF 3(2), of input pools r0] 1 at [of st1] by simp
    show ?thesis
      using mark_short_inv [of input pools r0 st2 i w2] 1 2 at [of st2] 3(3) others_same_trans by metis
  qed
qed

lemma guarantees_inv:
  assumes "fold_res (guarantee_step input) order st = Inr st'" and "state_inv input pools r0 st"
    and "order_ok r0 order" and "distinct order" and "\<And>i. i \<in> set order \<Longrightarrow> it_o (rs_items (st_run st) ! i) = 0"
    and "distinct (map ob_reservation (ai_obligations input))"
  shows "state_inv input pools r0 st'"
  using assms
proof (induction order arbitrary: st)
  case (Cons i order)
  then obtain st1 where st1: "guarantee_step input i st = Inr st1"
    and rest: "fold_res (guarantee_step input) order st1 = Inr st'" by auto
  have "order_ok r0 [i]" "order_ok r0 order" using Cons.prems(3) by (auto simp: order_ok_def)
  note step = guarantee_step_inv [OF st1 Cons.prems(2) this(1) _ Cons.prems(6)] and order = this(2)
  have inv1: "state_inv input pools r0 st1 \<and> others_same i st st1" by (rule step) (use Cons.prems(5) in simp)
  have "it_o (rs_items (st_run st1) ! j) = 0" if "j \<in> set order" for j
    using inv1 that Cons.prems(4) Cons.prems(5) [of j] by (auto simp: others_same_def)
  with inv1 order Cons.prems(4,6) show ?case by (intro Cons.IH [OF rest]) auto
qed simp

section \<open>Borrowed and contingent capacity\<close>

lemma moved_set_item:
  assumes "item_frame (rs_items r ! i) w" and "wi_allocation w = wi_allocation (rs_items r ! i)"
    and "it_o w = it_o (rs_items r ! i)"
  shows "moved k 0 r (set_item i w r)"
proof -
  let ?R = "\<lambda>a b. item_step k a b \<and> wi_allocation b = wi_allocation a"
  have steps: "list_all2 ?R (rs_items r) ((rs_items r)[i := w])"
    by (rule list_all2_update_refl) (use assms in \<open>simp_all add: item_step_refl item_step_def\<close>)
  then have "map (it_part k) ((rs_items r)[i := w]) = map (it_part k) (rs_items r)"
    by (rule list_all2_map_eq) simp
  moreover have "list_all2 (item_step k) (rs_items r) ((rs_items r)[i := w])"
    by (rule list_all2_mono [OF steps]) simp
  ultimately show ?thesis by (simp add: moved_def total_of_def)
qed

lemma refresh_items_moved: "moved k 0 r (refresh_items selection r)"
proof (induction selection arbitrary: r)
  case Nil
  then show ?case by (simp add: refresh_items_def moved_refl)
next
  case (Cons i selection)
  have "moved k 0 r (set_item i (burst_residual (rs_items r ! i)) r)"
    by (rule moved_set_item) (simp_all add: burst_residual_def item_frame_def)
  with Cons.IH [of "set_item i (burst_residual (rs_items r ! i)) r"] moved_trans [of k 0 r _ 0]
  show ?case by (simp add: refresh_items_def)
qed

lemma refreshed_distribute:
  assumes d: "distribute (refresh_items sel r) (room_left (refresh_items sel r) sel) capacity k False = Inr (r', granted)"
    and k: "k \<noteq> AK_None" and order: "order_ok r sel"
  shows "moved k granted r r' \<and> granted \<le> capacity"
proof -
  note m = refresh_items_moved [of k r sel]
  have "i < length (rs_items (refresh_items sel r)) \<and> wi_admitted (rs_items (refresh_items sel r) ! i)"
    if "i \<in> set (room_left (refresh_items sel r) sel)" for i
    using that order moved_length [OF m] moved_nth [OF m, of i]
    by (auto simp: room_left_def order_ok_def item_step_def item_frame_def)
  from distribute_moves [OF d k this] moved_trans [OF m] show ?thesis by force
qed

lemma lendable_le:
  assumes "fold_res (lendable_step input consumed) obs l = Inr l'" and "policy_validate (ai_policy input) = success"
    and "\<And>ob. ob \<in> set obs \<Longrightarrow> bw_ok (ob_amount ob)"
  shows "l' \<le> l + sum_list (map (\<lambda>ob. ob_amount ob - om_get 0 consumed (ob_reservation ob)) obs)"
  using assms
proof (induction obs arbitrary: l)
  case (Cons ob obs)
  then obtain l1 where l1: "lendable_step input consumed ob l = Inr l1"
    and rest: "fold_res (lendable_step input consumed) obs l1 = Inr l'" by auto
  have "l1 \<le> l + (ob_amount ob - om_get 0 consumed (ob_reservation ob))"
  proof (cases "ob_lendable ob")
    case True
    let ?pm = "min (ob_max_lend_permille ob) (bp_max_lend_permille (po_borrow (ai_policy input)))"
    from l1 True obtain c where c: "scaled (ob_amount ob) (ucast ?pm) (ucast kMaxPermille) = Inr c"
      and l1: "l1 = l + (c - om_get 0 consumed (ob_reservation ob))"
      by (auto simp: lendable_step_def)
    have "bp_max_lend_permille (po_borrow (ai_policy input)) \<le> kMaxPermille"
      using policy_validate_steps(9) [OF Cons.prems(2)] by (auto simp: validate_borrow_def Let_def split: if_splits)
    then have "?pm \<le> kMaxPermille" by (meson min.coboundedI2)
    then have "unat (ucast ?pm :: u64) \<le> unat (ucast kMaxPermille :: u64)"
      by (simp add: word_le_nat_alt)
    with c Cons.prems(3) have "c \<le> ob_amount ob" by (auto intro: scaled_le)
    with l1 show ?thesis by simp
  qed (use l1 in \<open>simp add: lendable_step_def\<close>)
  with Cons.IH [OF rest Cons.prems(2,3)] show ?case by simp
qed simp

definition same_pools :: "arb_state \<Rightarrow> arb_state \<Rightarrow> bool" where
  "same_pools st st' \<longleftrightarrow> st_remaining st' = st_remaining st \<and> st_emergency st' = st_emergency st \<and>
    st_consumed st' = st_consumed st"

lemma bind_run_Inr: "bindr m (\<lambda>(run, g). Inr (st\<lparr>st_run := run\<rparr>, g)) = Inr (st', granted) \<longleftrightarrow>
    (\<exists>run. m = Inr (run, granted) \<and> st' = st\<lparr>st_run := run\<rparr>)"
  by (cases m) auto

lemma arb_borrow_moves:
  assumes run: "arb_borrow input cap order st = Inr (st', granted)" and order: "order_ok (st_run st) order"
    and pol: "policy_validate (ai_policy input) = success"
    and obs: "\<And>ob. ob \<in> set (ai_obligations input) \<Longrightarrow> bw_ok (ob_amount ob)"
  shows "moved AK_Borrowed granted (st_run st) (st_run st')" and "same_pools st st'"
    and "granted \<le> sum_list (map (\<lambda>ob. ob_amount ob - om_get 0 (st_consumed st) (ob_reservation ob)) (ai_obligations input))"
    and "granted \<le> cap" and "\<not> is_usable (ai_snapshot input) \<Longrightarrow> st' = st"
proof -
  define sel where "sel = filter (\<lambda>i. borrow_selects (rs_items (st_run st) ! i)) order"
  note body = run [unfolded arb_borrow_def Let_def, folded sel_def]
  let ?S = "sum_list (map (\<lambda>ob. ob_amount ob - om_get 0 (st_consumed st) (ob_reservation ob)) (ai_obligations input))"
  have "moved AK_Borrowed granted (st_run st) (st_run st') \<and> same_pools st st' \<and>
    granted \<le> ?S \<and> granted \<le> cap"
  proof (cases "st' = st \<and> granted = 0")
    case True
    then show ?thesis by (simp add: moved_refl same_pools_def)
  next
    case False
    from body False obtain lendable where l: "fold_res (lendable_step input (st_consumed st)) (ai_obligations input) 0 = Inr lendable"
      by (auto split: if_splits)
    from body False l have "bindr (distribute (refresh_items sel (st_run st)) (room_left (refresh_items sel (st_run st)) sel)
        (min lendable cap) AK_Borrowed False) (\<lambda>(run', granted). Inr (st\<lparr>st_run := run'\<rparr>, granted)) = Inr (st', granted)"
      by (simp split: if_splits)
    then obtain run' where
        d: "distribute (refresh_items sel (st_run st)) (room_left (refresh_items sel (st_run st)) sel)
          (min lendable cap) AK_Borrowed False = Inr (run', granted)" and st': "st' = st\<lparr>st_run := run'\<rparr>"
      unfolding bind_run_Inr by blast
    have "order_ok (st_run st) sel" by (rule order_ok_subset [OF order]) (auto simp: sel_def)
    from refreshed_distribute [OF d _ this] lendable_le [OF l pol obs] show ?thesis by (simp add: st' same_pools_def)
  qed
  then show "moved AK_Borrowed granted (st_run st) (st_run st')" "same_pools st st'"
    "granted \<le> ?S" "granted \<le> cap" by blast+
  show "\<not> is_usable (ai_snapshot input) \<Longrightarrow> st' = st" using run by (simp add: arb_borrow_def Let_def)
qed

lemma bind_run_split: "(if c then (if d then bindr m (\<lambda>(run, g). Inr (st\<lparr>st_run := run\<rparr>, g)) else x) else y)
      = Inr (st', granted) \<longleftrightarrow>
    c \<and> d \<and> (\<exists>run. m = Inr (run, granted) \<and> st' = st\<lparr>st_run := run\<rparr>) \<or>
    c \<and> \<not> d \<and> x = Inr (st', granted) \<or> \<not> c \<and> y = Inr (st', granted)"
  using bind_run_Inr [of m st st' granted] by (simp only: split: if_splits) blast

lemma arb_contingent_moves:
  assumes run: "arb_contingent input pool order st = Inr (st', granted)" and order: "order_ok (st_run st) order"
  shows "moved AK_Contingent granted (st_run st) (st_run st')" and "same_pools st st'"
    and "granted \<le> pool" and "\<not> is_usable (ai_snapshot input) \<Longrightarrow> st' = st"
proof -
  define sel where "sel = filter (\<lambda>i. contingent_selects (rs_items (st_run st) ! i)) order"
  let ?r = "refresh_items sel (st_run st)"
  have body: "(if is_usable (ai_snapshot input) \<and> is_positive pool then
      (if room_left ?r sel \<noteq> []
       then bindr (distribute ?r (room_left ?r sel) pool AK_Contingent False)
              (\<lambda>(run', granted). Inr (st\<lparr>st_run := run'\<rparr>, granted))
       else Inr (st\<lparr>st_run := ?r\<rparr>, 0)) else Inr (st, 0)) = Inr (st', granted)"
    using run unfolding arb_contingent_def Let_def sel_def by (simp only:)
  consider (skip) "Inr (st, 0) = (Inr (st', granted) :: (arb_state \<times> nat) result)"
    | (none) "Inr (st\<lparr>st_run := ?r\<rparr>, 0) = (Inr (st', granted) :: (arb_state \<times> nat) result)"
    | (share) run' where "distribute ?r (room_left ?r sel) pool AK_Contingent False = Inr (run', granted)"
        "st' = st\<lparr>st_run := run'\<rparr>"
    using body unfolding bind_run_split by (metis (no_types))
  then have "moved AK_Contingent granted (st_run st) (st_run st') \<and> same_pools st st' \<and> granted \<le> pool"
  proof cases
    case share
    have "order_ok (st_run st) sel" by (rule order_ok_subset [OF order]) (auto simp: sel_def)
    from refreshed_distribute [OF share(1) _ this] share(2) show ?thesis by (simp add: same_pools_def)
  qed (auto simp: moved_refl refresh_items_moved same_pools_def)
  then show "moved AK_Contingent granted (st_run st) (st_run st')" "same_pools st st'"
    "granted \<le> pool" by blast+
  show "\<not> is_usable (ai_snapshot input) \<Longrightarrow> st' = st" using run by (simp add: arb_contingent_def)
qed

section \<open>Preparation\<close>

lemma admit_bound_allocation:
  "wi_allocation (admit_bound input q c w) = wi_allocation w"
  "wi_obligation_guaranteed (admit_bound input q c w) = wi_obligation_guaranteed w"
  by (auto simp: admit_bound_def reject_item_def Let_def split: option.splits sum.splits)

lemma admit_all_blank:
  "w \<in> set (admit_all input q ics seen) \<Longrightarrow> wi_allocation w = no_allocation \<and> it_o w = 0"
proof (induction input q ics seen rule: admit_all.induct)
  case (2 input q ic ics seen)
  have "wi_allocation (fst (admit_item input q ic seen)) = no_allocation \<and> it_o (fst (admit_item input q ic seen)) = 0"
    by (auto simp: admit_item_def Let_def admit_bound_allocation blank_item_def reject_item_def split: prod.splits)
  with 2 show ?case by (cases "admit_item input q ic seen") auto
qed simp

lemma budget_items: "fold_res (budget_step p) items run = Inr run' \<Longrightarrow> rs_items run' = rs_items run"
proof (induction items arbitrary: run)
  case (Cons w items)
  then obtain run1 where r1: "budget_step p w run = Inr run1" and rest: "fold_res (budget_step p) items run1 = Inr run'"
    by auto
  have "rs_items run1 = rs_items run" using r1 by (auto simp: budget_step_def Let_def split: if_splits)
  with Cons.IH [OF rest] show ?case by simp
qed simp

lemma prepare_items:
  assumes "arb_prepare input q pools = Inr run" and "w \<in> set (rs_items run)"
  shows "wi_allocation w = no_allocation" and "it_o w = 0" and "\<not> is_usable (ai_snapshot input) \<Longrightarrow> \<not> wi_admitted w"
proof -
  define items0 where "items0 = admit_all input q (zip [0..<length (ai_candidates input)] (ai_candidates input)) []"
  define items1 where "items1 = (if is_usable (ai_snapshot input) then items0 else map (finish_unsatisfied input) items0)"
  from assms(1) obtain run0 where run: "run = run0\<lparr>rs_items := map start_residual (rs_items run0)\<rparr>"
    and r0: "fold_res (budget_step (ap_effective_physical pools)) items1
            \<lparr> rs_quantum = q, rs_unlimited = kMaxBitsPerSecond, rs_items = items1,
              rs_group_cap = [], rs_group_allocated = [], rs_group_weight = [] \<rparr> = Inr run0"
    unfolding items1_def items0_def by (auto simp: arb_prepare_def Let_def)
  have "rs_items run0 = items1" using budget_items [OF r0] by simp
  with assms(2) obtain v where v: "v \<in> set items1" and w: "w = start_residual v" by (auto simp: run)
  obtain u where u: "u \<in> set items0" and vu: "v = (if is_usable (ai_snapshot input) then u else finish_unsatisfied input u)"
    using v by (auto simp: items1_def split: if_splits)
  from admit_all_blank [OF u [unfolded items0_def]]
  show "wi_allocation w = no_allocation" "it_o w = 0" "\<not> is_usable (ai_snapshot input) \<Longrightarrow> \<not> wi_admitted w"
    by (auto simp: w vu start_residual_def finish_unsatisfied_def)
qed

lemma arb_order_ok: "order_ok r (arb_order (rs_items r))" and arb_order_distinct: "distinct (arb_order items)"
  by (auto simp: order_ok_def arb_order_def)

text \<open>The state the allocation phases start from satisfies the invariant.\<close>

lemma start_inv:
  assumes "arb_prepare input q pools = Inr run"
  shows "state_inv input pools run \<lparr> st_run = run, st_remaining = ap_arbitrable pools,
    st_emergency = ap_emergency_reserve pools, st_consumed = [] \<rparr>"
proof -
  note items = prepare_items [OF assms]
  have z: "total_of f run = 0" if "\<And>w. wi_allocation w = no_allocation \<Longrightarrow> it_o w = 0 \<Longrightarrow> f w = 0" for f
    unfolding total_of_def using items that by (simp add: sum_list_eq_0_iff)
  have "total_of it_g run = 0" "total_of it_d run = 0" "total_of it_b run = 0" "total_of it_c run = 0" "total_of it_o run = 0"
    by (rule z, simp add: no_allocation_def)+
  moreover have "om_get (0 :: nat) [] k = 0" for k :: ident by (simp add: om_get_def)
  ultimately show ?thesis
    using items by (simp add: state_inv_def items_inv_def funds_inv_def oblig_inv_def list_all2_refl no_allocation_def)
qed

section \<open>A whole round\<close>

lemma obligations_distinct:
  assumes "fold_res (check_obligation t) obs seen = Inr seen'"
  shows "distinct (map ob_reservation obs) \<and> set (map ob_reservation obs) \<inter> set seen = {} \<and>
    (\<forall>ob \<in> set obs. obligation_validate ob = success \<and> ob_target ob = t)"
  using assms
proof (induction obs arbitrary: seen)
  case (Cons ob obs)
  then obtain s1 where s1: "check_obligation t ob seen = Inr s1" and rest: "fold_res (check_obligation t) obs s1 = Inr seen'"
    by auto
  then have "s1 = ob_reservation ob # seen" "ob_reservation ob \<notin> set seen" "obligation_validate ob = success" "ob_target ob = t"
    by (auto simp: check_obligation_def split: if_splits)
  with Cons.IH [OF rest] show ?case by auto
qed simp

lemma input_valid:
  assumes "validate_arbitration_input input = success"
  shows "policy_validate (ai_policy input) = success" and "snapshot_validate (ai_snapshot input) = success"
    and "distinct (map ob_reservation (ai_obligations input))"
    and "\<And>ob. ob \<in> set (ai_obligations input) \<Longrightarrow> obligation_validate ob = success \<and> ob_target ob = ai_target input"
    and "cs_target (ai_snapshot input) = ai_target input"
    and "valid_id (ai_decision input)" and "ai_tick input \<noteq> 0"
proof -
  from assms obtain seen where "fold_res (check_obligation (ai_target input)) (ai_obligations input) [] = Inr seen"
    by (auto simp: validate_arbitration_input_def Let_def split: if_splits)
  from obligations_distinct [OF this]
  show "distinct (map ob_reservation (ai_obligations input))"
    and "\<And>ob. ob \<in> set (ai_obligations input) \<Longrightarrow> obligation_validate ob = success \<and> ob_target ob = ai_target input"
    by simp_all
qed (use assms in \<open>auto simp: validate_arbitration_input_def Let_def split: if_splits\<close>)

lemma checked_total:
  "fold_res (\<lambda>ob total. checked_add total (f ob)) xs t = Inr t' \<Longrightarrow>
    t' = t + sum_list (map f xs) \<and> (xs \<noteq> [] \<longrightarrow> bw_ok t')"
proof (induction xs arbitrary: t)
  case (Cons x xs)
  then have "bw_ok (t + f x)" "fold_res (\<lambda>ob total. checked_add total (f ob)) xs (t + f x) = Inr t'" by auto
  with Cons.IH [of "t + f x"] show ?case by (cases xs) auto
qed simp

lemma pools_reserved:
  assumes "arb_pools_of input physical = Inr pools"
  shows "ap_obligations_reserved pools = sum_list (map ob_amount (ai_obligations input))"
    and "\<And>ob. ob \<in> set (ai_obligations input) \<Longrightarrow> bw_ok (ob_amount ob)"
    and "ap_effective_physical pools = physical"
proof -
  from assms obtain reserved where
      t: "fold_res (\<lambda>ob total. checked_add total (ob_amount ob)) (ai_obligations input) 0 = Inr reserved"
    and r: "ap_obligations_reserved pools = reserved" and p: "ap_effective_physical pools = physical"
    by (auto simp: arb_pools_of_def Let_def split: if_splits)
  note total = checked_total [OF t]
  show "ap_obligations_reserved pools = sum_list (map ob_amount (ai_obligations input))" using total r by simp
  show "ap_effective_physical pools = physical" by (rule p)
  show "bw_ok (ob_amount ob)" if "ob \<in> set (ai_obligations input)" for ob
  proof -
    have "ob_amount ob \<le> reserved" using total member_le_sum_list_map [OF that, of ob_amount] by simp
    moreover have "bw_ok reserved" using total that by auto
    ultimately show ?thesis by simp
  qed
qed

text \<open>What every run of the allocation phases establishes.\<close>

definition allocated_inv :: "arbitration_input \<Rightarrow> arb_pools \<Rightarrow> run_state \<Rightarrow> arb_state \<Rightarrow> nat \<Rightarrow> nat \<Rightarrow> bool" where
  "allocated_inv input pools run st borrowed contingent \<longleftrightarrow>
    items_inv run (st_run st) \<and> funds_inv pools st \<and>
    total_of it_b (st_run st) = borrowed \<and> total_of it_c (st_run st) = contingent \<and>
    total_of it_o (st_run st) + borrowed \<le> ap_obligations_reserved pools \<and>
    contingent \<le> ap_contingent_pool pools"

lemma sum_list_minus_nat:
  fixes f g :: "'a \<Rightarrow> nat"
  assumes "\<And>x. x \<in> set xs \<Longrightarrow> g x \<le> f x"
  shows "sum_list (map (\<lambda>x. f x - g x) xs) + sum_list (map g xs) = sum_list (map f xs)"
  using assms
proof (induction xs)
  case (Cons x xs)
  from Cons.prems [of x] have "f x - g x + g x = f x" by simp
  moreover have "sum_list (map (\<lambda>x. f x - g x) xs) + sum_list (map g xs) = sum_list (map f xs)"
    by (rule Cons.IH) (use Cons.prems in simp)
  ultimately show ?case by (simp only: list.map sum_list.Cons)
qed simp

lemma arb_allocate_inv:
  assumes valid: "validate_arbitration_input input = success" and pools: "arb_pools_of input physical = Inr pools"
    and prep: "arb_prepare input q pools = Inr run" and alloc: "arb_allocate input pools run = Inr (st, borrowed, contingent)"
  shows "allocated_inv input pools run st borrowed contingent"
proof -
  let ?order = "arb_order (rs_items run)" and ?usable = "is_usable (ai_snapshot input)"
  let ?st = "\<lparr> st_run = run, st_remaining = ap_arbitrable pools, st_emergency = ap_emergency_reserve pools, st_consumed = [] \<rparr>"
  let ?ranks = "rank_list (rs_items run) ?order"
  from alloc obtain st1 st2 st3 st4 where
      1: "(if ?usable then fold_res (guarantee_step input) ?order ?st else Inr ?st) = Inr st1"
    and 2: "(if ?usable then arb_pass input ?order ?ranks False st1 else Inr st1) = Inr st2"
    and 3: "(if ?usable then arb_pass input ?order ?ranks True st2 else Inr st2) = Inr st3"
    and 4: "arb_borrow input (ap_borrow_ceiling pools) ?order st3 = Inr (st4, borrowed)"
    and 5: "arb_contingent input (ap_contingent_pool pools) ?order st4 = Inr (st, contingent)"
    unfolding arb_allocate_def Let_def by (auto simp only: bindr_eq_Inr split_paired_Ex prod.case Inr_inject prod.inject)
  note ok = arb_order_ok [of run]
  have zero: "it_o (rs_items (st_run ?st) ! i) = 0" if "i \<in> set ?order" for i
    using ok that prepare_items(2) [OF prep] by (auto simp: order_ok_def)
  have s1: "state_inv input pools run st1"
    using 1 start_inv [OF prep]
    by (cases ?usable) (auto intro: guarantees_inv [OF _ _ ok arb_order_distinct zero input_valid(3) [OF valid]])
  have s2: "state_inv input pools run st2" using 2 s1 ok by (auto intro: arb_pass_inv split: if_splits)
  have s3: "state_inv input pools run st3" using 3 s2 ok by (auto intro: arb_pass_inv split: if_splits)
  have ok3: "order_ok (st_run st3) ?order" using s3 ok by (auto simp: state_inv_def intro: order_ok_inv)
  note b = arb_borrow_moves [OF 4 ok3 input_valid(1) [OF valid] pools_reserved(2) [OF pools]]
  have i4: "items_inv run (st_run st4)" using moved_items_inv [OF b(1)] s3 by (simp add: state_inv_def)
  note c = arb_contingent_moves [OF 5 order_ok_inv [OF ok i4]]
  note tb = moved_totals [OF b(1)] and tc = moved_totals [OF c(1)]
  have sums: "total_of it_g (st_run st) = total_of it_g (st_run st3)" "total_of it_d (st_run st) = total_of it_d (st_run st3)"
    "total_of it_b (st_run st) = borrowed" "total_of it_c (st_run st) = contingent" "total_of it_o (st_run st) = total_of it_o (st_run st3)"
    using tb(2) [of AK_Guaranteed] tb(2) [of AK_Discretionary] tb(1,3) tb(2) [of AK_Contingent]
      tc(2) [of AK_Guaranteed] tc(2) [of AK_Discretionary] tc(1,3) tc(2) [of AK_Borrowed] s3
    by (simp_all add: state_inv_def)
  let ?c = "\<lambda>ob. om_get 0 (st_consumed st3) (ob_reservation ob)"
  have "sum_list (map (\<lambda>ob. ob_amount ob - ?c ob) (ai_obligations input)) + sum_list (map ?c (ai_obligations input))
      = ap_obligations_reserved pools"
    unfolding pools_reserved(1) [OF pools]
    by (rule sum_list_minus_nat) (use s3 in \<open>simp add: state_inv_def oblig_inv_def\<close>)
  moreover have "total_of it_o (st_run st3) = sum_list (map ?c (ai_obligations input))"
    using s3 by (simp add: state_inv_def oblig_inv_def)
  ultimately have "total_of it_o (st_run st) + borrowed \<le> ap_obligations_reserved pools"
    using b(3) sums(5) by linarith
  moreover have "items_inv run (st_run st)" by (rule moved_items_inv [OF c(1) i4])
  moreover have "funds_inv pools st"
    using s3 sums b(2) c(2) by (simp add: state_inv_def funds_inv_def same_pools_def)
  ultimately show ?thesis using sums c(3) by (simp add: allocated_inv_def)
qed

section \<open>Accounting\<close>

lemma sum_item_Inr: "sum_item w (g, d, ob) = Inr s \<Longrightarrow> s = (g + (it_g w - it_o w), d + it_d w, ob + it_o w)"
  by (auto simp: sum_item_def)

lemma sum_items:
  assumes "fold_res sum_item items (g, d, ob) = Inr (g', d', ob')"
  shows "g' = g + sum_list (map (\<lambda>w. it_g w - it_o w) items) \<and> d' = d + sum_list (map it_d items) \<and>
    ob' = ob + sum_list (map it_o items)"
  using assms
proof (induction items arbitrary: g d ob)
  case (Cons w items)
  then have "fold_res sum_item items (g + (it_g w - it_o w), d + it_d w, ob + it_o w) = Inr (g', d', ob')"
    by (auto dest: sum_item_Inr)
  from Cons.IH [OF this] show ?case by simp
qed simp

text \<open>The accounting record is the exact sum of what the items hold.\<close>

lemma accounting_sums:
  assumes acc: "assemble_accounting input pools st borrowed contingent = Inr a"
    and inv: "allocated_inv input pools run st borrowed contingent"
  shows "ac_guaranteed_granted a + ac_obligations_consumed a = total_of it_g (st_run st)"
    and "ac_discretionary_granted a = total_of it_d (st_run st)"
    and "ac_obligations_consumed a = total_of it_o (st_run st)"
    and "ac_borrowed_granted a = total_of it_b (st_run st)" and "ac_obligations_lent a = total_of it_b (st_run st)"
    and "ac_contingent_granted a = total_of it_c (st_run st)"
    and "ac_authorized_consumption a = total_of (\<lambda>w. ga_sum (wi_allocation w)) (st_run st)"
    and "bw_ok (ac_authorized_consumption a)"
proof -
  from acc obtain g d ob where sums: "fold_res sum_item (rs_items (st_run st)) (0, 0, 0) = Inr (g, d, ob)"
    and auth: "fold_res (\<lambda>term authorized. checked_add authorized term) [g, d, borrowed, contingent] ob
      = Inr (ac_authorized_consumption a)"
    and parts: "ac_guaranteed_granted a = g" "ac_discretionary_granted a = d" "ac_obligations_consumed a = ob"
      "ac_borrowed_granted a = borrowed" "ac_obligations_lent a = borrowed" "ac_contingent_granted a = contingent"
    by (auto simp: assemble_accounting_def Let_def)
  note s = sum_items [OF sums]
  have le: "it_o w \<le> it_g w" if "w \<in> set (rs_items (st_run st))" for w
    using inv that by (simp add: allocated_inv_def items_inv_def)
  have gsum: "g + ob = total_of it_g (st_run st)"
    using s sum_list_minus_nat [of "rs_items (st_run st)" it_o it_g, OF le] by (simp add: total_of_def)
  show "ac_guaranteed_granted a + ac_obligations_consumed a = total_of it_g (st_run st)"
    "ac_discretionary_granted a = total_of it_d (st_run st)" "ac_obligations_consumed a = total_of it_o (st_run st)"
    "ac_borrowed_granted a = total_of it_b (st_run st)" "ac_obligations_lent a = total_of it_b (st_run st)"
    "ac_contingent_granted a = total_of it_c (st_run st)"
    using gsum s parts inv by (simp_all add: total_of_def allocated_inv_def)
  note t = checked_total [where f = id, simplified, OF auth]
  have "total_of (\<lambda>w. ga_sum (wi_allocation w)) (st_run st) =
      total_of it_g (st_run st) + total_of it_d (st_run st) + total_of it_b (st_run st) + total_of it_c (st_run st)"
    by (simp add: total_of_def sum_list_addf)
  then show "ac_authorized_consumption a = total_of (\<lambda>w. ga_sum (wi_allocation w)) (st_run st)"
    using t gsum s inv by (simp add: total_of_def allocated_inv_def)
  show "bw_ok (ac_authorized_consumption a)" using t by simp
qed

end
