(* ===== verification/Arbitrator_Decisions.thy ===== *)
theory Arbitrator_Decisions
  imports Arbitrator_Laws
begin

text \<open>
  From work items to decisions: which members of a decision the construction of its grant
  leaves alone, what happens to an existing grant (it is closed, renewed, changed), which
  identity a new grant gets, and the conservation law of a whole round: the accounting record
  is the exact sum of the decisions.
\<close>

section \<open>Decisions\<close>

lemma classify_allocation:
  "classify_item input pools st item w = Inr d \<Longrightarrow>
    ad_allocation d = wi_allocation item \<and> ad_request d = rq_id (wi_request item) \<and>
    ad_request_generation d = rq_generation (wi_request item) \<and> ad_grant d = None \<and> ad_previous_grant d = None \<and>
    ad_refused d = wi_refused item"
  by (auto simp: classify_item_def Let_def split: if_splits)

text \<open>What building the grant of a decision leaves alone.\<close>

definition same_claim :: "arbitration_decision \<Rightarrow> arbitration_decision \<Rightarrow> bool" where
  "same_claim d d' \<longleftrightarrow> ad_allocation d' = ad_allocation d \<and> ad_request d' = ad_request d \<and>
    ad_request_generation d' = ad_request_generation d \<and> ad_refused d' = ad_refused d \<and>
    ad_denied d' = ad_denied d \<and> ad_satisfied d' = ad_satisfied d \<and> ad_waiting d' = ad_waiting d \<and>
    ad_reason d' = ad_reason d \<and> ad_next_wait_rounds d' = ad_next_wait_rounds d"

lemma same_claim_refl [simp]: "same_claim d d"
  by (simp add: same_claim_def)

lemma same_claim_updates [simp]:
  "same_claim d (d'\<lparr>ad_grant := g\<rparr>) = same_claim d d'"
  "same_claim d (d'\<lparr>ad_previous_grant := g\<rparr>) = same_claim d d'"
  "same_claim d (d'\<lparr>ad_recall := r\<rparr>) = same_claim d d'"
  "same_claim d (d'\<lparr>ad_state := s\<rparr>) = same_claim d d'"
  by (simp_all add: same_claim_def)

lemma terminate_same_claim: "ensures (terminate_grant input item h d nr) (\<lambda>(d', _). same_claim d d')"
  by (simp add: terminate_grant_def Let_def ensures_simps)

lemma update_same_claim: "ensures (update_grant input item p d w nr) (\<lambda>(d', _). same_claim d d')"
  by (simp add: update_grant_def Let_def ensures_simps)

lemma new_same_claim: "ensures (new_grant input item d w ng) (\<lambda>(d', _). same_claim d d')"
  by (simp add: new_grant_def Let_def ensures_simps)

definition live_grant :: "arbitration_candidate \<Rightarrow> grant option" where
  "live_grant c = (case cn_existing_grant c of None \<Rightarrow> None | Some g \<Rightarrow> if is_live (gr_state g) then Some g else None)"

lemma live_grant_Some: "live_grant c = Some g \<longleftrightarrow> cn_existing_grant c = Some g \<and> is_live (gr_state g)"
  by (auto simp: live_grant_def split: option.splits)

lemma materialise_cases:
  assumes "materialise input item c d ng nr = Inr (d', ng', nr')"
  obtains (closed) g where "live_grant c = Some g" "wi_refused item \<or> is_zero (total_allocation (wi_allocation item))"
      "terminate_grant input item g d nr = Inr (d', nr')" "ng' = ng"
    | (renewed) g where "live_grant c = Some g" "\<not> wi_refused item" "\<not> is_zero (total_allocation (wi_allocation item))"
      "grant_renewable item (round_authority input (wi_request item)) (total_allocation (wi_allocation item)) g"
      "d' = d\<lparr>ad_grant := Some (stamp_grant input (wi_request item) d (cn_wait_rounds c) g)\<rparr>" "ng' = ng" "nr' = nr"
    | (changed) g where "live_grant c = Some g" "\<not> wi_refused item" "\<not> is_zero (total_allocation (wi_allocation item))"
      "update_grant input item g d (cn_wait_rounds c) nr = Inr (d', nr')" "ng' = ng"
    | (fresh) "live_grant c = None" "\<not> wi_refused item" "is_positive (total_allocation (wi_allocation item))"
      "new_grant input item d (cn_wait_rounds c) ng = Inr (d', ng')" "nr' = nr"
    | (none) "live_grant c = None" "wi_refused item \<or> \<not> is_positive (total_allocation (wi_allocation item))"
      "d' = d" "ng' = ng" "nr' = nr"
proof (cases "live_grant c")
  case None
  then show thesis using assms fresh none
    by (cases "\<not> wi_refused item \<and> is_positive (total_allocation (wi_allocation item))")
      (auto simp: materialise_def Let_def live_grant_def [symmetric])
next
  case (Some g)
  note body = assms [unfolded materialise_def Let_def live_grant_def [symmetric] Some option.case]
  show thesis
  proof (cases "wi_refused item \<or> is_zero (total_allocation (wi_allocation item))")
    case True
    with body closed [OF Some] show thesis by auto
  next
    case False
    with body renewed [OF Some] changed [OF Some] show thesis by (auto split: if_splits)
  qed
qed

lemma materialise_same_claim:
  assumes "materialise input item c d ng nr = Inr (d', ng', nr')"
  shows "same_claim d d'"
  using assms
proof (cases rule: materialise_cases)
  case (closed g)
  from ensuresD [OF terminate_same_claim closed(3)] show ?thesis by simp
next
  case (changed g)
  from ensuresD [OF update_same_claim changed(4)] show ?thesis by simp
next
  case fresh
  from ensuresD [OF new_same_claim fresh(4)] show ?thesis by simp
qed simp_all

lemma check_decision_same:
  "check_decision d = Inr d' \<Longrightarrow> same_claim d d' \<and> ad_grant d' = ad_grant d \<and> ad_previous_grant d' = ad_previous_grant d \<and>
    ad_recall d' = ad_recall d \<and> (\<forall>g. ad_grant d = Some g \<longrightarrow> validate_grant g = success \<and> ad_state d' = gr_state g)"
  by (auto simp: check_decision_def same_claim_def split: option.splits)

text \<open>Each decision comes from one work item, in order.\<close>

definition decides :: "arbitration_input \<Rightarrow> arb_pools \<Rightarrow> arb_state \<Rightarrow> work_item \<Rightarrow> arbitration_decision \<Rightarrow> bool" where
  "decides input pools st item d \<longleftrightarrow> (\<exists>c d1 d2 ng nr ng' nr'.
    c = ai_candidates input ! wi_candidate_index item \<and>
    classify_item input pools st item (cn_wait_rounds c) = Inr d1 \<and>
    materialise input item c d1 ng nr = Inr (d2, ng', nr') \<and> check_decision d2 = Inr d)"

lemma make_decision_Inr:
  assumes "make_decision input pools st item (ds, ng, nr) = Inr acc"
  obtains d ng1 nr1 where "decides input pools st item d" "acc = (ds @ [d], ng1, nr1)"
proof -
  let ?c = "ai_candidates input ! wi_candidate_index item"
  from assms obtain d1 d2 ng1 nr1 d where "classify_item input pools st item (cn_wait_rounds ?c) = Inr d1"
    and "materialise input item ?c d1 ng nr = Inr (d2, ng1, nr1)" and "check_decision d2 = Inr d"
    and "acc = (ds @ [d], ng1, nr1)"
    unfolding make_decision_def Let_def by (auto simp only: bindr_eq_Inr prod.case split_paired_Ex Inr_inject)
  then show thesis by (intro that [of d ng1 nr1]) (unfold decides_def, blast+)
qed

lemma make_decisions:
  assumes "fold_res (make_decision input pools st) items (ds, ng, nr) = Inr (ds', ng', nr')"
  shows "\<exists>ds1. ds' = ds @ ds1 \<and> list_all2 (decides input pools st) items ds1"
  using assms
proof (induction items arbitrary: ds ng nr)
  case (Cons item items)
  then obtain acc where acc: "make_decision input pools st item (ds, ng, nr) = Inr acc"
    and rest: "fold_res (make_decision input pools st) items acc = Inr (ds', ng', nr')" by auto
  obtain d ng1 nr1 where "decides input pools st item d" and acc: "acc = (ds @ [d], ng1, nr1)"
    by (rule make_decision_Inr [OF acc]) (rule that)
  with Cons.IH [OF rest [unfolded acc]] show ?case by force
qed simp

lemma decides_claim:
  assumes "decides input pools st item d"
  shows "ad_allocation d = wi_allocation item" and "ad_request d = rq_id (wi_request item)"
    and "ad_request_generation d = rq_generation (wi_request item)" and "ad_refused d = wi_refused item"
    and "\<And>g. ad_grant d = Some g \<Longrightarrow> validate_grant g = success \<and> ad_state d = gr_state g"
  using assms
  by (auto simp: decides_def same_claim_def dest!: classify_allocation materialise_same_claim check_decision_same)

section \<open>The fate of a grant\<close>

lemma advance_frame: "advance_generation g = Inr g' \<Longrightarrow>
    gr_generation g < gr_generation g' \<and> gr_id g' = gr_id g \<and> gr_request g' = gr_request g"
  by (auto simp: advance_generation_def dest: gen_next_less)

lemma terminate_grant_fate:
  "ensures (terminate_grant input item h d nr) (\<lambda>(d', _). ad_previous_grant d' = Some h \<and>
    (\<exists>g. ad_grant d' = Some g \<and> gr_id g = gr_id h \<and> gr_request g = gr_request h \<and>
      gr_generation h < gr_generation g \<and> gr_state g = terminal_state_for (wi_reason item)))"
  by (auto simp: terminate_grant_def Let_def ensures_simps
      intro!: ensuresI dest!: advance_frame)

lemma update_grant_fate:
  "ensures (update_grant input item p d w nr) (\<lambda>(d', _). ad_previous_grant d' = Some p \<and>
    (\<exists>g. ad_grant d' = Some g \<and> gr_id g = gr_id p \<and> gr_request g = gr_request p \<and>
      gr_generation p < gr_generation g \<and> gr_allocation g = wi_allocation item))"
  by (auto simp: update_grant_def Let_def ensures_simps fund_grant_def stamp_grant_def
      intro!: ensuresI dest!: advance_frame)

lemma new_grant_fate:
  "ensures (new_grant input item d w ng) (\<lambda>(d', ng'). ad_previous_grant d' = ad_previous_grant d \<and> ng' = ng + 1 \<and>
    (\<exists>g. ad_grant d' = Some g \<and> gr_id g = ng \<and> gr_generation g = gen_initial \<and>
      gr_request g = rq_id (wi_request item) \<and> gr_allocation g = wi_allocation item \<and>
      gr_target g = ai_target input))"
  by (auto simp: new_grant_def Let_def ensures_simps fund_grant_def stamp_grant_def id_make_def)

lemma terminal_state_for_terminal: "is_terminal (terminal_state_for r)"
  by (simp add: terminal_state_for_def is_terminal_def)

lemma decides_replaced:
  assumes d: "decides input pools st item d" and p: "ad_previous_grant d = Some p"
  shows "\<exists>g. ad_grant d = Some g \<and> gr_id g = gr_id p \<and> gr_generation p < gr_generation g \<and>
    (ad_refused d \<longrightarrow> is_terminal (gr_state g))"
proof -
  obtain c d1 d2 ng nr ng' nr' where cl: "classify_item input pools st item (cn_wait_rounds c) = Inr d1"
    and m: "materialise input item c d1 ng nr = Inr (d2, ng', nr')" and ch: "check_decision d2 = Inr d"
    using d by (auto simp: decides_def)
  note same = check_decision_same [OF ch] and base = classify_allocation [OF cl]
  have ref: "ad_refused d = wi_refused item" by (rule decides_claim(4) [OF d])
  from m show ?thesis
  proof (cases rule: materialise_cases)
    case (closed g)
    from ensuresD [OF terminate_grant_fate closed(3)] same p show ?thesis
      by (auto simp: terminal_state_for_terminal)
  next
    case (changed g)
    from ensuresD [OF update_grant_fate changed(4)] same p ref changed(2) show ?thesis by auto
  next
    case fresh
    from ensuresD [OF new_grant_fate fresh(4)] same p base show ?thesis by auto
  qed (use same p base in auto)
qed

section \<open>The round as a whole\<close>

lemma list_all2_map_eq2: "list_all2 R xs ys \<Longrightarrow> (\<And>x y. R x y \<Longrightarrow> g y = f x) \<Longrightarrow> map g ys = map f xs"
  by (induction rule: list_all2_induct) auto

lemma arbitrate_parts:
  assumes "arbitrate input = Inr out"
  obtains q physical pools run st borrowed contingent ds ng nr where
    "validate_arbitration_input input = success" "quantum (ai_policy input) = Inr q"
    "arb_physical input = Inr physical" "arb_pools_of input physical = Inr pools"
    "arb_prepare input q pools = Inr run" "arb_allocate input pools run = Inr (st, borrowed, contingent)"
    "assemble_accounting input pools st borrowed contingent = Inr (ao_accounting out)"
    "list_all2 (decides input pools st) (rs_items (st_run st)) ds"
    "fold_res (make_decision input pools st) (rs_items (st_run st))
       ([], ai_next_grant_id input, ai_next_recall_id input) = Inr (ds, ng, nr)"
    "accounting_consistent (ao_accounting out)" "ao_decisions out = sort_by decision_before ds"
    "ao_next_grant_id out = ng" "ao_target out = ai_target input" "ao_epoch out = ai_epoch input"
proof -
  from assms obtain q physical pools run st borrowed contingent acc ds ng nr where
      1: "validate_arbitration_input input = success" "quantum (ai_policy input) = Inr q"
        "arb_physical input = Inr physical" "arb_pools_of input physical = Inr pools"
        "arb_prepare input q pools = Inr run" "arb_allocate input pools run = Inr (st, borrowed, contingent)"
        "assemble_accounting input pools st borrowed contingent = Inr acc"
    and ds: "fold_res (make_decision input pools st) (rs_items (st_run st))
        ([], ai_next_grant_id input, ai_next_recall_id input) = Inr (ds, ng, nr)"
    and rest: "(if accounting_validate acc \<noteq> [] then fail EC_AccountingInvariantViolation
      else Inr \<lparr> ao_decision = ai_decision input, ao_target = ai_target input,
        ao_epoch = ai_epoch input, ao_coordinator = ai_coordinator input,
        ao_policy = po_id (ai_policy input), ao_policy_generation = po_generation (ai_policy input),
        ao_tick = ai_tick input, ao_accounting = acc,
        ao_decisions = sort_by decision_before ds,
        ao_next_grant_id = ng, ao_next_recall_id = nr \<rparr>) = Inr out"
    unfolding arbitrate_def bindr_eq_Inr split_paired_Ex prod.case
    by (elim exE conjE) (rule that, (assumption | simp)+)
  from rest have out: "accounting_consistent acc" "ao_accounting out = acc" "ao_decisions out = sort_by decision_before ds"
    "ao_next_grant_id out = ng" "ao_target out = ai_target input" "ao_epoch out = ai_epoch input"
    by (auto simp: accounting_consistent_def split: if_splits)
  from make_decisions [OF ds] have "list_all2 (decides input pools st) (rs_items (st_run st)) ds" by simp
  with 1 ds out show thesis by (intro that) simp_all
qed

lemma sum_sorted_decisions:
  "sum_list (map (\<lambda>d. f d) (sort_by decision_before ds)) = (sum_list (map f ds) :: nat)"
  by simp

text \<open>The accounting of a round is the sum of its decisions, and stays within capacity.\<close>

lemma arbitrate_conservation:
  assumes "arbitrate input = Inr out"
  shows "sum_list (map (\<lambda>d. ga_sum (ad_allocation d)) (ao_decisions out)) = ac_authorized_consumption (ao_accounting out) \<and>
    ac_authorized_consumption (ao_accounting out) \<le> ac_effective_physical (ao_accounting out) + ac_contingent_pool (ao_accounting out)"
  using assms
proof (cases rule: arbitrate_parts)
  case (1 q physical pools run st borrowed contingent ds ng nr)
  note inv = arb_allocate_inv [OF 1(1) 1(4) 1(5) 1(6)]
  have "map (\<lambda>d. ga_sum (ad_allocation d)) ds = map (\<lambda>w. ga_sum (wi_allocation w)) (rs_items (st_run st))"
    by (rule list_all2_map_eq2 [OF 1(8)]) (simp add: decides_claim)
  with accounting_sums(7) [OF 1(7) inv] 1(11) consistent_no_oversubscription [OF 1(10)]
  show ?thesis by (simp add: total_of_def)
qed

section \<open>Who is given nothing\<close>

lemma admit_bound_refused: "wi_refused w = False \<Longrightarrow> wi_refused (admit_bound input q c w) \<Longrightarrow> \<not> wi_admitted (admit_bound input q c w)"
  by (auto simp: admit_bound_def reject_item_def Let_def split: option.splits sum.splits if_splits)

lemma admit_item_refused:
  "wi_refused (fst (admit_item input q ic seen)) \<Longrightarrow> \<not> wi_admitted (fst (admit_item input q ic seen))"
  using admit_bound_refused
  by (auto simp: admit_item_def Let_def blank_item_def reject_item_def split: prod.splits if_splits)

lemma admit_all_refused: "w \<in> set (admit_all input q ics seen) \<Longrightarrow> wi_refused w \<Longrightarrow> \<not> wi_admitted w"
proof (induction input q ics seen rule: admit_all.induct)
  case (2 input q ic ics seen)
  with admit_item_refused [of input q ic seen] show ?case by (cases "admit_item input q ic seen") auto
qed simp

lemma admit_bound_request [simp]:
  "wi_request (admit_bound input q c w) = wi_request w"
  "wi_candidate_index (admit_bound input q c w) = wi_candidate_index w"
  by (auto simp: admit_bound_def reject_item_def Let_def split: option.splits sum.splits)

lemma admit_all_requests:
  "map (\<lambda>w. (wi_candidate_index w, wi_request w)) (admit_all input q ics seen) = map (\<lambda>(i, c). (i, cn_request c)) ics"
proof (induction input q ics seen rule: admit_all.induct)
  case (2 input q ic ics seen)
  have "wi_candidate_index (fst (admit_item input q ic seen)) = fst ic"
    "wi_request (fst (admit_item input q ic seen)) = cn_request (snd ic)"
    by (auto simp: admit_item_def Let_def blank_item_def reject_item_def split: prod.splits)
  with 2 show ?case by (cases "admit_item input q ic seen"; cases ic) auto
qed simp

lemma prepare_source:
  assumes "arb_prepare input q pools = Inr run"
  shows "rs_items run = map (\<lambda>w. start_residual (if is_usable (ai_snapshot input) then w else finish_unsatisfied input w))
    (admit_all input q (zip [0..<length (ai_candidates input)] (ai_candidates input)) [])"
proof -
  from assms obtain run0 where "run = run0\<lparr>rs_items := map start_residual (rs_items run0)\<rparr>"
    and r0: "fold_res (budget_step (ap_effective_physical pools))
      (if is_usable (ai_snapshot input) then admit_all input q (zip [0..<length (ai_candidates input)] (ai_candidates input)) []
       else map (finish_unsatisfied input) (admit_all input q (zip [0..<length (ai_candidates input)] (ai_candidates input)) []))
      \<lparr> rs_quantum = q, rs_unlimited = kMaxBitsPerSecond, rs_items =
        (if is_usable (ai_snapshot input) then admit_all input q (zip [0..<length (ai_candidates input)] (ai_candidates input)) []
         else map (finish_unsatisfied input) (admit_all input q (zip [0..<length (ai_candidates input)] (ai_candidates input)) [])),
        rs_group_cap = [], rs_group_allocated = [], rs_group_weight = [] \<rparr> = Inr run0"
    by (auto simp: arb_prepare_def Let_def)
  with budget_items [OF r0] show ?thesis by (cases "is_usable (ai_snapshot input)") auto
qed

lemma prepared_item:
  assumes "arb_prepare input q pools = Inr run" and "w \<in> set (rs_items run)"
  shows "wi_refused w \<Longrightarrow> \<not> wi_admitted w"
  using assms(2) admit_all_refused
  by (auto simp: prepare_source [OF assms(1)] start_residual_def finish_unsatisfied_def split: if_splits)

lemma prepared_requests:
  assumes "arb_prepare input q pools = Inr run"
  shows "map (\<lambda>w. (wi_candidate_index w, wi_request w)) (rs_items run) =
    map (\<lambda>(i, c). (i, cn_request c)) (zip [0..<length (ai_candidates input)] (ai_candidates input))"
  unfolding prepare_source [OF assms]
    admit_all_requests [of input q "zip [0..<length (ai_candidates input)] (ai_candidates input)" "[]", symmetric]
  by (auto simp: start_residual_def finish_unsatisfied_def)

text \<open>The items at the end of the round, against the prepared ones.\<close>

lemma final_item:
  assumes inv: "allocated_inv input pools run st b c" and prep: "arb_prepare input q pools = Inr run"
    and w: "w \<in> set (rs_items (st_run st))"
  obtains v where "v \<in> set (rs_items run)" "item_frame v w"
    "\<not> wi_admitted v \<longrightarrow> wi_allocation w = no_allocation"
proof -
  from w obtain i where i: "i < length (rs_items (st_run st))" "w = rs_items (st_run st) ! i" by (auto simp: in_set_conv_nth)
  have fr: "list_all2 item_frame (rs_items run) (rs_items (st_run st))"
    using inv by (simp add: allocated_inv_def items_inv_def)
  from list_all2_nthD2 [OF fr i(1)] have f: "item_frame (rs_items run ! i) w" by (simp add: i)
  have "rs_items run ! i \<in> set (rs_items run)" using list_all2_lengthD [OF fr] i by simp
  moreover have "\<not> wi_admitted (rs_items run ! i) \<longrightarrow> wi_allocation w = no_allocation"
    using inv w f by (simp add: allocated_inv_def items_inv_def item_frame_def)
  ultimately show thesis using f by (intro that)
qed

lemma decision_source:
  assumes "arbitrate input = Inr out" and "d \<in> set (ao_decisions out)"
  obtains pools st q run b c w where "decides input pools st w d" "w \<in> set (rs_items (st_run st))"
    "allocated_inv input pools run st b c" "arb_prepare input q pools = Inr run"
  using assms(1)
proof (cases rule: arbitrate_parts)
  case (1 q physical pools run st b c ds ng nr)
  have "d \<in> set ds" using assms(2) 1(11) by simp
  then obtain i where i: "i < length ds" "d = ds ! i" by (auto simp: in_set_conv_nth)
  from list_all2_nthD2 [OF 1(8) i(1)] i list_all2_lengthD [OF 1(8)]
  have "decides input pools st (rs_items (st_run st) ! i) d" "rs_items (st_run st) ! i \<in> set (rs_items (st_run st))" by auto
  from that [OF this arb_allocate_inv [OF 1(1) 1(4) 1(5) 1(6)] 1(5)] show thesis .
qed

lemma arbitrate_no_allocation:
  assumes "arbitrate input = Inr out" and "d \<in> set (ao_decisions out)"
    and "ad_refused d \<or> \<not> is_usable (ai_snapshot input)"
  shows "ad_allocation d = no_allocation"
proof -
  obtain pools st q run b c w where d: "decides input pools st w d" and w: "w \<in> set (rs_items (st_run st))"
    and inv: "allocated_inv input pools run st b c" and prep: "arb_prepare input q pools = Inr run"
    by (rule decision_source [OF assms(1,2)])
  obtain v where v: "v \<in> set (rs_items run)" "item_frame v w"
    and none: "\<not> wi_admitted v \<longrightarrow> wi_allocation w = no_allocation"
    by (rule final_item [OF inv prep w])
  have "\<not> wi_admitted v"
    using assms(3) decides_claim(4) [OF d] v prepared_item [OF prep v(1)] prepare_items(3) [OF prep v(1)]
    by (auto simp: item_frame_def)
  with none decides_claim(1) [OF d] show ?thesis by simp
qed

text \<open>Exactly one decision for every candidate.\<close>

lemma arbitrate_decides_all:
  assumes "arbitrate input = Inr out"
  shows "mset (map (\<lambda>d. (ad_request d, ad_request_generation d)) (ao_decisions out)) =
    mset (map (\<lambda>c. (rq_id (cn_request c), rq_generation (cn_request c))) (ai_candidates input))"
  using assms
proof (cases rule: arbitrate_parts)
  case (1 q physical pools run st b c ds ng nr)
  have fr: "list_all2 item_frame (rs_items run) (rs_items (st_run st))"
    using arb_allocate_inv [OF 1(1) 1(4) 1(5) 1(6)] by (simp add: allocated_inv_def items_inv_def)
  have "map (\<lambda>d. (ad_request d, ad_request_generation d)) ds =
      map (\<lambda>w. (rq_id (wi_request w), rq_generation (wi_request w))) (rs_items (st_run st))"
    by (rule list_all2_map_eq2 [OF 1(8)]) (simp add: decides_claim)
  also have "\<dots> = map (\<lambda>w. (rq_id (wi_request w), rq_generation (wi_request w))) (rs_items run)"
    by (rule list_all2_map_eq2 [OF fr]) (simp add: item_frame_def)
  also have "\<dots> = map (\<lambda>(i, r). (rq_id r, rq_generation r)) (map (\<lambda>w. (wi_candidate_index w, wi_request w)) (rs_items run))"
    by simp
  also have "\<dots> = map (\<lambda>c. (rq_id (cn_request c), rq_generation (cn_request c))) (map snd (zip [0..<length (ai_candidates input)] (ai_candidates input)))"
    unfolding prepared_requests [OF 1(5)] by (simp only: map_map comp_def split_beta prod.sel)
  finally have "map (\<lambda>d. (ad_request d, ad_request_generation d)) ds =
      map (\<lambda>c. (rq_id (cn_request c), rq_generation (cn_request c))) (ai_candidates input)" by simp
  then have "mset (map (\<lambda>d. (ad_request d, ad_request_generation d)) ds) =
      mset (map (\<lambda>c. (rq_id (cn_request c), rq_generation (cn_request c))) (ai_candidates input))" by (rule arg_cong)
  then show ?thesis unfolding 1(11) by simp
qed

section \<open>The accounting identities close\<close>

lemma shares_split:
  assumes e: "scaled a e 1000 = Inr x" and a: "bw_ok a" and n: "unat e \<le> 1000"
  shows "x \<le> a"
  by (rule scaled_le [OF e a]) (use n in simp)

lemma kMaxPermille_u64: "(ucast kMaxPermille :: u64) = 1000"
  by (simp add: kMaxPermille_def)

lemma pools_identities:
  assumes pools: "arb_pools_of input physical = Inr pools" and pol: "policy_validate (ai_policy input) = success"
    and phys: "bw_ok physical" and usable: "is_usable (ai_snapshot input)"
  shows "ap_effective_physical pools + ap_capacity_deficit pools = ap_obligations_reserved pools + ap_allocatable pools"
    and "ap_allocatable pools = ap_emergency_reserve pools + ap_headroom pools + ap_arbitrable pools"
    and "ap_capacity_deficit pools = ap_obligations_reserved pools - physical"
proof -
  from pools usable obtain reserved emergency hr where
      em: "scaled (physical - reserved) (ucast (po_emergency_reserve_permille (ai_policy input))) 1000 = Inr emergency"
    and p: "ap_effective_physical pools = physical" "ap_obligations_reserved pools = reserved"
      "ap_capacity_deficit pools = reserved - physical" "ap_allocatable pools = physical - reserved"
      "ap_emergency_reserve pools = emergency" "ap_headroom pools = min hr (physical - reserved - emergency)"
      "ap_arbitrable pools = physical - reserved - emergency - min hr (physical - reserved - emergency)"
    by (auto simp: arb_pools_of_def Let_def kMaxPermille_u64)
  have "unat (po_emergency_reserve_permille (ai_policy input)) \<le> 1000"
    using policy_shares [OF pol] by simp
  with em phys have "emergency \<le> physical - reserved" by (auto intro!: shares_split [OF em])
  with p show "ap_effective_physical pools + ap_capacity_deficit pools = ap_obligations_reserved pools + ap_allocatable pools"
    "ap_allocatable pools = ap_emergency_reserve pools + ap_headroom pools + ap_arbitrable pools"
    "ap_capacity_deficit pools = ap_obligations_reserved pools - physical"
    by linarith+
qed

lemma pools_unusable:
  "arb_pools_of input physical = Inr pools \<Longrightarrow> \<not> is_usable (ai_snapshot input) \<Longrightarrow>
    ap_allocatable pools = 0 \<and> ap_emergency_reserve pools = 0 \<and> ap_arbitrable pools = 0 \<and> ap_headroom pools = 0 \<and>
    ap_contingent_pool pools = 0 \<and> ap_capacity_deficit pools = 0"
  by (auto simp: arb_pools_of_def Let_def)

lemma reserved_ok: "arb_pools_of input physical = Inr pools \<Longrightarrow> bw_ok (ap_obligations_reserved pools)"
proof -
  assume a: "arb_pools_of input physical = Inr pools"
  then obtain reserved where
      t: "fold_res (\<lambda>ob total. checked_add total (ob_amount ob)) (ai_obligations input) 0 = Inr reserved"
    and r: "ap_obligations_reserved pools = reserved"
    by (auto simp: arb_pools_of_def Let_def split: if_splits)
  show ?thesis using checked_total [OF t] r by (cases "ai_obligations input") auto
qed

lemma assembled_fields:
  assumes "assemble_accounting input pools st b c = Inr a"
  shows "ac_evidence a = cs_evidence (ai_snapshot input)" "ac_effective_physical a = ap_effective_physical pools"
    "ac_capacity_deficit a = ap_capacity_deficit pools" "ac_obligations_reserved a = ap_obligations_reserved pools"
    "ac_allocatable a = ap_allocatable pools" "ac_emergency_reserve a = ap_emergency_reserve pools"
    "ac_headroom a = ap_headroom pools" "ac_arbitrable a = ap_arbitrable pools"
    "ac_emergency_reserve_unused a = st_emergency st" "ac_unallocated a = st_remaining st"
    "ac_contingent_pool a = ap_contingent_pool pools"
    "ac_contingent_unallocated a = ap_contingent_pool pools - c"
    "ac_obligations_idle a = ap_obligations_reserved pools - ac_obligations_consumed a - b"
  using assms by (auto simp: assemble_accounting_def Let_def)

lemma round_accounting_closes:
  assumes valid: "validate_arbitration_input input = success" and phys: "arb_physical input = Inr physical"
    and pools: "arb_pools_of input physical = Inr pools" and prep: "arb_prepare input q pools = Inr run"
    and alloc: "arb_allocate input pools run = Inr (st, b, c)" and acc: "assemble_accounting input pools st b c = Inr a"
    and ok: "bw_ok physical" and fits: "physical + ap_contingent_pool pools \<le> kMaxBitsPerSecond"
    and funded: "ap_obligations_reserved pools \<le> physical \<or> \<not> is_usable (ai_snapshot input)"
  shows "accounting_consistent a"
proof -
  note inv = arb_allocate_inv [OF valid pools prep alloc]
  note sums = accounting_sums [OF acc inv] and f = assembled_fields [OF acc]
  have phys_eq: "ap_effective_physical pools = physical" by (rule pools_reserved(3) [OF pools])
  have fi: "total_of it_g (st_run st) + total_of it_d (st_run st) + st_remaining st + st_emergency st =
      ap_arbitrable pools + ap_emergency_reserve pools + total_of it_o (st_run st)"
      "st_emergency st \<le> ap_emergency_reserve pools"
    and lend: "total_of it_o (st_run st) + b \<le> ap_obligations_reserved pools" "c \<le> ap_contingent_pool pools"
    and bc: "total_of it_b (st_run st) = b" "total_of it_c (st_run st) = c"
    using inv by (simp_all add: allocated_inv_def funds_inv_def)
  have auth: "ac_authorized_consumption a = ac_obligations_consumed a + ac_guaranteed_granted a +
      ac_discretionary_granted a + ac_borrowed_granted a + ac_contingent_granted a"
    unfolding sums(7) using sums(1-6)
    by (simp add: total_of_def sum_list_addf)
  show ?thesis
  proof (cases "is_usable (ai_snapshot input)")
    case True
    note id = pools_identities [OF pools input_valid(1) [OF valid] ok True]
    have known: "ac_evidence a = EV_Known" using True f(1) by (simp add: is_usable_def)
    have no_deficit: "ap_capacity_deficit pools = 0" using id(3) funded True by auto
    have "pools_close a"
      unfolding pools_close_def using known f id fi sums(1-3) ok no_deficit phys_eq by simp
    moreover have "ac_authorized_consumption a \<le> ac_effective_physical a + ac_contingent_pool a"
      unfolding auth using f id fi lend bc sums(1-6) no_deficit by simp
    then have "grants_close a"
      unfolding grants_close_def using auth f lend bc sums(3-6) fits phys_eq reserved_ok [OF pools] by simp
    ultimately show ?thesis by (simp add: accounting_consistent_iff)
  next
    case False
    note z = pools_unusable [OF pools False]
    have p0: "physical = 0" using phys False by (simp add: arb_physical_def)
    have unknown: "ac_evidence a \<noteq> EV_Known"
      using False f(1) input_valid(2) [OF valid]
      by (auto simp: is_usable_def snapshot_validate_def snapshot_amounts_validate_def Let_def split: if_splits option.splits)
    have none: "total_of g (st_run st) = 0" if "\<And>w. wi_allocation w = no_allocation \<Longrightarrow> it_o w = 0 \<Longrightarrow> g w = 0" for g
    proof -
      have "wi_allocation w = no_allocation \<and> it_o w = 0" if w: "w \<in> set (rs_items (st_run st))" for w
      proof -
        obtain v where "v \<in> set (rs_items run)" "item_frame v w" by (rule final_item [OF inv prep w])
        with prepare_items(3) [OF prep _ False] have "\<not> wi_admitted w" by (auto simp: item_frame_def)
        with inv w show ?thesis by (auto simp: allocated_inv_def items_inv_def)
      qed
      with that show ?thesis by (simp add: total_of_def sum_list_eq_0_iff)
    qed
    have t0: "total_of it_g (st_run st) = 0" "total_of it_d (st_run st) = 0" "total_of it_b (st_run st) = 0"
      "total_of it_c (st_run st) = 0" "total_of it_o (st_run st) = 0"
      by (rule none, simp add: no_allocation_def)+
    have "pools_close a" unfolding pools_close_def using unknown f z p0 phys_eq auth sums(1-6) t0 by simp
    moreover have "grants_close a"
      unfolding grants_close_def using auth f z p0 phys_eq sums(1-6) t0 bc reserved_ok [OF pools] by simp
    ultimately show ?thesis by (simp add: accounting_consistent_iff)
  qed
qed

end
