(* ===== verification/Examples.thy ===== *)
theory Examples
  imports Arbitrator_Decisions
begin

text \<open>
  A concrete fabric on which the properties are instantiated: one resource of 1000 bit/s, a
  policy with one priority class and one fairness group, and a round with one admitted request
  and one from a fenced publisher boot.
\<close>

definition ex_boot :: boot_id where
  "ex_boot = [1, 0, 0, 0, 0, 0, 0, 0, 0, 0, 0, 0, 0, 0, 0, 0]"

definition ex_boot2 :: boot_id where
  "ex_boot2 = [2, 0, 0, 0, 0, 0, 0, 0, 0, 0, 0, 0, 0, 0, 0, 0]"

definition ex_target :: capacity_target where
  "ex_target = CapacityTarget 7 1 0 0"

definition ex_class :: priority_class where
  "ex_class = \<lparr> pc_id = 1, pc_name = [0x61], pc_rank = 10, pc_weight = 4, pc_emergency = False,
     pc_preemptible = True, pc_borrowing_eligible = True, pc_allow_discretionary = True \<rparr>"

definition ex_group :: fairness_group_config where
  "ex_group = \<lparr> fg_id = 1, fg_tenant = 1, fg_name = [0x62], fg_weight = 2, fg_maximum_cap = 0,
     fg_maximum_cap_permille = 0, fg_borrowing_eligible = True, fg_preemptible = True \<rparr>"

definition ex_policy :: policy where
  "ex_policy = \<lparr> po_id = 1, po_generation = 1, po_scheduling = WeightedFairShare,
     po_priority_classes = [ex_class], po_fairness_groups = [ex_group], po_headroom_target = 0,
     po_headroom_permille = 100, po_emergency_reserve_permille = 50,
     po_borrow = \<lparr> bp_enabled = False, bp_lend_obligations = False, bp_max_lend_permille = 0,
       bp_max_borrow_permille = 0, bp_borrow_from_headroom = False \<rparr>,
     po_starvation = \<lparr> sp_enabled = True, sp_aging_threshold_rounds = 4,
       sp_aging_weight_multiplier = 2, sp_maximum_promotions = 1 \<rparr>,
     po_preemption = \<lparr> pp_enabled = True, pp_recall_discretionary = True, pp_recall_grace_rounds = 0 \<rparr>,
     po_oversubscription = \<lparr> os_numerator = 1, os_denominator = 1 \<rparr>,
     po_minimum_allocation_quantum = 10, po_hysteresis_rounds = 0,
     po_fairness_config_generation = 1, po_tenant_config_generation = 1,
     po_provenance = default_provenance \<rparr>"

definition ex_authority :: authority_vector where
  "ex_authority = default_authority\<lparr>av_fabric_epoch := 1, av_resource := 7, av_resource_generation := 1,
     av_publisher := 3, av_publisher_boot := ex_boot\<rparr>"

definition ex_snapshot :: capacity_snapshot where
  "ex_snapshot = \<lparr> cs_target = ex_target, cs_snapshot = 1, cs_generation = 1, cs_evidence = EV_Known,
     cs_physical_configured = Some 1000, cs_administratively_unavailable = 0, cs_degraded_loss = 0,
     cs_headroom_target = 0, cs_reserved_committed = 0, cs_provenance = default_provenance,
     cs_authority = ex_authority\<lparr>av_coordinator := 5, av_capacity_generation := 1\<rparr>,
     cs_observed_at = 0, cs_publisher_sequence = 0 \<rparr>"

definition ex_request :: "ident \<Rightarrow> boot_id \<Rightarrow> bandwidth_request" where
  "ex_request i boot = \<lparr> rq_id = i, rq_generation = 1,
     rq_authority = ex_authority\<lparr>av_policy := 1, av_policy_generation := 1, av_request := i,
       av_request_generation := 1, av_fairness_group := 1, av_fairness_config_generation := 1,
       av_tenant_config_generation := 1, av_publisher_boot := boot\<rparr>,
     rq_target = ex_target, rq_minimum = 100, rq_desired = 300, rq_maximum = 400,
     rq_guarantee_class = GC_Guaranteed, rq_priority = 1, rq_tenant = 1, rq_fairness_group = 1,
     rq_borrowing_eligible = True, rq_preemptible = True, rq_recall_tolerance = RT_Unspecified,
     rq_reservation = None, rq_window = None, rq_latency_slo = 0, rq_labels = [],
     rq_provenance = default_provenance \<rparr>"

text \<open>A live grant of the fenced publisher: the round must close it.\<close>

definition ex_old :: grant where
  "ex_old = default_grant\<lparr>gr_id := 40, gr_generation := 3, gr_request := 2, gr_request_generation := 1,
     gr_target := ex_target, gr_allocation := no_allocation\<lparr>ga_guaranteed := 100\<rparr>,
     gr_requested_minimum := 100, gr_requested_desired := 300, gr_requested_maximum := 400,
     gr_state := GS_GrantedGuaranteed\<rparr>"

definition ex_input :: arbitration_input where
  "ex_input = \<lparr> ai_target = ex_target, ai_snapshot = ex_snapshot, ai_policy = ex_policy,
     ai_obligations = [],
     ai_candidates = [\<lparr> cn_request = ex_request 1 ex_boot, cn_wait_rounds = 0, cn_existing_grant = None \<rparr>,
       \<lparr> cn_request = ex_request 2 ex_boot2, cn_wait_rounds = 0, cn_existing_grant = Some ex_old \<rparr>],
     ai_fenced_boots = [ex_boot2], ai_epoch = 1, ai_coordinator = 5, ai_tick = 9, ai_decision = 1,
     ai_next_grant_id = 1, ai_next_recall_id = 1 \<rparr>"

lemmas ex_defs = ex_boot_def ex_boot2_def ex_target_def ex_class_def ex_group_def ex_policy_def
  ex_authority_def ex_snapshot_def ex_request_def ex_input_def default_authority_def
  default_provenance_def

lemma ex_class_text: "validate_text [0x61] kMaxNameBytes = success" "validate_text [0x62] kMaxNameBytes = success"
  by (rule validate_text_ascii; simp add: kMaxNameBytes_def)+

lemma ex_policy_valid: "policy_validate ex_policy = success"
  by (simp add: policy_validate_def ex_defs validate_class_def validate_group_def validate_shares_def
      validate_borrow_def validate_starvation_def validate_preemption_def validate_oversubscription_def
      validate_quantum_def validate_weight_def Let_def valid_id_def ex_class_text
      kMaxPriorityClasses_def kMaxFairnessGroups_def kMaxWeight_def kMaxPermille_def
      kMaxAgingThresholdRounds_def kMaxAgingMultiplier_def kMaxPromotions_def kMaxRecallGraceRounds_def
      kMaxOversubscriptionNumerator_def kMaxHysteresisRounds_def from_bits_per_second_def kMaxBitsPerSecond_def)

lemma ex_boot_valid: "boot_valid ex_boot" "boot_valid ex_boot2"
  by (simp_all add: ex_boot_def ex_boot2_def boot_valid_def)

lemma ex_snapshot_valid: "snapshot_validate ex_snapshot = success"
  using ex_boot_valid
  by (simp add: snapshot_validate_def snapshot_amounts_validate_def target_validate_def valid_id_def Let_def
      ex_snapshot_def ex_authority_def ex_target_def default_authority_def default_provenance_def checked_sub_def)

lemma ex_request_valid: "boot_valid b \<Longrightarrow> i \<noteq> 0 \<Longrightarrow> request_validate (ex_request i b) = success"
  by (simp add: request_validate_def validate_request_identity_def validate_request_amounts_def
      validate_request_binding_def validate_request_window_def validate_requester_authority_def
      target_validate_def valid_id_def Let_def ex_request_def ex_authority_def ex_target_def
      default_authority_def default_provenance_def)

lemma ex_boot_hash: "boot_hash ex_boot2 \<noteq> boot_hash ex_boot"
  by (simp add: ex_boot_def ex_boot2_def boot_hash_def fnv1a64_def fnv1a64_continue_def kFnvOffsetBasis_def
      kFnvPrime_def)

lemma ex_input_valid: "validate_arbitration_input ex_input = success"
  using ex_policy_valid ex_snapshot_valid
  by (simp add: validate_arbitration_input_def Let_def target_validate_def ex_input_def ex_target_def valid_id_def
      kMaxRequestsPerRound_def kMaxObligationsPerResource_def kMaxBootFenceRecords_def ex_snapshot_def
      ex_authority_def default_authority_def)

lemma ex_quantum: "quantum ex_policy = Inr 10"
  by (simp add: quantum_def ex_policy_def)

lemma ex_physical: "arb_physical ex_input = Inr 1000"
  by (simp add: arb_physical_def ex_input_def ex_snapshot_def is_usable_def effective_physical_def checked_sub_def)

definition ex_pools :: arb_pools where
  "ex_pools = \<lparr> ap_effective_physical = 1000, ap_obligations_reserved = 0, ap_capacity_deficit = 0,
     ap_allocatable = 1000, ap_emergency_reserve = 50, ap_headroom = 100, ap_arbitrable = 850,
     ap_contingent_pool = 0, ap_borrow_ceiling = 0 \<rparr>"

lemma ex_pools_eval: "arb_pools_of ex_input 1000 = Inr ex_pools"
  by (simp add: arb_pools_of_def ex_input_def ex_snapshot_def is_usable_def ex_policy_def Let_def scaled_spec
      kMaxPermille_def kMaxBitsPerSecond_def contingent_pool_of_def borrow_ceiling_of_def
      oversubscription_enabled_def ex_pools_def)

definition ex_item :: work_item where
  "ex_item = (blank_item 0 (ex_request 1 ex_boot))\<lparr>wi_priority_class := Some ex_class, wi_group := Some ex_group,
     wi_effective_rank := 10, wi_effective_weight := 4, wi_admitted := True, wi_residual := 300\<rparr>"

definition ex_refused :: work_item where
  "ex_refused = (blank_item 1 (ex_request 2 ex_boot2))\<lparr>wi_refused := True, wi_reason := OR_RefusedBootFenced\<rparr>"

definition ex_run :: run_state where
  "ex_run = \<lparr> rs_quantum = 10, rs_unlimited = kMaxBitsPerSecond, rs_items = [ex_item, ex_refused],
     rs_group_cap = [(1, kMaxBitsPerSecond)], rs_group_allocated = [(1, 0)], rs_group_weight = [(1, 2)] \<rparr>"


lemma ex_request_sel [simp]:
  "rq_id (ex_request i b) = i" "rq_generation (ex_request i b) = 1" "rq_target (ex_request i b) = ex_target"
  "rq_minimum (ex_request i b) = 100" "rq_desired (ex_request i b) = 300" "rq_maximum (ex_request i b) = 400"
  "rq_priority (ex_request i b) = 1" "rq_tenant (ex_request i b) = 1" "rq_fairness_group (ex_request i b) = 1"
  "rq_reservation (ex_request i b) = None" "rq_borrowing_eligible (ex_request i b)" "rq_preemptible (ex_request i b)"
  "rq_ceiling (ex_request i b) = 300" "rq_recall_tolerance (ex_request i b) = RT_Unspecified"
  "av_publisher_boot (rq_authority (ex_request i b)) = b" "av_fabric_epoch (rq_authority (ex_request i b)) = 1"
  "av_policy (rq_authority (ex_request i b)) = 1" "av_policy_generation (rq_authority (ex_request i b)) = 1"
  "av_fairness_config_generation (rq_authority (ex_request i b)) = 1"
  "av_tenant_config_generation (rq_authority (ex_request i b)) = 1"
  by (simp_all add: ex_request_def rq_ceiling_def ex_authority_def)

lemma ex_policy_sel [simp]:
  "po_id ex_policy = 1" "po_generation ex_policy = 1" "po_fairness_config_generation ex_policy = 1"
  "po_tenant_config_generation ex_policy = 1" "po_scheduling ex_policy = WeightedFairShare"
  "find_class ex_policy 1 = Some ex_class" "find_group ex_policy 1 = Some ex_group"
  "bp_enabled (po_borrow ex_policy) = False" "pp_recall_grace_rounds (po_preemption ex_policy) = 0"
  "effective_rank ex_policy 1 0 = Inr 10" "effective_class_weight ex_policy 1 0 = Inr 4" "promotion_applies ex_policy 0 = False"
  by (simp_all add: ex_policy_def find_class_def find_group_def ex_class_def ex_group_def effective_rank_def
      effective_class_weight_def promotion_applies_def)

lemma ex_input_sel [simp]:
  "ai_target ex_input = ex_target" "ai_policy ex_input = ex_policy" "ai_snapshot ex_input = ex_snapshot"
  "ai_obligations ex_input = []" "ai_fenced_boots ex_input = [ex_boot2]" "ai_epoch ex_input = 1" "ai_coordinator ex_input = 5"
  "ai_tick ex_input = 9" "ai_decision ex_input = 1" "ai_next_grant_id ex_input = 1" "ai_next_recall_id ex_input = 1"
  "ai_candidates ex_input = [\<lparr> cn_request = ex_request 1 ex_boot, cn_wait_rounds = 0, cn_existing_grant = None \<rparr>,
       \<lparr> cn_request = ex_request 2 ex_boot2, cn_wait_rounds = 0, cn_existing_grant = Some ex_old \<rparr>]"
  by (simp_all add: ex_input_def)

lemma ex_usable [simp]: "is_usable ex_snapshot" "cs_evidence ex_snapshot = EV_Known" "cs_generation ex_snapshot = 1"
  "cs_physical_configured ex_snapshot = Some 1000" "cs_administratively_unavailable ex_snapshot = 0" "cs_degraded_loss ex_snapshot = 0"
  by (simp_all add: is_usable_def ex_snapshot_def)

lemma ex_admit: "admit_all ex_input 10 (zip [0..<length (ai_candidates ex_input)] (ai_candidates ex_input)) [] =
    [ex_item\<lparr>wi_residual := 0\<rparr>, ex_refused]"
  using ex_boot_hash ex_boot_valid
  by (simp add: admit_item_def Let_def ex_request_valid admit_bound_def 
     reject_item_def ex_item_def ex_refused_def blank_item_def ex_group_def ex_class_def)

lemma ex_prepare: "arb_prepare ex_input 10 ex_pools = Inr ex_run"
  unfolding arb_prepare_def Let_def ex_admit
  by (simp add: budget_step_def Let_def ex_item_def ex_refused_def blank_item_def ex_group_def group_cap_of_def
      start_residual_def ex_run_def ex_pools_def kMaxBitsPerSecond_def)

lemma ex_order: "arb_order (rs_items ex_run) = [0]"
  by (simp add: arb_order_def ex_run_def ex_item_def ex_refused_def blank_item_def)


lemmas fair_eval = wmmf_units_def initial_active_def wmmf_loop.simps select_min_def compare_ratio_def cmp_mul_u64_spec
  needed_step_def scaled_units_def mul_div_floor_u64_spec add_u64_spec lift_step_def lift_demand_def share_remaining_def weight_step_def
  share_step_def u128_div_u64_spec u128_mul_val remainder_before_def Let_def upt_rec

lemma ex_fair: "fair_share_branches 750 10 [FairnessBranch 2 [\<lparr> fl_id = 0, fl_weight = 4, fl_demand = 200 \<rparr>] []] =
    Inr \<lparr> fr_shares = [\<lparr> fs_id = 0, fs_demand = 200, fs_allocated = 200 \<rparr>], fr_bottlenecked = [], fr_allocated = 200, fr_unallocated = 550 \<rparr>"
  by (simp add: fair_share_branches_def check_leaf_def kMaxWeight_def kMaxRequestsPerRound_def to_units_def
      from_units_def leaf_item_def branch_items_def allocate_branch.simps
   make_share_def total_share_def from_bits_per_second_def kMaxBitsPerSecond_def checked_add_def fair_eval)

definition ex_after :: "nat \<Rightarrow> nat \<Rightarrow> nat \<Rightarrow> arb_state" where
  "ex_after d residual left = \<lparr> st_run = ex_run\<lparr>rs_items := [ex_item\<lparr>wi_allocation := no_allocation\<lparr>ga_guaranteed := 100, ga_discretionary := d\<rparr>, wi_residual := residual\<rparr>, ex_refused],
      rs_group_allocated := [(1, 100 + d)]\<rparr>, st_remaining = left, st_emergency = 50, st_consumed = [] \<rparr>"

lemma ex_guarantee: "fold_res (guarantee_step ex_input) [0] \<lparr> st_run = ex_run, st_remaining = 850, st_emergency = 50, st_consumed = [] \<rparr> = Inr (ex_after 0 200 750)"
  by (simp add: guarantee_step_def guarantee_from_reserve_def guarantee_from_pool_def mark_short_def Let_def
      ex_run_def ex_item_def blank_item_def ex_class_def ex_group_def credit_def add_allocation_def
      no_allocation_def kMaxBitsPerSecond_def checked_add_def set_item_def add_group_allocated_def om_get_def
      ex_after_def)

lemma ex_pass1: "arb_pass ex_input [0] ranks False (ex_after 0 200 750) = Inr (ex_after 200 0 550)"
  by (simp add: arb_pass_def Let_def pass_selects_def total_allocation_def ga_total_def checked_add_def
      serve_emergency_def item_emergency_def serve_pool_def distribute_def bucket_leaf_def remaining_budget_def
      om_get_def ex_after_def ex_run_def ex_item_def blank_item_def ex_class_def ex_group_def no_allocation_def
      kMaxBitsPerSecond_def ex_fair apply_share_def add_allocation_def set_item_def add_group_allocated_def)

lemma ex_pass2: "arb_pass ex_input [0] ranks True (ex_after 200 0 550) = Inr (ex_after 200 0 550)"
  by (simp add: arb_pass_def Let_def pass_selects_def total_allocation_def ga_total_def checked_add_def
      serve_emergency_def item_emergency_def serve_pool_def distribute_def bucket_leaf_def remaining_budget_def
      om_get_def ex_after_def ex_run_def ex_item_def blank_item_def ex_class_def ex_group_def no_allocation_def
      kMaxBitsPerSecond_def)

lemma ex_allocate: "arb_allocate ex_input ex_pools ex_run = Inr (ex_after 200 0 550, 0, 0)"
  unfolding arb_allocate_def Let_def ex_order
  using ex_guarantee ex_pass1 ex_pass2 by (simp add: arb_borrow_def arb_contingent_def ex_pools_def)

definition ex_accounting :: resource_accounting where
  "ex_accounting = \<lparr> ac_target = ex_target, ac_capacity_generation = 1, ac_evidence = EV_Known,
     ac_physical_configured = 1000, ac_administratively_unavailable = 0, ac_degraded_loss = 0,
     ac_effective_physical = 1000, ac_obligations_reserved = 0, ac_obligations_consumed = 0,
     ac_obligations_lent = 0, ac_obligations_idle = 0, ac_capacity_deficit = 0, ac_allocatable = 1000,
     ac_emergency_reserve = 50, ac_emergency_reserve_unused = 50, ac_headroom = 100,
     ac_arbitrable = 850, ac_guaranteed_granted = 100, ac_discretionary_granted = 200,
     ac_borrowed_granted = 0, ac_contingent_granted = 0, ac_unallocated = 550, ac_contingent_pool = 0,
     ac_contingent_unallocated = 0, ac_authorized_consumption = 300 \<rparr>"

lemma ex_accounting_eval: "assemble_accounting ex_input ex_pools (ex_after 200 0 550) 0 0 = Inr ex_accounting"
  by (simp add: assemble_accounting_def Let_def sum_item_def ex_after_def ex_item_def ex_refused_def blank_item_def
      no_allocation_def checked_add_def kMaxBitsPerSecond_def ex_pools_def ex_accounting_def)

lemma ex_accounting_ok: "accounting_validate ex_accounting = []"
  using accounting_consistent_iff [of ex_accounting]
  by (simp add: accounting_consistent_def pools_close_def grants_close_def ex_accounting_def kMaxBitsPerSecond_def)


lemma ex_decisions: "\<exists>d1 d2 g h. fold_res (make_decision ex_input ex_pools (ex_after 200 0 550))
      (rs_items (st_run (ex_after 200 0 550))) ([], 1, 1) = Inr ([d1, d2], 2, 2) \<and>
    ad_request d1 = 1 \<and> ad_request d2 = 2 \<and> ad_refused d2 \<and> ad_grant d1 = Some g \<and> gr_id g = 1 \<and>
    ga_sum (gr_allocation g) = 300 \<and> ad_previous_grant d2 = Some ex_old \<and> ad_grant d2 = Some h \<and> gr_state h = GS_Fenced"
  by (simp add: make_decision_def Let_def classify_item_def ex_after_def ex_item_def ex_refused_def blank_item_def
      no_allocation_def total_allocation_def ga_total_def checked_add_def kMaxBitsPerSecond_def final_reason_def
      base_reason_def granted_state_def has_revocable_def materialise_def new_grant_def id_make_def
      check_decision_def fund_grant_def stamp_grant_def validate_grant_def default_grant_def
      round_authority_def valid_id_def gen_initial_def target_validate_def ex_target_def is_terminal_def
      ex_old_def is_live_def authorises_consumption_def terminate_grant_def terminal_state_for_def
      advance_generation_def gen_next_def kMaxValue_def transition_to_def is_legal_grant_transition.simps)

lemma ex_round: "\<exists>out d1 d2 g h. arbitrate ex_input = Inr out \<and> ao_accounting out = ex_accounting \<and>
    ao_decisions out = [d1, d2] \<and> ad_request d1 = 1 \<and> ad_refused d2 \<and> ad_grant d1 = Some g \<and> gr_id g = 1 \<and>
    ga_sum (gr_allocation g) = 300 \<and> ad_previous_grant d2 = Some ex_old \<and> ad_grant d2 = Some h \<and> gr_state h = GS_Fenced"
proof -
  obtain d1 d2 g h where d: "fold_res (make_decision ex_input ex_pools (ex_after 200 0 550))
      (rs_items (st_run (ex_after 200 0 550))) ([], 1, 1) = Inr ([d1, d2], 2, 2)"
    "ad_request d1 = 1" "ad_request d2 = 2" "ad_refused d2" "ad_grant d1 = Some g" "gr_id g = 1"
    "ga_sum (gr_allocation g) = 300" "ad_previous_grant d2 = Some ex_old" "ad_grant d2 = Some h" "gr_state h = GS_Fenced"
    using ex_decisions by blast
  then show ?thesis
    by (simp add: arbitrate_def ex_input_valid ex_quantum ex_physical ex_pools_eval ex_prepare ex_allocate
        ex_accounting_eval ex_accounting_ok decision_before_def)
qed

end
