(* ===== verification/Effects.thy ===== *)
theory Effects
  imports Prelude
begin

text \<open>
  Operations on a state that may fail.  A member function of a C++ object with early returns is a
  function from the state to the state after it and its result; unlike with a pure result, the
  effects of the steps before a failure stay visible.  \<open>BB_RETURN_IF_ERROR\<close> is \<open>opbind\<close>.

  Two styles of reasoning are provided.  \<open>outcome\<close> states a condition on the state and the result
  after a run and is computed by rewriting (\<open>outcome_simps\<close>).  \<open>steps R m\<close> states that \<open>m\<close> moves the
  state only along the relation \<open>R\<close>, whatever happens; for a preorder \<open>R\<close> it is compositional, which the
  locale \<open>progress\<close> proves once for all preorders.
\<close>

named_theorems outcome_simps \<open>conditions on the state and result after a run\<close>

type_synonym ('s, 'a) op = "'s \<Rightarrow> 's \<times> 'a result"

definition opret :: "'a \<Rightarrow> ('s, 'a) op" where
  "opret x s = (s, Inr x)"

definition oplift :: "'a result \<Rightarrow> ('s, 'a) op" where
  "oplift r s = (s, r)"

definition opbind :: "('s, 'a) op \<Rightarrow> ('a \<Rightarrow> ('s, 'b) op) \<Rightarrow> ('s, 'b) op" where
  "opbind m k s = (case m s of (s', Inl e) \<Rightarrow> (s', Inl e) | (s', Inr x) \<Rightarrow> k x s')"

definition opget :: "('s \<Rightarrow> 'a) \<Rightarrow> ('s, 'a) op" where
  "opget f s = (s, Inr (f s))"

definition opmod :: "('s \<Rightarrow> 's) \<Rightarrow> ('s, unit) op" where
  "opmod f s = (f s, success)"

primrec opfor :: "('a \<Rightarrow> ('s, unit) op) \<Rightarrow> 'a list \<Rightarrow> ('s, unit) op" where
  "opfor f [] = opret ()"
| "opfor f (x # xs) = opbind (f x) (\<lambda>_. opfor f xs)"

section \<open>Conditions on the outcome\<close>

definition outcome :: "('s, 'a) op \<Rightarrow> 's \<Rightarrow> ('a result \<Rightarrow> 's \<Rightarrow> bool) \<Rightarrow> bool" where
  "outcome m s Q \<longleftrightarrow> Q (snd (m s)) (fst (m s))"

lemma outcome_ret [outcome_simps]: "outcome (opret x) s Q \<longleftrightarrow> Q (Inr x) s"
  by (simp add: outcome_def opret_def)

lemma outcome_lift [outcome_simps]: "outcome (oplift r) s Q \<longleftrightarrow> Q r s"
  by (simp add: outcome_def oplift_def)

lemma outcome_get [outcome_simps]: "outcome (opget f) s Q \<longleftrightarrow> Q (Inr (f s)) s"
  by (simp add: outcome_def opget_def)

lemma outcome_mod [outcome_simps]: "outcome (opmod f) s Q \<longleftrightarrow> Q success (f s)"
  by (simp add: outcome_def opmod_def)

lemma outcome_bind [outcome_simps]:
  "outcome (opbind m k) s Q \<longleftrightarrow>
    outcome m s (\<lambda>r s'. case r of Inl e \<Rightarrow> Q (Inl e) s' | Inr x \<Rightarrow> outcome (k x) s' Q)"
  by (auto simp: outcome_def opbind_def split: prod.splits sum.splits)

lemma outcome_if [outcome_simps]:
  "outcome (if b then m else m') s Q \<longleftrightarrow> (b \<longrightarrow> outcome m s Q) \<and> (\<not> b \<longrightarrow> outcome m' s Q)"
  by simp

lemma outcome_mono: "outcome m s Q \<Longrightarrow> (\<And>r s'. Q r s' \<Longrightarrow> Q' r s') \<Longrightarrow> outcome m s Q'"
  by (simp add: outcome_def)

lemma outcomeD: "outcome m s Q \<Longrightarrow> m s = (s', r) \<Longrightarrow> Q r s'"
  by (simp add: outcome_def)

lemma opbind_eval: "m s = (s', Inr x) \<Longrightarrow> opbind m k s = k x s'"
  by (simp add: opbind_def)

lemma opbind_fail: "m s = (s', Inl e) \<Longrightarrow> opbind m k s = (s', Inl e)"
  by (simp add: opbind_def)

lemma opbind_success: "opbind m k s = (s'', Inr y) \<longleftrightarrow> (\<exists>s' x. m s = (s', Inr x) \<and> k x s' = (s'', Inr y))"
  by (auto simp: opbind_def split: prod.splits sum.splits)

lemma opbind_cases:
  assumes "opbind m k s = (s', r)"
  obtains (failed) e where "s' = fst (m s)" "r = Inl e"
    | (goes_on) x where "snd (m s) = Inr x" "k x (fst (m s)) = (s', r)"
  using assms by (auto simp: opbind_def split: prod.splits sum.splits)

lemmas op_eval = opbind_def opret_def oplift_def opget_def opmod_def

section \<open>Progress along a preorder\<close>

definition steps :: "('s \<Rightarrow> 's \<Rightarrow> bool) \<Rightarrow> ('s, 'a) op \<Rightarrow> bool" where
  "steps R m \<longleftrightarrow> (\<forall>s. R s (fst (m s)))"

lemma stepsD: "steps R m \<Longrightarrow> m s = (s', r) \<Longrightarrow> R s s'"
  by (auto simp: steps_def) (metis fst_conv)

locale progress =
  fixes R :: "'s \<Rightarrow> 's \<Rightarrow> bool"
  assumes refl: "R s s" and trans: "R s t \<Longrightarrow> R t u \<Longrightarrow> R s u"
begin

lemma ret: "steps R (opret x)"
  by (simp add: steps_def opret_def refl)

lemma lift: "steps R (oplift r)"
  by (simp add: steps_def oplift_def refl)

lemma get: "steps R (opget f)"
  by (simp add: steps_def opget_def refl)

lemma bind: "steps R m \<Longrightarrow> (\<And>x. steps R (k x)) \<Longrightarrow> steps R (opbind m k)"
  by (auto simp: steps_def opbind_def refl split: prod.splits sum.splits) (metis fst_conv trans)+

lemma for_each: "(\<And>x. x \<in> set xs \<Longrightarrow> steps R (f x)) \<Longrightarrow> steps R (opfor f xs)"
  by (induction xs) (auto intro: ret bind)

lemma mod: "(\<And>s. R s (f s)) \<Longrightarrow> steps R (opmod f)"
  by (simp add: steps_def opmod_def)

lemma cond: "(b \<Longrightarrow> steps R m) \<Longrightarrow> (\<not> b \<Longrightarrow> steps R m') \<Longrightarrow> steps R (if b then m else m')"
  by simp

lemma opt: "(x = None \<Longrightarrow> steps R m) \<Longrightarrow> (\<And>y. x = Some y \<Longrightarrow> steps R (k y)) \<Longrightarrow>
    steps R (case x of None \<Rightarrow> m | Some y \<Rightarrow> k y)"
  by (cases x) simp_all

lemma pair: "(\<And>x y. steps R (k x y)) \<Longrightarrow> steps R (case p of (x, y) \<Rightarrow> k x y)"
  by (cases p) simp

lemmas intros = ret lift get bind cond opt pair

text \<open>The same for one run, when the continuation depends on what was read.\<close>

lemma run: "steps R m \<Longrightarrow> R s (fst (m s))"
  by (simp add: steps_def)

lemma run_bind:
  "R s (fst (m s)) \<Longrightarrow> (\<And>s' x. m s = (s', Inr x) \<Longrightarrow> R s' (fst (k x s'))) \<Longrightarrow> R s (fst (opbind m k s))"
  by (auto simp: opbind_def split: prod.splits sum.splits) (metis fst_conv trans)+

text \<open>When the continuation depends on the state that was read.\<close>

lemma bind_get: "(\<And>s. R s (fst (k (f s) s))) \<Longrightarrow> steps R (opbind (opget f) k)"
  by (simp add: steps_def opbind_def opget_def)

end

text \<open>Keeping an invariant is progress along the implication of the invariant.\<close>

definition keeps :: "('s \<Rightarrow> bool) \<Rightarrow> 's \<Rightarrow> 's \<Rightarrow> bool" where
  "keeps I s s' \<longleftrightarrow> (I s \<longrightarrow> I s')"

interpretation invariant: progress "keeps I" for I :: "'s \<Rightarrow> bool"
  by unfold_locales (auto simp: keeps_def)

end
