(* ===== verification/Codec.thy ===== *)
theory Codec
  imports Request Effects
begin

text \<open>
  The canonical payload codec of \<open>wire.hpp\<close> and \<open>wire.cpp\<close>: big-endian integers, booleans,
  length-prefixed byte strings, texts and bandwidths.  A \<open>Writer\<close> only ever appends, so an
  encoder is the list of bytes it appends; a \<open>Reader\<close> is a pointer into its buffer, so a decoder
  is a function from the bytes that remain to the bytes that remain then and its value or an
  error.  A failed decoder leaves the reader where it failed.

  The contract of an encoder and its decoder is the locale \<open>codec\<close>: decoding undoes encoding in
  front of any suffix, and whatever a decoder accepts is exactly the encoding of its result.  The
  second law is what the comment on \<open>decode_provenance\<close> demands: no two payloads decode to the
  same value.  Inside the locale the laws become two rewrite rules for decoders in sequence; they are
  collected in \<open>codec_read\<close> and \<open>codec_canon\<close>, and the laws of a compound codec follow from those of
  its parts by rewriting.
\<close>

unbundle bit_operations_syntax

named_theorems codec_read \<open>decoding a known encoding\<close>
named_theorems codec_canon \<open>what a decoder has consumed\<close>

section \<open>Readers\<close>

type_synonym u16 = "16 word"
type_synonym 'a reader = "(bytes, 'a) op"

definition rbind :: "'a reader \<Rightarrow> ('a \<Rightarrow> 'b reader) \<Rightarrow> 'b reader" where
  "rbind m k bs = opbind m k bs"

definition rret :: "'a \<Rightarrow> 'a reader" where
  "rret x bs = (bs, Inr x)"

definition rlift :: "'a result \<Rightarrow> 'a reader" where
  "rlift m bs = (bs, m)"

text \<open>\<open>reads pre m Q\<close>: after the bytes \<open>pre\<close>, whenever \<open>m\<close> succeeds, \<open>Q\<close> holds of its value, of all
  bytes read and unread, and of the bytes left over.\<close>

definition reads :: "bytes \<Rightarrow> 'a reader \<Rightarrow> ('a \<Rightarrow> bytes \<Rightarrow> bytes \<Rightarrow> bool) \<Rightarrow> bool" where
  "reads pre m Q \<longleftrightarrow> (\<forall>bs x rest. m bs = (rest, Inr x) \<longrightarrow> Q x (pre @ bs) rest)"

lemma rbind_Inr: "rbind m k bs = (rest, Inr y) \<longleftrightarrow> (\<exists>mid x. m bs = (mid, Inr x) \<and> k x mid = (rest, Inr y))"
  by (simp add: rbind_def opbind_success)

lemma rret_apply [codec_read]: "rret x bs = (bs, Inr x)"
  by (simp add: rret_def)

lemma rlift_Inr [codec_read]: "rlift (Inr x) bs = (bs, Inr x)"
  by (simp add: rlift_def result_simps)

lemma rlift_fail [codec_read]: "rlift (Inl e) bs = (bs, Inl e)"
  by (simp add: rlift_def result_simps)

lemma reads_ret [codec_canon]: "reads pre (rret x) Q \<longleftrightarrow> (\<forall>bs. Q x (pre @ bs) bs)"
  by (auto simp: reads_def rret_def)

lemma reads_lift [codec_canon]: "reads pre (rlift m) Q \<longleftrightarrow> (\<forall>x bs. m = Inr x \<longrightarrow> Q x (pre @ bs) bs)"
  by (cases m) (auto simp: reads_def rlift_def result_simps)

lemma reads_bind_lift [codec_canon]:
  "reads pre (rbind (rlift m) k) Q \<longleftrightarrow> (\<forall>x. m = Inr x \<longrightarrow> reads pre (k x) Q)"
  by (cases m) (auto simp: reads_def rlift_def rbind_Inr result_simps)

lemma reads_if [codec_canon]: "reads pre (if b then m else m') Q \<longleftrightarrow> (b \<longrightarrow> reads pre m Q) \<and> (\<not> b \<longrightarrow> reads pre m' Q)"
  by simp

lemma readsD: "reads [] m Q \<Longrightarrow> m bs = (rest, Inr x) \<Longrightarrow> Q x bs rest"
  by (auto simp: reads_def)

section \<open>The contract of a codec\<close>

locale codec =
  fixes enc :: "'a \<Rightarrow> bytes" and dec :: "'a reader" and ok :: "'a \<Rightarrow> bool"
  assumes round: "ok x \<Longrightarrow> dec (enc x @ rest) = (rest, Inr x)"
    and canonical: "dec bs = (rest, Inr x) \<Longrightarrow> ok x \<and> bs = enc x @ rest"
begin

lemma read_bind: "ok x \<Longrightarrow> rbind dec k (enc x @ rest) = k x rest"
  by (simp add: rbind_def opbind_def round)

lemma reads_bind: "reads pre (rbind dec k) Q \<longleftrightarrow> (\<forall>x. ok x \<longrightarrow> reads (pre @ enc x) (k x) Q)"
proof
  assume a: "reads pre (rbind dec k) Q"
  show "\<forall>x. ok x \<longrightarrow> reads (pre @ enc x) (k x) Q"
    using a by (auto simp: reads_def rbind_Inr) (metis round)
next
  assume "\<forall>x. ok x \<longrightarrow> reads (pre @ enc x) (k x) Q"
  then show "reads pre (rbind dec k) Q"
    by (auto simp: reads_def rbind_Inr dest!: canonical)
qed

lemma reads_all: "reads pre dec Q \<longleftrightarrow> (\<forall>x bs. ok x \<longrightarrow> Q x (pre @ enc x @ bs) bs)"
proof
  assume "reads pre dec Q"
  then show "\<forall>x bs. ok x \<longrightarrow> Q x (pre @ enc x @ bs) bs" using round by (auto simp: reads_def)
next
  assume "\<forall>x bs. ok x \<longrightarrow> Q x (pre @ enc x @ bs) bs"
  then show "reads pre dec Q" by (auto simp: reads_def dest!: canonical)
qed

lemma prefix_free:
  assumes "ok x" "ok y" "enc x @ r = enc y @ s"
  shows "x = y \<and> r = s"
proof -
  have "dec (enc y @ s) = (r, Inr x)" using round [OF assms(1), of r] by (simp only: assms(3))
  with round [OF assms(2), of s] show ?thesis by simp
qed

lemma whole: "ok x \<Longrightarrow> dec (enc x) = ([], Inr x)"
  using round [of x "[]"] by simp

end

lemma codecI:
  assumes "\<And>x rest. ok x \<Longrightarrow> dec (enc x @ rest) = (rest, Inr x)"
    and "reads [] dec (\<lambda>x whole rest. ok x \<and> whole = enc x @ rest)"
  shows "codec enc dec ok"
  using assms readsD [OF assms(2)] by unfold_locales auto

section \<open>Big-endian integers\<close>

definition put_be :: "nat \<Rightarrow> 'a::len word \<Rightarrow> bytes" where
  "put_be n value = map (\<lambda>i. ucast (drop_bit (8 * (n - 1 - i)) value AND 0xFF)) [0..<n]"

definition get_be :: "bytes \<Rightarrow> 'a::len word" where
  "get_be raw = fold (\<lambda>b value. push_bit 8 value OR ucast b) raw 0"

lemma length_put_be [simp]: "length (put_be n v) = n"
  by (simp add: put_be_def)

lemma get_be_snoc: "get_be (bs @ [b]) = push_bit 8 (get_be bs) OR ucast b"
  by (simp add: get_be_def)

lemma bit_get_be:
  "bit (get_be bs :: 'a::len word) k \<longleftrightarrow>
    k < LENGTH('a) \<and> k < 8 * length bs \<and> bit (bs ! (length bs - 1 - k div 8)) (k mod 8)"
proof (induction bs arbitrary: k rule: rev_induct)
  case Nil
  then show ?case by (simp add: get_be_def)
next
  case (snoc b bs)
  have small: "bit b k \<Longrightarrow> k < 8" using bit_imp_le_length [of b k] by simp
  show ?case
  proof (cases "k < 8")
    case True
    then show ?thesis by (auto simp: get_be_snoc bit_or_iff bit_push_bit_iff bit_ucast_iff)
  next
    case False
    then have k: "(k - 8) div 8 = k div 8 - 1" "(k - 8) mod 8 = k mod 8" "0 < k div 8"
      by (simp_all add: not_less le_div_geq le_mod_geq)
    have "\<not> bit b k" using small False by blast
    moreover have "k - 8 < 8 * length bs \<longleftrightarrow> k < 8 * length (bs @ [b])" using False by auto
    moreover have "(bs @ [b]) ! (length (bs @ [b]) - 1 - k div 8) = bs ! (length bs - 1 - (k div 8 - 1))"
      if "k < 8 * length (bs @ [b])"
    proof -
      have "length bs - k div 8 < length bs" using k(3) that by (cases bs) auto
      then show ?thesis using k(3) by (simp add: nth_append)
    qed
    ultimately show ?thesis
      using False by (auto simp: get_be_snoc bit_or_iff bit_push_bit_iff bit_ucast_iff snoc.IH k(1,2))
  qed
qed

lemma bit_put_be:
  assumes "i < n" and "j < 8"
  shows "bit (put_be n (v :: 'a::len word) ! i) j \<longleftrightarrow> bit v (8 * (n - 1 - i) + j)"
proof -
  have "bit (0xFF :: 'a word) j \<or> LENGTH('a) \<le> j" using assms(2)
    by (cases "j < LENGTH('a)") (auto simp: less_Suc_eq numeral_eq_Suc)
  then show ?thesis
    using assms by (auto simp: put_be_def bit_ucast_iff bit_and_iff bit_drop_bit_eq dest: bit_imp_le_length)
qed
lemma get_put_be:
  assumes "LENGTH('a) = 8 * n"
  shows "get_be (put_be n (v :: 'a::len word)) = v"
proof (rule bit_word_eqI)
  fix k assume k: "k < LENGTH('a)"
  then have "k div 8 < n" using assms by (simp add: div_less_iff_less_mult mult.commute)
  then have "8 * (n - 1 - (n - 1 - k div 8)) + k mod 8 = k" by simp
  with k assms \<open>k div 8 < n\<close> show "bit (get_be (put_be n v) :: 'a word) k = bit v k"
    by (simp add: bit_get_be bit_put_be)
qed

lemma put_get_be:
  assumes "LENGTH('a) = 8 * n" and "length bs = n"
  shows "put_be n (get_be bs :: 'a::len word) = bs"
proof (rule nth_equalityI)
  show "length (put_be n (get_be bs :: 'a word)) = length bs" by (simp add: assms)
  fix i assume "i < length (put_be n (get_be bs :: 'a word))"
  then have i: "i < n" by simp
  show "put_be n (get_be bs :: 'a word) ! i = bs ! i"
  proof (rule bit_word_eqI)
    fix j assume "j < LENGTH(8)"
    then have j: "j < 8" by simp
    have d: "(8 * (n - 1 - i) + j) div 8 = n - 1 - i" "(8 * (n - 1 - i) + j) mod 8 = j" using j by simp_all
    have "8 * (n - 1 - i) + j < 8 * n" using i j by linarith
    then show "bit (put_be n (get_be bs :: 'a word) ! i) j = bit (bs ! i) j"
      using i d assms by (simp add: bit_put_be [OF i j] bit_get_be)
  qed
qed

definition read_fixed :: "nat \<Rightarrow> 'a::len word reader" where
  "read_fixed n bs =
    (if length bs < n then (bs, fail EC_ProtocolTruncated) else (drop n bs, Inr (get_be (take n bs))))"

lemma codec_fixed:
  assumes "LENGTH('a) = 8 * n"
  shows "codec (put_be n) (read_fixed n :: 'a::len word reader) (\<lambda>_. True)"
proof
  fix x :: "'a word" and rest
  show "read_fixed n (put_be n x @ rest) = (rest, Inr x)"
    by (simp add: read_fixed_def get_put_be [OF assms])
next
  fix bs rest and x :: "'a word"
  assume "read_fixed n bs = (rest, Inr x)"
  then have "n \<le> length bs" "x = get_be (take n bs)" "rest = drop n bs"
    by (auto simp: read_fixed_def not_less split: if_splits)
  then show "True \<and> bs = put_be n x @ rest" by (simp add: put_get_be [OF assms])
qed

definition w_u8 :: "u8 \<Rightarrow> bytes" where "w_u8 value = [value]"
definition w_u16 :: "u16 \<Rightarrow> bytes" where "w_u16 = put_be 2"
definition w_u32 :: "u32 \<Rightarrow> bytes" where "w_u32 = put_be 4"
definition w_u64 :: "u64 \<Rightarrow> bytes" where "w_u64 = put_be 8"

definition r_u8 :: "u8 reader" where
  "r_u8 bs = (case bs of [] \<Rightarrow> (bs, fail EC_ProtocolTruncated) | b # rest \<Rightarrow> (rest, Inr b))"

definition r_u16 :: "u16 reader" where "r_u16 = read_fixed 2"
definition r_u32 :: "u32 reader" where "r_u32 = read_fixed 4"
definition r_u64 :: "u64 reader" where "r_u64 = read_fixed 8"

interpretation c_u8: codec w_u8 r_u8 "\<lambda>_. True"
  by unfold_locales (auto simp: w_u8_def r_u8_def split: list.splits)

interpretation c_u16: codec w_u16 r_u16 "\<lambda>_. True"
  unfolding w_u16_def r_u16_def by (rule codec_fixed) simp

interpretation c_u32: codec w_u32 r_u32 "\<lambda>_. True"
  unfolding w_u32_def r_u32_def by (rule codec_fixed) simp

interpretation c_u64: codec w_u64 r_u64 "\<lambda>_. True"
  unfolding w_u64_def r_u64_def by (rule codec_fixed) simp

lemmas integer_read [codec_read] = c_u8.read_bind [OF TrueI] c_u16.read_bind [OF TrueI] c_u32.read_bind [OF TrueI]
  c_u64.read_bind [OF TrueI]
lemmas integer_canon [codec_canon] = c_u8.reads_bind c_u16.reads_bind c_u32.reads_bind c_u64.reads_bind

text \<open>Identifiers and generations travel as their raw value; zero encodes absence.\<close>

abbreviation write_id :: "ident \<Rightarrow> bytes" where "write_id \<equiv> w_u64"
abbreviation read_id :: "ident reader" where "read_id \<equiv> r_u64"
abbreviation write_generation :: "generation \<Rightarrow> bytes" where "write_generation \<equiv> w_u64"
abbreviation read_generation :: "generation reader" where "read_generation \<equiv> r_u64"

section \<open>Booleans, amounts and times\<close>

definition w_bool :: "bool \<Rightarrow> bytes" where
  "w_bool value = w_u8 (if value then 1 else 0)"

definition r_bool :: "bool reader" where
  "r_bool = rbind r_u8 (\<lambda>raw. rlift (if raw > 1 then fail EC_ProtocolMalformed else Inr (raw = 1)))"

interpretation c_bool: codec w_bool r_bool "\<lambda>_. True"
proof (rule codecI)
  fix x rest
  show "r_bool (w_bool x @ rest) = (rest, Inr x)"
    by (simp add: w_bool_def r_bool_def codec_read)
next
  have raw: "raw = 0 \<or> raw = 1" if "\<not> 1 < raw" for raw :: u8
    using that by (auto simp: word_less_nat_alt word_unat_eq_iff)
  show "reads [] r_bool (\<lambda>x whole rest. True \<and> whole = w_bool x @ rest)"
    using raw by (auto simp: w_bool_def r_bool_def codec_canon split: if_splits)
qed

definition w_bandwidth :: "bandwidth \<Rightarrow> bytes" where
  "w_bandwidth value = w_u64 (of_nat value)"

definition r_bandwidth :: "bandwidth reader" where
  "r_bandwidth = rbind r_u64 (\<lambda>raw. rlift (from_bits_per_second (sint raw)))"

definition w_timestamp :: "nat \<Rightarrow> bytes" where
  "w_timestamp value = w_u64 (of_nat value)"

definition r_timestamp :: "nat reader" where
  "r_timestamp = rbind r_u64 (\<lambda>raw. rlift (timestamp_from_unix_nanoseconds (sint raw)))"

lemma sint_of_small: "n < 2 ^ 63 \<Longrightarrow> sint (of_nat n :: u64) = int n"
  by (simp add: signed_of_nat signed_take_bit_int_eq_self_iff)

lemma of_nat_sint: "0 \<le> sint w \<Longrightarrow> of_nat (nat (sint w)) = (w :: u64)"
  by simp

lemma of_nat_eq_sint: "int n = sint w \<Longrightarrow> of_nat n = (w :: u64)"
  by (metis nat_int of_nat_sint of_nat_0_le_iff)

lemma unat_of_nat8: "n < 256 \<Longrightarrow> unat (of_nat n :: u8) = n"
  by (simp add: unat_of_nat take_bit_nat_eq_self)

lemma unat_of_nat32: "n < 2 ^ 32 \<Longrightarrow> unat (of_nat n :: u32) = n"
  by (simp add: unat_of_nat take_bit_nat_eq_self)

lemma sint_less_63: "sint (w :: u64) < 2 ^ 63"
  using sint_lt [of w] by simp

interpretation c_bandwidth: codec w_bandwidth r_bandwidth bw_ok
proof (rule codecI)
  fix x :: bandwidth and rest assume "bw_ok x"
  then show "r_bandwidth (w_bandwidth x @ rest) = (rest, Inr x)"
    by (simp add: w_bandwidth_def r_bandwidth_def codec_read sint_of_small from_bits_per_second_def
        kMaxBitsPerSecond_def)
next
  show "reads [] r_bandwidth (\<lambda>x whole rest. bw_ok x \<and> whole = w_bandwidth x @ rest)"
    by (auto simp: w_bandwidth_def r_bandwidth_def codec_canon of_nat_eq_sint dest!: from_bits_ok)
qed

interpretation c_timestamp: codec w_timestamp r_timestamp "\<lambda>t. t < 2 ^ 63"
proof (rule codecI)
  fix x :: nat and rest assume "x < 2 ^ 63"
  then show "r_timestamp (w_timestamp x @ rest) = (rest, Inr x)"
    by (simp add: w_timestamp_def r_timestamp_def codec_read sint_of_small timestamp_from_unix_nanoseconds_def)
next
  show "reads [] r_timestamp (\<lambda>x whole rest. x < 2 ^ 63 \<and> whole = w_timestamp x @ rest)"
    using sint_less_63
    by (auto simp: w_timestamp_def r_timestamp_def codec_canon timestamp_from_unix_nanoseconds_def of_nat_sint
        nat_less_iff split: if_splits)
qed

section \<open>Enumerations\<close>

text \<open>The members of an enumeration in the order of their values.\<close>

definition enum_code :: "'e list \<Rightarrow> 'e \<Rightarrow> u8" where
  "enum_code members x = of_nat (length (takeWhile (\<lambda>y. y \<noteq> x) members))"

definition write_enum :: "'e list \<Rightarrow> 'e \<Rightarrow> bytes" where
  "write_enum members x = w_u8 (enum_code members x)"

definition read_enum :: "'e list \<Rightarrow> u8 \<Rightarrow> 'e reader" where
  "read_enum members maximum =
    rbind r_u8 (\<lambda>raw. rlift (if raw > maximum then fail EC_ProtocolMalformed else Inr (members ! unat raw)))"

lemma enum_code_nth: "distinct members \<Longrightarrow> i < length members \<Longrightarrow> enum_code members (members ! i) = of_nat i"
  by (simp add: enum_code_def takeWhile_eq_take_P_nth [of i] nth_eq_iff_index_eq)

lemma codec_enum:
  assumes "distinct members" and "set members = UNIV" and "length members = Suc m" and "m < 256"
  shows "codec (write_enum members) (read_enum members (of_nat m)) (\<lambda>_. True)"
proof (rule codecI)
  fix x rest
  obtain i where i: "i < length members" "x = members ! i" using assms(2) by (metis UNIV_I in_set_conv_nth)
  then show "read_enum members (of_nat m) (write_enum members x @ rest) = (rest, Inr x)"
    using assms by (simp add: write_enum_def read_enum_def codec_read enum_code_nth unat_of_nat8 word_less_nat_alt)
next
  have raw: "unat raw < length members" if "\<not> (of_nat m :: u8) < raw" for raw
    using that assms(3,4) by (simp add: word_less_nat_alt unat_of_nat8)
  show "reads [] (read_enum members (of_nat m)) (\<lambda>x whole rest. True \<and> whole = write_enum members x @ rest)"
    using raw by (auto simp: write_enum_def read_enum_def codec_canon enum_code_nth [OF assms(1)] split: if_splits)
qed

section \<open>Byte strings, options and vectors\<close>

definition kMaxStringBytesInFrame :: nat where "kMaxStringBytesInFrame = 4096"

definition w_bytes :: "bytes \<Rightarrow> bytes" where
  "w_bytes data = w_u32 (of_nat (length data)) @ data"

definition r_bytes :: "nat \<Rightarrow> bytes reader" where
  "r_bytes max_bytes = rbind r_u32 (\<lambda>declared bs.
     if unat declared > max_bytes \<or> unat declared > kMaxStringBytesInFrame then (bs, fail EC_ProtocolPayloadTooLarge)
     else if length bs < unat declared then (bs, fail EC_ProtocolTruncated)
     else (drop (unat declared) bs, Inr (take (unat declared) bs)))"

definition string_ok :: "nat \<Rightarrow> bytes \<Rightarrow> bool" where
  "string_ok max_bytes data \<longleftrightarrow> length data \<le> max_bytes \<and> length data \<le> kMaxStringBytesInFrame"

definition write_text :: "bytes \<Rightarrow> bytes" where
  "write_text text = w_bytes text"

definition read_text :: "nat \<Rightarrow> bytes reader" where
  "read_text max_bytes = rbind (r_bytes max_bytes) (\<lambda>view.
     rlift (if \<not> is_valid_text view then fail EC_ProtocolMalformed else Inr view))"

definition text_ok :: "nat \<Rightarrow> bytes \<Rightarrow> bool" where
  "text_ok max_bytes data \<longleftrightarrow> string_ok max_bytes data \<and> is_valid_text data"

lemma codec_bytes: "codec w_bytes (r_bytes m) (string_ok m)"
proof
  fix x rest assume "string_ok m x"
  then have "length x < 2 ^ 32" "length x \<le> m" "length x \<le> kMaxStringBytesInFrame"
    by (simp_all add: string_ok_def kMaxStringBytesInFrame_def)
  then show "r_bytes m (w_bytes x @ rest) = (rest, Inr x)"
    by (simp add: r_bytes_def w_bytes_def codec_read unat_of_nat32)
next
  fix bs x rest assume "r_bytes m bs = (rest, Inr x)"
  then obtain d mid where d: "r_u32 bs = (mid, Inr d)" "unat d \<le> m" "unat d \<le> kMaxStringBytesInFrame"
      "unat d \<le> length mid" "x = take (unat d) mid" "rest = drop (unat d) mid"
    by (auto simp: r_bytes_def rbind_Inr not_less split: if_splits)
  then show "string_ok m x \<and> bs = w_bytes x @ rest"
    using c_u32.canonical [OF d(1)] by (simp add: string_ok_def w_bytes_def)
qed

lemma codec_text: "codec write_text (read_text m) (text_ok m)"
  by (rule codecI) (auto simp: read_text_def write_text_def text_ok_def codec_canon codec.reads_bind [OF codec_bytes]
      codec.read_bind [OF codec_bytes] codec_read split: if_splits)

text \<open>An optional member is preceded by its presence flag.\<close>

definition w_option :: "('a \<Rightarrow> bytes) \<Rightarrow> 'a option \<Rightarrow> bytes" where
  "w_option enc value = w_bool (value \<noteq> None) @ (case value of None \<Rightarrow> [] | Some x \<Rightarrow> enc x)"

definition r_option :: "'a reader \<Rightarrow> 'a option reader" where
  "r_option dec = rbind r_bool (\<lambda>present.
     if present then rbind dec (\<lambda>x. rret (Some x)) else rret None)"

lemmas flag_read [codec_read] = c_bool.read_bind [OF TrueI] c_bandwidth.read_bind c_timestamp.read_bind
  codec.read_bind [OF codec_text] codec.read_bind [OF codec_bytes]
lemmas flag_canon [codec_canon] = c_bool.reads_bind c_bandwidth.reads_bind c_timestamp.reads_bind
  codec.reads_bind [OF codec_text] codec.reads_bind [OF codec_bytes]

lemma codec_option: "codec enc dec ok \<Longrightarrow> codec (w_option enc) (r_option dec) (pred_option ok)"
  by (rule codecI) (auto simp: w_option_def r_option_def codec_read codec_canon codec.read_bind codec.reads_bind
      split: option.splits)

text \<open>A vector is preceded by its length, which is checked against a bound before anything is read.\<close>

primrec r_times :: "nat \<Rightarrow> 'a reader \<Rightarrow> 'a list reader" where
  "r_times 0 dec = rret []"
| "r_times (Suc n) dec = rbind dec (\<lambda>x. rbind (r_times n dec) (\<lambda>xs. rret (x # xs)))"

definition w_vector :: "('a \<Rightarrow> bytes) \<Rightarrow> 'a list \<Rightarrow> bytes" where
  "w_vector enc xs = w_u32 (of_nat (length xs)) @ concat (map enc xs)"

definition r_vector :: "nat \<Rightarrow> error_code \<Rightarrow> 'a reader \<Rightarrow> 'a list reader" where
  "r_vector maximum code dec = rbind r_u32 (\<lambda>count.
     if unat count > maximum then rlift (fail code) else r_times (unat count) dec)"

definition vector_ok :: "nat \<Rightarrow> ('a \<Rightarrow> bool) \<Rightarrow> 'a list \<Rightarrow> bool" where
  "vector_ok maximum ok xs \<longleftrightarrow> length xs \<le> maximum \<and> length xs < 2 ^ 32 \<and> list_all ok xs"

lemma codec_times:
  assumes "codec enc dec ok"
  shows "codec (\<lambda>xs. concat (map enc xs)) (r_times n dec) (\<lambda>xs. length xs = n \<and> list_all ok xs)"
proof (induction n)
  case 0
  show ?case by (rule codecI, simp add: codec_read, simp add: codec_canon)
next
  case (Suc n)
  show ?case
  proof (rule codecI)
    fix xs rest assume "length xs = Suc n \<and> list_all ok xs"
    then show "r_times (Suc n) dec (concat (map enc xs) @ rest) = (rest, Inr xs)"
      by (cases xs) (simp_all add: codec.read_bind [OF assms] codec.read_bind [OF Suc.IH] codec_read)
  qed (simp add: codec.reads_bind [OF assms] codec.reads_bind [OF Suc.IH] codec_canon)
qed

lemma codec_vector:
  assumes "codec enc dec ok"
  shows "codec (w_vector enc) (r_vector m code dec) (vector_ok m ok)"
proof (rule codecI)
  fix xs rest assume "vector_ok m ok xs"
  then show "r_vector m code dec (w_vector enc xs @ rest) = (rest, Inr xs)"
    by (simp add: r_vector_def w_vector_def vector_ok_def codec_read unat_of_nat32 codec.round [OF codec_times [OF assms]])
next
  have "of_nat (unat n) = n" "unat n < 2 ^ 32" for n :: u32 using unsigned_less [of n] by simp_all
  then show "reads [] (r_vector m code dec) (\<lambda>x whole rest. vector_ok m ok x \<and> whole = w_vector enc x @ rest)"
    by (auto simp: r_vector_def w_vector_def vector_ok_def codec_canon codec.reads_all [OF codec_times [OF assms]])
qed

end
