(* ===== verification/Frame.thy ===== *)
theory Frame
  imports Codec
begin

text \<open>
  Framing (\<open>wire.hpp\<close>, \<open>wire.cpp\<close>): the 32-byte frame header with its two checksums and the
  incremental decoder a connection feeds with whatever the socket delivers.  A pointer into a buffer is the
  list of bytes from there on; the out-parameters of \<open>next\<close> are its result.

  The lemmas show that a frame decodes to what was sent, that decoding a stream of frames does not
  depend on how the stream was cut into chunks as long as each chunk fits the budget of one
  frame, and that a decoder that has failed stays failed.
\<close>

section \<open>Frame header\<close>

datatype message_type =
    MT_Hello | MT_HelloAck | MT_PublishCapacity | MT_PublishCapacityAck | MT_SetPolicy |
    MT_SetPolicyAck | MT_SubmitRequests | MT_SubmitRequestsAck | MT_Arbitrate |
    MT_ArbitrateAck | MT_QueryGrant | MT_QueryGrantAck | MT_QueryAccounting |
    MT_QueryAccountingAck | MT_Release | MT_ReleaseAck | MT_Revoke | MT_RevokeAck |
    MT_FencePublisher | MT_FencePublisherAck | MT_Explain | MT_ExplainAck | MT_Shutdown |
    MT_ShutdownAck | MT_ErrorResponse

definition message_types :: "message_type list" where
  "message_types =
    [MT_Hello, MT_HelloAck, MT_PublishCapacity, MT_PublishCapacityAck, MT_SetPolicy,
     MT_SetPolicyAck, MT_SubmitRequests, MT_SubmitRequestsAck, MT_Arbitrate, MT_ArbitrateAck,
     MT_QueryGrant, MT_QueryGrantAck, MT_QueryAccounting, MT_QueryAccountingAck, MT_Release,
     MT_ReleaseAck, MT_Revoke, MT_RevokeAck, MT_FencePublisher, MT_FencePublisherAck,
     MT_Explain, MT_ExplainAck, MT_Shutdown, MT_ShutdownAck, MT_ErrorResponse]"

definition message_code :: "message_type \<Rightarrow> u16" where
  "message_code t = of_nat (Suc (length (takeWhile (\<lambda>y. y \<noteq> t) message_types)))"

definition is_known_message_type :: "u16 \<Rightarrow> bool" where
  "is_known_message_type raw \<longleftrightarrow> 1 \<le> raw \<and> raw \<le> 25"

definition message_type_of :: "u16 \<Rightarrow> message_type" where
  "message_type_of raw = message_types ! (unat raw - 1)"

definition kFrameHeaderBytes :: nat where "kFrameHeaderBytes = 32"
definition kFrameMagic :: u32 where "kFrameMagic = 0x42425231"
definition kAllowedFlags :: u32 where "kAllowedFlags = 0"
definition kMaxPayloadBytes :: nat where "kMaxPayloadBytes = 2 ^ 20"
definition BB_PROTOCOL_VERSION :: u16 where "BB_PROTOCOL_VERSION = 1"

record frame_header =
  fh_type :: message_type
  fh_flags :: u32
  fh_payload_length :: u32
  fh_correlation_id :: u64
  fh_payload_crc :: u32

definition encode_frame_header :: "frame_header \<Rightarrow> bytes" where
  "encode_frame_header header =
    (let out = put_be 4 kFrameMagic @ put_be 2 BB_PROTOCOL_VERSION @ put_be 2 (message_code (fh_type header)) @
           put_be 4 (fh_flags header) @ put_be 4 (fh_payload_length header) @ put_be 8 (fh_correlation_id header)
     in out @ put_be 4 (crc32c out) @ put_be 4 (fh_payload_crc header))"

definition field :: "nat \<Rightarrow> nat \<Rightarrow> bytes \<Rightarrow> 'a::len word" where
  "field offset n buf = get_be (take n (drop offset buf))"

definition decode_frame_header :: "bytes \<Rightarrow> frame_header result" where
  "decode_frame_header buf =
    (if length buf < kFrameHeaderBytes then fail EC_ProtocolTruncated
     else if field 0 4 buf \<noteq> kFrameMagic then fail EC_ProtocolMalformed
     else if field 4 2 buf \<noteq> BB_PROTOCOL_VERSION then fail EC_ProtocolVersionUnsupported
     else if \<not> is_known_message_type (field 6 2 buf) then fail EC_ProtocolMalformed
     else if field 8 4 buf AND NOT kAllowedFlags \<noteq> 0 then fail EC_ProtocolMalformed
     else if unat (field 12 4 buf :: u32) > kMaxPayloadBytes then fail EC_ProtocolPayloadTooLarge
     else if field 24 4 buf \<noteq> crc32c (take 24 buf) then fail EC_ProtocolChecksum
     else Inr \<lparr> fh_type = message_type_of (field 6 2 buf), fh_flags = field 8 4 buf,
       fh_payload_length = field 12 4 buf, fh_correlation_id = field 16 8 buf,
       fh_payload_crc = field 28 4 buf \<rparr>)"

definition verify_payload_crc :: "frame_header \<Rightarrow> bytes \<Rightarrow> status" where
  "verify_payload_crc header payload =
    (if length payload \<noteq> unat (fh_payload_length header) then fail EC_ProtocolTruncated
     else if (if payload = [] then 0 else crc32c payload) \<noteq> fh_payload_crc header then fail EC_ProtocolChecksum
     else success)"

definition frame_header_of :: "message_type \<Rightarrow> u64 \<Rightarrow> bytes \<Rightarrow> frame_header" where
  "frame_header_of type correlation_id payload =
    \<lparr> fh_type = type, fh_flags = 0, fh_payload_length = of_nat (length payload),
      fh_correlation_id = correlation_id,
      fh_payload_crc = (if payload = [] then 0 else crc32c payload) \<rparr>"

definition encode_frame :: "message_type \<Rightarrow> u64 \<Rightarrow> bytes \<Rightarrow> bytes result" where
  "encode_frame type correlation_id payload =
    (if length payload > kMaxPayloadBytes then fail EC_ProtocolPayloadTooLarge
     else Inr (encode_frame_header (frame_header_of type correlation_id payload) @ payload))"

section \<open>The stream decoder\<close>

record frame_decoder =
  fd_buffer :: bytes
  fd_read_offset :: nat
  fd_failed :: bool

type_synonym message = "message_type \<times> u64 \<times> bytes"

definition decoder_reset :: frame_decoder where
  "decoder_reset = \<lparr> fd_buffer = [], fd_read_offset = 0, fd_failed = False \<rparr>"

definition buffered_bytes :: "frame_decoder \<Rightarrow> nat" where
  "buffered_bytes d = length (fd_buffer d) - fd_read_offset d"

definition decoder_feed :: "bytes \<Rightarrow> frame_decoder \<Rightarrow> frame_decoder \<times> status" where
  "decoder_feed data d =
    (if fd_failed d then (d, fail EC_ProtocolMalformed)
     else let budget = kFrameHeaderBytes + kMaxPayloadBytes in
       if length data > budget \<or> buffered_bytes d > budget - length data
       then (d\<lparr>fd_failed := True\<rparr>, fail EC_ProtocolPayloadTooLarge)
       else (d\<lparr>fd_buffer := drop (fd_read_offset d) (fd_buffer d) @ data, fd_read_offset := 0\<rparr>, success))"

definition decoder_next :: "frame_decoder \<Rightarrow> frame_decoder \<times> message option result" where
  "decoder_next d =
    (if fd_failed d then (d, fail EC_ProtocolMalformed)
     else if buffered_bytes d < kFrameHeaderBytes then (d, Inr None)
     else case decode_frame_header (take kFrameHeaderBytes (drop (fd_read_offset d) (fd_buffer d))) of
         Inl e \<Rightarrow> (d\<lparr>fd_failed := True\<rparr>, Inl e)
       | Inr header \<Rightarrow>
           let total = kFrameHeaderBytes + unat (fh_payload_length header) in
           if buffered_bytes d < total then (d, Inr None)
           else
             let body = take (unat (fh_payload_length header))
                          (drop (fd_read_offset d + kFrameHeaderBytes) (fd_buffer d)) in
             case verify_payload_crc header body of
               Inl e \<Rightarrow> (d\<lparr>fd_failed := True\<rparr>, Inl e)
             | Inr _ \<Rightarrow>
                 let offset = fd_read_offset d + total in
                 ((if offset = length (fd_buffer d) then d\<lparr>fd_buffer := [], fd_read_offset := 0\<rparr>
                   else d\<lparr>fd_read_offset := offset\<rparr>),
                  Inr (Some (fh_type header, fh_correlation_id header, body))))"

section \<open>Frames round trip\<close>

lemma length_message_types: "length message_types = 25"
  by (simp add: message_types_def)

lemma message_type_member: "t \<in> set message_types"
  by (cases t) (simp_all add: message_types_def)

lemma message_code_nth: "i < 25 \<Longrightarrow> message_code (message_types ! i) = of_nat (Suc i)"
proof -
  assume i: "i < 25"
  have "distinct message_types" by (simp add: message_types_def)
  then show ?thesis
    using i length_message_types by (simp add: message_code_def takeWhile_eq_take_P_nth [of i] nth_eq_iff_index_eq)
qed

lemma message_code_round: "is_known_message_type (message_code t) \<and> message_type_of (message_code t) = t"
proof -
  obtain i where i: "i < 25" "t = message_types ! i"
    using message_type_member [of t] by (auto simp: in_set_conv_nth length_message_types)
  have "unat (of_nat (Suc i) :: u16) = Suc i" using i(1) by (simp only: unat_of_nat) (simp add: take_bit_nat_eq_self)
  then show ?thesis
    using i by (simp add: message_code_nth is_known_message_type_def message_type_of_def word_le_nat_alt del: of_nat_Suc)
qed

lemma field_here: "length pre = offset \<Longrightarrow> LENGTH('a) = 8 * n \<Longrightarrow> field offset n (pre @ put_be n (v :: 'a::len word) @ rest) = v"
  by (simp add: field_def get_put_be)

lemma length_frame_header: "length (encode_frame_header h) = kFrameHeaderBytes"
  by (simp add: encode_frame_header_def Let_def kFrameHeaderBytes_def)

lemma decode_encode_header:
  assumes "fh_flags h = 0" and "unat (fh_payload_length h) \<le> kMaxPayloadBytes"
  shows "decode_frame_header (encode_frame_header h) = Inr h"
proof -
  let ?m = "put_be 4 kFrameMagic" let ?v = "put_be 2 BB_PROTOCOL_VERSION" let ?t = "put_be 2 (message_code (fh_type h))"
  let ?f = "put_be 4 (fh_flags h)" let ?l = "put_be 4 (fh_payload_length h)" let ?c = "put_be 8 (fh_correlation_id h)"
  let ?out = "?m @ ?v @ ?t @ ?f @ ?l @ ?c" let ?k = "put_be 4 (crc32c ?out)" let ?p = "put_be 4 (fh_payload_crc h)"
  have e: "encode_frame_header h = ?out @ ?k @ ?p" by (simp add: encode_frame_header_def Let_def)
  have fields: "field 0 4 (encode_frame_header h) = kFrameMagic" "field 4 2 (encode_frame_header h) = BB_PROTOCOL_VERSION"
    "field 6 2 (encode_frame_header h) = message_code (fh_type h)" "field 8 4 (encode_frame_header h) = fh_flags h"
    "field 12 4 (encode_frame_header h) = fh_payload_length h" "field 16 8 (encode_frame_header h) = fh_correlation_id h"
    "field 24 4 (encode_frame_header h) = crc32c ?out" "field 28 4 (encode_frame_header h) = fh_payload_crc h"
    using field_here [of "[]" 0 4 kFrameMagic "?v @ ?t @ ?f @ ?l @ ?c @ ?k @ ?p"]
      field_here [of "?m" 4 2 BB_PROTOCOL_VERSION "?t @ ?f @ ?l @ ?c @ ?k @ ?p"]
      field_here [of "?m @ ?v" 6 2 "message_code (fh_type h)" "?f @ ?l @ ?c @ ?k @ ?p"]
      field_here [of "?m @ ?v @ ?t" 8 4 "fh_flags h" "?l @ ?c @ ?k @ ?p"]
      field_here [of "?m @ ?v @ ?t @ ?f" 12 4 "fh_payload_length h" "?c @ ?k @ ?p"]
      field_here [of "?m @ ?v @ ?t @ ?f @ ?l" 16 8 "fh_correlation_id h" "?k @ ?p"]
      field_here [of ?out 24 4 "crc32c ?out" ?p] field_here [of "?out @ ?k" 28 4 "fh_payload_crc h" "[]"]
    by (simp_all add: e)
  have "take 24 (encode_frame_header h) = ?out" by (simp add: e)
  then show ?thesis
    using assms message_code_round [of "fh_type h"]
    by (simp add: decode_frame_header_def length_frame_header fields)
qed

section \<open>Streams of frames\<close>

definition frame_ok :: "message \<Rightarrow> bool" where
  "frame_ok m \<longleftrightarrow> length (snd (snd m)) \<le> kMaxPayloadBytes"

definition frame :: "message \<Rightarrow> bytes" where
  "frame m = (case m of (type, correlation_id, payload) \<Rightarrow>
     encode_frame_header (frame_header_of type correlation_id payload) @ payload)"

definition pending :: "frame_decoder \<Rightarrow> bytes" where
  "pending d = drop (fd_read_offset d) (fd_buffer d)"

lemma encode_frame_ok: "frame_ok (t, c, p) \<Longrightarrow> encode_frame t c p = Inr (frame (t, c, p))"
  by (simp add: encode_frame_def frame_ok_def frame_def)

lemma length_frame: "length (frame (t, c, p)) = kFrameHeaderBytes + length p"
  by (simp add: frame_def length_frame_header)

lemma length_pending: "buffered_bytes d = length (pending d)"
  by (simp add: buffered_bytes_def pending_def)

lemma payload_length:
  assumes "length p \<le> kMaxPayloadBytes"
  shows "unat (fh_payload_length (frame_header_of t c p)) = length p"
  using assms unat_of_nat32 [of "length p"] by (simp add: frame_header_of_def kMaxPayloadBytes_def)

lemma header_decodes:
  assumes "frame_ok (t, c, p)"
  shows "decode_frame_header (encode_frame_header (frame_header_of t c p)) = Inr (frame_header_of t c p)"
  using assms payload_length [of p] by (intro decode_encode_header) (simp_all add: frame_ok_def frame_header_of_def)

lemma next_complete:
  assumes "\<not> fd_failed d" and "pending d = frame (t, c, p) @ rest" and "frame_ok (t, c, p)"
  shows "\<exists>d'. decoder_next d = (d', Inr (Some (t, c, p))) \<and> \<not> fd_failed d' \<and> pending d' = rest"
proof -
  let ?h = "frame_header_of t c p"
  have p: "length p \<le> kMaxPayloadBytes" using assms(3) by (simp add: frame_ok_def)
  have pend: "drop (fd_read_offset d) (fd_buffer d) = encode_frame_header ?h @ p @ rest"
    using assms(2) by (simp add: pending_def frame_def)
  have body: "drop (fd_read_offset d + kFrameHeaderBytes) (fd_buffer d) = p @ rest"
    using arg_cong [OF pend, of "drop kFrameHeaderBytes"] by (simp add: length_frame_header add.commute)
  have after: "drop (fd_read_offset d + (kFrameHeaderBytes + length p)) (fd_buffer d) = rest"
    using arg_cong [OF body, of "drop (length p)"] by (simp add: ac_simps)
  have crc: "verify_payload_crc ?h p = success"
    using payload_length [OF p] by (simp add: verify_payload_crc_def) (simp add: frame_header_of_def)
  have len: "buffered_bytes d = kFrameHeaderBytes + (length p + length rest)"
    using arg_cong [OF pend, of length] by (simp add: buffered_bytes_def length_frame_header)
  have "rest = []" if "fd_read_offset d + (kFrameHeaderBytes + length p) = length (fd_buffer d)"
    using after that by simp
  then show ?thesis
    using assms(1) header_decodes [OF assms(3)] crc after len
    by (auto simp: decoder_next_def pend body payload_length [OF p] length_frame_header pending_def Let_def)
      (auto simp: frame_header_of_def)
qed

lemma next_incomplete:
  assumes "\<not> fd_failed d" and "pending d @ future = frame (t, c, p) @ rest" and "frame_ok (t, c, p)"
    and "length (pending d) < length (frame (t, c, p))"
  shows "decoder_next d = (d, Inr None)"
proof (cases "length (pending d) < kFrameHeaderBytes")
  case True
  then show ?thesis using assms(1) by (simp add: decoder_next_def length_pending)
next
  case False
  let ?h = "frame_header_of t c p"
  have p: "length p \<le> kMaxPayloadBytes" using assms(3) by (simp add: frame_ok_def)
  have "take kFrameHeaderBytes (pending d) = encode_frame_header ?h"
    using arg_cong [OF assms(2), of "take kFrameHeaderBytes"] False by (simp add: frame_def length_frame_header)
  then show ?thesis
    using assms(1,4) False header_decodes [OF assms(3)] payload_length [OF p]
    by (simp add: decoder_next_def length_pending length_frame Let_def flip: pending_def)
qed

lemma next_shrinks: "decoder_next d = (d', Inr (Some m)) \<Longrightarrow> buffered_bytes d' < buffered_bytes d"
  by (auto simp: decoder_next_def buffered_bytes_def Let_def kFrameHeaderBytes_def split: if_splits sum.splits)

text \<open>The receive loop of a connection: feed a chunk, then take every complete message.\<close>

function decoder_drain :: "frame_decoder \<Rightarrow> frame_decoder \<times> message list \<times> status" where
  "decoder_drain d =
    (case decoder_next d of
       (d', Inl e) \<Rightarrow> (d', [], Inl e)
     | (d', Inr None) \<Rightarrow> (d', [], success)
     | (d', Inr (Some m)) \<Rightarrow> (case decoder_drain d' of (d'', ms, r) \<Rightarrow> (d'', m # ms, r)))"
  by pat_completeness auto
termination
  by (relation "measure buffered_bytes") (auto dest!: next_shrinks [OF sym])

declare decoder_drain.simps [simp del]

lemma drain_none: "decoder_next d = (d', Inr None) \<Longrightarrow> decoder_drain d = (d', [], success)"
  by (subst decoder_drain.simps) simp

lemma drain_some:
  "decoder_next d = (d', Inr (Some m)) \<Longrightarrow> decoder_drain d' = (d'', ms, r) \<Longrightarrow> decoder_drain d = (d'', m # ms, r)"
  by (subst decoder_drain.simps) simp

fun decoder_run :: "bytes list \<Rightarrow> frame_decoder \<Rightarrow> frame_decoder \<times> message list \<times> status" where
  "decoder_run [] d = (d, [], success)"
| "decoder_run (chunk # chunks) d =
    (case decoder_feed chunk d of
       (d', Inl e) \<Rightarrow> (d', [], Inl e)
     | (d', Inr _) \<Rightarrow> (case decoder_drain d' of
           (d'', ms, Inl e) \<Rightarrow> (d'', ms, Inl e)
         | (d'', ms, Inr _) \<Rightarrow> (case decoder_run chunks d'' of (d3, ms', r) \<Rightarrow> (d3, ms @ ms', r))))"

lemma drain_stream:
  assumes "\<not> fd_failed d" and "pending d @ future = concat (map frame ms)" and "list_all frame_ok ms"
  shows "\<exists>d' ms1 ms2. ms = ms1 @ ms2 \<and> decoder_drain d = (d', ms1, success) \<and> \<not> fd_failed d' \<and>
    pending d' @ future = concat (map frame ms2) \<and>
    (\<forall>m ms'. ms2 = m # ms' \<longrightarrow> length (pending d') < length (frame m))"
  using assms
proof (induction ms arbitrary: d)
  case Nil
  then have "decoder_next d = (d, Inr None)"
    by (simp add: decoder_next_def length_pending kFrameHeaderBytes_def)
  then show ?case using Nil by (simp add: drain_none)
next
  case (Cons m ms)
  obtain t c p where m: "m = (t, c, p)" by (cases m)
  show ?case
  proof (cases "length (pending d) < length (frame m)")
    case True
    then have "decoder_next d = (d, Inr None)"
      using next_incomplete [of d future t c p "concat (map frame ms)"] Cons.prems m by simp
    then show ?thesis
      using True Cons.prems by (intro exI [of _ d] exI [of _ "[]"] exI [of _ "m # ms"]) (simp add: drain_none)
  next
    case False
    then have "take (length (frame m)) (pending d) = frame m"
      using arg_cong [OF Cons.prems(2), of "take (length (frame m))"] by simp
    then have split: "pending d = frame m @ drop (length (frame m)) (pending d)"
        "drop (length (frame m)) (pending d) @ future = concat (map frame ms)"
      using arg_cong [OF Cons.prems(2), of "drop (length (frame m))"] False append_take_drop_id [of "length (frame m)" "pending d"]
      by simp_all
    then obtain d' where d': "decoder_next d = (d', Inr (Some m))" "\<not> fd_failed d'"
        "pending d' = drop (length (frame m)) (pending d)"
      using next_complete [of d t c p "drop (length (frame m)) (pending d)"] Cons.prems m by auto
    obtain d3 ms1 ms2 where "ms = ms1 @ ms2" "decoder_drain d' = (d3, ms1, success)" "\<not> fd_failed d3"
        "pending d3 @ future = concat (map frame ms2)"
        "\<forall>m ms'. ms2 = m # ms' \<longrightarrow> length (pending d3) < length (frame m)"
      using Cons.IH [of d'] d' split(2) Cons.prems(3) by auto
    then show ?thesis
      using d'(1) by (intro exI [of _ d3] exI [of _ "m # ms1"] exI [of _ ms2]) (simp add: drain_some)
  qed
qed

lemma feed_pending:
  assumes "\<not> fd_failed d" and "length (pending d) + length chunk \<le> kFrameHeaderBytes + kMaxPayloadBytes"
  shows "\<exists>d'. decoder_feed chunk d = (d', success) \<and> \<not> fd_failed d' \<and> pending d' = pending d @ chunk"
  using assms by (auto simp: decoder_feed_def Let_def length_pending) (simp add: pending_def)

lemma run_stream:
  assumes "\<not> fd_failed d" and "pending d @ concat chunks = concat (map frame ms)" and "list_all frame_ok ms"
    and "\<forall>m ms'. ms = m # ms' \<longrightarrow> length (pending d) < length (frame m)"
    and "\<forall>chunk \<in> set chunks. \<forall>m \<in> set ms. length chunk + length (snd (snd m)) \<le> kMaxPayloadBytes"
  shows "\<exists>d'. decoder_run chunks d = (d', ms, success)"
  using assms
proof (induction chunks arbitrary: d ms)
  case Nil
  then have "ms = []" by (cases ms) auto
  then show ?case by simp
next
  case (Cons chunk chunks)
  have fits: "length (pending d) + length chunk \<le> kFrameHeaderBytes + kMaxPayloadBytes"
  proof (cases ms)
    case Nil
    then show ?thesis using Cons.prems(2) by simp
  next
    case (Cons m ms')
    obtain t c p where "m = (t, c, p)" by (cases m)
    then show ?thesis using Cons Cons.prems(4,5) by (fastforce simp: length_frame)
  qed
  obtain d1 where d1: "decoder_feed chunk d = (d1, success)" "\<not> fd_failed d1" "pending d1 = pending d @ chunk"
    using feed_pending [OF Cons.prems(1) fits] by blast
  obtain d2 ms1 ms2 where d2: "ms = ms1 @ ms2" "decoder_drain d1 = (d2, ms1, success)" "\<not> fd_failed d2"
      "pending d2 @ concat chunks = concat (map frame ms2)"
      "\<forall>m ms'. ms2 = m # ms' \<longrightarrow> length (pending d2) < length (frame m)"
    using drain_stream [OF d1(2), of "concat chunks" ms] d1(3) Cons.prems(2,3) by auto
  have "\<exists>d'. decoder_run chunks d2 = (d', ms2, success)"
    using Cons.IH [OF d2(3,4) _ d2(5)] Cons.prems(3,5) d2(1) by auto
  then show ?case using d1(1) d2(1,2) by auto
qed

lemma failed_decoder_stuck: "fd_failed d \<Longrightarrow> decoder_next d = (d, fail EC_ProtocolMalformed) \<and> decoder_feed data d = (d, fail EC_ProtocolMalformed)"
  by (simp add: decoder_next_def decoder_feed_def)

end
