(* ===== verification/Persistence.thy ===== *)
theory Persistence
  imports Frame Effects
begin

text \<open>
  The durable store (\<open>persistence.hpp\<close>, \<open>persistence.cpp\<close>): the byte formats of journal, snapshot and
  manifest files, and the operations of \<open>Store\<close> on a directory of such files.

  A directory maps the sequence numbers in the names of snapshot and journal files to the bytes of
  the files; \<open>parse_sequence_suffix\<close> reads the sequence back from a name the store has written.
  Temporary files are never read and are left out.  The environment is an explicit schedule: every
  file operation consumes one \<open>io_result\<close>, and an operation that fails may have written any number of
  bytes before.  With an empty schedule all operations succeed.
\<close>

section \<open>Records\<close>

datatype record_type =
    RT_PolicySet | RT_CapacityPublished | RT_ObligationUpserted | RT_ObligationRetired
  | RT_RequestAccepted | RT_RequestRetired | RT_RoundCommitted | RT_GrantIssued | RT_GrantUpdated
  | RT_GrantReleased | RT_GrantRevoked | RT_GrantRevalidated | RT_PublisherFenced
  | RT_EpochAdvanced | RT_IdempotencyRecord | RT_CoordinatorBoot

definition record_types :: "record_type list" where
  "record_types =
    [RT_PolicySet, RT_CapacityPublished, RT_ObligationUpserted, RT_ObligationRetired,
     RT_RequestAccepted, RT_RequestRetired, RT_RoundCommitted, RT_GrantIssued, RT_GrantUpdated,
     RT_GrantReleased, RT_GrantRevoked, RT_GrantRevalidated, RT_PublisherFenced,
     RT_EpochAdvanced, RT_IdempotencyRecord, RT_CoordinatorBoot]"

definition record_code :: "record_type \<Rightarrow> u16" where
  "record_code t = of_nat (Suc (length (takeWhile (\<lambda>y. y \<noteq> t) record_types)))"

definition is_known_record_type :: "u16 \<Rightarrow> bool" where
  "is_known_record_type raw \<longleftrightarrow> 1 \<le> raw \<and> raw \<le> 16"

definition record_type_of :: "u16 \<Rightarrow> record_type" where
  "record_type_of raw = record_types ! (unat raw - 1)"

record record_header =
  rh_sequence :: ident
  rh_tick :: u64
  rh_epoch :: ident
  rh_coordinator :: ident

record durable_record =
  re_type :: record_type
  re_header :: record_header
  re_payload :: bytes

record snapshot_image =
  si_header :: record_header
  si_sequence :: u64
  si_payload :: bytes

definition kManifestMagic :: bytes where "kManifestMagic = [0x42, 0x42, 0x4D, 0x41, 0x4E, 0x46, 0x30, 0x31]"
definition kSnapshotMagic :: bytes where "kSnapshotMagic = [0x42, 0x42, 0x53, 0x4E, 0x41, 0x50, 0x30, 0x31]"
definition kJournalMagic :: bytes where "kJournalMagic = [0x42, 0x42, 0x4A, 0x52, 0x4E, 0x4C, 0x30, 0x31]"
definition kRecordMagic :: u32 where "kRecordMagic = 0x42425252"
definition kManifestBytes :: nat where "kManifestBytes = 52"
definition kSnapshotHeaderBytes :: nat where "kSnapshotHeaderBytes = 60"
definition kJournalHeaderBytes :: nat where "kJournalHeaderBytes = 28"
definition kRecordHeaderBytes :: nat where "kRecordHeaderBytes = 48"
definition kMaxStoreFileBytes :: nat where "kMaxStoreFileBytes = 2 ^ 31"
definition kMaxSnapshotCount :: nat where "kMaxSnapshotCount = 2"
definition kMaxJournalRecords :: nat where "kMaxJournalRecords = 1000000"
definition BB_STORE_FORMAT_VERSION :: u32 where "BB_STORE_FORMAT_VERSION = 1"

text \<open>The last four bytes of the 48 are the zero the array is initialised with.\<close>

definition encode_record_header :: "record_type \<Rightarrow> record_header \<Rightarrow> u32 \<Rightarrow> bytes" where
  "encode_record_header type header payload_length =
    put_be 4 kRecordMagic @ put_be 2 (record_code type) @ [0, 0] @ put_be 8 (rh_sequence header) @
    put_be 8 (rh_tick header) @ put_be 8 (rh_epoch header) @ put_be 8 (rh_coordinator header) @
    put_be 4 payload_length @ [0, 0, 0, 0]"

definition record_bytes :: "record_type \<Rightarrow> record_header \<Rightarrow> bytes \<Rightarrow> bytes" where
  "record_bytes type header payload =
    (let raw = encode_record_header type header (of_nat (length payload)) @ payload
     in raw @ put_be 4 (crc32c raw))"

section \<open>Scanning a journal\<close>

function scan_records :: "bytes \<Rightarrow> u64 \<Rightarrow> durable_record list \<times> bool" where
  "scan_records raw after_sequence =
    (if raw = [] then ([], False)
     else if length raw < kRecordHeaderBytes then ([], True)
     else if field 0 4 raw \<noteq> kRecordMagic then ([], True)
     else if \<not> is_known_record_type (field 4 2 raw) then ([], True)
     else let payload_length = unat (field 40 4 raw :: u32) in
       if payload_length > kMaxPayloadBytes then ([], True)
       else let total = kRecordHeaderBytes + payload_length + 4 in
         if length raw < total then ([], True)
         else if crc32c (take (kRecordHeaderBytes + payload_length) raw) \<noteq>
                 field (kRecordHeaderBytes + payload_length) 4 raw then ([], True)
         else let rec = \<lparr> re_type = record_type_of (field 4 2 raw),
                re_header = \<lparr> rh_sequence = field 8 8 raw, rh_tick = field 16 8 raw,
                  rh_epoch = field 24 8 raw, rh_coordinator = field 32 8 raw \<rparr>,
                re_payload = take payload_length (drop kRecordHeaderBytes raw) \<rparr>
              in (case scan_records (drop total raw) after_sequence of (records, truncated) \<Rightarrow>
                    (if rh_sequence (re_header rec) > after_sequence then rec # records else records, truncated)))"
  by pat_completeness auto
termination
  by (relation "measure (\<lambda>(raw, _). length raw)") auto

declare scan_records.simps [simp del]

definition journal_header :: "u64 \<Rightarrow> bytes" where
  "journal_header first_sequence =
    (let header = kJournalMagic @ put_be 4 BB_STORE_FORMAT_VERSION @ put_be 4 (0 :: u32) @ put_be 8 first_sequence
     in header @ put_be 4 (crc32c header))"

definition scan_journal :: "bytes \<Rightarrow> u64 \<Rightarrow> (durable_record list \<times> bool) result" where
  "scan_journal raw after_sequence =
    (if length raw < kJournalHeaderBytes then fail EC_PersistenceCorrupt
     else if take 8 raw \<noteq> kJournalMagic then fail EC_PersistenceCorrupt
     else if field 8 4 raw \<noteq> BB_STORE_FORMAT_VERSION then fail EC_PersistenceVersionUnsupported
     else if field (kJournalHeaderBytes - 4) 4 raw \<noteq> crc32c (take (kJournalHeaderBytes - 4) raw)
       then fail EC_PersistenceCorrupt
     else Inr (scan_records (drop kJournalHeaderBytes raw) after_sequence))"

section \<open>Snapshots and the manifest\<close>

definition encode_snapshot :: "snapshot_image \<Rightarrow> bytes" where
  "encode_snapshot img =
    (let header = kSnapshotMagic @ put_be 4 BB_STORE_FORMAT_VERSION @ put_be 4 (0 :: u32) @
           put_be 8 (si_sequence img) @ put_be 8 (rh_tick (si_header img)) @
           put_be 8 (rh_epoch (si_header img)) @ put_be 8 (rh_coordinator (si_header img)) @
           put_be 8 (of_nat (length (si_payload img)) :: u64)
     in header @ put_be 4 (crc32c header) @ si_payload img @ put_be 4 (crc32c (si_payload img)))"

definition read_snapshot :: "bytes \<Rightarrow> snapshot_image option" where
  "read_snapshot raw =
    (if length raw < kSnapshotHeaderBytes then None
     else if take 8 raw \<noteq> kSnapshotMagic then None
     else if field 8 4 raw \<noteq> BB_STORE_FORMAT_VERSION then None
     else if field 12 4 raw \<noteq> (0 :: u32) then None
     else let payload_length = unat (field 48 8 raw :: u64) in
       if field (kSnapshotHeaderBytes - 4) 4 raw \<noteq> crc32c (take (kSnapshotHeaderBytes - 4) raw) then None
       else if payload_length > kMaxStoreFileBytes \<or> length raw \<noteq> kSnapshotHeaderBytes + payload_length + 4 then None
       else if crc32c (take payload_length (drop kSnapshotHeaderBytes raw)) \<noteq>
               field (kSnapshotHeaderBytes + payload_length) 4 raw then None
       else Some \<lparr> si_header = \<lparr> rh_sequence = field 16 8 raw, rh_tick = field 24 8 raw,
                     rh_epoch = field 32 8 raw, rh_coordinator = field 40 8 raw \<rparr>,
              si_sequence = field 16 8 raw,
              si_payload = take payload_length (drop kSnapshotHeaderBytes raw) \<rparr>)"

definition encode_manifest :: "u64 \<Rightarrow> bytes" where
  "encode_manifest snapshot_sequence =
    (let raw = kManifestMagic @ put_be 4 BB_STORE_FORMAT_VERSION @ put_be 4 (0 :: u32) @
           put_be 8 snapshot_sequence @ put_be 8 (0 :: u64) @ put_be 8 (0 :: u64) @ put_be 8 (0 :: u64)
     in raw @ put_be 4 (crc32c raw))"

definition check_manifest :: "bytes \<Rightarrow> u64 result" where
  "check_manifest raw =
    (if length raw \<noteq> kManifestBytes then fail EC_PersistenceCorrupt
     else if take 8 raw \<noteq> kManifestMagic then fail EC_PersistenceCorrupt
     else if field 8 4 raw \<noteq> BB_STORE_FORMAT_VERSION then fail EC_PersistenceVersionUnsupported
     else if crc32c (take (kManifestBytes - 4) raw) \<noteq> field (kManifestBytes - 4) 4 raw
       then fail EC_PersistenceCorrupt
     else Inr (field 16 8 raw))"

section \<open>Reading back what was written\<close>

definition bytes_of :: "durable_record \<Rightarrow> bytes" where
  "bytes_of r = record_bytes (re_type r) (re_header r) (re_payload r)"

definition record_ok :: "durable_record \<Rightarrow> bool" where
  "record_ok r \<longleftrightarrow> length (re_payload r) \<le> kMaxPayloadBytes"

lemma record_code_round: "is_known_record_type (record_code t) \<and> record_type_of (record_code t) = t"
  by (cases t) (simp_all add: record_code_def record_types_def is_known_record_type_def record_type_of_def
      word_le_nat_alt)

lemma length_encode_record_header: "length (encode_record_header t h n) = kRecordHeaderBytes"
  by (simp add: encode_record_header_def kRecordHeaderBytes_def)

lemma length_bytes_of: "length (bytes_of r) = kRecordHeaderBytes + length (re_payload r) + 4"
  by (simp add: bytes_of_def record_bytes_def Let_def length_encode_record_header)

lemma header_fields:
  "field 0 4 (encode_record_header t h n @ rest) = kRecordMagic"
  "field 4 2 (encode_record_header t h n @ rest) = record_code t"
  "field 8 8 (encode_record_header t h n @ rest) = rh_sequence h"
  "field 16 8 (encode_record_header t h n @ rest) = rh_tick h"
  "field 24 8 (encode_record_header t h n @ rest) = rh_epoch h"
  "field 32 8 (encode_record_header t h n @ rest) = rh_coordinator h"
  "field 40 4 (encode_record_header t h n @ rest) = n"
proof -
  let ?m = "put_be 4 kRecordMagic" let ?t = "put_be 2 (record_code t)" let ?s = "put_be 8 (rh_sequence h)"
  let ?k = "put_be 8 (rh_tick h)" let ?e = "put_be 8 (rh_epoch h)" let ?c = "put_be 8 (rh_coordinator h)"
  let ?n = "put_be 4 n" let ?z = "[0, 0, 0, 0] @ rest" let ?p = "[0, 0] :: bytes"
  show "field 0 4 (encode_record_header t h n @ rest) = kRecordMagic"
    "field 4 2 (encode_record_header t h n @ rest) = record_code t"
    "field 8 8 (encode_record_header t h n @ rest) = rh_sequence h"
    "field 16 8 (encode_record_header t h n @ rest) = rh_tick h"
    "field 24 8 (encode_record_header t h n @ rest) = rh_epoch h"
    "field 32 8 (encode_record_header t h n @ rest) = rh_coordinator h"
    "field 40 4 (encode_record_header t h n @ rest) = n"
    using field_here [of "[]" 0 4 kRecordMagic "?t @ ?p @ ?s @ ?k @ ?e @ ?c @ ?n @ ?z"]
      field_here [of ?m 4 2 "record_code t" "?p @ ?s @ ?k @ ?e @ ?c @ ?n @ ?z"]
      field_here [of "?m @ ?t @ ?p" 8 8 "rh_sequence h" "?k @ ?e @ ?c @ ?n @ ?z"]
      field_here [of "?m @ ?t @ ?p @ ?s" 16 8 "rh_tick h" "?e @ ?c @ ?n @ ?z"]
      field_here [of "?m @ ?t @ ?p @ ?s @ ?k" 24 8 "rh_epoch h" "?c @ ?n @ ?z"]
      field_here [of "?m @ ?t @ ?p @ ?s @ ?k @ ?e" 32 8 "rh_coordinator h" "?n @ ?z"]
      field_here [of "?m @ ?t @ ?p @ ?s @ ?k @ ?e @ ?c" 40 4 n ?z]
    by (simp_all add: encode_record_header_def)
qed

lemma payload_size:
  assumes "record_ok r"
  shows "unat (of_nat (length (re_payload r)) :: u32) = length (re_payload r)"
  using assms unat_of_nat32 [of "length (re_payload r)"] by (simp add: record_ok_def kMaxPayloadBytes_def)

lemma scan_step:
  assumes "record_ok r" and "scan_records rest after = (rs, truncated)"
  shows "scan_records (bytes_of r @ rest) after =
    (if rh_sequence (re_header r) > after then r # rs else rs, truncated)"
proof -
  let ?n = "length (re_payload r)" let ?h = "encode_record_header (re_type r) (re_header r) (of_nat ?n)"
  let ?c = "put_be 4 (crc32c (?h @ re_payload r))"
  define raw where "raw = ?h @ re_payload r @ ?c @ rest"
  have e: "bytes_of r @ rest = raw" by (simp add: raw_def bytes_of_def record_bytes_def Let_def)
  have crc: "field (kRecordHeaderBytes + ?n) 4 raw = crc32c (?h @ re_payload r)"
    using field_here [of "?h @ re_payload r" "kRecordHeaderBytes + ?n" 4 "crc32c (?h @ re_payload r)" rest]
    by (simp add: raw_def length_encode_record_header)
  have data: "take (kRecordHeaderBytes + ?n) raw = ?h @ re_payload r"
    "take ?n (drop kRecordHeaderBytes raw) = re_payload r" "drop (kRecordHeaderBytes + ?n + 4) raw = rest"
    by (simp_all add: raw_def length_encode_record_header)
  have size: "raw \<noteq> []" "\<not> length raw < kRecordHeaderBytes" "\<not> length raw < kRecordHeaderBytes + ?n + 4"
    "\<not> kMaxPayloadBytes < ?n"
    using assms(1) length_bytes_of [of r] by (auto simp: record_ok_def kRecordHeaderBytes_def simp flip: e)
  note fields = header_fields [of "re_type r" "re_header r" "of_nat ?n" "re_payload r @ ?c @ rest", folded raw_def]
  show ?thesis
    using assms(2) record_code_round [of "re_type r"]
    by (subst scan_records.simps) (simp add: e fields payload_size [OF assms(1)] crc data size Let_def)
qed

lemma scan_torn:
  assumes "record_ok r" and "0 < n" and "n < length (bytes_of r)"
  shows "scan_records (take n (bytes_of r)) after = ([], True)"
proof (cases "n < kRecordHeaderBytes")
  case True
  then show ?thesis
    using assms by (subst scan_records.simps) auto
next
  case False
  let ?n = "length (re_payload r)" let ?h = "encode_record_header (re_type r) (re_header r) (of_nat ?n)"
  obtain tail where e: "take n (bytes_of r) = ?h @ tail"
    using False by (simp add: bytes_of_def record_bytes_def Let_def length_encode_record_header)
  have "length (take n (bytes_of r)) = n" using assms(3) by simp
  then show ?thesis
    using assms False record_code_round [of "re_type r"]
    by (subst scan_records.simps)
      (auto simp: e header_fields payload_size [OF assms(1)] length_bytes_of Let_def)
qed

lemma scan_all:
  assumes "list_all record_ok rs"
  shows "scan_records (concat (map bytes_of rs) @ rest) after =
    (case scan_records rest after of (rest_records, truncated) \<Rightarrow>
      (filter (\<lambda>r. rh_sequence (re_header r) > after) rs @ rest_records, truncated))"
  using assms
proof (induction rs)
  case Nil
  then show ?case by (simp add: case_prod_beta)
next
  case (Cons r rs)
  then show ?case
    using scan_step [of r "concat (map bytes_of rs) @ rest" after] by (auto split: prod.splits)
qed

lemma scan_nil: "scan_records [] after = ([], False)"
  by (subst scan_records.simps) simp

text \<open>A journal cut off at any byte yields the records that were written completely, and is
  reported as truncated unless the cut falls between two records.\<close>

lemma scan_cut:
  assumes "list_all record_ok rs" and "n \<le> length (concat (map bytes_of rs))"
  shows "\<exists>k \<le> length rs. \<exists>truncated.
    scan_records (take n (concat (map bytes_of rs))) after =
      (filter (\<lambda>r. rh_sequence (re_header r) > after) (take k rs), truncated) \<and>
    length (concat (map bytes_of (take k rs))) \<le> n \<and>
    (k < length rs \<longrightarrow> n < length (concat (map bytes_of (take (Suc k) rs)))) \<and>
    (truncated \<longleftrightarrow> length (concat (map bytes_of (take k rs))) < n)"
  using assms
proof (induction rs arbitrary: n)
  case Nil
  then show ?case by (auto simp: scan_nil)
next
  case (Cons r rs)
  show ?case
  proof (cases "n < length (bytes_of r)")
    case True
    then have "scan_records (take n (concat (map bytes_of (r # rs)))) after = ([], 0 < n)"
      using scan_torn [of r n after] Cons.prems by (cases "n = 0") (simp_all add: scan_nil)
    then show ?thesis using True by (intro exI [of _ 0] conjI exI [of _ "0 < n"]) (simp_all add: take_Suc)
  next
    case False
    define n' where "n' = n - length (bytes_of r)"
    have n: "n = length (bytes_of r) + n'" using False by (simp add: n'_def)
    obtain k truncated where k: "k \<le> length rs"
        "scan_records (take n' (concat (map bytes_of rs))) after =
          (filter (\<lambda>r. rh_sequence (re_header r) > after) (take k rs), truncated)"
        "length (concat (map bytes_of (take k rs))) \<le> n'"
        "k < length rs \<longrightarrow> n' < length (concat (map bytes_of (take (Suc k) rs)))"
        "truncated \<longleftrightarrow> length (concat (map bytes_of (take k rs))) < n'"
      using Cons.IH [of n'] Cons.prems n by auto
    have "take n (concat (map bytes_of (r # rs))) = bytes_of r @ take n' (concat (map bytes_of rs))"
      by (simp add: n)
    then show ?thesis
      using scan_step [OF _ k(2), of r] Cons.prems(1) k n by (intro exI [of _ "Suc k"]) auto
  qed
qed

end
