(* ===== verification/Store.thy ===== *)
theory Store
  imports Persistence
begin

text \<open>
  The operations of \<open>Store\<close> (\<open>persistence.cpp\<close>): opening, recovery, appending a record, compaction into a
  snapshot.  The object's members and the directory it works on form one state; a restart keeps
  the directory and nothing else.  \<open>version_supported\<close> (never changed) and the text \<open>detail\<close> of the
  report are left out.
\<close>

section \<open>State\<close>

datatype io_result = IO_done | IO_fault nat

record store_dir =
  dr_manifest :: "bytes option"
  dr_snapshots :: "(u64, bytes) omap"
  dr_journals :: "(u64, bytes) omap"

record store_options =
  so_fsync_on_commit :: bool
  so_compaction_records :: nat
  so_max_journal_records :: nat

record recovery_report =
  rp_durable :: bool
  rp_fresh :: bool
  rp_manifest_present :: bool
  rp_snapshot_loaded :: bool
  rp_snapshot_corrupt :: bool
  rp_journal_truncated :: bool
  rp_records_replayed :: nat
  rp_records_discarded :: nat
  rp_snapshot_sequence :: u64
  rp_journal_records :: nat
  rp_snapshots_written :: nat
  rp_truncations :: nat
  rp_last_sequence :: ident

record recovery_result =
  rv_report :: recovery_report
  rv_records :: "durable_record list"
  rv_snapshot :: "snapshot_image option"

record store =
  st_dir :: store_dir
  st_options :: store_options
  st_report :: recovery_report
  st_journal :: "u64 option"
  st_last_sequence :: u64
  st_journal_records :: nat
  st_at_capacity :: bool
  st_io :: "io_result list"

definition empty_report :: recovery_report where
  "empty_report = \<lparr> rp_durable = False, rp_fresh = False, rp_manifest_present = False, rp_snapshot_loaded = False,
     rp_snapshot_corrupt = False, rp_journal_truncated = False, rp_records_replayed = 0,
     rp_records_discarded = 0, rp_snapshot_sequence = 0, rp_journal_records = 0, rp_snapshots_written = 0,
     rp_truncations = 0, rp_last_sequence = 0 \<rparr>"

definition empty_dir :: store_dir where
  "empty_dir = \<lparr> dr_manifest = None, dr_snapshots = [], dr_journals = [] \<rparr>"

section \<open>File operations\<close>

definition next_io :: "(store, io_result) op" where
  "next_io st = (case st_io st of [] \<Rightarrow> (st, Inr IO_done) | io # later \<Rightarrow> (st\<lparr>st_io := later\<rparr>, Inr io))"

definition with_dir :: "(store_dir \<Rightarrow> store_dir) \<Rightarrow> store \<Rightarrow> store" where
  "with_dir f st = st\<lparr>st_dir := f (st_dir st)\<rparr>"

definition file_of :: "(u64, bytes) omap \<Rightarrow> u64 \<Rightarrow> bytes" where
  "file_of files seq = (case om_find files seq of None \<Rightarrow> [] | Some raw \<Rightarrow> raw)"

definition extend_journal :: "u64 \<Rightarrow> bytes \<Rightarrow> store_dir \<Rightarrow> store_dir" where
  "extend_journal seq data d =
    d\<lparr>dr_journals := om_set seq (file_of (dr_journals d) seq @ data) (dr_journals d)\<rparr>"

text \<open>Writing to the open journal; the bytes before the fault reach the file.\<close>

definition write_journal :: "u64 \<Rightarrow> bytes \<Rightarrow> (store, unit) op" where
  "write_journal seq data =
    opbind next_io (\<lambda>io. case io of
        IO_done \<Rightarrow> opmod (with_dir (extend_journal seq data))
      | IO_fault n \<Rightarrow> opbind (opmod (with_dir (extend_journal seq (take n data))))
          (\<lambda>_. oplift (fail EC_PersistenceIo)))"

text \<open>Files that are written beside their target and renamed: all or nothing.\<close>

definition write_file :: "(store_dir \<Rightarrow> store_dir) \<Rightarrow> (store, unit) op" where
  "write_file f = opbind next_io (\<lambda>io. case io of
       IO_done \<Rightarrow> opmod (with_dir f) | IO_fault _ \<Rightarrow> oplift (fail EC_PersistenceIo))"

definition read_file :: "bytes \<Rightarrow> nat \<Rightarrow> (store, bytes) op" where
  "read_file raw limit = opbind next_io (\<lambda>io. case io of
       IO_fault _ \<Rightarrow> oplift (fail EC_PersistenceIo)
     | IO_done \<Rightarrow> if length raw > limit then oplift (fail EC_PersistenceCorrupt) else opret raw)"

definition write_manifest :: "u64 \<Rightarrow> (store, unit) op" where
  "write_manifest snapshot_sequence = write_file (\<lambda>d. d\<lparr>dr_manifest := Some (encode_manifest snapshot_sequence)\<rparr>)"

text \<open>Creating a journal truncates an existing file of that name; a fault while the header is
  written leaves a prefix of it.\<close>

definition create_journal :: "u64 \<Rightarrow> (store, unit) op" where
  "create_journal first_sequence =
    opbind next_io (\<lambda>io. case io of
        IO_fault n \<Rightarrow>
          opbind (opmod (with_dir (\<lambda>d. d\<lparr>dr_journals :=
              om_set first_sequence (take n (journal_header first_sequence)) (dr_journals d)\<rparr>)))
            (\<lambda>_. oplift (fail EC_PersistenceIo))
      | IO_done \<Rightarrow>
          opmod (\<lambda>st. (with_dir (\<lambda>d. d\<lparr>dr_journals :=
              om_set first_sequence (journal_header first_sequence) (dr_journals d)\<rparr>) st)
            \<lparr>st_journal := Some first_sequence, st_journal_records := 0\<rparr>))"

text \<open>Enumerating the directory.  When the iterator cannot be opened it is the end iterator: the
  loops over it run zero times and the error tests inside them are never reached.\<close>

definition list_files :: "(store, store_dir) op" where
  "list_files = opbind next_io (\<lambda>io. case io of
       IO_done \<Rightarrow> opget st_dir | IO_fault _ \<Rightarrow> opret empty_dir)"

section \<open>Opening and recovery\<close>

definition new_store :: "store_dir option \<Rightarrow> io_result list \<Rightarrow> store_options \<Rightarrow> store" where
  "new_store directory io options =
    \<lparr> st_dir = (case directory of None \<Rightarrow> empty_dir | Some d \<Rightarrow> d), st_options = options,
      st_report = empty_report\<lparr>rp_durable := True, rp_fresh := (directory = None)\<rparr>,
      st_journal = None, st_last_sequence = 0, st_journal_records = 0, st_at_capacity = False, st_io = io \<rparr>"

text \<open>\<open>None\<close> is a directory that does not exist yet; creating it is a file operation.\<close>

definition store_open :: "bytes \<Rightarrow> store_dir option \<Rightarrow> io_result list \<Rightarrow> store_options \<Rightarrow> store result" where
  "store_open name directory io options =
    (if name = [] then fail EC_InvalidArgument
     else if length name > 1024 then fail EC_BoundsExceeded
     else case directory of
         Some d \<Rightarrow> Inr (new_store (Some d) io options)
       | None \<Rightarrow> (case io of
             [] \<Rightarrow> Inr (new_store None [] options)
           | IO_done # later \<Rightarrow> Inr (new_store None later options)
           | IO_fault _ # later \<Rightarrow> fail EC_PersistenceIo))"

definition read_manifest :: "(store, u64) op" where
  "read_manifest = opbind (opget (\<lambda>st. dr_manifest (st_dir st))) (\<lambda>m. case m of
       None \<Rightarrow> opret 0
     | Some raw \<Rightarrow> opbind (read_file raw kManifestBytes) (\<lambda>bytes. oplift (check_manifest bytes)))"

fun load_snapshots :: "(u64 \<times> bytes) list \<Rightarrow> bool \<Rightarrow> (store, snapshot_image option \<times> bool) op" where
  "load_snapshots [] corrupt st = (st, Inr (None, corrupt))"
| "load_snapshots ((seq, raw) # older) corrupt st =
    (case read_file raw kMaxStoreFileBytes st of
       (st', Inl _) \<Rightarrow> load_snapshots older True st'
     | (st', Inr bytes) \<Rightarrow> (case read_snapshot bytes of
           None \<Rightarrow> load_snapshots older True st'
         | Some img \<Rightarrow> (st', Inr (Some img, corrupt))))"

text \<open>The journals in ascending order; the loop stops at the first damaged one.\<close>

fun scan_journals :: "(u64 \<times> bytes) list \<Rightarrow> u64 \<Rightarrow> (store, durable_record list \<times> bool) op" where
  "scan_journals [] after = opret ([], False)"
| "scan_journals ((seq, raw) # newer) after =
    (if seq = 0 then scan_journals newer after
     else opbind (read_file raw kMaxStoreFileBytes) (\<lambda>bytes.
       opbind (oplift (scan_journal bytes after)) (\<lambda>(records, truncated).
         if truncated then opret (records, True)
         else opbind (scan_journals newer after) (\<lambda>(more_records, t). opret (records @ more_records, t)))))"

definition recovered_report ::
  "recovery_report \<Rightarrow> bool \<Rightarrow> bool \<Rightarrow> snapshot_image option \<Rightarrow> bool \<Rightarrow> durable_record list \<Rightarrow> bool \<Rightarrow> recovery_report" where
  "recovered_report report is_empty manifest_present snapshot corrupt records truncated =
    report\<lparr>rp_durable := True, rp_manifest_present := manifest_present,
      rp_fresh := (if is_empty then True else rp_fresh report),
      rp_snapshot_loaded := (snapshot \<noteq> None \<or> rp_snapshot_loaded report),
      rp_snapshot_sequence := (case snapshot of None \<Rightarrow> rp_snapshot_sequence report | Some img \<Rightarrow> si_sequence img),
      rp_snapshot_corrupt := (corrupt \<or> rp_snapshot_corrupt report),
      rp_records_discarded := rp_records_discarded report + (if truncated then 1 else 0),
      rp_journal_truncated := (truncated \<or> rp_journal_truncated report),
      rp_truncations := rp_truncations report + (if truncated then 1 else 0),
      rp_records_replayed := length records, rp_journal_records := length records,
      rp_last_sequence := (if records \<noteq> [] then rh_sequence (re_header (last records))
        else case snapshot of None \<Rightarrow> rp_last_sequence report | Some img \<Rightarrow> si_sequence img)\<rparr>"

definition check_layout :: "store_dir \<Rightarrow> bool \<Rightarrow> (store, unit) op" where
  "check_layout files manifest_present =
    (if dr_snapshots files = [] \<and> dr_journals files = []
     then (if manifest_present then opret () else write_manifest 0)
     else if \<not> manifest_present then oplift (fail EC_PersistenceCorrupt) else opret ())"

definition finish_recovery ::
  "store_dir \<Rightarrow> bool \<Rightarrow> snapshot_image option \<times> bool \<Rightarrow> durable_record list \<times> bool \<Rightarrow> (store, recovery_result) op" where
  "finish_recovery files manifest_present loaded scanned =
    opbind (opget st_report) (\<lambda>report0.
      let report = recovered_report report0 (dr_snapshots files = [] \<and> dr_journals files = []) manifest_present
                     (fst loaded) (snd loaded) (fst scanned) (snd scanned) in
      opbind (opmod (\<lambda>st. st\<lparr>st_last_sequence := rp_last_sequence report, st_report := report,
        st_at_capacity := False\<rparr>)) (\<lambda>_.
      opbind (create_journal (rp_last_sequence report + 1)) (\<lambda>_.
        opret \<lparr> rv_report = report, rv_records = fst scanned, rv_snapshot = fst loaded \<rparr>)))"

text \<open>The error of \<open>read_manifest\<close> is kept and returned only after the layout has been checked.\<close>

definition store_recover :: "(store, recovery_result) op" where
  "store_recover st0 =
    (case read_manifest st0 of (st1, manifest) \<Rightarrow>
      let manifest_present = (dr_manifest (st_dir st0) \<noteq> None) in
      opbind list_files (\<lambda>files.
      opbind (check_layout files manifest_present) (\<lambda>_.
      opbind (oplift manifest) (\<lambda>_.
      opbind (load_snapshots (rev (dr_snapshots files)) False) (\<lambda>loaded.
      opbind (scan_journals (dr_journals files)
               (case fst loaded of None \<Rightarrow> 0 | Some img \<Rightarrow> si_sequence img)) (\<lambda>scanned.
        finish_recovery files manifest_present loaded scanned))))) st1)"

section \<open>Appending and compaction\<close>

definition store_append :: "record_type \<Rightarrow> record_header \<Rightarrow> bytes \<Rightarrow> (store, unit) op" where
  "store_append type header payload =
    opbind (opget st_journal) (\<lambda>journal. case journal of
      None \<Rightarrow> oplift (fail EC_PersistenceIo)
    | Some seq \<Rightarrow>
        if \<not> valid_id (rh_sequence header) then oplift (fail EC_InvalidIdentity)
        else if length payload > kMaxPayloadBytes then oplift (fail EC_BoundsExceeded)
        else opbind (opget (\<lambda>st. st_journal_records st \<ge> so_max_journal_records (st_options st))) (\<lambda>is_full.
          if is_full then opbind (opmod (\<lambda>st. st\<lparr>st_at_capacity := True\<rparr>)) (\<lambda>_. oplift (fail EC_ResourceExhausted))
          else opbind (write_journal seq (record_bytes type header payload)) (\<lambda>_.
            opmod (\<lambda>st. st\<lparr>st_journal_records := st_journal_records st + 1,
                           st_last_sequence := rh_sequence header\<rparr>))))"

definition store_flush :: "(store, unit) op" where
  "store_flush = opbind (opget st_journal) (\<lambda>journal. if journal = None then opret ()
     else opbind next_io (\<lambda>io. case io of IO_done \<Rightarrow> opret () | IO_fault _ \<Rightarrow> oplift (fail EC_PersistenceIo)))"

definition needs_compaction :: "store \<Rightarrow> bool" where
  "needs_compaction st \<longleftrightarrow> st_at_capacity st \<or> st_journal_records st \<ge> so_compaction_records (st_options st)"

text \<open>Removing a file; the result of \<open>fs::remove\<close> is ignored.\<close>

definition remove_journal :: "u64 \<Rightarrow> (store, unit) op" where
  "remove_journal seq = opbind next_io (\<lambda>io. case io of
       IO_done \<Rightarrow> opmod (with_dir (\<lambda>d. d\<lparr>dr_journals := om_erase seq (dr_journals d)\<rparr>)) | IO_fault _ \<Rightarrow> opret ())"

definition remove_snapshot :: "u64 \<Rightarrow> (store, unit) op" where
  "remove_snapshot seq = opbind next_io (\<lambda>io. case io of
       IO_done \<Rightarrow> opmod (with_dir (\<lambda>d. d\<lparr>dr_snapshots := om_erase seq (dr_snapshots d)\<rparr>)) | IO_fault _ \<Rightarrow> opret ())"

definition prune_snapshots :: "(store, unit) op" where
  "prune_snapshots = opbind list_files (\<lambda>files.
     let seqs = map fst (dr_snapshots files)
     in opfor remove_snapshot (take (length seqs - kMaxSnapshotCount) seqs))"

definition store_compact :: "snapshot_image \<Rightarrow> (store, unit) op" where
  "store_compact img =
    (if length (si_payload img) > kMaxStoreFileBytes then oplift (fail EC_BoundsExceeded)
     else opbind (write_file (\<lambda>d. d\<lparr>dr_snapshots := om_set (si_sequence img) (encode_snapshot img) (dr_snapshots d)\<rparr>)) (\<lambda>_.
       opbind (write_manifest (si_sequence img)) (\<lambda>_.
       opbind (opmod (\<lambda>st. st\<lparr>st_journal := None\<rparr>)) (\<lambda>_.
       opbind list_files (\<lambda>files.
       opbind (opfor remove_journal (filter (\<lambda>seq. seq \<le> si_sequence img) (map fst (dr_journals files)))) (\<lambda>_.
       opbind prune_snapshots (\<lambda>_.
       opbind (opmod (\<lambda>st. st\<lparr>st_journal_records := 0, st_at_capacity := False,
           st_report := (st_report st)\<lparr>rp_snapshots_written := rp_snapshots_written (st_report st) + 1,
             rp_snapshot_sequence := si_sequence img\<rparr>,
           st_last_sequence := si_sequence img\<rparr>)) (\<lambda>_.
         create_journal (si_sequence img + 1)))))))))"

definition store_report :: "store \<Rightarrow> recovery_report" where
  "store_report st = (st_report st)\<lparr>rp_journal_records := st_journal_records st\<rparr>"

end
