(* ===== verification/Store_Laws.thy ===== *)
theory Store_Laws
  imports Store
begin

text \<open>
  What survives a restart.  A journal is clean when it is its header followed by complete
  records.  An append that reports success extends the clean journal by exactly its record, and
  recovery of a clean directory returns every record.  Recovery from a torn journal returns the
  complete records, but leaves the damaged file in place: the next recovery stops at it again and
  never reaches the journals written since.
\<close>

section \<open>File formats\<close>

lemma length_journal_header: "length (journal_header seq) = kJournalHeaderBytes"
  by (simp add: journal_header_def Let_def kJournalMagic_def kJournalHeaderBytes_def)

lemma scan_journal_header: "scan_journal (journal_header seq @ body) after = Inr (scan_records body after)"
proof -
  let ?h = "kJournalMagic @ put_be 4 BB_STORE_FORMAT_VERSION @ put_be 4 (0 :: u32) @ put_be 8 seq"
  define raw where "raw = journal_header seq @ body"
  have len: "length kJournalMagic = 8" by (simp add: kJournalMagic_def)
  have e: "raw = ?h @ put_be 4 (crc32c ?h) @ body" by (simp add: raw_def journal_header_def Let_def)
  have "length raw \<ge> kJournalHeaderBytes" "drop kJournalHeaderBytes raw = body"
    by (simp_all add: raw_def length_journal_header)
  moreover have "take 8 raw = kJournalMagic" by (simp add: e len)
  moreover have "field 8 4 raw = BB_STORE_FORMAT_VERSION"
    using field_here [of kJournalMagic 8 4 BB_STORE_FORMAT_VERSION] by (simp add: e len)
  moreover have "field 24 4 raw = crc32c ?h" using field_here [of ?h 24 4 "crc32c ?h" body] by (simp add: e len)
  moreover have "take 24 raw = ?h" by (simp add: e len)
  ultimately show ?thesis by (simp add: scan_journal_def raw_def kJournalHeaderBytes_def)
qed

lemma length_encode_manifest: "length (encode_manifest seq) = kManifestBytes"
  by (simp add: encode_manifest_def Let_def kManifestMagic_def kManifestBytes_def)

lemma check_encode_manifest: "check_manifest (encode_manifest seq) = Inr seq"
proof -
  let ?p = "kManifestMagic @ put_be 4 BB_STORE_FORMAT_VERSION @ put_be 4 (0 :: u32)"
  let ?z = "put_be 8 (0 :: u64) @ put_be 8 (0 :: u64) @ put_be 8 (0 :: u64)"
  let ?h = "?p @ put_be 8 seq @ ?z"
  define raw where "raw = encode_manifest seq"
  have len: "length kManifestMagic = 8" by (simp add: kManifestMagic_def)
  have e: "raw = ?h @ put_be 4 (crc32c ?h)" by (simp add: raw_def encode_manifest_def Let_def)
  have "length raw = kManifestBytes" by (simp add: e len kManifestBytes_def)
  moreover have "take 8 raw = kManifestMagic" by (simp add: e len)
  moreover have "field 8 4 raw = BB_STORE_FORMAT_VERSION"
    using field_here [of kManifestMagic 8 4 BB_STORE_FORMAT_VERSION] by (simp add: e len)
  moreover have "field 48 4 raw = crc32c ?h" using field_here [of ?h 48 4 "crc32c ?h" "[]"] by (simp add: e len)
  moreover have "take 48 raw = ?h" by (simp add: e len)
  moreover have "field 16 8 raw = seq"
    using field_here [of ?p 16 8 seq "?z @ put_be 4 (crc32c ?h)"] by (simp add: e len)
  ultimately show ?thesis by (simp add: check_manifest_def raw_def kManifestBytes_def)
qed

definition image_ok :: "snapshot_image \<Rightarrow> bool" where
  "image_ok img \<longleftrightarrow> length (si_payload img) \<le> kMaxStoreFileBytes \<and> rh_sequence (si_header img) = si_sequence img"

lemma read_encode_snapshot:
  assumes "image_ok img"
  shows "read_snapshot (encode_snapshot img) = Some img"
proof -
  let ?i = "si_header img" let ?d = "si_payload img" let ?n = "length ?d"
  let ?m = kSnapshotMagic let ?v = "put_be 4 BB_STORE_FORMAT_VERSION" let ?z = "put_be 4 (0 :: u32)"
  let ?s = "put_be 8 (si_sequence img)" let ?t = "put_be 8 (rh_tick ?i)" let ?e = "put_be 8 (rh_epoch ?i)"
  let ?c = "put_be 8 (rh_coordinator ?i)" let ?l = "put_be 8 (of_nat ?n :: u64)"
  let ?h = "?m @ ?v @ ?z @ ?s @ ?t @ ?e @ ?c @ ?l" let ?k = "put_be 4 (crc32c ?h)" let ?x = "put_be 4 (crc32c ?d)"
  define raw where "raw = encode_snapshot img"
  have len: "length ?m = 8" by (simp add: kSnapshotMagic_def)
  have raw: "raw = ?h @ ?k @ ?d @ ?x" by (simp add: raw_def encode_snapshot_def Let_def)
  have n: "?n \<le> kMaxStoreFileBytes" "unat (of_nat ?n :: u64) = ?n"
    using assms unat_of_nat64 [of ?n] by (simp_all add: image_ok_def kMaxStoreFileBytes_def)
  have f: "field 8 4 raw = BB_STORE_FORMAT_VERSION" "field 12 4 raw = (0 :: u32)" "field 16 8 raw = si_sequence img"
    "field 24 8 raw = rh_tick ?i" "field 32 8 raw = rh_epoch ?i" "field 40 8 raw = rh_coordinator ?i"
    "field 48 8 raw = (of_nat ?n :: u64)" "field 56 4 raw = crc32c ?h" "field (60 + ?n) 4 raw = crc32c ?d"
    using field_here [of ?m 8 4 BB_STORE_FORMAT_VERSION "?z @ ?s @ ?t @ ?e @ ?c @ ?l @ ?k @ ?d @ ?x"]
      field_here [of "?m @ ?v" 12 4 "0 :: u32" "?s @ ?t @ ?e @ ?c @ ?l @ ?k @ ?d @ ?x"]
      field_here [of "?m @ ?v @ ?z" 16 8 "si_sequence img" "?t @ ?e @ ?c @ ?l @ ?k @ ?d @ ?x"]
      field_here [of "?m @ ?v @ ?z @ ?s" 24 8 "rh_tick ?i" "?e @ ?c @ ?l @ ?k @ ?d @ ?x"]
      field_here [of "?m @ ?v @ ?z @ ?s @ ?t" 32 8 "rh_epoch ?i" "?c @ ?l @ ?k @ ?d @ ?x"]
      field_here [of "?m @ ?v @ ?z @ ?s @ ?t @ ?e" 40 8 "rh_coordinator ?i" "?l @ ?k @ ?d @ ?x"]
      field_here [of "?m @ ?v @ ?z @ ?s @ ?t @ ?e @ ?c" 48 8 "of_nat ?n :: u64" "?k @ ?d @ ?x"]
      field_here [of ?h 56 4 "crc32c ?h" "?d @ ?x"] field_here [of "?h @ ?k @ ?d" "60 + ?n" 4 "crc32c ?d" "[]"]
    by (simp_all add: raw len)
  have "length raw = 60 + ?n + 4" "take 8 raw = ?m" "take 56 raw = ?h" "take ?n (drop 60 raw) = ?d"
    by (simp_all add: raw len)
  then show ?thesis
    using n f assms by (simp add: read_snapshot_def raw_def kSnapshotHeaderBytes_def image_ok_def Let_def)
qed

section \<open>Recovery without faults\<close>

lemma om_set_last: "\<forall>a \<in> set (map fst m). a < k \<Longrightarrow> om_set k w (m @ [(k, v)]) = m @ [(k, w)]"
  by (induction m) (auto dest: less_imp_neq)

lemma om_set_after: "\<forall>a \<in> set (map fst m). a < k \<Longrightarrow> om_set k w m = m @ [(k, w)]"
  by (induction m) (auto dest: less_imp_neq)

lemma om_find_last: "\<forall>a \<in> set (map fst m). a < k \<Longrightarrow> om_find (m @ [(k :: 'k::linorder, v)]) k = Some v"
  by (induction m) (auto dest: less_imp_neq)

definition newer :: "u64 \<Rightarrow> durable_record list \<Rightarrow> durable_record list" where
  "newer after rs = filter (\<lambda>r. rh_sequence (re_header r) > after) rs"

definition clean_file :: "u64 \<times> durable_record list \<Rightarrow> u64 \<times> bytes" where
  "clean_file j = (fst j, journal_header (fst j) @ concat (map bytes_of (snd j)))"

definition clean_journal :: "u64 \<times> durable_record list \<Rightarrow> bool" where
  "clean_journal j \<longleftrightarrow> fst j \<noteq> 0 \<and> list_all record_ok (snd j) \<and> length (snd (clean_file j)) \<le> kMaxStoreFileBytes"

definition base_sequence :: "snapshot_image option \<Rightarrow> u64" where
  "base_sequence snap = (case snap of None \<Rightarrow> 0 | Some img \<Rightarrow> si_sequence img)"

text \<open>The newest snapshot file, if there is any, holds the image.\<close>

definition snapshots_hold :: "snapshot_image option \<Rightarrow> (u64, bytes) omap \<Rightarrow> bool" where
  "snapshots_hold snap files \<longleftrightarrow> (case snap of None \<Rightarrow> files = []
     | Some img \<Rightarrow> image_ok img \<and> length (encode_snapshot img) \<le> kMaxStoreFileBytes \<and>
         (\<exists>older. files = older @ [(si_sequence img, encode_snapshot img)]))"

lemma next_io_quiet [simp]: "st_io st = [] \<Longrightarrow> next_io st = (st, Inr IO_done)"
  by (simp add: next_io_def)

lemma read_file_quiet: "st_io st = [] \<Longrightarrow> length raw \<le> limit \<Longrightarrow> read_file raw limit st = (st, Inr raw)"
  by (simp add: read_file_def op_eval)

lemma load_snapshots_quiet:
  assumes "st_io st = []" and "snapshots_hold snap files"
  shows "load_snapshots (rev files) False st = (st, Inr (snap, False))"
  using assms by (cases snap) (auto simp: snapshots_hold_def read_file_quiet read_encode_snapshot)

lemma scan_clean_file:
  assumes "clean_journal j"
  shows "scan_journal (snd (clean_file j)) after = Inr (newer after (snd j), False)"
  using assms scan_all [of "snd j" "[]" after]
  by (simp add: clean_journal_def clean_file_def scan_journal_header scan_nil newer_def)

lemma scan_journals_clean:
  assumes "st_io st = []" and "list_all clean_journal js"
  shows "scan_journals (map clean_file js @ rest) after st =
    opbind (scan_journals rest after) (\<lambda>(records, t). opret (newer after (concat (map snd js)) @ records, t)) st"
  using assms(2)
proof (induction js)
  case Nil
  then show ?case by (simp add: newer_def op_eval split: prod.splits sum.splits)
next
  case (Cons j js)
  have j: "fst j \<noteq> 0" "length (snd (clean_file j)) \<le> kMaxStoreFileBytes"
    using Cons.prems by (simp_all add: clean_journal_def)
  have read: "read_file (snd (clean_file j)) kMaxStoreFileBytes st = (st, Inr (snd (clean_file j)))"
    by (rule read_file_quiet [OF assms(1) j(2)])
  have scan: "scan_journal (snd (clean_file j)) after = Inr (newer after (snd j), False)"
    using Cons.prems by (intro scan_clean_file) simp
  have f: "clean_file j = (fst j, snd (clean_file j))" by (simp add: clean_file_def)
  show ?case
    using Cons.IH Cons.prems j(1)
    by (simp, subst f)
      (simp add: read scan op_eval newer_def split: prod.splits sum.splits)
qed

lemma create_journal_quiet:
  "st_io st = [] \<Longrightarrow> create_journal seq st =
    ((with_dir (\<lambda>d. d\<lparr>dr_journals := om_set seq (journal_header seq) (dr_journals d)\<rparr>) st)
      \<lparr>st_journal := Some seq, st_journal_records := 0\<rparr>, success)"
  by (simp add: create_journal_def op_eval)

definition last_of :: "snapshot_image option \<Rightarrow> durable_record list \<Rightarrow> ident \<Rightarrow> ident" where
  "last_of snap records before =
    (if records \<noteq> [] then rh_sequence (re_header (last records)) else case snap of None \<Rightarrow> before | Some img \<Rightarrow> si_sequence img)"

text \<open>Recovery of a directory whose journals scan to the given records.\<close>

lemma recover_quiet:
  assumes "st_io st = []" and "dr_manifest (st_dir st) = Some (encode_manifest m)"
    and "snapshots_hold snap (dr_snapshots (st_dir st))"
    and "scan_journals (dr_journals (st_dir st)) (base_sequence snap) st = (st, Inr (records, truncated))"
  shows "\<exists>st' res. store_recover st = (st', Inr res) \<and> rv_records res = records \<and> rv_snapshot res = snap \<and>
    rp_journal_truncated (rv_report res) = (truncated \<or> rp_journal_truncated (st_report st)) \<and>
    st_io st' = [] \<and> st_options st' = st_options st \<and> st_journal_records st' = 0 \<and>
    (let seq = last_of snap records (rp_last_sequence (st_report st)) + 1 in
      st_journal st' = Some seq \<and>
      st_dir st' = (st_dir st)\<lparr>dr_journals := om_set seq (journal_header seq) (dr_journals (st_dir st))\<rparr>)"
proof -
  have manifest: "read_manifest st = (st, Inr m)"
    using assms(1,2) read_file_quiet [OF assms(1), of "encode_manifest m" kManifestBytes]
    by (simp add: read_manifest_def op_eval length_encode_manifest check_encode_manifest)
  have list: "list_files st = (st, Inr (st_dir st))" using assms(1) by (simp add: list_files_def op_eval)
  have layout: "check_layout (st_dir st) True st = (st, success)" by (simp add: check_layout_def op_eval)
  note loaded = load_snapshots_quiet [OF assms(1,3)]
  show ?thesis
    using assms(1,2,4) manifest layout loaded
    by (simp add: store_recover_def list base_sequence_def
        finish_recovery_def create_journal_quiet op_eval Let_def recovered_report_def with_dir_def last_of_def
        split: option.splits)
qed

section \<open>Acknowledged records\<close>

lemma append_success:
  assumes "store_append t h p st = (st', success)"
  shows "\<exists>seq. st_journal st = Some seq \<and> length p \<le> kMaxPayloadBytes \<and> valid_id (rh_sequence h) \<and>
    st_dir st' = extend_journal seq (record_bytes t h p) (st_dir st) \<and> st_journal st' = Some seq \<and>
    st_options st' = st_options st"
  using assms
  by (auto simp: store_append_def write_journal_def next_io_def op_eval with_dir_def not_less
      split: option.splits if_splits list.splits io_result.splits)

lemma append_quiet:
  assumes "st_io st = []" and "st_journal st = Some seq" and "valid_id (rh_sequence h)" and "length p \<le> kMaxPayloadBytes"
    and "st_journal_records st < so_max_journal_records (st_options st)"
  shows "\<exists>st'. store_append t h p st = (st', success)"
  using assms by (simp add: store_append_def write_journal_def op_eval)

text \<open>The state of a store between operations when nothing has been torn.\<close>

definition clean_store :: "snapshot_image option \<Rightarrow> (u64 \<times> durable_record list) list \<Rightarrow> store_dir \<Rightarrow> bool" where
  "clean_store snap js d \<longleftrightarrow> (\<exists>m. dr_manifest d = Some (encode_manifest m)) \<and> snapshots_hold snap (dr_snapshots d) \<and>
    dr_journals d = map clean_file js \<and> list_all clean_journal js \<and> sorted_wrt (<) (map fst js)"

definition reopen :: "store_dir \<Rightarrow> store_options \<Rightarrow> store" where
  "reopen d options = new_store (Some d) [] options"

lemma reopen_simps [simp]:
  "st_io (reopen d options) = []" "st_dir (reopen d options) = d" "st_options (reopen d options) = options"
  "rp_journal_truncated (st_report (reopen d options)) = False" "rp_last_sequence (st_report (reopen d options)) = 0"
  by (simp_all add: reopen_def new_store_def empty_report_def)

lemma recover_clean:
  assumes "clean_store snap js d"
  shows "\<exists>st res. store_recover (reopen d options) = (st, Inr res) \<and> rv_snapshot res = snap \<and>
    rv_records res = newer (base_sequence snap) (concat (map snd js)) \<and> \<not> rp_journal_truncated (rv_report res)"
proof -
  let ?st = "reopen d options"
  obtain m where m: "dr_manifest (st_dir ?st) = Some (encode_manifest m)" using assms by (auto simp: clean_store_def)
  have snap: "snapshots_hold snap (dr_snapshots (st_dir ?st))" using assms by (simp add: clean_store_def)
  have "scan_journals (dr_journals (st_dir ?st)) (base_sequence snap) ?st =
      (?st, Inr (newer (base_sequence snap) (concat (map snd js)), False))"
    using assms scan_journals_clean [of ?st js "[]" "base_sequence snap"] by (simp add: clean_store_def op_eval)
  from recover_quiet [OF reopen_simps(1) m snap this] show ?thesis by auto
qed

lemma append_clean:
  assumes "clean_store snap (js @ [(seq, rs)]) (st_dir st)" and "st_journal st = Some seq"
    and "store_append t h p st = (st', success)"
    and "length (file_of (dr_journals (st_dir st')) seq) \<le> kMaxStoreFileBytes"
  shows "clean_store snap (js @ [(seq, rs @ [\<lparr> re_type = t, re_header = h, re_payload = p \<rparr>])]) (st_dir st')"
proof -
  let ?r = "\<lparr> re_type = t, re_header = h, re_payload = p \<rparr>"
  have below: "\<forall>a \<in> set (map fst (map clean_file js)). a < seq"
    using assms(1) by (auto simp: clean_store_def sorted_wrt_append clean_file_def)
  have a: "length p \<le> kMaxPayloadBytes" "st_dir st' = extend_journal seq (bytes_of ?r) (st_dir st)"
    using append_success [OF assms(3)] assms(2) by (auto simp: bytes_of_def)
  have js: "dr_journals (st_dir st) = map clean_file js @ [(seq, snd (clean_file (seq, rs)))]"
    using assms(1) by (simp add: clean_store_def clean_file_def)
  have new: "dr_journals (st_dir st') = map clean_file js @ [(seq, snd (clean_file (seq, rs @ [?r])))]"
    by (simp only: a(2) extend_journal_def js file_of_def)
      (simp add: om_find_last [OF below] om_set_last [OF below] clean_file_def)
  then have "file_of (dr_journals (st_dir st')) seq = snd (clean_file (seq, rs @ [?r]))"
    using om_find_last [OF below] by (simp add: file_of_def)
  with assms(1,4) a new show ?thesis
    by (auto simp: clean_store_def clean_journal_def clean_file_def record_ok_def extend_journal_def sorted_wrt_append)
qed

text \<open>A record whose append was acknowledged is returned by the next recovery.\<close>

lemma append_then_recover:
  assumes "clean_store snap (js @ [(seq, rs)]) (st_dir st)" and "st_journal st = Some seq"
    and "store_append t h p st = (st', success)"
    and "length (file_of (dr_journals (st_dir st')) seq) \<le> kMaxStoreFileBytes"
    and "rh_sequence h > base_sequence snap"
  shows "\<exists>st'' res. store_recover (reopen (st_dir st') options) = (st'', Inr res) \<and> rv_snapshot res = snap \<and>
    rv_records res = newer (base_sequence snap) (concat (map snd js) @ rs) @ [\<lparr> re_type = t, re_header = h, re_payload = p \<rparr>]"
  using recover_clean [OF append_clean [OF assms(1-4)], of options] assms(5) by (auto simp: newer_def)

section \<open>After a torn journal\<close>

lemma scan_torn_journal:
  assumes "st_io st = []" and "seq \<noteq> 0" and "list_all record_ok rs" and "record_ok r"
    and "0 < n" and "n < length (bytes_of r)"
    and "length (journal_header seq @ concat (map bytes_of rs) @ take n (bytes_of r)) \<le> kMaxStoreFileBytes"
  shows "scan_journals ((seq, journal_header seq @ concat (map bytes_of rs) @ take n (bytes_of r)) # later) after st =
    (st, Inr (newer after rs, True))"
proof -
  let ?raw = "journal_header seq @ concat (map bytes_of rs) @ take n (bytes_of r)"
  have "scan_journal ?raw after = Inr (newer after rs, True)"
    using scan_all [OF assms(3), of "take n (bytes_of r)" after] scan_torn [OF assms(4-6), of after]
    by (simp add: scan_journal_header newer_def)
  then show ?thesis using assms(2) read_file_quiet [OF assms(1,7)] by (simp add: op_eval)
qed

text \<open>One journal whose last record is torn: the records after the tear are acknowledged, but the
  next recovery does not return them, and it truncates the journal that holds them.\<close>

lemma torn_journal_loses:
  assumes "dr_manifest d = Some (encode_manifest m)" and "dr_snapshots d = []"
    and "dr_journals d = [(1, journal_header 1 @ concat (map bytes_of rs) @ take n (bytes_of r))]"
    and "list_all record_ok rs" and "record_ok r" and "0 < n" and "n < length (bytes_of r)"
    and "length (journal_header 1 @ concat (map bytes_of rs) @ take n (bytes_of r)) \<le> kMaxStoreFileBytes"
    and "rs \<noteq> []" and "\<forall>q \<in> set rs. 0 < rh_sequence (re_header q)" and "rh_sequence (re_header (last rs)) < kMaxValue"
    and "0 < so_max_journal_records options" and "record_ok q" and "valid_id (rh_sequence (re_header q))"
  shows "\<exists>st1 res1 st2 st3 res2. store_recover (reopen d options) = (st1, Inr res1) \<and> rv_records res1 = rs \<and>
    store_append (re_type q) (re_header q) (re_payload q) st1 = (st2, success) \<and>
    store_recover (reopen (st_dir st2) options) = (st3, Inr res2) \<and> rv_records res2 = rs \<and>
    file_of (dr_journals (st_dir st3)) (rh_sequence (re_header (last rs)) + 1) =
      journal_header (rh_sequence (re_header (last rs)) + 1)"
proof -
  let ?torn = "journal_header 1 @ concat (map bytes_of rs) @ take n (bytes_of r)"
  define s where "s = rh_sequence (re_header (last rs)) + 1"
  have newer: "newer 0 rs = rs" using assms(10) by (simp add: newer_def filter_id_conv)
  have "1 < s"
  proof -
    have "0 < rh_sequence (re_header (last rs))" using assms(9,10) by simp
    then show ?thesis
      using unat_succ64 [OF less_imp_neq [OF assms(11)]] by (simp add: s_def word_less_nat_alt)
  qed
  then have big: "s \<noteq> 1" "1 \<noteq> s" "\<not> s < 1" "s \<noteq> 0" by (auto simp: not_less less_imp_le)
  have hold: "snapshots_hold None []" by (simp add: snapshots_hold_def)
  have scan: "scan_journals ((1, ?torn) # later) (base_sequence None) (reopen d' options) = (reopen d' options, Inr (rs, True))"
    for later d' using scan_torn_journal [OF _ _ assms(4-8)] by (simp add: newer base_sequence_def)
  obtain st1 res1 where st1: "store_recover (reopen d options) = (st1, Inr res1)" "rv_records res1 = rs" "st_io st1 = []"
      "st_options st1 = options" "st_journal_records st1 = 0" "st_journal st1 = Some s"
      "st_dir st1 = d\<lparr>dr_journals := [(1, ?torn), (s, journal_header s)]\<rparr>"
    using recover_quiet [of "reopen d options" m None rs True] assms(1-3,9) scan [of "[]" d] hold big
    by (auto simp: last_of_def Let_def simp flip: s_def)
  obtain st2 where st2: "store_append (re_type q) (re_header q) (re_payload q) st1 = (st2, success)"
    using append_quiet [OF st1(3,6) assms(14), of "re_payload q" "re_type q"] assms(12,13) st1(4,5)
    by (auto simp: record_ok_def)
  have dir2: "st_dir st2 = d\<lparr>dr_journals := [(1, ?torn), (s, journal_header s @ bytes_of q)]\<rparr>"
    using append_success [OF st2] st1(6,7) big by (auto simp: extend_journal_def file_of_def bytes_of_def)
  obtain st3 res2 where "store_recover (reopen (st_dir st2) options) = (st3, Inr res2)" "rv_records res2 = rs"
      "st_dir st3 = d\<lparr>dr_journals := [(1, ?torn), (s, journal_header s)]\<rparr>"
    using recover_quiet [of "reopen (st_dir st2) options" m None rs True] assms(1,2,9)
      scan [of "[(s, journal_header s @ bytes_of q)]" "st_dir st2"] hold big
    by (auto simp: last_of_def Let_def dir2 simp flip: s_def)
  then show ?thesis using st1(1,2) st2 big by (auto simp: file_of_def simp flip: s_def)
qed

end
