(* ===== verification/Store_Examples.thy ===== *)
theory Store_Examples
  imports Store_Laws
begin

text \<open>A concrete record and concrete directories, used by the witnesses of the store's properties.\<close>

definition ex_record :: durable_record where
  "ex_record = \<lparr> re_type = RT_EpochAdvanced,
     re_header = \<lparr> rh_sequence = 1, rh_tick = 1, rh_epoch = 1, rh_coordinator = 7 \<rparr>, re_payload = [0, 0, 0, 0, 0, 0, 0, 1] \<rparr>"

definition ex_options :: store_options where
  "ex_options = \<lparr> so_fsync_on_commit = True, so_compaction_records = 50, so_max_journal_records = 100 \<rparr>"

definition ex_dir :: store_dir where
  "ex_dir = \<lparr> dr_manifest = Some (encode_manifest 0), dr_snapshots = [], dr_journals = [(1, journal_header 1)] \<rparr>"

definition ex_torn_dir :: store_dir where
  "ex_torn_dir = \<lparr> dr_manifest = Some (encode_manifest 0), dr_snapshots = [],
     dr_journals = [(1, journal_header 1 @ bytes_of ex_record @ take 9 (bytes_of ex_record))] \<rparr>"

definition ex_store :: store where
  "ex_store = (reopen ex_dir ex_options)\<lparr>st_journal := Some 1\<rparr>"

lemma ex_store_journal: "st_journal ex_store = Some 1"
  by (simp add: ex_store_def)

lemma ex_store_clean: "clean_store None ([] @ [(1, [])]) (st_dir ex_store)"
  by (simp add: clean_store_def ex_store_def ex_dir_def snapshots_hold_def clean_file_def clean_journal_def
      length_journal_header kJournalHeaderBytes_def kMaxStoreFileBytes_def exI [of _ 0])

lemma ex_append: "\<exists>st'. store_append (re_type ex_record) (re_header ex_record) (re_payload ex_record) ex_store = (st', success)"
  by (rule append_quiet [of _ 1])
    (simp_all add: ex_store_def ex_record_def valid_id_def kMaxPayloadBytes_def ex_options_def reopen_def new_store_def)

lemma ex_append_size:
  assumes "store_append (re_type ex_record) (re_header ex_record) (re_payload ex_record) ex_store = (st', success)"
  shows "length (file_of (dr_journals (st_dir st')) 1) \<le> kMaxStoreFileBytes"
  using append_success [OF assms] length_bytes_of [of ex_record]
  by (simp add: ex_store_def ex_dir_def extend_journal_def file_of_def bytes_of_def om_find_set length_journal_header
      kJournalHeaderBytes_def kRecordHeaderBytes_def kMaxStoreFileBytes_def)
    (simp add: ex_record_def)

end
