(* ===== verification/Printing.thy ===== *)
theory Printing
  imports Identity
begin

text \<open>
  Texts made from identities (\<open>identity.hpp\<close>, \<open>identity.cpp\<close>): decimal numbers, the description of a
  provenance, the list of fields in which two authority vectors differ; and the generation of a boot
  identity from an entropy source.  Decimal printing and parsing are inverse, the difference of two
  authority vectors is empty exactly when they are equal, and a generated boot identity is always valid.
\<close>

definition ascii :: "string \<Rightarrow> bytes" where
  "ascii = map of_char"

section \<open>Decimal numbers\<close>

text \<open>\<open>std::to_string\<close> of an unsigned number.\<close>

fun decimal :: "nat \<Rightarrow> bytes" where
  "decimal n = (if n < 10 then [0x30 + of_nat n] else decimal (n div 10) @ [0x30 + of_nat (n mod 10)])"

declare decimal.simps [simp del]

definition id_to_string :: "ident \<Rightarrow> bytes" where
  "id_to_string i = decimal (unat i)"

definition is_digit :: "u8 \<Rightarrow> bool" where
  "is_digit c \<longleftrightarrow> 0x30 \<le> c \<and> c \<le> 0x39"

lemma decimal_value_simps [simp]:
  "decimal_value [] n = n" "decimal_value (c # cs) n = decimal_value cs (n * 10 + unat (c - 0x30))"
  "decimal_value (cs @ ds) n = decimal_value ds (decimal_value cs n)"
  by (simp_all add: decimal_value_def)

lemma decimal_value_grows: "n \<le> decimal_value cs n"
proof (induction cs arbitrary: n)
  case (Cons c cs)
  from Cons.IH [of "n * 10 + unat (c - 0x30)"] show ?case by simp
qed simp

lemma digit_of: "n < 10 \<Longrightarrow> is_digit (0x30 + of_nat n) \<and> unat (0x30 + of_nat n - 0x30 :: u8) = n"
  by (simp add: is_digit_def unat_of_nat word_le_nat_alt unat_word_ariths)

lemma decimal_digits:
  "list_all is_digit (decimal n) \<and> decimal_value (decimal n) 0 = n \<and> decimal n \<noteq> []"
proof (induction n rule: decimal.induct)
  case (1 n)
  show ?case using 1 digit_of [of n] digit_of [of "n mod 10"] by (subst (1 2 3) decimal.simps) auto
qed

lemma length_decimal: "n < 10 ^ Suc k \<Longrightarrow> length (decimal n) \<le> Suc k"
proof (induction k arbitrary: n)
  case (Suc k)
  then have "n div 10 < 10 ^ Suc k" by (simp add: less_mult_imp_div_less mult.commute)
  from Suc.IH [OF this] show ?case by (subst decimal.simps) auto
qed (simp add: decimal.simps)

lemma unat_decimal: "length (decimal (unat (n :: u64))) \<le> 20"
proof -
  have "unat n < 2 ^ 64" using unsigned_less [of n] by simp
  then show ?thesis using length_decimal [of "unat n" 19] by simp
qed

text \<open>One step of the parsing loops: the overflow test fires exactly when the next value is not
  representable, and otherwise the step does not wrap.\<close>

lemma decimal_step:
  assumes "is_digit c"
  shows "v > (kMaxValue - ucast (c - 0x30)) div 10 \<longleftrightarrow> \<not> unat v * 10 + unat (c - 0x30) < 2 ^ 64"
    and "unat v * 10 + unat (c - 0x30) < 2 ^ 64 \<Longrightarrow> unat (v * 10 + ucast (c - 0x30) :: u64) = unat v * 10 + unat (c - 0x30)"
proof -
  let ?d = "ucast (c - 0x30) :: u64"
  have small: "unat (c - 0x30) \<le> 9" using assms by (intro digit_bound) (auto simp: is_digit_def)
  have d: "unat ?d = unat (c - 0x30)" by (simp add: unsigned_ucast_eq take_bit_nat_eq_self unsigned_less [THEN less_le_trans])
  have "?d \<le> kMaxValue" using d small by (simp add: kMaxValue_def word_le_nat_alt)
  then have "unat ((kMaxValue - ?d) div 10) = (2 ^ 64 - 1 - unat (c - 0x30)) div 10"
    using d by (simp add: unat_div unat_sub kMaxValue_def)
  then show "v > (kMaxValue - ?d) div 10 \<longleftrightarrow> \<not> unat v * 10 + unat (c - 0x30) < 2 ^ 64"
    using small by (auto simp: word_less_nat_alt div_less_iff_less_mult)
  show "unat (v * 10 + ?d) = unat v * 10 + unat (c - 0x30)" if "unat v * 10 + unat (c - 0x30) < 2 ^ 64"
    using that d by (simp add: unat_word_ariths)
qed

lemma decimal_loop_total:
  "list_all is_digit cs \<Longrightarrow> decimal_value cs (unat v) < 2 ^ 64 \<Longrightarrow> \<exists>w. decimal_loop cs v = Inr w"
proof (induction cs arbitrary: v)
  case (Cons c cs)
  have c: "is_digit c" using Cons.prems by simp
  have fits: "unat v * 10 + unat (c - 0x30) < 2 ^ 64"
    using Cons.prems(2) decimal_value_grows [of "unat v * 10 + unat (c - 0x30)" cs] by simp
  have "\<exists>w. decimal_loop cs (v * 10 + ucast (c - 0x30)) = Inr w"
    by (rule Cons.IH) (use Cons.prems decimal_step(2) [OF c fits] in simp_all)
  moreover have "\<not> v > (0xFFFFFFFFFFFFFFFF - ucast (c - 0x30)) div 10"
    using decimal_step(1) [OF c, of v] fits by (simp add: kMaxValue_def)
  ultimately show ?case using c by (simp add: Let_def is_digit_def not_less)
qed simp

lemma parse_printed: "parse_u64_decimal (decimal (unat n)) = Inr n"
proof -
  have range: "unat n < 2 ^ 64" using unsigned_less [of n] by simp
  obtain w where w: "decimal_loop (decimal (unat n)) 0 = Inr w"
    using decimal_loop_total [of "decimal (unat n)" 0] decimal_digits [of "unat n"] range by auto
  from decimal_loop_value [OF this] decimal_digits [of "unat n"] have "w = n" by (simp add: word_unat_eq_iff)
  with w show ?thesis using decimal_digits [of "unat n"] unat_decimal [of n] by (simp add: parse_u64_decimal_def)
qed

text \<open>Identities survive printing and parsing; the unset identity prints as a number that no parser accepts.\<close>

lemma id_round_trip: "id_parse (id_to_string i) = (if valid_id i then Inr i else fail EC_InvalidIdentity)"
  by (simp add: id_parse_def id_to_string_def parse_printed id_make_def valid_id_def bindr_def)

section \<open>Provenance\<close>

primrec node_kind_to_string :: "node_kind \<Rightarrow> string" where
  "node_kind_to_string NK_Unknown = ''unknown''"
| "node_kind_to_string NK_Operator = ''operator''"
| "node_kind_to_string NK_CapacityPublisher = ''capacity_publisher''"
| "node_kind_to_string NK_Requester = ''requester''"
| "node_kind_to_string NK_Coordinator = ''coordinator''"
| "node_kind_to_string NK_Recovery = ''recovery''"

definition provenance_describe :: "provenance \<Rightarrow> bytes" where
  "provenance_describe p =
    ascii (node_kind_to_string (pv_source_kind p)) @ ascii ''#'' @ decimal (unat (pv_source_id p)) @
    ascii ''@epoch='' @ id_to_string (pv_epoch p) @ ascii '',coord='' @ id_to_string (pv_coordinator p) @
    ascii '',seq='' @ decimal (unat (pv_source_sequence p)) @
    (if pv_detail p \<noteq> [] then ascii '',detail='' @ pv_detail p else [])"

section \<open>Differences of authority vectors\<close>

definition append_mismatch :: "string \<Rightarrow> bytes \<Rightarrow> bytes" where
  "append_mismatch field out = (if out \<noteq> [] then out @ ascii '','' else out) @ ascii field"

text \<open>The comparisons of the code, each with the name it appends.\<close>

definition field_differences :: "authority_vector \<Rightarrow> authority_vector \<Rightarrow> (bool \<times> string) list" where
  "field_differences a b =
    [(av_fabric_epoch a \<noteq> av_fabric_epoch b, ''fabric_epoch''),
     (av_coordinator a \<noteq> av_coordinator b, ''coordinator''),
     (av_resource a \<noteq> av_resource b, ''resource''),
     (av_resource_generation a \<noteq> av_resource_generation b, ''resource_generation''),
     (av_capacity_generation a \<noteq> av_capacity_generation b, ''capacity_generation''),
     (av_policy a \<noteq> av_policy b, ''policy''),
     (av_policy_generation a \<noteq> av_policy_generation b, ''policy_generation''),
     (av_request a \<noteq> av_request b, ''request''),
     (av_request_generation a \<noteq> av_request_generation b, ''request_generation''),
     (av_reservation a \<noteq> av_reservation b, ''reservation''),
     (av_reservation_generation a \<noteq> av_reservation_generation b, ''reservation_generation''),
     (av_fairness_group a \<noteq> av_fairness_group b, ''fairness_group''),
     (av_fairness_config_generation a \<noteq> av_fairness_config_generation b, ''fairness_config_generation''),
     (av_tenant_config_generation a \<noteq> av_tenant_config_generation b, ''tenant_config_generation''),
     (av_publisher a \<noteq> av_publisher b, ''publisher''),
     (av_publisher_boot a \<noteq> av_publisher_boot b, ''publisher_boot''),
     (av_publisher_sequence a \<noteq> av_publisher_sequence b, ''publisher_sequence''),
     (av_monotonic_tick a \<noteq> av_monotonic_tick b, ''monotonic_tick'')]"

definition describe_mismatch :: "authority_vector \<Rightarrow> authority_vector \<Rightarrow> bytes" where
  "describe_mismatch a b =
    (let out = fold (\<lambda>(differs, field) out. if differs then append_mismatch field out else out) (field_differences a b) [] in
     if out = [] then ascii ''none'' else out)"

text \<open>What the loop has appended starts with the name of a field.\<close>

lemma mismatch_fold:
  assumes "\<forall>(differs, field) \<in> set named. field \<noteq> [] \<and> of_char (hd field) \<noteq> (n :: u8)" and "out \<noteq> [] \<longrightarrow> hd out \<noteq> n"
  defines "res \<equiv> fold (\<lambda>(differs, field) out. if differs then append_mismatch field out else out) named out"
  shows "(res = [] \<longleftrightarrow> out = [] \<and> (\<forall>(differs, field) \<in> set named. \<not> differs)) \<and> (res \<noteq> [] \<longrightarrow> hd res \<noteq> n)"
  using assms(1,2) unfolding res_def
proof (induction named arbitrary: out)
  case (Cons x named)
  obtain differs field where x: "x = (differs, field)" by fastforce
  let ?out = "if differs then append_mismatch field out else out"
  have "?out \<noteq> [] \<longrightarrow> hd ?out \<noteq> n" "differs \<longrightarrow> ?out \<noteq> []"
    using Cons.prems by (auto simp: x append_mismatch_def ascii_def hd_map hd_append)
  with Cons.IH [of ?out] Cons.prems show ?case by (auto simp: x)
qed simp

lemma describe_mismatch_none: "describe_mismatch a b = ascii ''none'' \<longleftrightarrow> av_equal a b"
proof -
  let ?out = "fold (\<lambda>(differs, field) out. if differs then append_mismatch field out else out) (field_differences a b) []"
  have "\<forall>(differs, field) \<in> set (field_differences a b). field \<noteq> [] \<and> of_char (hd field) \<noteq> (of_char CHR ''n'' :: u8)"
    by (simp add: field_differences_def)
  from mismatch_fold [OF this, of "[]"]
  have "?out = [] \<longleftrightarrow> (\<forall>(differs, field) \<in> set (field_differences a b). \<not> differs)" "?out \<noteq> [] \<longrightarrow> hd ?out \<noteq> of_char CHR ''n''"
    by simp_all
  moreover have "(\<forall>(differs, field) \<in> set (field_differences a b). \<not> differs) \<longleftrightarrow> av_equal a b"
    by (simp add: field_differences_def av_equal_def same_binding_def)
  ultimately show ?thesis by (auto simp: describe_mismatch_def Let_def ascii_def)
qed

section \<open>Generating a boot identity\<close>

text \<open>The entropy source is a parameter: the bytes it fills the buffer with.\<close>

definition generate_boot_id :: "(nat \<Rightarrow> bytes) \<Rightarrow> boot_id result" where
  "generate_boot_id fill =
    (let drawn = fill kBootSize in boot_from_bytes (drawn[0 := or (drawn ! 0) 0x01]))"

lemma generate_boot_id_total:
  assumes "length (fill kBootSize) = kBootSize"
  shows "\<exists>b. generate_boot_id fill = Inr b \<and> boot_valid b \<and> length b = kBootSize"
proof -
  let ?b = "(fill kBootSize)[0 := or (fill kBootSize ! 0) 0x01]"
  have "or (fill kBootSize ! 0) 0x01 \<in> set ?b" using assms by (intro set_update_memI) (simp add: kBootSize_def)
  moreover have "or x 0x01 \<noteq> (0 :: u8)" for x by (metis bit_0 bit_or_iff odd_one even_zero)
  ultimately have "boot_valid ?b" unfolding boot_valid_def by blast
  with assms show ?thesis by (simp add: generate_boot_id_def Let_def)
qed

end
