(* ===== verification/Store_Names.thy ===== *)
theory Store_Names
  imports Store_Laws Printing
begin

text \<open>
  The names of the files of a store and its inspection (\<open>persistence.cpp\<close>): a file name carries the
  sequence number in decimal, and listing a directory parses the names back.  The theories on the
  store keep files under their sequence numbers; the lemmas here justify that: the names the store
  writes parse to the number they were made from, journals and snapshots are told apart, and a
  number is never the result of a wrapped computation.
\<close>

section \<open>Names\<close>

definition kSnapshotPrefix :: bytes where "kSnapshotPrefix = ascii ''snapshot-''"
definition kJournalPrefix :: bytes where "kJournalPrefix = ascii ''journal-''"
definition kSnapshotSuffix :: bytes where "kSnapshotSuffix = ascii ''.bbs''"
definition kJournalSuffix :: bytes where "kJournalSuffix = ascii ''.bbj''"
definition kPathSeparator :: u8 where "kPathSeparator = 0x2F"
definition kBackslash :: u8 where "kBackslash = 0x5C"

definition join_path :: "bytes \<Rightarrow> bytes \<Rightarrow> bytes" where
  "join_path directory name =
    (let last_byte = (if directory = [] then 0 else last directory) in
     (if last_byte \<noteq> kPathSeparator \<and> last_byte \<noteq> kBackslash then directory @ [kPathSeparator] else directory) @ name)"

definition journal_name :: "u64 \<Rightarrow> bytes" where
  "journal_name first_sequence = kJournalPrefix @ decimal (unat first_sequence) @ kJournalSuffix"

definition snapshot_name :: "u64 \<Rightarrow> bytes" where
  "snapshot_name seq = kSnapshotPrefix @ decimal (unat seq) @ kSnapshotSuffix"

definition parse_digit :: "u8 \<Rightarrow> u64 \<Rightarrow> u64 result" where
  "parse_digit c value =
    (if c < 0x30 \<or> c > 0x39 then fail EC_PersistenceCorrupt
     else if value > (kMaxValue - ucast (c - 0x30)) div 10 then fail EC_PersistenceCorrupt
     else Inr (value * 10 + ucast (c - 0x30)))"

definition parse_sequence_suffix :: "bytes \<Rightarrow> bytes \<Rightarrow> bytes \<Rightarrow> u64 result" where
  "parse_sequence_suffix name prefix suffix =
    (if length name \<le> length prefix + length suffix then fail EC_PersistenceCorrupt
     else if take (length prefix) name \<noteq> prefix then fail EC_PersistenceCorrupt
     else if drop (length name - length suffix) name \<noteq> suffix then fail EC_PersistenceCorrupt
     else let digits = take (length name - length prefix - length suffix) (drop (length prefix) name) in
       if digits = [] \<or> length digits > 20 then fail EC_PersistenceCorrupt
       else fold_res parse_digit digits 0)"

section \<open>Parsing a name\<close>

lemma parse_digit_iff:
  "parse_digit c v = Inr w \<longleftrightarrow> is_digit c \<and> unat v * 10 + unat (c - 0x30) < 2 ^ 64 \<and> unat w = unat v * 10 + unat (c - 0x30)"
proof (cases "is_digit c")
  case True
  then show ?thesis using decimal_step [OF True, of v]
    by (auto simp: parse_digit_def is_digit_def not_less intro: word_unat_eq_iff [THEN iffD2])
qed (auto simp: parse_digit_def is_digit_def not_le)

lemma parse_digits_iff:
  "fold_res parse_digit cs v = Inr w \<longleftrightarrow>
    list_all is_digit cs \<and> decimal_value cs (unat v) < 2 ^ 64 \<and> unat w = decimal_value cs (unat v)"
proof (induction cs arbitrary: v)
  case Nil
  show ?case using unsigned_less [of v] by (auto simp: word_unat_eq_iff)
next
  case (Cons c cs)
  have word: "unat (of_nat k :: u64) = k" if "k < 2 ^ 64" for k using that by (simp add: unsigned_of_nat take_bit_nat_eq_self)
  have "fold_res parse_digit (c # cs) v = Inr w \<longleftrightarrow> (\<exists>u. parse_digit c v = Inr u \<and> fold_res parse_digit cs u = Inr w)"
    by (cases "parse_digit c v") (simp_all add: bindr_def)
  also have "\<dots> \<longleftrightarrow> is_digit c \<and> unat v * 10 + unat (c - 0x30) < 2 ^ 64 \<and> list_all is_digit cs \<and>
      decimal_value cs (unat v * 10 + unat (c - 0x30)) < 2 ^ 64 \<and> unat w = decimal_value cs (unat v * 10 + unat (c - 0x30))"
    unfolding parse_digit_iff Cons.IH by (metis word)
  finally show ?case using decimal_value_grows [of "unat v * 10 + unat (c - 0x30)" cs] by auto
qed

text \<open>A name parses to a number exactly when it is prefix, at most twenty digits of that number, and suffix.\<close>

lemma parse_sequence_iff:
  "parse_sequence_suffix name prefix suffix = Inr n \<longleftrightarrow>
    (\<exists>cs. name = prefix @ cs @ suffix \<and> cs \<noteq> [] \<and> length cs \<le> 20 \<and> list_all is_digit cs \<and> decimal_value cs 0 = unat n)"
proof
  assume p: "parse_sequence_suffix name prefix suffix = Inr n"
  let ?cs = "take (length name - length prefix - length suffix) (drop (length prefix) name)"
  from p have c: "length name > length prefix + length suffix" "take (length prefix) name = prefix"
      "drop (length name - length suffix) name = suffix" "?cs \<noteq> []" "length ?cs \<le> 20" "fold_res parse_digit ?cs 0 = Inr n"
    by (auto simp: parse_sequence_suffix_def Let_def split: if_splits)
  have "drop (length name - length suffix) name = drop (length name - length prefix - length suffix) (drop (length prefix) name)"
    using c(1) by simp
  then have "name = take (length prefix) name @ ?cs @ drop (length name - length suffix) name"
    by (simp only: append_take_drop_id)
  with c show "\<exists>cs. name = prefix @ cs @ suffix \<and> cs \<noteq> [] \<and> length cs \<le> 20 \<and> list_all is_digit cs \<and> decimal_value cs 0 = unat n"
    by (intro exI [of _ ?cs]) (auto simp: parse_digits_iff)
next
  assume "\<exists>cs. name = prefix @ cs @ suffix \<and> cs \<noteq> [] \<and> length cs \<le> 20 \<and> list_all is_digit cs \<and> decimal_value cs 0 = unat n"
  then show "parse_sequence_suffix name prefix suffix = Inr n"
    using unsigned_less [of n] by (auto simp: parse_sequence_suffix_def Let_def parse_digits_iff)
qed

lemma parse_journal_name: "parse_sequence_suffix (journal_name n) kJournalPrefix kJournalSuffix = Inr n"
  using decimal_digits [of "unat n"] unat_decimal [of n]
  unfolding parse_sequence_iff journal_name_def by blast

lemma parse_snapshot_name: "parse_sequence_suffix (snapshot_name n) kSnapshotPrefix kSnapshotSuffix = Inr n"
  using decimal_digits [of "unat n"] unat_decimal [of n]
  unfolding parse_sequence_iff snapshot_name_def by blast

text \<open>No file is taken for both a journal and a snapshot, so the two tests of a listing commute.\<close>

lemma names_disjoint:
  "\<not> (\<exists>m n. parse_sequence_suffix name kJournalPrefix kJournalSuffix = Inr m \<and>
    parse_sequence_suffix name kSnapshotPrefix kSnapshotSuffix = Inr n)"
  by (auto simp: parse_sequence_iff kJournalPrefix_def kSnapshotPrefix_def ascii_def)

section \<open>Inspection\<close>

fun inspect_snapshots :: "(u64 \<times> bytes) list \<Rightarrow> recovery_report \<Rightarrow> (store, recovery_report) op" where
  "inspect_snapshots [] report st = (st, Inr report)"
| "inspect_snapshots ((seq, raw) # files) report st =
    (case read_file raw kMaxStoreFileBytes st of
       (st', Inl _) \<Rightarrow> inspect_snapshots files (report\<lparr>rp_snapshot_corrupt := True\<rparr>) st'
     | (st', Inr bytes) \<Rightarrow>
         inspect_snapshots files (if read_snapshot bytes = None then report\<lparr>rp_snapshot_corrupt := True\<rparr> else report) st')"

fun inspect_journals :: "(u64 \<times> bytes) list \<Rightarrow> recovery_report \<Rightarrow> (store, recovery_report) op" where
  "inspect_journals [] report = opret report"
| "inspect_journals ((seq, raw) # files) report =
    opbind (read_file raw kMaxStoreFileBytes) (\<lambda>bytes.
    opbind (oplift (scan_journal bytes 0)) (\<lambda>(records, truncated).
      inspect_journals files (report\<lparr>rp_journal_records := rp_journal_records report + length records,
        rp_journal_truncated := (truncated \<or> rp_journal_truncated report)\<rparr>)))"

text \<open>A directory is listed in no particular order; the report does not depend on it, and snapshots come first here.\<close>

definition store_inspect :: "(store, recovery_report) op" where
  "store_inspect =
    opbind (opget st_report) (\<lambda>report.
    opbind list_files (\<lambda>files.
    opbind (inspect_snapshots (dr_snapshots files) (report\<lparr>rp_durable := True\<rparr>)) (\<lambda>report'.
      inspect_journals (dr_journals files) report')))"

text \<open>On an undamaged store inspection reports no damage.  The records it counts are added to those counted by
  the last recovery, so after a restart every recovered record is counted twice.\<close>

lemma inspect_journals_clean:
  assumes "st_io st = []" and "list_all clean_journal js"
  shows "inspect_journals (map clean_file js) report st =
    (st, Inr (report\<lparr>rp_journal_records := rp_journal_records report + length (newer 0 (concat (map snd js)))\<rparr>))"
  using assms(2)
proof (induction js arbitrary: report)
  case (Cons j js)
  have read: "read_file (snd (clean_file j)) kMaxStoreFileBytes st = (st, Inr (snd (clean_file j)))"
    using Cons.prems by (intro read_file_quiet [OF assms(1)]) (simp add: clean_journal_def)
  have scan: "scan_journal (snd (clean_file j)) 0 = Inr (newer 0 (snd j), False)"
    using Cons.prems by (intro scan_clean_file) simp
  have f: "clean_file j = (fst j, snd (clean_file j))" by (simp add: clean_file_def)
  show ?case
    using Cons.IH Cons.prems by (simp, subst f) (simp add: read scan op_eval newer_def)
qed (simp add: opret_def newer_def)

lemma inspect_clean:
  assumes "st_io st = []" and "clean_store None js (st_dir st)"
  shows "store_inspect st = (st, Inr ((st_report st)\<lparr>rp_durable := True,
    rp_journal_records := rp_journal_records (st_report st) + length (newer 0 (concat (map snd js)))\<rparr>))"
proof -
  have d: "dr_snapshots (st_dir st) = []" "dr_journals (st_dir st) = map clean_file js" "list_all clean_journal js"
    using assms(2) by (simp_all add: clean_store_def snapshots_hold_def)
  then show ?thesis
    using inspect_journals_clean [OF assms(1) d(3)] assms(1)
    by (simp add: store_inspect_def list_files_def op_eval)
qed

end
