(* ===== verification/Wire.thy ===== *)
theory Wire
  imports Codec Arbitrator
begin

text \<open>
  The model codecs of \<open>wire.cpp\<close>: for every type of the data model the encoder and the decoder,
  field by field in the order of the source, the condition under which a value can be sent, and
  the proof that the pair is a codec.  The overloads of \<open>encode\<close> get the name of their type.  The
  conditions collect the class invariants of the C++ types (a \<open>BootId\<close> has 16 bytes, a \<open>Bandwidth\<close> is
  representable) and the bounds the decoders check.
\<close>

section \<open>Enumerations\<close>

definition node_kinds :: "node_kind list" where
  "node_kinds =
    [NK_Unknown, NK_Operator, NK_CapacityPublisher, NK_Requester, NK_Coordinator, NK_Recovery]"

abbreviation write_node_kind :: "node_kind \<Rightarrow> bytes" where "write_node_kind \<equiv> write_enum node_kinds"
abbreviation read_node_kind :: "node_kind reader" where "read_node_kind \<equiv> read_enum node_kinds 5"

interpretation c_node_kind: codec "write_enum node_kinds" "read_enum node_kinds 5" "\<lambda>_. True"
proof -
  have "x \<in> set node_kinds" for x by (cases x) (simp_all add: node_kinds_def)
  then have "set node_kinds = UNIV" by blast
  then show "codec (write_enum node_kinds) (read_enum node_kinds 5) (\<lambda>_. True)"
    using codec_enum [of node_kinds 5] by (simp add: node_kinds_def)
qed

definition evidence_states :: "evidence_state list" where
  "evidence_states =
    [EV_Unknown, EV_Known, EV_Stale]"

abbreviation write_evidence :: "evidence_state \<Rightarrow> bytes" where "write_evidence \<equiv> write_enum evidence_states"
abbreviation read_evidence :: "evidence_state reader" where "read_evidence \<equiv> read_enum evidence_states 2"

interpretation c_evidence: codec "write_enum evidence_states" "read_enum evidence_states 2" "\<lambda>_. True"
proof -
  have "x \<in> set evidence_states" for x by (cases x) (simp_all add: evidence_states_def)
  then have "set evidence_states = UNIV" by blast
  then show "codec (write_enum evidence_states) (read_enum evidence_states 2) (\<lambda>_. True)"
    using codec_enum [of evidence_states 2] by (simp add: evidence_states_def)
qed

definition scheduling_modes :: "scheduling_mode list" where
  "scheduling_modes =
    [StrictPriority, WeightedFairShare]"

abbreviation write_scheduling :: "scheduling_mode \<Rightarrow> bytes" where "write_scheduling \<equiv> write_enum scheduling_modes"
abbreviation read_scheduling :: "scheduling_mode reader" where "read_scheduling \<equiv> read_enum scheduling_modes 1"

interpretation c_scheduling: codec "write_enum scheduling_modes" "read_enum scheduling_modes 1" "\<lambda>_. True"
proof -
  have "x \<in> set scheduling_modes" for x by (cases x) (simp_all add: scheduling_modes_def)
  then have "set scheduling_modes = UNIV" by blast
  then show "codec (write_enum scheduling_modes) (read_enum scheduling_modes 1) (\<lambda>_. True)"
    using codec_enum [of scheduling_modes 1] by (simp add: scheduling_modes_def)
qed

definition guarantee_classes :: "guarantee_class list" where
  "guarantee_classes =
    [GC_Unspecified, GC_Guaranteed, GC_BestEffort]"

abbreviation write_guarantee :: "guarantee_class \<Rightarrow> bytes" where "write_guarantee \<equiv> write_enum guarantee_classes"
abbreviation read_guarantee :: "guarantee_class reader" where "read_guarantee \<equiv> read_enum guarantee_classes 2"

interpretation c_guarantee: codec "write_enum guarantee_classes" "read_enum guarantee_classes 2" "\<lambda>_. True"
proof -
  have "x \<in> set guarantee_classes" for x by (cases x) (simp_all add: guarantee_classes_def)
  then have "set guarantee_classes = UNIV" by blast
  then show "codec (write_enum guarantee_classes) (read_enum guarantee_classes 2) (\<lambda>_. True)"
    using codec_enum [of guarantee_classes 2] by (simp add: guarantee_classes_def)
qed

definition recall_tolerances :: "recall_tolerance list" where
  "recall_tolerances =
    [RT_Unspecified, RT_Immediate, RT_GracePeriod, RT_NoRecall]"

abbreviation write_tolerance :: "recall_tolerance \<Rightarrow> bytes" where "write_tolerance \<equiv> write_enum recall_tolerances"
abbreviation read_tolerance :: "recall_tolerance reader" where "read_tolerance \<equiv> read_enum recall_tolerances 3"

interpretation c_tolerance: codec "write_enum recall_tolerances" "read_enum recall_tolerances 3" "\<lambda>_. True"
proof -
  have "x \<in> set recall_tolerances" for x by (cases x) (simp_all add: recall_tolerances_def)
  then have "set recall_tolerances = UNIV" by blast
  then show "codec (write_enum recall_tolerances) (read_enum recall_tolerances 3) (\<lambda>_. True)"
    using codec_enum [of recall_tolerances 3] by (simp add: recall_tolerances_def)
qed

definition grant_states :: "grant_state list" where
  "grant_states =
    [GS_Requested, GS_Validated, GS_Queued, GS_GrantedGuaranteed, GS_GrantedBorrowed,
     GS_RecallPending, GS_RevalidationRequired, GS_Released, GS_Expired, GS_Revoked, GS_Fenced,
     GS_Stale, GS_Rejected]"

abbreviation write_state :: "grant_state \<Rightarrow> bytes" where "write_state \<equiv> write_enum grant_states"
abbreviation read_state :: "grant_state reader" where "read_state \<equiv> read_enum grant_states 12"

interpretation c_state: codec "write_enum grant_states" "read_enum grant_states 12" "\<lambda>_. True"
proof -
  have "x \<in> set grant_states" for x by (cases x) (simp_all add: grant_states_def)
  then have "set grant_states = UNIV" by blast
  then show "codec (write_enum grant_states) (read_enum grant_states 12) (\<lambda>_. True)"
    using codec_enum [of grant_states 12] by (simp add: grant_states_def)
qed

lemmas enum_read [codec_read] = c_node_kind.read_bind [OF TrueI] c_evidence.read_bind [OF TrueI] c_scheduling.read_bind [OF TrueI] c_guarantee.read_bind [OF TrueI] c_tolerance.read_bind [OF TrueI] c_state.read_bind [OF TrueI]
lemmas enum_canon [codec_canon] = c_node_kind.reads_bind c_evidence.reads_bind c_scheduling.reads_bind c_guarantee.reads_bind c_tolerance.reads_bind c_state.reads_bind

text \<open>The decoders accept outcome reasons up to 46; the last enumerator is 41.\<close>

definition outcome_reasons :: "outcome_reason list" where
  "outcome_reasons =
    [OR_None, OR_SatisfiedFully, OR_SatisfiedAtMaximum, OR_PartiallySatisfied,
     OR_MinimumGuaranteedOnly, OR_BelowMinimumWaiting, OR_ZeroCapacityAvailable,
     OR_CapacityUnknown, OR_CapacityWithdrawn, OR_HeadroomPreserved,
     OR_EmergencyReservePreserved, OR_GroupCapReached, OR_FairnessLimited,
     OR_BorrowPoolExhausted, OR_OversubscriptionDisabled, OR_WaitingForStrongerClass,
     OR_DeferredByHysteresis, OR_RecalledByStrongerClass, OR_RecalledByObligationReturn,
     OR_RecalledByCapacityReduction, OR_RecalledByPolicyChange, OR_RefusedContradictory,
     OR_RefusedDuplicateIdentity, OR_RefusedIdentityConflict, OR_RefusedUnknownPriorityClass,
     OR_RefusedUnknownFairnessGroup, OR_RefusedTenantMismatch, OR_RefusedStaleEpoch,
     OR_RefusedStaleResourceGeneration, OR_RefusedStalePolicyGeneration,
     OR_RefusedStaleRequester, OR_RefusedStaleReservation, OR_RefusedStaleTenantConfig,
     OR_RefusedBootFenced, OR_RefusedBelowQuantum, OR_RefusedNoCapacityAuthority, OR_Expired,
     OR_Released, OR_Revoked, OR_Fenced, OR_Stale, OR_RevalidationRequired]"

definition reason_code :: "outcome_reason \<Rightarrow> u8" where
  "reason_code r = (case r of OR_Unnamed raw \<Rightarrow> raw | _ \<Rightarrow> enum_code outcome_reasons r)"

definition write_reason :: "outcome_reason \<Rightarrow> bytes" where
  "write_reason r = w_u8 (reason_code r)"

definition reason_of :: "u8 \<Rightarrow> outcome_reason" where
  "reason_of raw = (if unat raw < 42 then outcome_reasons ! unat raw else OR_Unnamed raw)"

definition read_reason :: "error_code \<Rightarrow> outcome_reason reader" where
  "read_reason code = rbind r_u8 (\<lambda>raw. rlift (if raw > 46 then fail code else Inr (reason_of raw)))"

definition reason_ok :: "outcome_reason \<Rightarrow> bool" where
  "reason_ok r \<longleftrightarrow> (case r of OR_Unnamed raw \<Rightarrow> 42 \<le> raw \<and> raw \<le> 46 | _ \<Rightarrow> True)"

lemma length_outcome_reasons: "length outcome_reasons = 42"
  by (simp add: outcome_reasons_def)

lemma outcome_reasons_nth: "i < 42 \<Longrightarrow> reason_code (outcome_reasons ! i) = of_nat i \<and> reason_ok (outcome_reasons ! i)"
proof -
  assume i: "i < 42"
  note len = length_outcome_reasons
  have "distinct outcome_reasons" by (simp add: outcome_reasons_def)
  then have "enum_code outcome_reasons (outcome_reasons ! i) = of_nat i" using i len by (simp add: enum_code_nth)
  moreover have "list_all (\<lambda>r. case r of OR_Unnamed w \<Rightarrow> False | _ \<Rightarrow> True) outcome_reasons"
    by (simp add: outcome_reasons_def)
  then have "case outcome_reasons ! i of OR_Unnamed w \<Rightarrow> False | _ \<Rightarrow> True" using i len by (simp add: list_all_length)
  ultimately show ?thesis by (auto simp: reason_code_def reason_ok_def split: outcome_reason.splits)
qed

lemma named_reason: "(\<exists>raw. r = OR_Unnamed raw) \<or> r \<in> set outcome_reasons"
  by (cases r) (simp_all add: outcome_reasons_def)

lemma codec_reason: "codec write_reason (read_reason code) reason_ok"
proof (rule codecI)
  fix r rest assume ok: "reason_ok r"
  show "read_reason code (write_reason r @ rest) = (rest, Inr r)"
  proof (cases "\<exists>raw. r = OR_Unnamed raw")
    case True
    with ok show ?thesis
      by (auto simp: read_reason_def write_reason_def reason_code_def reason_ok_def reason_of_def codec_read
          word_le_nat_alt word_less_nat_alt)
  next
    case False
    then obtain i where "i < 42" "r = outcome_reasons ! i"
      using named_reason [of r] by (auto simp: in_set_conv_nth length_outcome_reasons)
    then show ?thesis
      using outcome_reasons_nth [of i]
      by (simp add: read_reason_def write_reason_def reason_of_def codec_read unat_of_nat8 word_less_nat_alt)
  qed
next
  have "reason_ok (reason_of raw) \<and> reason_code (reason_of raw) = raw" if "raw \<le> 46" for raw
    using that outcome_reasons_nth [of "unat raw"]
    by (auto simp: reason_of_def reason_ok_def reason_code_def word_le_nat_alt)
  then show "reads [] (read_reason code) (\<lambda>x whole rest. reason_ok x \<and> whole = write_reason x @ rest)"
    by (auto simp: read_reason_def write_reason_def codec_canon not_less split: if_splits)
qed

declare codec.read_bind [OF codec_reason, codec_read] codec.reads_bind [OF codec_reason, codec_canon]

section \<open>Identities, provenance and authority\<close>

definition encode_boot_id :: "boot_id \<Rightarrow> bytes" where
  "encode_boot_id value = w_bytes value"

definition decode_boot_id :: "boot_id reader" where
  "decode_boot_id = rbind (r_bytes kBootSize) (\<lambda>view.
     if length view \<noteq> kBootSize then rlift (fail EC_ProtocolMalformed) else rlift (boot_from_bytes view))"

definition boot_ok :: "boot_id \<Rightarrow> bool" where
  "boot_ok b \<longleftrightarrow> length b = kBootSize \<and> boot_valid b"

lemma boot_from_bytes_eq: "boot_from_bytes b = (if boot_valid b then Inr b else fail EC_InvalidIdentity)"
  by (auto simp: boot_from_bytes_def boot_valid_def list_all_iff)

interpretation c_boot: codec encode_boot_id decode_boot_id boot_ok
  by (rule codecI, simp add: encode_boot_id_def decode_boot_id_def boot_ok_def codec_read boot_from_bytes_eq string_ok_def
      kBootSize_def kMaxStringBytesInFrame_def,
    simp add: encode_boot_id_def decode_boot_id_def boot_ok_def codec_canon boot_from_bytes_eq)

declare c_boot.read_bind [codec_read] c_boot.reads_bind [codec_canon]

definition encode_provenance :: "provenance \<Rightarrow> bytes" where
  "encode_provenance value =
    w_bool (provenance_valid value) @
    (if \<not> provenance_valid value then []
     else write_node_kind (pv_source_kind value) @ w_u64 (pv_source_id value) @
       encode_boot_id (pv_source_boot value) @ write_id (pv_epoch value) @ write_id (pv_coordinator value) @
       w_u64 (pv_source_sequence value) @ w_timestamp (pv_recorded_at value) @ write_text (pv_detail value))"

definition decode_provenance :: "provenance reader" where
  "decode_provenance = rbind r_bool (\<lambda>present.
    if \<not> present then rret default_provenance
    else rbind read_node_kind (\<lambda>kind. rbind r_u64 (\<lambda>source_id. rbind decode_boot_id (\<lambda>boot.
      rbind read_id (\<lambda>epoch. rbind read_id (\<lambda>coordinator. rbind r_u64 (\<lambda>sequence.
      rbind r_timestamp (\<lambda>recorded. rbind (read_text kMaxProvenanceDetailBytes) (\<lambda>detail.
      let value = \<lparr> pv_source_kind = kind, pv_source_id = source_id, pv_source_boot = boot, pv_epoch = epoch,
            pv_coordinator = coordinator, pv_source_sequence = sequence, pv_recorded_at = recorded,
            pv_detail = detail \<rparr>
      in if \<not> provenance_valid value then rlift (fail EC_ProtocolMalformed) else rret value)))))))))"

definition provenance_ok :: "provenance \<Rightarrow> bool" where
  "provenance_ok p \<longleftrightarrow>
    (if provenance_valid p
     then length (pv_source_boot p) = kBootSize \<and> pv_recorded_at p < 2 ^ 63 \<and>
       text_ok kMaxProvenanceDetailBytes (pv_detail p)
     else p = default_provenance)"

lemma default_provenance_invalid: "\<not> provenance_valid default_provenance"
  by (simp add: provenance_valid_def default_provenance_def)

lemma provenance_valid_boot: "provenance_valid p \<Longrightarrow> boot_valid (pv_source_boot p)"
  by (simp add: provenance_valid_def)

interpretation c_provenance: codec encode_provenance decode_provenance provenance_ok
proof (rule codecI)
  fix p rest assume "provenance_ok p"
  then show "decode_provenance (encode_provenance p @ rest) = (rest, Inr p)"
    using provenance_valid_boot [of p]
    by (cases p; cases "provenance_valid p")
      (simp_all add: decode_provenance_def encode_provenance_def provenance_ok_def codec_read boot_ok_def Let_def)
next
  show "reads [] decode_provenance (\<lambda>x whole rest. provenance_ok x \<and> whole = encode_provenance x @ rest)"
    by (simp add: decode_provenance_def encode_provenance_def provenance_ok_def codec_canon boot_ok_def Let_def
        default_provenance_invalid)
qed

declare c_provenance.read_bind [codec_read] c_provenance.reads_bind [codec_canon]

definition encode_authority :: "authority_vector \<Rightarrow> bytes" where
  "encode_authority value =
    write_id (av_fabric_epoch value) @ write_id (av_coordinator value) @
    write_id (av_resource value) @ write_generation (av_resource_generation value) @
    write_generation (av_capacity_generation value) @ write_id (av_policy value) @
    write_generation (av_policy_generation value) @ write_id (av_request value) @
    write_generation (av_request_generation value) @ write_id (av_reservation value) @
    write_generation (av_reservation_generation value) @ write_id (av_fairness_group value) @
    write_generation (av_fairness_config_generation value) @
    write_generation (av_tenant_config_generation value) @ write_id (av_publisher value) @
    encode_boot_id (av_publisher_boot value) @ w_u64 (av_publisher_sequence value) @
    w_u64 (av_monotonic_tick value)"

definition decode_authority :: "authority_vector reader" where
  "decode_authority =
    rbind read_id (\<lambda>fabric_epoch. rbind read_id (\<lambda>coordinator.
    rbind read_id (\<lambda>resource. rbind read_generation (\<lambda>resource_generation.
    rbind read_generation (\<lambda>capacity_generation. rbind read_id (\<lambda>policy.
    rbind read_generation (\<lambda>policy_generation. rbind read_id (\<lambda>request.
    rbind read_generation (\<lambda>request_generation. rbind read_id (\<lambda>reservation.
    rbind read_generation (\<lambda>reservation_generation.
    rbind read_id (\<lambda>fairness_group.
    rbind read_generation (\<lambda>fairness_config_generation.
    rbind read_generation (\<lambda>tenant_config_generation.
    rbind read_id (\<lambda>publisher. rbind decode_boot_id (\<lambda>publisher_boot.
    rbind r_u64 (\<lambda>publisher_sequence. rbind r_u64 (\<lambda>monotonic_tick.
      rret \<lparr> av_fabric_epoch = fabric_epoch, av_coordinator = coordinator,
      av_resource = resource, av_resource_generation = resource_generation,
      av_capacity_generation = capacity_generation, av_policy = policy,
      av_policy_generation = policy_generation, av_request = request,
      av_request_generation = request_generation, av_reservation = reservation,
      av_reservation_generation = reservation_generation, av_fairness_group = fairness_group,
      av_fairness_config_generation = fairness_config_generation,
      av_tenant_config_generation = tenant_config_generation, av_publisher = publisher,
      av_publisher_boot = publisher_boot, av_publisher_sequence = publisher_sequence,
      av_monotonic_tick = monotonic_tick \<rparr>))))))))))))))))))"

definition authority_ok :: "authority_vector \<Rightarrow> bool" where
  "authority_ok value \<longleftrightarrow>
    boot_ok (av_publisher_boot value)"

interpretation c_authority: codec encode_authority decode_authority authority_ok
  by (rule codecI, simp add: encode_authority_def decode_authority_def authority_ok_def codec_read,
    simp add: encode_authority_def decode_authority_def authority_ok_def codec_canon)

declare c_authority.read_bind [codec_read] c_authority.reads_bind [codec_canon]

section \<open>Capacity\<close>

declare codec.read_bind [OF codec_option [OF c_bandwidth.codec_axioms], codec_read]
  codec.reads_bind [OF codec_option [OF c_bandwidth.codec_axioms], codec_canon]

definition encode_capacity_target :: "capacity_target \<Rightarrow> bytes" where
  "encode_capacity_target value =
    write_id (ct_resource value) @ write_generation (ct_resource_generation value) @
    write_id (ct_pool value) @ write_generation (ct_pool_generation value)"

definition decode_capacity_target :: "capacity_target reader" where
  "decode_capacity_target =
    rbind read_id (\<lambda>resource. rbind read_generation (\<lambda>resource_generation.
    rbind read_id (\<lambda>pool. rbind read_generation (\<lambda>pool_generation.
      rret (CapacityTarget resource resource_generation pool pool_generation)))))"

interpretation c_target: codec encode_capacity_target decode_capacity_target "\<lambda>_. True"
  by (rule codecI, simp add: encode_capacity_target_def decode_capacity_target_def codec_read,
    simp add: encode_capacity_target_def decode_capacity_target_def codec_canon)

declare c_target.read_bind [OF TrueI, codec_read] c_target.reads_bind [codec_canon]

definition encode_capacity_snapshot :: "capacity_snapshot \<Rightarrow> bytes" where
  "encode_capacity_snapshot value =
    encode_capacity_target (cs_target value) @ write_id (cs_snapshot value) @
    write_generation (cs_generation value) @ write_evidence (cs_evidence value) @
    w_option w_bandwidth (cs_physical_configured value) @
    w_bandwidth (cs_administratively_unavailable value) @
    w_bandwidth (cs_degraded_loss value) @ w_bandwidth (cs_headroom_target value) @
    w_bandwidth (cs_reserved_committed value) @ encode_provenance (cs_provenance value) @
    encode_authority (cs_authority value) @ w_timestamp (cs_observed_at value) @
    w_u64 (cs_publisher_sequence value)"

definition decode_capacity_snapshot :: "capacity_snapshot reader" where
  "decode_capacity_snapshot =
    rbind decode_capacity_target (\<lambda>target. rbind read_id (\<lambda>snapshot.
    rbind read_generation (\<lambda>generation. rbind read_evidence (\<lambda>evidence.
    rbind (r_option r_bandwidth) (\<lambda>physical_configured.
    rbind r_bandwidth (\<lambda>administratively_unavailable.
    rbind r_bandwidth (\<lambda>degraded_loss. rbind r_bandwidth (\<lambda>headroom_target.
    rbind r_bandwidth (\<lambda>reserved_committed.
    rbind decode_provenance (\<lambda>provenance. rbind decode_authority (\<lambda>authority.
    rbind r_timestamp (\<lambda>observed_at. rbind r_u64 (\<lambda>publisher_sequence.
      rret \<lparr> cs_target = target, cs_snapshot = snapshot, cs_generation = generation,
      cs_evidence = evidence, cs_physical_configured = physical_configured,
      cs_administratively_unavailable = administratively_unavailable,
      cs_degraded_loss = degraded_loss, cs_headroom_target = headroom_target,
      cs_reserved_committed = reserved_committed, cs_provenance = provenance,
      cs_authority = authority, cs_observed_at = observed_at,
      cs_publisher_sequence = publisher_sequence \<rparr>)))))))))))))"

definition snapshot_ok :: "capacity_snapshot \<Rightarrow> bool" where
  "snapshot_ok value \<longleftrightarrow>
    pred_option bw_ok (cs_physical_configured value) \<and>
    bw_ok (cs_administratively_unavailable value) \<and> bw_ok (cs_degraded_loss value) \<and>
    bw_ok (cs_headroom_target value) \<and> bw_ok (cs_reserved_committed value) \<and>
    provenance_ok (cs_provenance value) \<and> authority_ok (cs_authority value) \<and>
    cs_observed_at value < 2 ^ 63"

interpretation c_snapshot: codec encode_capacity_snapshot decode_capacity_snapshot snapshot_ok
  by (rule codecI, simp add: encode_capacity_snapshot_def decode_capacity_snapshot_def snapshot_ok_def codec_read,
    simp add: encode_capacity_snapshot_def decode_capacity_snapshot_def snapshot_ok_def codec_canon)

declare c_snapshot.read_bind [codec_read] c_snapshot.reads_bind [codec_canon]

section \<open>Policy\<close>

definition encode_priority_class :: "priority_class \<Rightarrow> bytes" where
  "encode_priority_class value =
    write_id (pc_id value) @ write_text (pc_name value) @ w_u32 (pc_rank value) @
    w_u64 (pc_weight value) @ w_bool (pc_emergency value) @ w_bool (pc_preemptible value) @
    w_bool (pc_borrowing_eligible value) @ w_bool (pc_allow_discretionary value)"

definition decode_priority_class :: "priority_class reader" where
  "decode_priority_class =
    rbind read_id (\<lambda>id1. rbind (read_text kMaxNameBytes) (\<lambda>name.
    rbind r_u32 (\<lambda>rank. rbind r_u64 (\<lambda>weight. rbind r_bool (\<lambda>emergency.
    rbind r_bool (\<lambda>preemptible. rbind r_bool (\<lambda>borrowing_eligible.
    rbind r_bool (\<lambda>allow_discretionary.
      rret \<lparr> pc_id = id1, pc_name = name, pc_rank = rank, pc_weight = weight,
      pc_emergency = emergency, pc_preemptible = preemptible,
      pc_borrowing_eligible = borrowing_eligible,
      pc_allow_discretionary = allow_discretionary \<rparr>))))))))"

definition priority_class_ok :: "priority_class \<Rightarrow> bool" where
  "priority_class_ok value \<longleftrightarrow>
    text_ok kMaxNameBytes (pc_name value)"

interpretation c_priority_class: codec encode_priority_class decode_priority_class priority_class_ok
  by (rule codecI, simp add: encode_priority_class_def decode_priority_class_def priority_class_ok_def codec_read,
    simp add: encode_priority_class_def decode_priority_class_def priority_class_ok_def codec_canon)

declare c_priority_class.read_bind [codec_read] c_priority_class.reads_bind [codec_canon]

definition encode_fairness_group :: "fairness_group_config \<Rightarrow> bytes" where
  "encode_fairness_group value =
    write_id (fg_id value) @ write_id (fg_tenant value) @ write_text (fg_name value) @
    w_u64 (fg_weight value) @ w_bandwidth (fg_maximum_cap value) @
    w_u32 (fg_maximum_cap_permille value) @ w_bool (fg_borrowing_eligible value) @
    w_bool (fg_preemptible value)"

definition decode_fairness_group :: "fairness_group_config reader" where
  "decode_fairness_group =
    rbind read_id (\<lambda>id1. rbind read_id (\<lambda>tenant.
    rbind (read_text kMaxNameBytes) (\<lambda>name. rbind r_u64 (\<lambda>weight.
    rbind r_bandwidth (\<lambda>maximum_cap. rbind r_u32 (\<lambda>maximum_cap_permille.
    rbind r_bool (\<lambda>borrowing_eligible. rbind r_bool (\<lambda>preemptible.
      rret \<lparr> fg_id = id1, fg_tenant = tenant, fg_name = name, fg_weight = weight,
      fg_maximum_cap = maximum_cap, fg_maximum_cap_permille = maximum_cap_permille,
      fg_borrowing_eligible = borrowing_eligible, fg_preemptible = preemptible \<rparr>))))))))"

definition fairness_group_ok :: "fairness_group_config \<Rightarrow> bool" where
  "fairness_group_ok value \<longleftrightarrow>
    text_ok kMaxNameBytes (fg_name value) \<and> bw_ok (fg_maximum_cap value)"

interpretation c_fairness_group: codec encode_fairness_group decode_fairness_group fairness_group_ok
  by (rule codecI, simp add: encode_fairness_group_def decode_fairness_group_def fairness_group_ok_def codec_read,
    simp add: encode_fairness_group_def decode_fairness_group_def fairness_group_ok_def codec_canon)

declare c_fairness_group.read_bind [codec_read] c_fairness_group.reads_bind [codec_canon]

definition encode_borrow_policy :: "borrow_policy \<Rightarrow> bytes" where
  "encode_borrow_policy value =
    w_bool (bp_enabled value) @ w_bool (bp_lend_obligations value) @
    w_u32 (bp_max_lend_permille value) @ w_u32 (bp_max_borrow_permille value) @
    w_bool (bp_borrow_from_headroom value)"

definition decode_borrow_policy :: "borrow_policy reader" where
  "decode_borrow_policy =
    rbind r_bool (\<lambda>enabled. rbind r_bool (\<lambda>lend_obligations.
    rbind r_u32 (\<lambda>max_lend_permille. rbind r_u32 (\<lambda>max_borrow_permille.
    rbind r_bool (\<lambda>borrow_from_headroom.
      rret \<lparr> bp_enabled = enabled, bp_lend_obligations = lend_obligations,
      bp_max_lend_permille = max_lend_permille, bp_max_borrow_permille = max_borrow_permille,
      bp_borrow_from_headroom = borrow_from_headroom \<rparr>)))))"

interpretation c_borrow: codec encode_borrow_policy decode_borrow_policy "\<lambda>_. True"
  by (rule codecI, simp add: encode_borrow_policy_def decode_borrow_policy_def codec_read,
    simp add: encode_borrow_policy_def decode_borrow_policy_def codec_canon)

declare c_borrow.read_bind [OF TrueI, codec_read] c_borrow.reads_bind [codec_canon]

definition encode_starvation_policy :: "starvation_policy \<Rightarrow> bytes" where
  "encode_starvation_policy value =
    w_bool (sp_enabled value) @ w_u32 (sp_aging_threshold_rounds value) @
    w_u32 (sp_aging_weight_multiplier value) @ w_u32 (sp_maximum_promotions value)"

definition decode_starvation_policy :: "starvation_policy reader" where
  "decode_starvation_policy =
    rbind r_bool (\<lambda>enabled. rbind r_u32 (\<lambda>aging_threshold_rounds.
    rbind r_u32 (\<lambda>aging_weight_multiplier. rbind r_u32 (\<lambda>maximum_promotions.
      rret \<lparr> sp_enabled = enabled, sp_aging_threshold_rounds = aging_threshold_rounds,
      sp_aging_weight_multiplier = aging_weight_multiplier,
      sp_maximum_promotions = maximum_promotions \<rparr>))))"

interpretation c_starvation: codec encode_starvation_policy decode_starvation_policy "\<lambda>_. True"
  by (rule codecI, simp add: encode_starvation_policy_def decode_starvation_policy_def codec_read,
    simp add: encode_starvation_policy_def decode_starvation_policy_def codec_canon)

declare c_starvation.read_bind [OF TrueI, codec_read] c_starvation.reads_bind [codec_canon]

definition encode_preemption_policy :: "preemption_policy \<Rightarrow> bytes" where
  "encode_preemption_policy value =
    w_bool (pp_enabled value) @ w_bool (pp_recall_discretionary value) @
    w_u32 (pp_recall_grace_rounds value)"

definition decode_preemption_policy :: "preemption_policy reader" where
  "decode_preemption_policy =
    rbind r_bool (\<lambda>enabled. rbind r_bool (\<lambda>recall_discretionary.
    rbind r_u32 (\<lambda>recall_grace_rounds.
      rret \<lparr> pp_enabled = enabled, pp_recall_discretionary = recall_discretionary,
      pp_recall_grace_rounds = recall_grace_rounds \<rparr>)))"

interpretation c_preemption: codec encode_preemption_policy decode_preemption_policy "\<lambda>_. True"
  by (rule codecI, simp add: encode_preemption_policy_def decode_preemption_policy_def codec_read,
    simp add: encode_preemption_policy_def decode_preemption_policy_def codec_canon)

declare c_preemption.read_bind [OF TrueI, codec_read] c_preemption.reads_bind [codec_canon]

definition encode_oversubscription :: "oversubscription_policy \<Rightarrow> bytes" where
  "encode_oversubscription value =
    w_u32 (os_numerator value) @ w_u32 (os_denominator value)"

definition decode_oversubscription :: "oversubscription_policy reader" where
  "decode_oversubscription =
    rbind r_u32 (\<lambda>numerator. rbind r_u32 (\<lambda>denominator.
      rret \<lparr> os_numerator = numerator, os_denominator = denominator \<rparr>))"

interpretation c_oversubscription: codec encode_oversubscription decode_oversubscription "\<lambda>_. True"
  by (rule codecI, simp add: encode_oversubscription_def decode_oversubscription_def codec_read,
    simp add: encode_oversubscription_def decode_oversubscription_def codec_canon)

declare c_oversubscription.read_bind [OF TrueI, codec_read] c_oversubscription.reads_bind [codec_canon]

declare codec.read_bind [OF codec_vector [OF c_priority_class.codec_axioms], codec_read]
  codec.reads_bind [OF codec_vector [OF c_priority_class.codec_axioms], codec_canon]

declare codec.read_bind [OF codec_vector [OF c_fairness_group.codec_axioms], codec_read]
  codec.reads_bind [OF codec_vector [OF c_fairness_group.codec_axioms], codec_canon]

definition encode_policy :: "policy \<Rightarrow> bytes" where
  "encode_policy value =
    write_id (po_id value) @ write_generation (po_generation value) @
    write_scheduling (po_scheduling value) @
    w_vector encode_priority_class (po_priority_classes value) @
    w_vector encode_fairness_group (po_fairness_groups value) @
    w_bandwidth (po_headroom_target value) @ w_u32 (po_headroom_permille value) @
    w_u32 (po_emergency_reserve_permille value) @ encode_borrow_policy (po_borrow value) @
    encode_starvation_policy (po_starvation value) @
    encode_preemption_policy (po_preemption value) @
    encode_oversubscription (po_oversubscription value) @
    w_bandwidth (po_minimum_allocation_quantum value) @ w_u32 (po_hysteresis_rounds value) @
    write_generation (po_fairness_config_generation value) @
    write_generation (po_tenant_config_generation value) @
    encode_provenance (po_provenance value)"

definition decode_policy :: "policy reader" where
  "decode_policy =
    rbind read_id (\<lambda>id1. rbind read_generation (\<lambda>generation.
    rbind read_scheduling (\<lambda>scheduling.
    rbind (r_vector kMaxPriorityClasses EC_ProtocolPayloadTooLarge decode_priority_class) (\<lambda>priority_classes.
    rbind (r_vector kMaxFairnessGroups EC_ProtocolPayloadTooLarge decode_fairness_group) (\<lambda>fairness_groups.
    rbind r_bandwidth (\<lambda>headroom_target. rbind r_u32 (\<lambda>headroom_permille.
    rbind r_u32 (\<lambda>emergency_reserve_permille.
    rbind decode_borrow_policy (\<lambda>borrow.
    rbind decode_starvation_policy (\<lambda>starvation.
    rbind decode_preemption_policy (\<lambda>preemption.
    rbind decode_oversubscription (\<lambda>oversubscription.
    rbind r_bandwidth (\<lambda>minimum_allocation_quantum.
    rbind r_u32 (\<lambda>hysteresis_rounds.
    rbind read_generation (\<lambda>fairness_config_generation.
    rbind read_generation (\<lambda>tenant_config_generation.
    rbind decode_provenance (\<lambda>provenance.
      rret \<lparr> po_id = id1, po_generation = generation, po_scheduling = scheduling,
      po_priority_classes = priority_classes, po_fairness_groups = fairness_groups,
      po_headroom_target = headroom_target, po_headroom_permille = headroom_permille,
      po_emergency_reserve_permille = emergency_reserve_permille, po_borrow = borrow,
      po_starvation = starvation, po_preemption = preemption,
      po_oversubscription = oversubscription,
      po_minimum_allocation_quantum = minimum_allocation_quantum,
      po_hysteresis_rounds = hysteresis_rounds,
      po_fairness_config_generation = fairness_config_generation,
      po_tenant_config_generation = tenant_config_generation,
      po_provenance = provenance \<rparr>)))))))))))))))))"

definition policy_ok :: "policy \<Rightarrow> bool" where
  "policy_ok value \<longleftrightarrow>
    vector_ok kMaxPriorityClasses priority_class_ok (po_priority_classes value) \<and>
    vector_ok kMaxFairnessGroups fairness_group_ok (po_fairness_groups value) \<and>
    bw_ok (po_headroom_target value) \<and> bw_ok (po_minimum_allocation_quantum value) \<and>
    provenance_ok (po_provenance value)"

interpretation c_policy: codec encode_policy decode_policy policy_ok
  by (rule codecI, simp add: encode_policy_def decode_policy_def policy_ok_def codec_read,
    simp add: encode_policy_def decode_policy_def policy_ok_def codec_canon)

declare c_policy.read_bind [codec_read] c_policy.reads_bind [codec_canon]

section \<open>Obligations and requests\<close>

definition encode_obligation :: "obligation \<Rightarrow> bytes" where
  "encode_obligation value =
    write_id (ob_reservation value) @ write_generation (ob_generation value) @
    encode_capacity_target (ob_target value) @ w_bandwidth (ob_amount value) @
    w_bool (ob_lendable value) @ w_u32 (ob_max_lend_permille value) @
    encode_provenance (ob_provenance value)"

definition decode_obligation :: "obligation reader" where
  "decode_obligation =
    rbind read_id (\<lambda>reservation. rbind read_generation (\<lambda>generation.
    rbind decode_capacity_target (\<lambda>target. rbind r_bandwidth (\<lambda>amount.
    rbind r_bool (\<lambda>lendable. rbind r_u32 (\<lambda>max_lend_permille.
    rbind decode_provenance (\<lambda>provenance.
      rret \<lparr> ob_reservation = reservation, ob_generation = generation, ob_target = target,
      ob_amount = amount, ob_lendable = lendable, ob_max_lend_permille = max_lend_permille,
      ob_provenance = provenance \<rparr>)))))))"

definition obligation_ok :: "obligation \<Rightarrow> bool" where
  "obligation_ok value \<longleftrightarrow>
    bw_ok (ob_amount value) \<and> provenance_ok (ob_provenance value)"

interpretation c_obligation: codec encode_obligation decode_obligation obligation_ok
  by (rule codecI, simp add: encode_obligation_def decode_obligation_def obligation_ok_def codec_read,
    simp add: encode_obligation_def decode_obligation_def obligation_ok_def codec_canon)

declare c_obligation.read_bind [codec_read] c_obligation.reads_bind [codec_canon]

definition encode_reservation_binding :: "reservation_binding \<Rightarrow> bytes" where
  "encode_reservation_binding value =
    write_id (rb_reservation value) @ write_generation (rb_generation value)"

definition decode_reservation_binding :: "reservation_binding reader" where
  "decode_reservation_binding =
    rbind read_id (\<lambda>reservation. rbind read_generation (\<lambda>generation.
      rret \<lparr> rb_reservation = reservation, rb_generation = generation \<rparr>))"

interpretation c_binding: codec encode_reservation_binding decode_reservation_binding "\<lambda>_. True"
  by (rule codecI, simp add: encode_reservation_binding_def decode_reservation_binding_def codec_read,
    simp add: encode_reservation_binding_def decode_reservation_binding_def codec_canon)

declare c_binding.read_bind [OF TrueI, codec_read] c_binding.reads_bind [codec_canon]

declare codec.read_bind [OF codec_option [OF c_u64.codec_axioms], codec_read]
  codec.reads_bind [OF codec_option [OF c_u64.codec_axioms], codec_canon]

definition encode_request_window :: "request_window \<Rightarrow> bytes" where
  "encode_request_window value = w_u64 (rw_start_tick value) @ w_option w_u64 (rw_end_tick value)"

definition decode_request_window :: "request_window reader" where
  "decode_request_window = rbind r_u64 (\<lambda>start_tick. rbind (r_option r_u64) (\<lambda>end_tick.
      rret \<lparr> rw_start_tick = start_tick, rw_end_tick = end_tick \<rparr>))"

lemma pred_option_True [simp]: "pred_option (\<lambda>_. True) x"
  by (cases x) simp_all

interpretation c_window: codec encode_request_window decode_request_window "\<lambda>_. True"
  by (rule codecI, simp add: encode_request_window_def decode_request_window_def codec_read,
    simp add: encode_request_window_def decode_request_window_def codec_canon)

declare codec.read_bind [OF codec_option [OF c_window.codec_axioms], codec_read]
  codec.reads_bind [OF codec_option [OF c_window.codec_axioms], codec_canon]

declare codec.read_bind [OF codec_option [OF c_binding.codec_axioms], codec_read]
  codec.reads_bind [OF codec_option [OF c_binding.codec_axioms], codec_canon]

definition encode_policy_label :: "policy_label \<Rightarrow> bytes" where
  "encode_policy_label value =
    write_text (pl_key value) @ write_text (pl_value value)"

definition decode_policy_label :: "policy_label reader" where
  "decode_policy_label =
    rbind (read_text kMaxLabelKeyBytes) (\<lambda>key.
    rbind (read_text kMaxLabelValueBytes) (\<lambda>value1.
      rret \<lparr> pl_key = key, pl_value = value1 \<rparr>))"

definition policy_label_ok :: "policy_label \<Rightarrow> bool" where
  "policy_label_ok value \<longleftrightarrow>
    text_ok kMaxLabelKeyBytes (pl_key value) \<and> text_ok kMaxLabelValueBytes (pl_value value)"

interpretation c_label: codec encode_policy_label decode_policy_label policy_label_ok
  by (rule codecI, simp add: encode_policy_label_def decode_policy_label_def policy_label_ok_def codec_read,
    simp add: encode_policy_label_def decode_policy_label_def policy_label_ok_def codec_canon)

declare c_label.read_bind [codec_read] c_label.reads_bind [codec_canon]

declare codec.read_bind [OF codec_vector [OF c_label.codec_axioms], codec_read]
  codec.reads_bind [OF codec_vector [OF c_label.codec_axioms], codec_canon]

definition encode_request :: "bandwidth_request \<Rightarrow> bytes" where
  "encode_request value =
    write_id (rq_id value) @ write_generation (rq_generation value) @
    encode_authority (rq_authority value) @ encode_capacity_target (rq_target value) @
    w_bandwidth (rq_minimum value) @ w_bandwidth (rq_desired value) @
    w_bandwidth (rq_maximum value) @ write_guarantee (rq_guarantee_class value) @
    write_id (rq_priority value) @ write_id (rq_tenant value) @
    write_id (rq_fairness_group value) @ w_bool (rq_borrowing_eligible value) @
    w_bool (rq_preemptible value) @ write_tolerance (rq_recall_tolerance value) @
    w_option encode_reservation_binding (rq_reservation value) @
    w_option encode_request_window (rq_window value) @ write_id (rq_latency_slo value) @
    w_vector encode_policy_label (rq_labels value) @ encode_provenance (rq_provenance value)"

definition decode_request :: "bandwidth_request reader" where
  "decode_request =
    rbind read_id (\<lambda>id1. rbind read_generation (\<lambda>generation.
    rbind decode_authority (\<lambda>authority. rbind decode_capacity_target (\<lambda>target.
    rbind r_bandwidth (\<lambda>minimum. rbind r_bandwidth (\<lambda>desired.
    rbind r_bandwidth (\<lambda>maximum. rbind read_guarantee (\<lambda>guarantee_class.
    rbind read_id (\<lambda>priority. rbind read_id (\<lambda>tenant.
    rbind read_id (\<lambda>fairness_group. rbind r_bool (\<lambda>borrowing_eligible.
    rbind r_bool (\<lambda>preemptible. rbind read_tolerance (\<lambda>recall_tolerance.
    rbind (r_option decode_reservation_binding) (\<lambda>reservation.
    rbind (r_option decode_request_window) (\<lambda>window.
    rbind read_id (\<lambda>latency_slo.
    rbind (r_vector kMaxPolicyLabels EC_ProtocolPayloadTooLarge decode_policy_label) (\<lambda>labels.
    rbind decode_provenance (\<lambda>provenance.
      rret \<lparr> rq_id = id1, rq_generation = generation, rq_authority = authority,
      rq_target = target, rq_minimum = minimum, rq_desired = desired, rq_maximum = maximum,
      rq_guarantee_class = guarantee_class, rq_priority = priority, rq_tenant = tenant,
      rq_fairness_group = fairness_group, rq_borrowing_eligible = borrowing_eligible,
      rq_preemptible = preemptible, rq_recall_tolerance = recall_tolerance,
      rq_reservation = reservation, rq_window = window, rq_latency_slo = latency_slo,
      rq_labels = labels, rq_provenance = provenance \<rparr>)))))))))))))))))))"

definition request_ok :: "bandwidth_request \<Rightarrow> bool" where
  "request_ok value \<longleftrightarrow>
    authority_ok (rq_authority value) \<and> bw_ok (rq_minimum value) \<and>
    bw_ok (rq_desired value) \<and> bw_ok (rq_maximum value) \<and>
    pred_option (\<lambda>_. True) (rq_reservation value) \<and>
    pred_option (\<lambda>_. True) (rq_window value) \<and>
    vector_ok kMaxPolicyLabels policy_label_ok (rq_labels value) \<and>
    provenance_ok (rq_provenance value)"

interpretation c_request: codec encode_request decode_request request_ok
  by (rule codecI, simp add: encode_request_def decode_request_def request_ok_def codec_read,
    simp add: encode_request_def decode_request_def request_ok_def codec_canon)

declare c_request.read_bind [codec_read] c_request.reads_bind [codec_canon]

section \<open>Grants, recalls and accounting\<close>

definition encode_grant_allocation :: "grant_allocation \<Rightarrow> bytes" where
  "encode_grant_allocation value =
    w_bandwidth (ga_guaranteed value) @ w_bandwidth (ga_discretionary value) @
    w_bandwidth (ga_borrowed value) @ w_bandwidth (ga_contingent value)"

definition decode_grant_allocation :: "grant_allocation reader" where
  "decode_grant_allocation =
    rbind r_bandwidth (\<lambda>guaranteed. rbind r_bandwidth (\<lambda>discretionary.
    rbind r_bandwidth (\<lambda>borrowed. rbind r_bandwidth (\<lambda>contingent.
      rret \<lparr> ga_guaranteed = guaranteed, ga_discretionary = discretionary,
      ga_borrowed = borrowed, ga_contingent = contingent \<rparr>))))"

definition allocation_ok :: "grant_allocation \<Rightarrow> bool" where
  "allocation_ok value \<longleftrightarrow>
    bw_ok (ga_guaranteed value) \<and> bw_ok (ga_discretionary value) \<and>
    bw_ok (ga_borrowed value) \<and> bw_ok (ga_contingent value)"

interpretation c_allocation: codec encode_grant_allocation decode_grant_allocation allocation_ok
  by (rule codecI, simp add: encode_grant_allocation_def decode_grant_allocation_def allocation_ok_def codec_read,
    simp add: encode_grant_allocation_def decode_grant_allocation_def allocation_ok_def codec_canon)

declare c_allocation.read_bind [codec_read] c_allocation.reads_bind [codec_canon]

definition encode_recall_record :: "recall_record \<Rightarrow> bytes" where
  "encode_recall_record value =
    write_id (rr_id value) @ write_id (rr_grant value) @
    write_generation (rr_grant_generation value) @ write_id (rr_request value) @
    encode_capacity_target (rr_target value) @ w_bandwidth (rr_recalled value) @
    w_bandwidth (rr_remaining value) @ write_reason (rr_reason value) @
    w_u64 (rr_requested_tick value) @ w_u64 (rr_deadline_tick value) @
    w_bool (rr_acknowledgement_required value) @ encode_authority (rr_authority value)"

definition decode_recall_record :: "recall_record reader" where
  "decode_recall_record =
    rbind read_id (\<lambda>id1. rbind read_id (\<lambda>grant.
    rbind read_generation (\<lambda>grant_generation. rbind read_id (\<lambda>request.
    rbind decode_capacity_target (\<lambda>target. rbind r_bandwidth (\<lambda>recalled.
    rbind r_bandwidth (\<lambda>remaining.
    rbind (read_reason EC_ProtocolMalformed) (\<lambda>reason.
    rbind r_u64 (\<lambda>requested_tick. rbind r_u64 (\<lambda>deadline_tick.
    rbind r_bool (\<lambda>acknowledgement_required.
    rbind decode_authority (\<lambda>authority.
      rret \<lparr> rr_id = id1, rr_grant = grant, rr_grant_generation = grant_generation,
      rr_request = request, rr_target = target, rr_recalled = recalled,
      rr_remaining = remaining, rr_reason = reason, rr_requested_tick = requested_tick,
      rr_deadline_tick = deadline_tick, rr_acknowledgement_required = acknowledgement_required,
      rr_authority = authority \<rparr>))))))))))))"

definition recall_ok :: "recall_record \<Rightarrow> bool" where
  "recall_ok value \<longleftrightarrow>
    bw_ok (rr_recalled value) \<and> bw_ok (rr_remaining value) \<and>
    reason_ok (rr_reason value) \<and> authority_ok (rr_authority value)"

interpretation c_recall: codec encode_recall_record decode_recall_record recall_ok
  by (rule codecI, simp add: encode_recall_record_def decode_recall_record_def recall_ok_def codec_read,
    simp add: encode_recall_record_def decode_recall_record_def recall_ok_def codec_canon)

declare c_recall.read_bind [codec_read] c_recall.reads_bind [codec_canon]

definition encode_grant :: "grant \<Rightarrow> bytes" where
  "encode_grant value =
    write_id (gr_id value) @ write_generation (gr_generation value) @
    write_id (gr_request value) @ write_generation (gr_request_generation value) @
    encode_capacity_target (gr_target value) @ write_state (gr_state value) @
    encode_grant_allocation (gr_allocation value) @ w_bandwidth (gr_requested_minimum value) @
    w_bandwidth (gr_requested_desired value) @ w_bandwidth (gr_requested_maximum value) @
    w_bandwidth (gr_denied value) @ w_bool (gr_satisfied value) @
    write_reason (gr_reason value) @ write_id (gr_decision value) @
    write_id (gr_recall value) @ w_option write_id (gr_superseded_by value) @
    w_option write_id (gr_supersedes value) @ w_u64 (gr_issued_tick value) @
    w_u64 (gr_last_revalidated_tick value) @ w_option w_u64 (gr_expires_at_tick value) @
    w_u64 (gr_wait_rounds value) @ w_bandwidth (gr_obligation_backed value) @
    w_bandwidth (gr_reserve_backed value) @ encode_authority (gr_authority value)"

definition decode_grant :: "grant reader" where
  "decode_grant =
    rbind read_id (\<lambda>id1. rbind read_generation (\<lambda>generation.
    rbind read_id (\<lambda>request. rbind read_generation (\<lambda>request_generation.
    rbind decode_capacity_target (\<lambda>target. rbind read_state (\<lambda>state.
    rbind decode_grant_allocation (\<lambda>allocation.
    rbind r_bandwidth (\<lambda>requested_minimum.
    rbind r_bandwidth (\<lambda>requested_desired.
    rbind r_bandwidth (\<lambda>requested_maximum. rbind r_bandwidth (\<lambda>denied.
    rbind r_bool (\<lambda>satisfied.
    rbind (read_reason EC_ProtocolMalformed) (\<lambda>reason.
    rbind read_id (\<lambda>decision. rbind read_id (\<lambda>recall.
    rbind (r_option read_id) (\<lambda>superseded_by.
    rbind (r_option read_id) (\<lambda>supersedes. rbind r_u64 (\<lambda>issued_tick.
    rbind r_u64 (\<lambda>last_revalidated_tick.
    rbind (r_option r_u64) (\<lambda>expires_at_tick. rbind r_u64 (\<lambda>wait_rounds.
    rbind r_bandwidth (\<lambda>obligation_backed. rbind r_bandwidth (\<lambda>reserve_backed.
    rbind decode_authority (\<lambda>authority.
      rret \<lparr> gr_id = id1, gr_generation = generation, gr_request = request,
      gr_request_generation = request_generation, gr_target = target, gr_state = state,
      gr_allocation = allocation, gr_requested_minimum = requested_minimum,
      gr_requested_desired = requested_desired, gr_requested_maximum = requested_maximum,
      gr_denied = denied, gr_satisfied = satisfied, gr_reason = reason, gr_decision = decision,
      gr_recall = recall, gr_superseded_by = superseded_by, gr_supersedes = supersedes,
      gr_issued_tick = issued_tick, gr_last_revalidated_tick = last_revalidated_tick,
      gr_expires_at_tick = expires_at_tick, gr_wait_rounds = wait_rounds,
      gr_obligation_backed = obligation_backed, gr_reserve_backed = reserve_backed,
      gr_authority = authority \<rparr>))))))))))))))))))))))))"

definition grant_ok :: "grant \<Rightarrow> bool" where
  "grant_ok value \<longleftrightarrow>
    allocation_ok (gr_allocation value) \<and> bw_ok (gr_requested_minimum value) \<and>
    bw_ok (gr_requested_desired value) \<and> bw_ok (gr_requested_maximum value) \<and>
    bw_ok (gr_denied value) \<and> reason_ok (gr_reason value) \<and>
    pred_option (\<lambda>_. True) (gr_superseded_by value) \<and>
    pred_option (\<lambda>_. True) (gr_supersedes value) \<and>
    pred_option (\<lambda>_. True) (gr_expires_at_tick value) \<and>
    bw_ok (gr_obligation_backed value) \<and> bw_ok (gr_reserve_backed value) \<and>
    authority_ok (gr_authority value)"

interpretation c_grant: codec encode_grant decode_grant grant_ok
  by (rule codecI, simp add: encode_grant_def decode_grant_def grant_ok_def codec_read,
    simp add: encode_grant_def decode_grant_def grant_ok_def codec_canon)

declare c_grant.read_bind [codec_read] c_grant.reads_bind [codec_canon]

definition encode_accounting :: "resource_accounting \<Rightarrow> bytes" where
  "encode_accounting value =
    encode_capacity_target (ac_target value) @
    write_generation (ac_capacity_generation value) @ write_evidence (ac_evidence value) @
    w_bandwidth (ac_physical_configured value) @
    w_bandwidth (ac_administratively_unavailable value) @
    w_bandwidth (ac_degraded_loss value) @ w_bandwidth (ac_effective_physical value) @
    w_bandwidth (ac_obligations_reserved value) @ w_bandwidth (ac_obligations_consumed value) @
    w_bandwidth (ac_obligations_lent value) @ w_bandwidth (ac_obligations_idle value) @
    w_bandwidth (ac_capacity_deficit value) @ w_bandwidth (ac_allocatable value) @
    w_bandwidth (ac_emergency_reserve value) @
    w_bandwidth (ac_emergency_reserve_unused value) @ w_bandwidth (ac_headroom value) @
    w_bandwidth (ac_arbitrable value) @ w_bandwidth (ac_guaranteed_granted value) @
    w_bandwidth (ac_discretionary_granted value) @ w_bandwidth (ac_borrowed_granted value) @
    w_bandwidth (ac_contingent_granted value) @ w_bandwidth (ac_unallocated value) @
    w_bandwidth (ac_contingent_pool value) @ w_bandwidth (ac_contingent_unallocated value) @
    w_bandwidth (ac_authorized_consumption value)"

definition decode_accounting :: "resource_accounting reader" where
  "decode_accounting =
    rbind decode_capacity_target (\<lambda>target.
    rbind read_generation (\<lambda>capacity_generation.
    rbind read_evidence (\<lambda>evidence. rbind r_bandwidth (\<lambda>physical_configured.
    rbind r_bandwidth (\<lambda>administratively_unavailable.
    rbind r_bandwidth (\<lambda>degraded_loss. rbind r_bandwidth (\<lambda>effective_physical.
    rbind r_bandwidth (\<lambda>obligations_reserved.
    rbind r_bandwidth (\<lambda>obligations_consumed.
    rbind r_bandwidth (\<lambda>obligations_lent. rbind r_bandwidth (\<lambda>obligations_idle.
    rbind r_bandwidth (\<lambda>capacity_deficit. rbind r_bandwidth (\<lambda>allocatable.
    rbind r_bandwidth (\<lambda>emergency_reserve.
    rbind r_bandwidth (\<lambda>emergency_reserve_unused. rbind r_bandwidth (\<lambda>headroom.
    rbind r_bandwidth (\<lambda>arbitrable. rbind r_bandwidth (\<lambda>guaranteed_granted.
    rbind r_bandwidth (\<lambda>discretionary_granted.
    rbind r_bandwidth (\<lambda>borrowed_granted.
    rbind r_bandwidth (\<lambda>contingent_granted. rbind r_bandwidth (\<lambda>unallocated.
    rbind r_bandwidth (\<lambda>contingent_pool.
    rbind r_bandwidth (\<lambda>contingent_unallocated.
    rbind r_bandwidth (\<lambda>authorized_consumption.
      rret \<lparr> ac_target = target, ac_capacity_generation = capacity_generation,
      ac_evidence = evidence, ac_physical_configured = physical_configured,
      ac_administratively_unavailable = administratively_unavailable,
      ac_degraded_loss = degraded_loss, ac_effective_physical = effective_physical,
      ac_obligations_reserved = obligations_reserved,
      ac_obligations_consumed = obligations_consumed, ac_obligations_lent = obligations_lent,
      ac_obligations_idle = obligations_idle, ac_capacity_deficit = capacity_deficit,
      ac_allocatable = allocatable, ac_emergency_reserve = emergency_reserve,
      ac_emergency_reserve_unused = emergency_reserve_unused, ac_headroom = headroom,
      ac_arbitrable = arbitrable, ac_guaranteed_granted = guaranteed_granted,
      ac_discretionary_granted = discretionary_granted, ac_borrowed_granted = borrowed_granted,
      ac_contingent_granted = contingent_granted, ac_unallocated = unallocated,
      ac_contingent_pool = contingent_pool, ac_contingent_unallocated = contingent_unallocated,
      ac_authorized_consumption = authorized_consumption \<rparr>)))))))))))))))))))))))))"

definition accounting_ok :: "resource_accounting \<Rightarrow> bool" where
  "accounting_ok value \<longleftrightarrow>
    bw_ok (ac_physical_configured value) \<and>
    bw_ok (ac_administratively_unavailable value) \<and> bw_ok (ac_degraded_loss value) \<and>
    bw_ok (ac_effective_physical value) \<and> bw_ok (ac_obligations_reserved value) \<and>
    bw_ok (ac_obligations_consumed value) \<and> bw_ok (ac_obligations_lent value) \<and>
    bw_ok (ac_obligations_idle value) \<and> bw_ok (ac_capacity_deficit value) \<and>
    bw_ok (ac_allocatable value) \<and> bw_ok (ac_emergency_reserve value) \<and>
    bw_ok (ac_emergency_reserve_unused value) \<and> bw_ok (ac_headroom value) \<and>
    bw_ok (ac_arbitrable value) \<and> bw_ok (ac_guaranteed_granted value) \<and>
    bw_ok (ac_discretionary_granted value) \<and> bw_ok (ac_borrowed_granted value) \<and>
    bw_ok (ac_contingent_granted value) \<and> bw_ok (ac_unallocated value) \<and>
    bw_ok (ac_contingent_pool value) \<and> bw_ok (ac_contingent_unallocated value) \<and>
    bw_ok (ac_authorized_consumption value)"

interpretation c_accounting: codec encode_accounting decode_accounting accounting_ok
  by (rule codecI, simp add: encode_accounting_def decode_accounting_def accounting_ok_def codec_read,
    simp add: encode_accounting_def decode_accounting_def accounting_ok_def codec_canon)

declare c_accounting.read_bind [codec_read] c_accounting.reads_bind [codec_canon]

end
