(* ===== verification/Broker_Records.thy ===== *)
theory Broker_Records
  imports Wire Effects Store
begin

text \<open>
  The payloads the coordinator journals (\<open>broker.cpp\<close>, record payload codecs): references, request
  keys, committed rounds, idempotency entries, fences and boot records, each a codec.  Policies,
  snapshots, obligations, requests and grants are journalled in their wire form.
\<close>

section \<open>References and request keys\<close>

type_synonym request_key = "u64 \<times> u64"

definition request_key :: "ident \<Rightarrow> generation \<Rightarrow> request_key" where
  "request_key i generation = (i, generation)"

definition encode_reference :: "ident \<times> generation \<Rightarrow> bytes" where
  "encode_reference value = write_id (fst value) @ write_generation (snd value)"

definition decode_reference :: "bytes \<Rightarrow> (ident \<times> generation) result" where
  "decode_reference payload =
    snd (rbind read_id (\<lambda>i. rbind read_generation (\<lambda>generation rest. (rest,
      if rest \<noteq> [] then fail EC_PersistenceCorrupt else Inr (i, generation)))) payload)"

definition encode_request_key :: "request_key \<Rightarrow> bytes" where
  "encode_request_key value = write_id (fst value) @ write_generation (snd value)"

definition decode_request_key :: "request_key reader" where
  "decode_request_key = rbind read_id (\<lambda>i. rbind read_generation (\<lambda>generation. rret (i, generation)))"

interpretation c_key: codec encode_request_key decode_request_key "\<lambda>_. True"
  by (rule codecI, simp add: encode_request_key_def decode_request_key_def codec_read,
    simp add: encode_request_key_def decode_request_key_def codec_canon)

lemma decode_encode_reference: "decode_reference (encode_reference v) = Inr v"
  by (cases v) (simp add: decode_reference_def encode_reference_def codec_read c_u64.read_bind [of _ _ "[]", simplified])

section \<open>Rounds, idempotency entries, fences and boots\<close>

record round_record =
  ro_decision :: ident
  ro_target :: capacity_target
  ro_tick :: u64
  ro_accounting :: resource_accounting
  ro_next_grant_id :: u64
  ro_next_recall_id :: u64

definition encode_round :: "round_record \<Rightarrow> bytes" where
  "encode_round value =
    write_id (ro_decision value) @ encode_capacity_target (ro_target value) @
    w_u64 (ro_tick value) @ encode_accounting (ro_accounting value) @
    w_u64 (ro_next_grant_id value) @ w_u64 (ro_next_recall_id value)"

definition decode_round :: "round_record reader" where
  "decode_round =
    rbind read_id (\<lambda>decision. rbind decode_capacity_target (\<lambda>target.
    rbind r_u64 (\<lambda>tick. rbind decode_accounting (\<lambda>accounting.
    rbind r_u64 (\<lambda>next_grant_id. rbind r_u64 (\<lambda>next_recall_id.
      rret \<lparr> ro_decision = decision, ro_target = target, ro_tick = tick,
      ro_accounting = accounting, ro_next_grant_id = next_grant_id,
      ro_next_recall_id = next_recall_id \<rparr>))))))"

definition round_ok :: "round_record \<Rightarrow> bool" where
  "round_ok value \<longleftrightarrow>
    accounting_ok (ro_accounting value)"

interpretation c_round_record: codec encode_round decode_round round_ok
  by (rule codecI, simp add: encode_round_def decode_round_def round_ok_def codec_read,
    simp add: encode_round_def decode_round_def round_ok_def codec_canon)

declare c_round_record.read_bind [codec_read] c_round_record.reads_bind [codec_canon]

record idempotency_record =
  ir_request :: ident
  ir_generation :: generation
  ir_content_hash :: u64
  ir_reason :: outcome_reason
  ir_waiting :: bool
  ir_refused :: bool

definition encode_idempotency :: "idempotency_record \<Rightarrow> bytes" where
  "encode_idempotency value =
    write_id (ir_request value) @ write_generation (ir_generation value) @
    w_u64 (ir_content_hash value) @ write_reason (ir_reason value) @
    w_bool (ir_waiting value) @ w_bool (ir_refused value)"

definition decode_idempotency :: "idempotency_record reader" where
  "decode_idempotency =
    rbind read_id (\<lambda>request. rbind read_generation (\<lambda>generation.
    rbind r_u64 (\<lambda>content_hash.
    rbind (read_reason EC_PersistenceCorrupt) (\<lambda>reason. rbind r_bool (\<lambda>waiting.
    rbind r_bool (\<lambda>refused.
      rret \<lparr> ir_request = request, ir_generation = generation,
      ir_content_hash = content_hash, ir_reason = reason, ir_waiting = waiting,
      ir_refused = refused \<rparr>))))))"

definition idempotency_ok :: "idempotency_record \<Rightarrow> bool" where
  "idempotency_ok value \<longleftrightarrow>
    reason_ok (ir_reason value)"

interpretation c_idempotency_record: codec encode_idempotency decode_idempotency idempotency_ok
  by (rule codecI, simp add: encode_idempotency_def decode_idempotency_def idempotency_ok_def codec_read,
    simp add: encode_idempotency_def decode_idempotency_def idempotency_ok_def codec_canon)

declare c_idempotency_record.read_bind [codec_read] c_idempotency_record.reads_bind [codec_canon]

record boot_fence =
  bf_publisher :: ident
  bf_boot :: boot_id
  bf_sequence :: ident
  bf_tick :: u64
  bf_reason :: bytes

definition encode_fence :: "boot_fence \<Rightarrow> bytes" where
  "encode_fence value =
    write_id (bf_publisher value) @ encode_boot_id (bf_boot value) @
    write_id (bf_sequence value) @ w_u64 (bf_tick value) @ w_bytes (bf_reason value)"

definition decode_fence :: "boot_fence reader" where
  "decode_fence =
    rbind read_id (\<lambda>publisher. rbind decode_boot_id (\<lambda>boot.
    rbind read_id (\<lambda>sequence. rbind r_u64 (\<lambda>tick.
    rbind (r_bytes 128) (\<lambda>reason.
      rret \<lparr> bf_publisher = publisher, bf_boot = boot, bf_sequence = sequence,
      bf_tick = tick, bf_reason = reason \<rparr>)))))"

definition fence_ok :: "boot_fence \<Rightarrow> bool" where
  "fence_ok value \<longleftrightarrow>
    boot_ok (bf_boot value) \<and> string_ok 128 (bf_reason value)"

interpretation c_fence_record: codec encode_fence decode_fence fence_ok
  by (rule codecI, simp add: encode_fence_def decode_fence_def fence_ok_def codec_read,
    simp add: encode_fence_def decode_fence_def fence_ok_def codec_canon)

declare c_fence_record.read_bind [codec_read] c_fence_record.reads_bind [codec_canon]

record boot_record =
  bt_coordinator :: ident
  bt_epoch :: ident
  bt_tick :: u64
  bt_sequence :: ident

definition encode_boot :: "boot_record \<Rightarrow> bytes" where
  "encode_boot value =
    write_id (bt_coordinator value) @ write_id (bt_epoch value) @ w_u64 (bt_tick value) @
    write_id (bt_sequence value)"

definition decode_boot :: "boot_record reader" where
  "decode_boot =
    rbind read_id (\<lambda>coordinator. rbind read_id (\<lambda>epoch.
    rbind r_u64 (\<lambda>tick. rbind read_id (\<lambda>sequence.
      rret \<lparr> bt_coordinator = coordinator, bt_epoch = epoch, bt_tick = tick,
      bt_sequence = sequence \<rparr>))))"

interpretation c_boot_record: codec encode_boot decode_boot "\<lambda>_. True"
  by (rule codecI, simp add: encode_boot_def decode_boot_def codec_read,
    simp add: encode_boot_def decode_boot_def codec_canon)

declare c_boot_record.read_bind [OF TrueI, codec_read] c_boot_record.reads_bind [codec_canon]

end
