(* ===== verification/Explanation.thy ===== *)
theory Explanation
  imports Arbitrator
begin

text \<open>
  The explanation of a decision (\<open>explanation.hpp\<close>, \<open>explanation.cpp\<close>) and its two validators.  As in
  \<open>Arbitrator\<close>, the two diagnostic texts are left out of the record the coordinator keeps; the wire
  form, which carries them, extends it.
\<close>

record request_explanation =
  xp_request :: ident
  xp_request_generation :: generation
  xp_target :: capacity_target
  xp_state :: grant_state
  xp_reason :: outcome_reason
  xp_satisfied :: bool
  xp_waiting :: bool
  xp_refused :: bool
  xp_authority :: authority_vector
  xp_epoch :: ident
  xp_coordinator :: ident
  xp_policy :: ident
  xp_policy_generation :: generation
  xp_decision :: ident
  xp_decision_tick :: u64
  xp_evidence :: evidence_state
  xp_capacity_generation :: generation
  xp_effective_physical :: bandwidth
  xp_obligations_applied :: bandwidth
  xp_allocatable :: bandwidth
  xp_headroom_preserved :: bandwidth
  xp_emergency_reserve_preserved :: bandwidth
  xp_arbitrable :: bandwidth
  xp_requested_minimum :: bandwidth
  xp_requested_desired :: bandwidth
  xp_requested_maximum :: bandwidth
  xp_guaranteed :: bandwidth
  xp_discretionary :: bandwidth
  xp_borrowed :: bandwidth
  xp_contingent :: bandwidth
  xp_total_granted :: bandwidth
  xp_denied :: bandwidth
  xp_priority :: ident
  xp_fairness_group :: ident
  xp_tenant :: ident
  xp_effective_rank :: u32
  xp_effective_weight :: u64
  xp_starvation_promoted :: bool
  xp_group_cap :: bandwidth
  xp_group_allocated :: bandwidth
  xp_wait_rounds :: u64
  xp_recall_pending :: bool
  xp_recalled :: bandwidth
  xp_recall :: ident
  xp_recall_reason :: outcome_reason
  xp_recall_deadline_tick :: u64
  xp_resource_generation :: generation
  xp_grant :: ident
  xp_grant_generation :: generation
  xp_provenance :: provenance

definition default_explanation :: request_explanation where
  "default_explanation = \<lparr> xp_request = 0, xp_request_generation = 0, xp_target = CapacityTarget 0 0 0 0,
     xp_state = GS_Rejected, xp_reason = OR_None, xp_satisfied = False, xp_waiting = False,
     xp_refused = False, xp_authority = default_authority, xp_epoch = 0, xp_coordinator = 0,
     xp_policy = 0, xp_policy_generation = 0, xp_decision = 0, xp_decision_tick = 0,
     xp_evidence = EV_Unknown, xp_capacity_generation = 0, xp_effective_physical = 0,
     xp_obligations_applied = 0, xp_allocatable = 0, xp_headroom_preserved = 0,
     xp_emergency_reserve_preserved = 0, xp_arbitrable = 0, xp_requested_minimum = 0,
     xp_requested_desired = 0, xp_requested_maximum = 0, xp_guaranteed = 0,
     xp_discretionary = 0, xp_borrowed = 0, xp_contingent = 0, xp_total_granted = 0,
     xp_denied = 0, xp_priority = 0, xp_fairness_group = 0, xp_tenant = 0,
     xp_effective_rank = 0, xp_effective_weight = 1, xp_starvation_promoted = False,
     xp_group_cap = 0, xp_group_allocated = 0, xp_wait_rounds = 0, xp_recall_pending = False,
     xp_recalled = 0, xp_recall = 0, xp_recall_reason = OR_None, xp_recall_deadline_tick = 0,
     xp_resource_generation = 0, xp_grant = 0, xp_grant_generation = 0,
     xp_provenance = default_provenance \<rparr>"

definition explanation_validate :: "request_explanation \<Rightarrow> status" where
  "explanation_validate e =
    (if \<not> valid_id (xp_request e) then fail EC_InvalidIdentity
     else if \<not> valid_id (xp_request_generation e) then fail EC_InvalidIdentity
     else bindr (target_validate (xp_target e)) (\<lambda>_.
       validate_text (pv_detail (xp_provenance e)) kMaxProvenanceDetailBytes))"

record explanation_message = request_explanation +
  xm_binding_reason :: bytes
  xm_authority_mismatch :: bytes

definition validate_explanation :: "explanation_message \<Rightarrow> status" where
  "validate_explanation e =
    (if \<not> valid_id (xp_request e) then fail EC_InvalidIdentity
     else if \<not> valid_id (xp_request_generation e) then fail EC_InvalidIdentity
     else bindr (target_validate (xp_target e)) (\<lambda>_.
       bindr (validate_text (xm_binding_reason e) kMaxExplanationTextBytes) (\<lambda>_.
       bindr (validate_text (xm_authority_mismatch e) kMaxExplanationTextBytes) (\<lambda>_.
         validate_text (pv_detail (xp_provenance e)) kMaxProvenanceDetailBytes))))"

lemma explanation_validate_iff:
  "explanation_validate e = success \<longleftrightarrow>
    valid_id (xp_request e) \<and> valid_id (xp_request_generation e) \<and> target_validate (xp_target e) = success \<and>
    validate_text (pv_detail (xp_provenance e)) kMaxProvenanceDetailBytes = success"
  by (cases "target_validate (xp_target e)") (simp_all add: explanation_validate_def)

end
