(* ===== verification/Broker.thy ===== *)
theory Broker
  imports Broker_Records Explanation "HOL-Library.Product_Lexorder"
begin

text \<open>
  The coordinator runtime (\<open>broker.hpp\<close>, \<open>broker.cpp\<close>): the state behind \<open>Broker::Impl\<close> and one
  operation per member function.  Every member function holds the coordinator's mutex from its first to its
  last statement, so operations are atomic and the runtime is a sequence of them.  An operation is a
  function from the state to the state after it and its result: a failed operation may have changed
  the state before it failed, exactly where the source mutates before it journals.

  \<open>std::map\<close> members are ordered maps; a reference into a map is a lookup followed by an update under
  the same key.  The texts of views and error messages are left out.
\<close>

section \<open>State\<close>

record broker_config =
  bc_epoch :: ident
  bc_incarnation :: ident
  bc_store_directory :: bytes
  bc_max_idempotency_entries :: nat
  bc_journal_compaction_records :: nat
  bc_fsync_on_commit :: bool

datatype idempotency_disposition = ID_New | ID_Replay | ID_Conflict

record submit_outcome =
  so_disposition :: idempotency_disposition
  so_request :: ident
  so_generation :: generation
  so_waiting :: bool
  so_refused :: bool
  so_reason :: outcome_reason

record broker =
  br_config :: broker_config
  br_store :: "store option"
  br_epoch :: ident
  br_incarnation :: ident
  br_tick :: u64
  br_audit_sequence :: u64
  br_next_grant_id :: u64
  br_next_recall_id :: u64
  br_next_decision_id :: u64
  br_next_snapshot_id :: u64
  br_next_session_id :: u64
  br_policy :: "policy option"
  br_capacities :: "(capacity_target, capacity_snapshot) omap"
  br_obligations :: "(u64, obligation) omap"
  br_requests :: "(request_key, bandwidth_request) omap"
  br_wait_rounds :: "(request_key, u64) omap"
  br_content_hashes :: "(request_key, u64) omap"
  br_idempotency :: "(request_key, submit_outcome) omap"
  br_grants :: "(u64, grant) omap"
  br_fences :: "boot_fence list"
  br_fence_hashes :: "u64 set"
  br_accounting :: "(capacity_target, resource_accounting) omap"
  br_explanations :: "(request_key, request_explanation) omap"
  br_last_decision :: "(capacity_target, ident) omap"
  br_retired_obligations :: "(u64, u64) omap"
  br_recoveries :: u64
  br_journal_truncations :: nat
  br_snapshots_written :: u64

type_synonym 'a bop = "(broker, 'a) op"

definition new_broker :: "broker_config \<Rightarrow> broker" where
  "new_broker config = \<lparr> br_config = config, br_store = None, br_epoch = bc_epoch config,
     br_incarnation = bc_incarnation config, br_tick = 0, br_audit_sequence = 0, br_next_grant_id = 1,
     br_next_recall_id = 1, br_next_decision_id = 1, br_next_snapshot_id = 1, br_next_session_id = 1,
     br_policy = None, br_capacities = [], br_obligations = [], br_requests = [], br_wait_rounds = [],
     br_content_hashes = [], br_idempotency = [], br_grants = [], br_fences = [], br_fence_hashes = {},
     br_accounting = [], br_explanations = [], br_last_decision = [], br_retired_obligations = [],
     br_recoveries = 0, br_journal_truncations = 0, br_snapshots_written = 0 \<rparr>"

section \<open>Journalling\<close>

definition record_header_of :: "ident \<Rightarrow> broker \<Rightarrow> record_header" where
  "record_header_of seq b = \<lparr> rh_sequence = seq, rh_tick = br_tick b, rh_epoch = br_epoch b,
     rh_coordinator = br_incarnation b \<rparr>"

definition persist :: "record_type \<Rightarrow> bytes \<Rightarrow> unit bop" where
  "persist type payload b =
    (case br_store b of
       None \<Rightarrow> (b\<lparr>br_audit_sequence := br_audit_sequence b + 1\<rparr>, success)
     | Some st \<Rightarrow> (case id_make (br_audit_sequence b + 1) of
           Inl e \<Rightarrow> (b, Inl e)
         | Inr seq \<Rightarrow> (case store_append type (record_header_of seq b) payload st of
               (st', Inl e) \<Rightarrow> (b\<lparr>br_store := Some st'\<rparr>, Inl e)
             | (st', Inr _) \<Rightarrow> (b\<lparr>br_store := Some st', br_audit_sequence := seq\<rparr>, success))))"

definition persist_grant :: "record_type \<Rightarrow> grant \<Rightarrow> unit bop" where
  "persist_grant type g = persist type (encode_grant g)"

text \<open>The state image of \<open>snapshot_payload\<close>, as the value that is encoded.\<close>

record state_image =
  sm_epoch :: ident
  sm_incarnation :: ident
  sm_tick :: u64
  sm_audit_sequence :: u64
  sm_next_grant_id :: u64
  sm_next_recall_id :: u64
  sm_next_decision_id :: u64
  sm_next_snapshot_id :: u64
  sm_next_session_id :: u64
  sm_policy :: "policy option"
  sm_capacities :: "capacity_snapshot list"
  sm_obligations :: "obligation list"
  sm_requests :: "(bandwidth_request \<times> u64) list"
  sm_grants :: "grant list"
  sm_fences :: "boot_fence list"
  sm_idempotency :: "idempotency_record list"
  sm_retired :: "(ident \<times> generation) list"

definition encode_waiting_request :: "bandwidth_request \<times> u64 \<Rightarrow> bytes" where
  "encode_waiting_request rw = encode_request (fst rw) @ w_u64 (snd rw)"

definition encode_state :: "state_image \<Rightarrow> bytes" where
  "encode_state m =
    write_id (sm_epoch m) @ write_id (sm_incarnation m) @ w_u64 (sm_tick m) @ w_u64 (sm_audit_sequence m) @
    w_u64 (sm_next_grant_id m) @ w_u64 (sm_next_recall_id m) @ w_u64 (sm_next_decision_id m) @
    w_u64 (sm_next_snapshot_id m) @ w_u64 (sm_next_session_id m) @ w_option encode_policy (sm_policy m) @
    w_vector encode_capacity_snapshot (sm_capacities m) @ w_vector encode_obligation (sm_obligations m) @
    w_vector encode_waiting_request (sm_requests m) @ w_vector encode_grant (sm_grants m) @
    w_vector encode_fence (sm_fences m) @ w_vector encode_idempotency (sm_idempotency m) @
    w_vector encode_request_key (sm_retired m)"

definition found_or :: "'v \<Rightarrow> ('k, 'v) omap \<Rightarrow> 'k \<Rightarrow> 'v" where
  "found_or d m k = (case om_find m k of None \<Rightarrow> d | Some v \<Rightarrow> v)"

definition idempotency_entry :: "(request_key, u64) omap \<Rightarrow> request_key \<times> submit_outcome \<Rightarrow> idempotency_record" where
  "idempotency_entry hashes entry =
    (let res = snd entry in \<lparr> ir_request = so_request res, ir_generation = so_generation res,
       ir_content_hash = found_or 0 hashes (fst entry), ir_reason = so_reason res,
       ir_waiting = so_waiting res, ir_refused = so_refused res \<rparr>)"

definition state_image_of :: "broker \<Rightarrow> state_image" where
  "state_image_of b = \<lparr> sm_epoch = br_epoch b, sm_incarnation = br_incarnation b, sm_tick = br_tick b,
     sm_audit_sequence = br_audit_sequence b, sm_next_grant_id = br_next_grant_id b,
     sm_next_recall_id = br_next_recall_id b, sm_next_decision_id = br_next_decision_id b,
     sm_next_snapshot_id = br_next_snapshot_id b, sm_next_session_id = br_next_session_id b,
     sm_policy = br_policy b, sm_capacities = map snd (br_capacities b),
     sm_obligations = map snd (br_obligations b),
     sm_requests = map (\<lambda>(key, r). (r, found_or 0 (br_wait_rounds b) key)) (br_requests b),
     sm_grants = map snd (br_grants b), sm_fences = br_fences b,
     sm_idempotency = map (idempotency_entry (br_content_hashes b)) (br_idempotency b),
     sm_retired = br_retired_obligations b \<rparr>"

definition snapshot_payload :: "broker \<Rightarrow> bytes" where
  "snapshot_payload b = encode_state (state_image_of b)"

definition maybe_compact :: "unit bop" where
  "maybe_compact b =
    (case br_store b of None \<Rightarrow> (b, success)
     | Some st \<Rightarrow>
         let last_sequence = rp_last_sequence (store_report st);
             seq = max (if valid_id last_sequence then last_sequence else 0) (br_audit_sequence b);
             img = \<lparr> si_header = record_header_of seq b, si_sequence = seq, si_payload = snapshot_payload b \<rparr>
         in (case store_compact img st of
               (st', Inl e) \<Rightarrow> (b\<lparr>br_store := Some st'\<rparr>, Inl e)
             | (st', Inr _) \<Rightarrow> (b\<lparr>br_store := Some st', br_snapshots_written := br_snapshots_written b + 1\<rparr>, success)))"

section \<open>Configuration\<close>

definition set_policy :: "policy \<Rightarrow> unit bop" where
  "set_policy p =
    opbind (oplift (policy_validate p)) (\<lambda>_.
    opbind (opget br_policy) (\<lambda>installed.
      let install = opbind (persist RT_PolicySet (encode_policy p)) (\<lambda>_. opmod (\<lambda>b. b\<lparr>br_policy := Some p\<rparr>)) in
      case installed of None \<Rightarrow> install
      | Some old \<Rightarrow>
          if po_generation p < po_generation old then oplift (fail EC_PolicyGenerationMismatch)
          else if po_generation p = po_generation old then
            (if policy_content_hash p = policy_content_hash old then opret () else oplift (fail EC_IdentityConflict))
          else install))"

definition get_policy :: "broker \<Rightarrow> policy result" where
  "get_policy b = (case br_policy b of None \<Rightarrow> fail EC_NotFound | Some p \<Rightarrow> Inr p)"

definition demote :: "(grant \<Rightarrow> bool) \<Rightarrow> grant \<Rightarrow> grant" where
  "demote affected g =
    (if affected g \<and> is_live (gr_state g) then g\<lparr>gr_state := GS_RevalidationRequired\<rparr> else g)"

definition publish_capacity :: "capacity_snapshot \<Rightarrow> unit bop" where
  "publish_capacity s =
    opbind (oplift (snapshot_validate s)) (\<lambda>_.
    opbind (opget id) (\<lambda>b.
      if av_fabric_epoch (cs_authority s) \<noteq> br_epoch b then oplift (fail EC_EpochMismatch)
      else if av_coordinator (cs_authority s) \<noteq> br_incarnation b then oplift (fail EC_NotAuthoritative)
      else if (case om_find (br_capacities b) (cs_target s) of None \<Rightarrow> False
               | Some existing \<Rightarrow> cs_generation s \<le> cs_generation existing)
        then oplift (fail EC_ResourceGenerationMismatch)
      else opbind (persist RT_CapacityPublished (encode_capacity_snapshot s)) (\<lambda>_.
        opmod (\<lambda>b. b\<lparr>br_capacities := om_set (cs_target s) s (br_capacities b),
          br_grants := om_map_values (demote (\<lambda>g. gr_target g = cs_target s)) (br_grants b),
          br_accounting := om_erase (cs_target s) (br_accounting b)\<rparr>))))"

definition get_capacity :: "capacity_target \<Rightarrow> broker \<Rightarrow> capacity_snapshot result" where
  "get_capacity t b = (case om_find (br_capacities b) t of None \<Rightarrow> fail EC_NotFound | Some s \<Rightarrow> Inr s)"

definition upsert_obligation :: "obligation \<Rightarrow> unit bop" where
  "upsert_obligation ob =
    opbind (oplift (obligation_validate ob)) (\<lambda>_.
    opbind (opget (\<lambda>b. om_find (br_obligations b) (ob_reservation ob))) (\<lambda>existing.
      if (case existing of None \<Rightarrow> False | Some old \<Rightarrow> ob_generation ob < ob_generation old)
      then oplift (fail EC_ReservationGenerationMismatch)
      else opbind (persist RT_ObligationUpserted (encode_obligation ob)) (\<lambda>_.
        opmod (\<lambda>b. b\<lparr>br_obligations := om_set (ob_reservation ob) ob (br_obligations b),
          br_retired_obligations := om_erase (ob_reservation ob) (br_retired_obligations b)\<rparr>))))"

definition retire_obligation :: "ident \<Rightarrow> generation \<Rightarrow> unit bop" where
  "retire_obligation reservation generation =
    opbind (opget (\<lambda>b. om_find (br_obligations b) reservation)) (\<lambda>existing. case existing of
      None \<Rightarrow> oplift (fail EC_NotFound)
    | Some ob \<Rightarrow>
        if ob_generation ob \<noteq> generation then oplift (fail EC_ReservationGenerationMismatch)
        else opbind (persist RT_ObligationRetired (encode_reference (reservation, generation))) (\<lambda>_.
          opmod (\<lambda>b. b\<lparr>br_obligations := om_erase reservation (br_obligations b),
            br_retired_obligations := om_set reservation generation (br_retired_obligations b)\<rparr>)))"

definition obligations_of :: "capacity_target \<Rightarrow> broker \<Rightarrow> obligation list" where
  "obligations_of t b = filter (\<lambda>ob. ob_target ob = t) (map snd (br_obligations b))"

section \<open>Requests\<close>

definition first_outcome :: "bandwidth_request \<Rightarrow> broker \<Rightarrow> submit_outcome" where
  "first_outcome r b =
    (let fenced = boot_hash (av_publisher_boot (rq_authority r)) \<in> br_fence_hashes b in
     \<lparr> so_disposition = ID_New, so_request = rq_id r, so_generation = rq_generation r, so_waiting = False,
       so_refused = fenced, so_reason = (if fenced then OR_RefusedBootFenced else OR_None) \<rparr>)"

definition outcome_record :: "u64 \<Rightarrow> submit_outcome \<Rightarrow> idempotency_record" where
  "outcome_record hash res = \<lparr> ir_request = so_request res, ir_generation = so_generation res,
     ir_content_hash = hash, ir_reason = so_reason res, ir_waiting = so_waiting res,
     ir_refused = so_refused res \<rparr>"

definition submit :: "bandwidth_request \<Rightarrow> submit_outcome bop" where
  "submit r =
    opbind (opget id) (\<lambda>b.
      if br_policy b = None then oplift (fail EC_PolicyInvalid)
      else opbind (oplift (request_validate r)) (\<lambda>_.
        if av_fabric_epoch (rq_authority r) \<noteq> br_epoch b then oplift (fail EC_EpochMismatch)
        else
          let key = request_key (rq_id r) (rq_generation r); hash = request_content_hash r in
          case om_find (br_idempotency b) key of
            Some existing \<Rightarrow>
              if (case om_find (br_content_hashes b) key of None \<Rightarrow> False | Some h \<Rightarrow> h \<noteq> hash)
              then oplift (fail EC_IdentityConflict)
              else opret (existing\<lparr>so_disposition := ID_Replay\<rparr>)
          | None \<Rightarrow>
              if length (br_idempotency b) \<ge> bc_max_idempotency_entries (br_config b)
              then oplift (fail EC_ResourceExhausted)
              else
                let res = first_outcome r b in
                opbind (persist RT_RequestAccepted (encode_request r)) (\<lambda>_.
                opbind (persist RT_IdempotencyRecord (encode_idempotency (outcome_record hash res))) (\<lambda>_.
                opbind (opmod (\<lambda>b. b\<lparr>br_requests := om_set key r (br_requests b),
                    br_content_hashes := om_set key hash (br_content_hashes b),
                    br_wait_rounds := om_set key 0 (br_wait_rounds b),
                    br_idempotency := om_set key res (br_idempotency b)\<rparr>)) (\<lambda>_.
                  opret res)))))"

definition retire_request :: "ident \<Rightarrow> generation \<Rightarrow> unit bop" where
  "retire_request i generation =
    (let key = request_key i generation in
     opbind (opget (\<lambda>b. om_find (br_requests b) key)) (\<lambda>installed.
       if installed = None then oplift (fail EC_NotFound)
       else opbind (opmod (\<lambda>b. b\<lparr>br_requests := om_erase key (br_requests b),
           br_wait_rounds := om_erase key (br_wait_rounds b)\<rparr>)) (\<lambda>_.
         persist RT_RequestRetired (encode_request_key key))))"

end
