(* ===== verification/Broker_Grants.thy ===== *)
theory Broker_Grants
  imports Broker
begin

text \<open>
  Operations of the coordinator on committed grants (\<open>broker.cpp\<close>): withdrawal by release,
  revocation, staleness and fencing, revalidation, the epoch change, and the read-only views.

  The four withdrawals share their statements in the source and are one definition here,
  \<open>withdraw\<close>: the generation is advanced first, then the reason and the state change in place, then
  the grant is journalled.  What an early return leaves in memory is what the source leaves.
\<close>

section \<open>Grants in memory\<close>

text \<open>\<open>impl.grants[id]\<close>: a missing entry is created with the default value.\<close>

definition grant_ref :: "u64 \<Rightarrow> grant bop" where
  "grant_ref key b =
    (case om_find (br_grants b) key of
       Some g \<Rightarrow> (b, Inr g)
     | None \<Rightarrow> (b\<lparr>br_grants := om_set key default_grant (br_grants b)\<rparr>, Inr default_grant))"

definition put_grant :: "u64 \<Rightarrow> grant \<Rightarrow> unit bop" where
  "put_grant key g = opmod (\<lambda>b. b\<lparr>br_grants := om_set key g (br_grants b)\<rparr>)"

definition withdraw :: "u64 \<Rightarrow> record_type \<Rightarrow> outcome_reason \<Rightarrow> grant_state \<Rightarrow> (grant \<times> grant) bop" where
  "withdraw key type reason state =
    opbind (grant_ref key) (\<lambda>before.
    opbind (oplift (advance_generation before)) (\<lambda>bumped.
      let marked = bumped\<lparr>gr_reason := reason\<rparr> in
      opbind (put_grant key marked) (\<lambda>_.
      opbind (oplift (transition_to state marked)) (\<lambda>g.
      opbind (put_grant key g) (\<lambda>_.
      opbind (persist_grant type g) (\<lambda>_.
        opret (before, g)))))))"

definition retire_accounting :: "capacity_target \<Rightarrow> grant \<Rightarrow> unit bop" where
  "retire_accounting target before b =
    (case om_find (br_accounting b) target of
       None \<Rightarrow> (b, success)
     | Some account \<Rightarrow> (case apply_grant_retirement account before of (account', r) \<Rightarrow>
         (b\<lparr>br_accounting := om_set target account' (br_accounting b)\<rparr>, r)))"

section \<open>Views\<close>

record grant_view =
  gv_grant :: grant
  gv_found :: bool
  gv_authoritative :: bool
  gv_generation_current :: bool

definition query_grant :: "ident \<Rightarrow> generation \<Rightarrow> broker \<Rightarrow> grant_view" where
  "query_grant i generation b =
    (case om_find (br_grants b) i of
       None \<Rightarrow> \<lparr> gv_grant = default_grant, gv_found = False, gv_authoritative = False, gv_generation_current = False \<rparr>
     | Some g \<Rightarrow>
         let current = (gr_generation g = generation) in
         \<lparr> gv_grant = g, gv_found = True, gv_authoritative = (authorises_consumption (gr_state g) \<and> current),
           gv_generation_current = current \<rparr>)"

definition grants_of :: "capacity_target \<Rightarrow> bool \<Rightarrow> broker \<Rightarrow> grant list" where
  "grants_of target live_only b =
    sort_key gr_id (filter (\<lambda>g. gr_target g = target \<and> (live_only \<longrightarrow> is_live (gr_state g)))
      (map snd (br_grants b)))"

section \<open>Release and revocation\<close>

record release_outcome =
  rl_already_released :: bool
  rl_state :: grant_state
  rl_released :: bandwidth
  rl_tick :: u64

text \<open>The guard the operations on one grant share: it exists at the presented generation.\<close>

definition current_grant :: "ident \<Rightarrow> generation \<Rightarrow> grant bop" where
  "current_grant i generation =
    opbind (opget (\<lambda>b. om_find (br_grants b) i)) (\<lambda>found. case found of
      None \<Rightarrow> oplift (fail EC_NotFound)
    | Some g \<Rightarrow> if gr_generation g \<noteq> generation then oplift (fail EC_StaleGrant) else opret g)"

definition release :: "ident \<Rightarrow> generation \<Rightarrow> release_outcome bop" where
  "release i generation =
    opbind (current_grant i generation) (\<lambda>g.
    opbind (opget br_tick) (\<lambda>tick.
      if gr_state g = GS_Released then
        opret \<lparr> rl_already_released = True, rl_state = GS_Released, rl_released = 0, rl_tick = tick \<rparr>
      else if is_terminal (gr_state g) then oplift (fail EC_InvalidStateTransition)
      else opbind (withdraw i RT_GrantReleased OR_Released GS_Released) (\<lambda>(before, g').
        opbind (retire_accounting (gr_target g') before) (\<lambda>_.
        let key = request_key (gr_request g') (gr_request_generation g') in
        opbind (opmod (\<lambda>b. b\<lparr>br_requests := om_erase key (br_requests b),
          br_wait_rounds := om_erase key (br_wait_rounds b)\<rparr>)) (\<lambda>_.
        opbind (persist RT_RequestRetired (encode_request_key key)) (\<lambda>_.
          opret \<lparr> rl_already_released = False, rl_state = GS_Released,
            rl_released = total_allocation (gr_allocation before), rl_tick = tick \<rparr>))))))"

definition revoke :: "ident \<Rightarrow> generation \<Rightarrow> outcome_reason \<Rightarrow> bytes \<Rightarrow> grant_view bop" where
  "revoke i generation reason detail =
    opbind (oplift (validate_text detail kMaxExplanationTextBytes)) (\<lambda>_.
    opbind (current_grant i generation) (\<lambda>g.
      let view = (\<lambda>g. \<lparr> gv_grant = g, gv_found = True, gv_authoritative = False, gv_generation_current = True \<rparr>) in
      if is_terminal (gr_state g) then opret (view g)
      else opbind (withdraw i RT_GrantRevoked reason GS_Revoked) (\<lambda>(before, g').
        opbind (retire_accounting (gr_target g') before) (\<lambda>_.
          opret (view g')))))"

section \<open>Revalidation\<close>

definition rebind_authority :: "broker \<Rightarrow> policy \<Rightarrow> capacity_snapshot \<Rightarrow> authority_vector \<Rightarrow> authority_vector" where
  "rebind_authority b p s a = a\<lparr>av_fabric_epoch := br_epoch b, av_coordinator := br_incarnation b,
     av_capacity_generation := cs_generation s, av_policy := po_id p, av_policy_generation := po_generation p,
     av_fairness_config_generation := po_fairness_config_generation p,
     av_tenant_config_generation := po_tenant_config_generation p, av_monotonic_tick := br_tick b\<rparr>"

definition revalidated :: "u64 \<Rightarrow> authority_vector \<Rightarrow> grant \<Rightarrow> grant" where
  "revalidated tick authority g = g\<lparr>gr_authority := authority, gr_last_revalidated_tick := tick,
     gr_reason := OR_Stale,
     gr_state := (if has_revocable (gr_allocation g) then GS_GrantedBorrowed else GS_GrantedGuaranteed)\<rparr>"

definition revalidate :: "ident \<Rightarrow> generation \<Rightarrow> grant_view bop" where
  "revalidate i generation =
    opbind (current_grant i generation) (\<lambda>g.
    opbind (opget id) (\<lambda>b.
      if gr_state g \<noteq> GS_RevalidationRequired then oplift (fail EC_InvalidStateTransition)
      else case om_find (br_requests b) (request_key (gr_request g) (gr_request_generation g)) of
        None \<Rightarrow>
          opbind (withdraw i RT_GrantRevoked OR_Stale GS_Stale) (\<lambda>(before, g').
          opbind (retire_accounting (gr_target g') before) (\<lambda>_.
            oplift (fail EC_RevalidationRequired)))
      | Some requested \<Rightarrow> (case om_find (br_capacities b) (gr_target g) of
            None \<Rightarrow> oplift (fail EC_CapacityUnknown)
          | Some s \<Rightarrow>
              if cs_evidence s \<noteq> EV_Known then oplift (fail EC_CapacityUnknown)
              else (case br_policy b of
                None \<Rightarrow> oplift (fail EC_PolicyInvalid)
              | Some p \<Rightarrow>
                  if boot_hash (av_publisher_boot (rq_authority requested)) \<in> br_fence_hashes b
                  then oplift (fail EC_BootFenced)
                  else opbind (oplift (advance_generation g)) (\<lambda>bumped.
                    let g' = revalidated (br_tick b) (rebind_authority b p s (rq_authority requested)) bumped in
                    opbind (put_grant i g') (\<lambda>_.
                    opbind (persist_grant RT_GrantRevalidated g') (\<lambda>_.
                      opret \<lparr> gv_grant = g', gv_found = True, gv_authoritative = True,
                        gv_generation_current = True \<rparr>)))))))"

section \<open>Fencing\<close>

definition fenced_keys :: "boot_id \<Rightarrow> broker \<Rightarrow> u64 list" where
  "fenced_keys boot b =
    map fst (filter (\<lambda>(_, g). av_publisher_boot (gr_authority g) = boot \<and> is_live (gr_state g)) (br_grants b))"

definition fence_grant :: "u64 \<Rightarrow> unit bop" where
  "fence_grant key =
    opbind (withdraw key RT_GrantRevoked OR_Fenced GS_Fenced) (\<lambda>(before, g).
      retire_accounting (gr_target g) before)"

definition fence_publisher :: "ident \<Rightarrow> boot_id \<Rightarrow> bytes \<Rightarrow> unit bop" where
  "fence_publisher publisher boot reason =
    (if \<not> valid_id publisher \<or> \<not> boot_valid boot then oplift (fail EC_InvalidIdentity)
     else opbind (oplift (validate_text reason 128)) (\<lambda>_.
       opbind (opget id) (\<lambda>b.
         if boot_hash boot \<in> br_fence_hashes b then opret ()
         else if length (br_fences b) \<ge> kMaxBootFenceRecords then oplift (fail EC_ResourceExhausted)
         else
           let fence = \<lparr> bf_publisher = publisher, bf_boot = boot, bf_sequence = br_audit_sequence b + 1,
             bf_tick = br_tick b, bf_reason = reason \<rparr> in
           opbind (persist RT_PublisherFenced (encode_fence fence)) (\<lambda>_.
           opbind (opmod (\<lambda>b. b\<lparr>br_fence_hashes := insert (boot_hash boot) (br_fence_hashes b),
             br_fences := br_fences b @ [fence]\<rparr>)) (\<lambda>_.
           opbind (opget (fenced_keys boot)) (\<lambda>keys.
             opfor fence_grant keys))))))"

definition is_fenced :: "ident \<Rightarrow> boot_id \<Rightarrow> broker \<Rightarrow> bool result" where
  "is_fenced publisher boot b =
    (if \<not> boot_valid boot then fail EC_InvalidIdentity else Inr (boot_hash boot \<in> br_fence_hashes b))"

definition fences :: "broker \<Rightarrow> boot_fence list" where
  "fences b = br_fences b"

section \<open>Explanations, accounting and status\<close>

definition explain :: "ident \<Rightarrow> generation \<Rightarrow> broker \<Rightarrow> request_explanation result" where
  "explain i generation b =
    (case om_find (br_explanations b) (request_key i generation) of None \<Rightarrow> fail EC_NotFound | Some e \<Rightarrow> Inr e)"

definition empty_accounting :: "capacity_target \<Rightarrow> capacity_snapshot \<Rightarrow> resource_accounting" where
  "empty_accounting target s = default_accounting\<lparr>ac_target := target, ac_capacity_generation := cs_generation s,
     ac_evidence := cs_evidence s\<rparr>"

definition accounting_of :: "capacity_target \<Rightarrow> broker \<Rightarrow> resource_accounting result" where
  "accounting_of target b =
    (case om_find (br_accounting b) target of
       Some account \<Rightarrow> Inr account
     | None \<Rightarrow> (case om_find (br_capacities b) target of
           Some s \<Rightarrow> Inr (empty_accounting target s)
         | None \<Rightarrow> fail EC_NotFound))"

definition accounting_all :: "broker \<Rightarrow> resource_accounting list" where
  "accounting_all b =
    map snd (br_accounting b) @
    map (\<lambda>(target, s). empty_accounting target s)
      (filter (\<lambda>(target, _). om_find (br_accounting b) target = None) (br_capacities b))"

definition targets :: "broker \<Rightarrow> capacity_target list" where
  "targets b = map fst (br_capacities b)"

record coordinator_status =
  co_epoch :: ident
  co_incarnation :: ident
  co_tick :: u64
  co_audit_sequence :: u64
  co_policies :: nat
  co_resources :: nat
  co_obligations :: nat
  co_requests :: nat
  co_live_grants :: nat
  co_revalidation_required :: nat
  co_fences :: nat
  co_durable :: bool
  co_journal_records :: nat
  co_snapshots_written :: u64
  co_recoveries :: u64
  co_journal_truncations :: nat

definition broker_status :: "broker \<Rightarrow> coordinator_status" where
  "broker_status b =
    (let states = map (gr_state \<circ> snd) (br_grants b) in
     \<lparr> co_epoch = br_epoch b, co_incarnation = br_incarnation b, co_tick = br_tick b,
       co_audit_sequence = br_audit_sequence b, co_policies = (if br_policy b = None then 0 else 1),
       co_resources = length (br_capacities b), co_obligations = length (br_obligations b),
       co_requests = length (br_requests b),
       co_live_grants = length (filter (\<lambda>s. s \<noteq> GS_RevalidationRequired \<and> is_live s) states),
       co_revalidation_required = length (filter (\<lambda>s. s = GS_RevalidationRequired) states),
       co_fences = length (br_fences b), co_durable = (br_store b \<noteq> None),
       co_journal_records = (case br_store b of None \<Rightarrow> 0 | Some st \<Rightarrow> rp_journal_records (store_report st)),
       co_snapshots_written = br_snapshots_written b, co_recoveries = br_recoveries b,
       co_journal_truncations = br_journal_truncations b \<rparr>)"

section \<open>Flush and the epoch\<close>

definition broker_flush :: "unit bop" where
  "broker_flush b =
    (case br_store b of None \<Rightarrow> (b, success)
     | Some st \<Rightarrow> (case store_flush st of (st', r) \<Rightarrow> (b\<lparr>br_store := Some st'\<rparr>, r)))"

definition stale_evidence :: "capacity_snapshot \<Rightarrow> capacity_snapshot" where
  "stale_evidence s = s\<lparr>cs_evidence := EV_Stale\<rparr>"

definition advance_epoch :: "ident bop" where
  "advance_epoch =
    opbind (opget br_epoch) (\<lambda>epoch.
    opbind (oplift (next_fabric_epoch epoch)) (\<lambda>next.
    opbind (persist RT_EpochAdvanced (write_id next)) (\<lambda>_.
    opbind (opmod (\<lambda>b. b\<lparr>br_epoch := next, br_tick := br_tick b + 1,
      br_grants := om_map_values (demote (\<lambda>g. gr_state g \<noteq> GS_RevalidationRequired)) (br_grants b),
      br_accounting := [],
      br_capacities := om_map_values stale_evidence (br_capacities b)\<rparr>)) (\<lambda>_.
      opret next))))"

end
