(* ===== verification/Broker_Rounds.thy ===== *)
theory Broker_Rounds
  imports Broker_Grants
begin

text \<open>
  Arbitration rounds of the coordinator (\<open>Broker::arbitrate\<close>, \<open>build_explanation\<close>): orphaned grants
  are revoked, the arbitrator's input is assembled from the state, the decisions are applied and
  journalled one by one, and the round is committed.
\<close>

section \<open>Explanations\<close>

definition build_explanation ::
  "arbitration_decision \<Rightarrow> arbitration_input \<Rightarrow> resource_accounting \<Rightarrow> bandwidth_request \<Rightarrow> request_explanation" where
  "build_explanation d input acc r =
    (let alloc = ad_allocation d in
     default_explanation\<lparr>
       xp_request := ad_request d, xp_request_generation := ad_request_generation d, xp_target := ai_target input,
       xp_state := (case ad_grant d of None \<Rightarrow> ad_state d | Some g \<Rightarrow> gr_state g),
       xp_reason := ad_reason d, xp_satisfied := ad_satisfied d, xp_waiting := ad_waiting d,
       xp_refused := ad_refused d,
       xp_authority := (case ad_grant d of None \<Rightarrow> rq_authority r | Some g \<Rightarrow> gr_authority g),
       xp_epoch := ai_epoch input, xp_coordinator := ai_coordinator input, xp_policy := po_id (ai_policy input),
       xp_policy_generation := po_generation (ai_policy input), xp_decision := ai_decision input,
       xp_decision_tick := ai_tick input,
       xp_evidence := ac_evidence acc, xp_capacity_generation := ac_capacity_generation acc,
       xp_effective_physical := ac_effective_physical acc, xp_obligations_applied := ac_obligations_reserved acc,
       xp_allocatable := ac_allocatable acc, xp_headroom_preserved := ac_headroom acc,
       xp_emergency_reserve_preserved := ac_emergency_reserve_unused acc, xp_arbitrable := ac_arbitrable acc,
       xp_requested_minimum := ad_requested_minimum d, xp_requested_desired := ad_requested_desired d,
       xp_requested_maximum := ad_requested_maximum d,
       xp_guaranteed := ga_guaranteed alloc, xp_discretionary := ga_discretionary alloc,
       xp_borrowed := ga_borrowed alloc, xp_contingent := ga_contingent alloc,
       xp_total_granted := total_allocation alloc, xp_denied := ad_denied d,
       xp_priority := rq_priority r, xp_fairness_group := rq_fairness_group r, xp_tenant := rq_tenant r,
       xp_effective_rank := ad_effective_rank d, xp_effective_weight := ad_effective_weight d,
       xp_starvation_promoted := ad_starvation_promoted d,
       xp_resource_generation := ct_resource_generation (ai_target input), xp_provenance := rq_provenance r,
       xp_grant := (case ad_grant d of None \<Rightarrow> 0 | Some g \<Rightarrow> gr_id g),
       xp_grant_generation := (case ad_grant d of None \<Rightarrow> 0 | Some g \<Rightarrow> gr_generation g),
       xp_recall_pending := (ad_recall d \<noteq> None \<and>
         (case ad_grant d of None \<Rightarrow> False | Some g \<Rightarrow> gr_state g = GS_RecallPending)),
       xp_recalled := (case ad_recall d of None \<Rightarrow> 0 | Some q \<Rightarrow> rr_recalled q),
       xp_recall := (case ad_recall d of None \<Rightarrow> 0 | Some q \<Rightarrow> rr_id q),
       xp_recall_reason := (case ad_recall d of None \<Rightarrow> OR_None | Some q \<Rightarrow> rr_reason q),
       xp_recall_deadline_tick := (case ad_recall d of None \<Rightarrow> 0 | Some q \<Rightarrow> rr_deadline_tick q)\<rparr>)"

section \<open>Orphaned grants\<close>

definition orphans :: "capacity_target \<Rightarrow> broker \<Rightarrow> ident list" where
  "orphans target b =
    map gr_id (filter (\<lambda>g. gr_target g = target \<and> is_live (gr_state g) \<and>
        om_find (br_requests b) (request_key (gr_request g) (gr_request_generation g)) = None)
      (map snd (br_grants b)))"

text \<open>The number of orphans that held a positive amount is part of the round's summary.\<close>

primrec revoke_orphans :: "capacity_target \<Rightarrow> ident list \<Rightarrow> nat bop" where
  "revoke_orphans target [] = opret 0"
| "revoke_orphans target (i # is) =
    opbind (withdraw i RT_GrantRevoked OR_Revoked GS_Revoked) (\<lambda>(before, _).
    opbind (retire_accounting target before) (\<lambda>_.
    opbind (revoke_orphans target is) (\<lambda>n.
      opret ((case ga_total (gr_allocation before) of Inl _ \<Rightarrow> 0 | Inr amount \<Rightarrow> if is_positive amount then 1 else 0) + n))))"

section \<open>The input of a round\<close>

definition snapshot_current :: "broker \<Rightarrow> capacity_snapshot \<Rightarrow> bool" where
  "snapshot_current b s \<longleftrightarrow>
    av_fabric_epoch (cs_authority s) = br_epoch b \<and> av_coordinator (cs_authority s) = br_incarnation b"

definition unusable_snapshot :: "capacity_target \<Rightarrow> boot_id \<Rightarrow> capacity_snapshot option \<Rightarrow> broker \<Rightarrow> capacity_snapshot" where
  "unusable_snapshot target boot installed b =
    \<lparr> cs_target = target, cs_snapshot = br_next_snapshot_id b,
      cs_generation = (case installed of None \<Rightarrow> gen_initial | Some s \<Rightarrow> cs_generation s),
      cs_evidence = (if installed = None then EV_Unknown else EV_Stale), cs_physical_configured = None,
      cs_administratively_unavailable = 0, cs_degraded_loss = 0, cs_headroom_target = 0, cs_reserved_committed = 0,
      cs_provenance = default_provenance\<lparr>pv_source_kind := NK_Recovery, pv_epoch := br_epoch b,
        pv_coordinator := br_incarnation b\<rparr>,
      cs_authority = default_authority\<lparr>av_fabric_epoch := br_epoch b, av_coordinator := br_incarnation b,
        av_resource := ct_resource target, av_resource_generation := ct_resource_generation target,
        av_capacity_generation := gen_initial, av_publisher := 1, av_publisher_boot := boot\<rparr>,
      cs_observed_at = 0, cs_publisher_sequence = 0 \<rparr>"

text \<open>Evidence of a superseded epoch or incarnation is marked stale in place and replaced in the input.\<close>

definition round_snapshot :: "capacity_target \<Rightarrow> capacity_snapshot bop" where
  "round_snapshot target =
    opbind (opget (\<lambda>b. om_find (br_capacities b) target)) (\<lambda>installed.
    opbind (opget id) (\<lambda>b.
      let replaced = opbind (oplift (boot_id_from_u64 0 1)) (\<lambda>boot. opret (unusable_snapshot target boot installed b)) in
      case installed of
        None \<Rightarrow> replaced
      | Some s \<Rightarrow>
          if snapshot_current b s then opret s
          else opbind (opmod (\<lambda>b. b\<lparr>br_capacities := om_set target (stale_evidence s) (br_capacities b)\<rparr>))
            (\<lambda>_. replaced)))"

definition candidate_of :: "broker \<Rightarrow> request_key \<times> bandwidth_request \<Rightarrow> arbitration_candidate" where
  "candidate_of b entry =
    (let r = snd entry in
     \<lparr> cn_request = r, cn_wait_rounds = found_or 0 (br_wait_rounds b) (fst entry),
       cn_existing_grant = find (\<lambda>g. gr_request g = rq_id r \<and> gr_request_generation g = rq_generation r \<and>
         is_live (gr_state g)) (map snd (br_grants b)) \<rparr>)"

definition round_input :: "capacity_target \<Rightarrow> capacity_snapshot \<Rightarrow> policy \<Rightarrow> ident \<Rightarrow> broker \<Rightarrow> arbitration_input" where
  "round_input target s p decision b =
    \<lparr> ai_target = target, ai_snapshot = s, ai_policy = p, ai_obligations = obligations_of target b,
      ai_candidates = map (candidate_of b) (filter (\<lambda>(_, r). rq_target r = target) (br_requests b)),
      ai_fenced_boots = map bf_boot (br_fences b), ai_epoch = br_epoch b, ai_coordinator = br_incarnation b,
      ai_tick = br_tick b, ai_decision = decision, ai_next_grant_id = br_next_grant_id b,
      ai_next_recall_id = br_next_recall_id b \<rparr>"

section \<open>Applying the decisions\<close>

definition grant_record_type :: "bool \<Rightarrow> grant_state \<Rightarrow> record_type" where
  "grant_record_type had_previous s =
    (if s = GS_Released then RT_GrantReleased
     else if is_terminal s then RT_GrantRevoked
     else if had_previous then RT_GrantUpdated else RT_GrantIssued)"

definition store_decided_grant :: "grant option \<Rightarrow> unit bop" where
  "store_decided_grant decided =
    (case decided of None \<Rightarrow> opret ()
     | Some g \<Rightarrow>
         opbind (opget (\<lambda>b. om_find (br_grants b) (gr_id g) \<noteq> None)) (\<lambda>had_previous.
         opbind (put_grant (gr_id g) g) (\<lambda>_.
           persist_grant (grant_record_type had_previous (gr_state g)) g)))"

definition apply_decision :: "arbitration_input \<Rightarrow> resource_accounting \<Rightarrow> arbitration_decision \<Rightarrow> unit bop" where
  "apply_decision input acc d =
    (let key = request_key (ad_request d) (ad_request_generation d) in
     opbind (store_decided_grant (ad_grant d)) (\<lambda>_.
     opbind (opmod (\<lambda>b. b\<lparr>br_wait_rounds := om_set key (ad_next_wait_rounds d) (br_wait_rounds b)\<rparr>)) (\<lambda>_.
     opbind (opget (\<lambda>b. om_find (br_requests b) key)) (\<lambda>request. case request of
       None \<Rightarrow> opret ()
     | Some r \<Rightarrow>
         let e = build_explanation d input acc r in
         opbind (oplift (explanation_validate e)) (\<lambda>_.
           opmod (\<lambda>b. b\<lparr>br_explanations := om_set key e (br_explanations b)\<rparr>))))))"

section \<open>The round\<close>

record round_summary =
  rs_decision :: ident
  rs_target :: capacity_target
  rs_tick :: u64
  rs_granted :: nat
  rs_waiting :: nat
  rs_refused :: nat
  rs_recalls :: nat
  rs_next_grant_id :: u64
  rs_accounting :: resource_accounting

definition summarise :: "capacity_target \<Rightarrow> nat \<Rightarrow> arbitration_outcome \<Rightarrow> round_summary" where
  "summarise target orphan_recalls res =
    (let ds = ao_decisions res in
     \<lparr> rs_decision = ao_decision res, rs_target = target, rs_tick = ao_tick res,
       rs_granted = length (filter (\<lambda>d. ad_grant d \<noteq> None) ds),
       rs_waiting = length (filter (\<lambda>d. ad_grant d = None \<and> \<not> ad_refused d) ds),
       rs_refused = length (filter (\<lambda>d. ad_grant d = None \<and> ad_refused d) ds),
       rs_recalls = length (filter (\<lambda>d. ad_recall d \<noteq> None) ds) + orphan_recalls,
       rs_next_grant_id = ao_next_grant_id res, rs_accounting = ao_accounting res \<rparr>)"

definition commit_round :: "capacity_target \<Rightarrow> arbitration_outcome \<Rightarrow> unit bop" where
  "commit_round target res =
    opbind (opmod (\<lambda>b. b\<lparr>br_next_grant_id := max (br_next_grant_id b) (ao_next_grant_id res),
      br_next_recall_id := max (br_next_recall_id b) (ao_next_recall_id res),
      br_next_decision_id := br_next_decision_id b + 1,
      br_accounting := om_set target (ao_accounting res) (br_accounting b),
      br_last_decision := om_set target (ao_decision res) (br_last_decision b)\<rparr>)) (\<lambda>_.
    persist RT_RoundCommitted (encode_round \<lparr> ro_decision = ao_decision res, ro_target = target,
      ro_tick = ao_tick res, ro_accounting = ao_accounting res, ro_next_grant_id = ao_next_grant_id res,
      ro_next_recall_id = ao_next_recall_id res \<rparr>))"

definition compact_if_needed :: "unit bop" where
  "compact_if_needed =
    opbind (opget br_store) (\<lambda>st. case st of
      None \<Rightarrow> opret () | Some st \<Rightarrow> if needs_compaction st then maybe_compact else opret ())"

definition run_round :: "capacity_target \<Rightarrow> policy \<Rightarrow> nat \<Rightarrow> capacity_snapshot \<Rightarrow> round_summary bop" where
  "run_round target p orphan_recalls s =
    opbind (opmod (\<lambda>b. b\<lparr>br_tick := br_tick b + 1\<rparr>)) (\<lambda>_.
    opbind (opget br_next_decision_id) (\<lambda>next.
    opbind (oplift (id_make next)) (\<lambda>decision.
    opbind (opget (round_input target s p decision)) (\<lambda>input.
    opbind (oplift (arbitrate input)) (\<lambda>res.
    opbind (opfor (apply_decision input (ao_accounting res)) (ao_decisions res)) (\<lambda>_.
    opbind (commit_round target res) (\<lambda>_.
    opbind compact_if_needed (\<lambda>_.
      opret (summarise target orphan_recalls res)))))))))"

definition broker_arbitrate :: "capacity_target \<Rightarrow> round_summary bop" where
  "broker_arbitrate target =
    opbind (oplift (target_validate target)) (\<lambda>_.
    opbind (opget br_policy) (\<lambda>installed. case installed of
      None \<Rightarrow> oplift (fail EC_PolicyInvalid)
    | Some p \<Rightarrow>
        opbind (opget (orphans target)) (\<lambda>is.
        opbind (revoke_orphans target is) (\<lambda>orphan_recalls.
        opbind (round_snapshot target) (\<lambda>s.
          run_round target p orphan_recalls s)))))"

end
