(* ===== verification/Wire_Messages.thy ===== *)
theory Wire_Messages
  imports Wire Explanation
begin

text \<open>
  The codecs of decisions, explanations and of the 25 protocol messages (\<open>wire.hpp\<close>, \<open>wire.cpp\<close>), and
  \<open>decode_payload\<close>, which rejects trailing bytes.  Decisions and explanations travel with their two
  diagnostic texts.
\<close>

section \<open>Decisions and explanations\<close>

record decision_message = arbitration_decision +
  dm_binding_reason :: bytes
  dm_authority_mismatch :: bytes

declare codec.read_bind [OF codec_option [OF c_grant.codec_axioms], codec_read]
  codec.reads_bind [OF codec_option [OF c_grant.codec_axioms], codec_canon]

declare codec.read_bind [OF codec_option [OF c_recall.codec_axioms], codec_read]
  codec.reads_bind [OF codec_option [OF c_recall.codec_axioms], codec_canon]

definition encode_arbitration_decision :: "decision_message \<Rightarrow> bytes" where
  "encode_arbitration_decision value =
    write_id (ad_request value) @ write_generation (ad_request_generation value) @
    write_state (ad_state value) @ write_reason (ad_reason value) @
    encode_grant_allocation (ad_allocation value) @ w_bandwidth (ad_requested_minimum value) @
    w_bandwidth (ad_requested_desired value) @ w_bandwidth (ad_requested_maximum value) @
    w_bandwidth (ad_denied value) @ w_bandwidth (ad_unmet_minimum value) @
    w_bool (ad_satisfied value) @ w_bool (ad_waiting value) @ w_bool (ad_refused value) @
    w_bool (ad_starvation_promoted value) @ w_u32 (ad_effective_rank value) @
    w_u64 (ad_effective_weight value) @ w_u64 (ad_next_wait_rounds value) @
    write_text (dm_binding_reason value) @ write_text (dm_authority_mismatch value) @
    w_option encode_grant (ad_grant value) @ w_option encode_grant (ad_previous_grant value) @
    w_option encode_recall_record (ad_recall value)"

definition decode_arbitration_decision :: "decision_message reader" where
  "decode_arbitration_decision =
    rbind read_id (\<lambda>request. rbind read_generation (\<lambda>request_generation.
    rbind read_state (\<lambda>state.
    rbind (read_reason EC_ProtocolMalformed) (\<lambda>reason.
    rbind decode_grant_allocation (\<lambda>allocation.
    rbind r_bandwidth (\<lambda>requested_minimum.
    rbind r_bandwidth (\<lambda>requested_desired.
    rbind r_bandwidth (\<lambda>requested_maximum. rbind r_bandwidth (\<lambda>denied.
    rbind r_bandwidth (\<lambda>unmet_minimum. rbind r_bool (\<lambda>satisfied.
    rbind r_bool (\<lambda>waiting. rbind r_bool (\<lambda>refused.
    rbind r_bool (\<lambda>starvation_promoted. rbind r_u32 (\<lambda>effective_rank.
    rbind r_u64 (\<lambda>effective_weight. rbind r_u64 (\<lambda>next_wait_rounds.
    rbind (read_text kMaxExplanationTextBytes) (\<lambda>binding_reason.
    rbind (read_text kMaxExplanationTextBytes) (\<lambda>authority_mismatch.
    rbind (r_option decode_grant) (\<lambda>grant.
    rbind (r_option decode_grant) (\<lambda>previous_grant.
    rbind (r_option decode_recall_record) (\<lambda>recall.
      rret \<lparr> ad_request = request, ad_request_generation = request_generation,
      ad_state = state, ad_reason = reason, ad_allocation = allocation,
      ad_requested_minimum = requested_minimum, ad_requested_desired = requested_desired,
      ad_requested_maximum = requested_maximum, ad_denied = denied,
      ad_unmet_minimum = unmet_minimum, ad_satisfied = satisfied, ad_waiting = waiting,
      ad_refused = refused, ad_starvation_promoted = starvation_promoted,
      ad_next_wait_rounds = next_wait_rounds, ad_effective_rank = effective_rank,
      ad_effective_weight = effective_weight, ad_grant = grant,
      ad_previous_grant = previous_grant, ad_recall = recall,
      dm_binding_reason = binding_reason, dm_authority_mismatch = authority_mismatch \<rparr>))))))))))))))))))))))"

definition decision_ok :: "decision_message \<Rightarrow> bool" where
  "decision_ok value \<longleftrightarrow>
    reason_ok (ad_reason value) \<and> allocation_ok (ad_allocation value) \<and>
    bw_ok (ad_requested_minimum value) \<and> bw_ok (ad_requested_desired value) \<and>
    bw_ok (ad_requested_maximum value) \<and> bw_ok (ad_denied value) \<and>
    bw_ok (ad_unmet_minimum value) \<and>
    text_ok kMaxExplanationTextBytes (dm_binding_reason value) \<and>
    text_ok kMaxExplanationTextBytes (dm_authority_mismatch value) \<and>
    pred_option grant_ok (ad_grant value) \<and>
    pred_option grant_ok (ad_previous_grant value) \<and>
    pred_option recall_ok (ad_recall value)"

interpretation c_decision: codec encode_arbitration_decision decode_arbitration_decision decision_ok
  by (rule codecI, simp add: encode_arbitration_decision_def decode_arbitration_decision_def decision_ok_def codec_read,
    simp add: encode_arbitration_decision_def decode_arbitration_decision_def decision_ok_def codec_canon)

declare c_decision.read_bind [codec_read] c_decision.reads_bind [codec_canon]

definition encode_explanation :: "explanation_message \<Rightarrow> bytes" where
  "encode_explanation value =
    write_id (xp_request value) @ write_generation (xp_request_generation value) @
    encode_capacity_target (xp_target value) @ write_state (xp_state value) @
    write_reason (xp_reason value) @ w_bool (xp_satisfied value) @ w_bool (xp_waiting value) @
    w_bool (xp_refused value) @ encode_authority (xp_authority value) @
    write_id (xp_epoch value) @ write_id (xp_coordinator value) @ write_id (xp_policy value) @
    write_generation (xp_policy_generation value) @ write_id (xp_decision value) @
    w_u64 (xp_decision_tick value) @ write_evidence (xp_evidence value) @
    write_generation (xp_capacity_generation value) @
    w_bandwidth (xp_effective_physical value) @ w_bandwidth (xp_obligations_applied value) @
    w_bandwidth (xp_allocatable value) @ w_bandwidth (xp_headroom_preserved value) @
    w_bandwidth (xp_emergency_reserve_preserved value) @ w_bandwidth (xp_arbitrable value) @
    w_bandwidth (xp_requested_minimum value) @ w_bandwidth (xp_requested_desired value) @
    w_bandwidth (xp_requested_maximum value) @ w_bandwidth (xp_guaranteed value) @
    w_bandwidth (xp_discretionary value) @ w_bandwidth (xp_borrowed value) @
    w_bandwidth (xp_contingent value) @ w_bandwidth (xp_total_granted value) @
    w_bandwidth (xp_denied value) @ write_id (xp_priority value) @
    write_id (xp_fairness_group value) @ write_id (xp_tenant value) @
    w_u32 (xp_effective_rank value) @ w_u64 (xp_effective_weight value) @
    w_bool (xp_starvation_promoted value) @ w_bandwidth (xp_group_cap value) @
    w_bandwidth (xp_group_allocated value) @ w_u64 (xp_wait_rounds value) @
    w_bool (xp_recall_pending value) @ w_bandwidth (xp_recalled value) @
    write_id (xp_recall value) @ write_reason (xp_recall_reason value) @
    w_u64 (xp_recall_deadline_tick value) @ write_text (xm_binding_reason value) @
    write_text (xm_authority_mismatch value) @
    write_generation (xp_resource_generation value) @ write_id (xp_grant value) @
    write_generation (xp_grant_generation value) @ encode_provenance (xp_provenance value)"

definition decode_explanation :: "explanation_message reader" where
  "decode_explanation =
    rbind read_id (\<lambda>request. rbind read_generation (\<lambda>request_generation.
    rbind decode_capacity_target (\<lambda>target. rbind read_state (\<lambda>state.
    rbind (read_reason EC_ProtocolMalformed) (\<lambda>reason.
    rbind r_bool (\<lambda>satisfied. rbind r_bool (\<lambda>waiting.
    rbind r_bool (\<lambda>refused. rbind decode_authority (\<lambda>authority.
    rbind read_id (\<lambda>epoch. rbind read_id (\<lambda>coordinator.
    rbind read_id (\<lambda>policy. rbind read_generation (\<lambda>policy_generation.
    rbind read_id (\<lambda>decision. rbind r_u64 (\<lambda>decision_tick.
    rbind read_evidence (\<lambda>evidence.
    rbind read_generation (\<lambda>capacity_generation.
    rbind r_bandwidth (\<lambda>effective_physical.
    rbind r_bandwidth (\<lambda>obligations_applied. rbind r_bandwidth (\<lambda>allocatable.
    rbind r_bandwidth (\<lambda>headroom_preserved.
    rbind r_bandwidth (\<lambda>emergency_reserve_preserved.
    rbind r_bandwidth (\<lambda>arbitrable. rbind r_bandwidth (\<lambda>requested_minimum.
    rbind r_bandwidth (\<lambda>requested_desired.
    rbind r_bandwidth (\<lambda>requested_maximum. rbind r_bandwidth (\<lambda>guaranteed.
    rbind r_bandwidth (\<lambda>discretionary. rbind r_bandwidth (\<lambda>borrowed.
    rbind r_bandwidth (\<lambda>contingent. rbind r_bandwidth (\<lambda>total_granted.
    rbind r_bandwidth (\<lambda>denied. rbind read_id (\<lambda>priority.
    rbind read_id (\<lambda>fairness_group. rbind read_id (\<lambda>tenant.
    rbind r_u32 (\<lambda>effective_rank. rbind r_u64 (\<lambda>effective_weight.
    rbind r_bool (\<lambda>starvation_promoted. rbind r_bandwidth (\<lambda>group_cap.
    rbind r_bandwidth (\<lambda>group_allocated. rbind r_u64 (\<lambda>wait_rounds.
    rbind r_bool (\<lambda>recall_pending. rbind r_bandwidth (\<lambda>recalled.
    rbind read_id (\<lambda>recall.
    rbind (read_reason EC_ProtocolMalformed) (\<lambda>recall_reason.
    rbind r_u64 (\<lambda>recall_deadline_tick.
    rbind (read_text kMaxExplanationTextBytes) (\<lambda>binding_reason.
    rbind (read_text kMaxExplanationTextBytes) (\<lambda>authority_mismatch.
    rbind read_generation (\<lambda>resource_generation. rbind read_id (\<lambda>grant.
    rbind read_generation (\<lambda>grant_generation.
    rbind decode_provenance (\<lambda>provenance.
      rret \<lparr> xp_request = request, xp_request_generation = request_generation,
      xp_target = target, xp_state = state, xp_reason = reason, xp_satisfied = satisfied,
      xp_waiting = waiting, xp_refused = refused, xp_authority = authority, xp_epoch = epoch,
      xp_coordinator = coordinator, xp_policy = policy,
      xp_policy_generation = policy_generation, xp_decision = decision,
      xp_decision_tick = decision_tick, xp_evidence = evidence,
      xp_capacity_generation = capacity_generation, xp_effective_physical = effective_physical,
      xp_obligations_applied = obligations_applied, xp_allocatable = allocatable,
      xp_headroom_preserved = headroom_preserved,
      xp_emergency_reserve_preserved = emergency_reserve_preserved, xp_arbitrable = arbitrable,
      xp_requested_minimum = requested_minimum, xp_requested_desired = requested_desired,
      xp_requested_maximum = requested_maximum, xp_guaranteed = guaranteed,
      xp_discretionary = discretionary, xp_borrowed = borrowed, xp_contingent = contingent,
      xp_total_granted = total_granted, xp_denied = denied, xp_priority = priority,
      xp_fairness_group = fairness_group, xp_tenant = tenant,
      xp_effective_rank = effective_rank, xp_effective_weight = effective_weight,
      xp_starvation_promoted = starvation_promoted, xp_group_cap = group_cap,
      xp_group_allocated = group_allocated, xp_wait_rounds = wait_rounds,
      xp_recall_pending = recall_pending, xp_recalled = recalled, xp_recall = recall,
      xp_recall_reason = recall_reason, xp_recall_deadline_tick = recall_deadline_tick,
      xp_resource_generation = resource_generation, xp_grant = grant,
      xp_grant_generation = grant_generation, xp_provenance = provenance,
      xm_binding_reason = binding_reason, xm_authority_mismatch = authority_mismatch \<rparr>))))))))))))))))))))))))))))))))))))))))))))))))))))"

definition explanation_ok :: "explanation_message \<Rightarrow> bool" where
  "explanation_ok value \<longleftrightarrow>
    reason_ok (xp_reason value) \<and> authority_ok (xp_authority value) \<and>
    bw_ok (xp_effective_physical value) \<and> bw_ok (xp_obligations_applied value) \<and>
    bw_ok (xp_allocatable value) \<and> bw_ok (xp_headroom_preserved value) \<and>
    bw_ok (xp_emergency_reserve_preserved value) \<and> bw_ok (xp_arbitrable value) \<and>
    bw_ok (xp_requested_minimum value) \<and> bw_ok (xp_requested_desired value) \<and>
    bw_ok (xp_requested_maximum value) \<and> bw_ok (xp_guaranteed value) \<and>
    bw_ok (xp_discretionary value) \<and> bw_ok (xp_borrowed value) \<and>
    bw_ok (xp_contingent value) \<and> bw_ok (xp_total_granted value) \<and>
    bw_ok (xp_denied value) \<and> bw_ok (xp_group_cap value) \<and>
    bw_ok (xp_group_allocated value) \<and> bw_ok (xp_recalled value) \<and>
    reason_ok (xp_recall_reason value) \<and>
    text_ok kMaxExplanationTextBytes (xm_binding_reason value) \<and>
    text_ok kMaxExplanationTextBytes (xm_authority_mismatch value) \<and>
    provenance_ok (xp_provenance value)"

interpretation c_explanation: codec encode_explanation decode_explanation explanation_ok
  by (rule codecI, simp add: encode_explanation_def decode_explanation_def explanation_ok_def codec_read,
    simp add: encode_explanation_def decode_explanation_def explanation_ok_def codec_canon)

declare c_explanation.read_bind [codec_read] c_explanation.reads_bind [codec_canon]

section \<open>Status\<close>

definition error_codes :: "error_code list" where
  "error_codes =
    [EC_Ok, EC_InvalidArgument, EC_InvalidIdentity, EC_IdentityConflict, EC_GenerationMismatch,
     EC_EpochMismatch, EC_BootFenced, EC_PolicyGenerationMismatch,
     EC_ResourceGenerationMismatch, EC_RequesterGenerationMismatch,
     EC_ReservationGenerationMismatch, EC_TenantConfigGenerationMismatch, EC_CapacityUnknown,
     EC_CapacityInsufficient, EC_ContradictoryRequest, EC_NumericOverflow, EC_OutOfRange,
     EC_BoundsExceeded, EC_NotFound, EC_AlreadyExists, EC_InvalidStateTransition,
     EC_StaleGrant, EC_GrantRevoked, EC_GrantFenced, EC_DuplicateRelease, EC_PolicyInvalid,
     EC_PersistenceCorrupt, EC_PersistenceIo, EC_PersistenceVersionUnsupported,
     EC_ProtocolMalformed, EC_ProtocolVersionUnsupported, EC_ProtocolPayloadTooLarge,
     EC_ProtocolTruncated, EC_ProtocolChecksum, EC_HandshakeRejected, EC_UnknownSession,
     EC_ConnectionClosed, EC_IoError, EC_ResourceExhausted, EC_Cancelled, EC_ShuttingDown,
     EC_InternalError, EC_AccountingInvariantViolation, EC_NotAuthoritative,
     EC_RevalidationRequired, EC_Unsupported, EC_NoCapacityAuthority, EC_CapacityWithdrawn]"

definition error_number :: "error_code \<Rightarrow> u16" where
  "error_number c = of_nat (length (takeWhile (\<lambda>y. y \<noteq> c) error_codes))"

record wire_status =
  ws_code :: error_code
  ws_message :: bytes

definition encode_wire_status :: "wire_status \<Rightarrow> bytes" where
  "encode_wire_status value = w_u16 (error_number (ws_code value)) @ write_text (ws_message value)"

definition decode_wire_status :: "wire_status reader" where
  "decode_wire_status = rbind r_u16 (\<lambda>code.
     if code > error_number EC_CapacityWithdrawn then rlift (fail EC_ProtocolMalformed)
     else rbind (read_text 512) (\<lambda>message.
       rret \<lparr> ws_code = error_codes ! unat code, ws_message = message \<rparr>))"

definition wire_status_ok :: "wire_status \<Rightarrow> bool" where
  "wire_status_ok value \<longleftrightarrow> text_ok 512 (ws_message value)"

lemma length_error_codes: "length error_codes = 48"
  by (simp add: error_codes_def)

lemma error_number_nth: "i < 48 \<Longrightarrow> error_number (error_codes ! i) = of_nat i"
proof -
  assume i: "i < 48"
  have "distinct error_codes" by (simp add: error_codes_def)
  then show ?thesis
    using i length_error_codes by (simp add: error_number_def takeWhile_eq_take_P_nth [of i] nth_eq_iff_index_eq)
qed

lemma error_code_member: "c \<in> set error_codes"
  by (cases c) (simp_all add: error_codes_def)

lemma unat_of_nat16: "n < 65536 \<Longrightarrow> unat (of_nat n :: u16) = n"
  by (simp add: unat_of_nat take_bit_nat_eq_self)

lemma last_error_number: "error_number EC_CapacityWithdrawn = 47"
  by (simp add: error_number_def error_codes_def)

interpretation c_status: codec encode_wire_status decode_wire_status wire_status_ok
proof (rule codecI)
  fix s rest assume ok: "wire_status_ok s"
  obtain i where "i < 48" "ws_code s = error_codes ! i"
    using error_code_member [of "ws_code s"] by (auto simp: in_set_conv_nth length_error_codes)
  with ok show "decode_wire_status (encode_wire_status s @ rest) = (rest, Inr s)"
    by (simp add: decode_wire_status_def encode_wire_status_def wire_status_ok_def codec_read error_number_nth
        unat_of_nat16 last_error_number word_less_nat_alt)
next
  have "error_number (error_codes ! unat c) = c" if "c \<le> 47" for c
    using that error_number_nth [of "unat c"] by (simp add: word_le_nat_alt)
  then show "reads [] decode_wire_status (\<lambda>x whole rest. wire_status_ok x \<and> whole = encode_wire_status x @ rest)"
    by (simp add: decode_wire_status_def encode_wire_status_def wire_status_ok_def codec_canon last_error_number not_less)
qed

declare c_status.read_bind [codec_read] c_status.reads_bind [codec_canon]

section \<open>Messages\<close>

definition kMaxVectorElementsInFrame :: nat where "kMaxVectorElementsInFrame = 100000"

declare codec.read_bind [OF codec_vector [OF c_request.codec_axioms], codec_read]
  codec.reads_bind [OF codec_vector [OF c_request.codec_axioms], codec_canon]

declare codec.read_bind [OF codec_vector [OF c_decision.codec_axioms], codec_read]
  codec.reads_bind [OF codec_vector [OF c_decision.codec_axioms], codec_canon]

declare codec.read_bind [OF codec_vector [OF c_u64.codec_axioms], codec_read]
  codec.reads_bind [OF codec_vector [OF c_u64.codec_axioms], codec_canon]

record hello_request =
  hr_publisher :: ident
  hr_boot :: boot_id
  hr_protocol_version :: u16
  hr_session_token :: bytes
  hr_nonce :: u64

definition encode_hello_request :: "hello_request \<Rightarrow> bytes" where
  "encode_hello_request value =
    write_id (hr_publisher value) @ encode_boot_id (hr_boot value) @
    w_u16 (hr_protocol_version value) @ write_text (hr_session_token value) @
    w_u64 (hr_nonce value)"

definition decode_hello_request :: "hello_request reader" where
  "decode_hello_request =
    rbind read_id (\<lambda>publisher. rbind decode_boot_id (\<lambda>boot.
    rbind r_u16 (\<lambda>protocol_version. rbind (read_text 256) (\<lambda>session_token.
    rbind r_u64 (\<lambda>nonce.
      rret \<lparr> hr_publisher = publisher, hr_boot = boot,
      hr_protocol_version = protocol_version, hr_session_token = session_token,
      hr_nonce = nonce \<rparr>)))))"

definition hello_request_ok :: "hello_request \<Rightarrow> bool" where
  "hello_request_ok value \<longleftrightarrow>
    boot_ok (hr_boot value) \<and> text_ok 256 (hr_session_token value)"

interpretation c_hello_request: codec encode_hello_request decode_hello_request hello_request_ok
  by (rule codecI, simp add: encode_hello_request_def decode_hello_request_def hello_request_ok_def codec_read,
    simp add: encode_hello_request_def decode_hello_request_def hello_request_ok_def codec_canon)

declare c_hello_request.read_bind [codec_read] c_hello_request.reads_bind [codec_canon]

record hello_ack =
  ha_status :: wire_status
  ha_coordinator :: ident
  ha_epoch :: ident
  ha_session :: ident
  ha_next_grant_id :: u64

definition encode_hello_ack :: "hello_ack \<Rightarrow> bytes" where
  "encode_hello_ack value =
    encode_wire_status (ha_status value) @ write_id (ha_coordinator value) @
    write_id (ha_epoch value) @ write_id (ha_session value) @ w_u64 (ha_next_grant_id value)"

definition decode_hello_ack :: "hello_ack reader" where
  "decode_hello_ack =
    rbind decode_wire_status (\<lambda>status. rbind read_id (\<lambda>coordinator.
    rbind read_id (\<lambda>epoch. rbind read_id (\<lambda>session.
    rbind r_u64 (\<lambda>next_grant_id.
      rret \<lparr> ha_status = status, ha_coordinator = coordinator, ha_epoch = epoch,
      ha_session = session, ha_next_grant_id = next_grant_id \<rparr>)))))"

definition hello_ack_ok :: "hello_ack \<Rightarrow> bool" where
  "hello_ack_ok value \<longleftrightarrow>
    wire_status_ok (ha_status value)"

interpretation c_hello_ack: codec encode_hello_ack decode_hello_ack hello_ack_ok
  by (rule codecI, simp add: encode_hello_ack_def decode_hello_ack_def hello_ack_ok_def codec_read,
    simp add: encode_hello_ack_def decode_hello_ack_def hello_ack_ok_def codec_canon)

declare c_hello_ack.read_bind [codec_read] c_hello_ack.reads_bind [codec_canon]

record publish_capacity_request =
  pq_snapshot :: capacity_snapshot

definition encode_publish_capacity_request :: "publish_capacity_request \<Rightarrow> bytes" where
  "encode_publish_capacity_request value =
    encode_capacity_snapshot (pq_snapshot value)"

definition decode_publish_capacity_request :: "publish_capacity_request reader" where
  "decode_publish_capacity_request =
    rbind decode_capacity_snapshot (\<lambda>snapshot.
      rret \<lparr> pq_snapshot = snapshot \<rparr>)"

definition publish_capacity_request_ok :: "publish_capacity_request \<Rightarrow> bool" where
  "publish_capacity_request_ok value \<longleftrightarrow>
    snapshot_ok (pq_snapshot value)"

interpretation c_publish_capacity_request: codec encode_publish_capacity_request decode_publish_capacity_request publish_capacity_request_ok
  by (rule codecI, simp add: encode_publish_capacity_request_def decode_publish_capacity_request_def publish_capacity_request_ok_def codec_read,
    simp add: encode_publish_capacity_request_def decode_publish_capacity_request_def publish_capacity_request_ok_def codec_canon)

declare c_publish_capacity_request.read_bind [codec_read] c_publish_capacity_request.reads_bind [codec_canon]

record publish_capacity_ack =
  pa_status :: wire_status
  pa_generation :: generation

definition encode_publish_capacity_ack :: "publish_capacity_ack \<Rightarrow> bytes" where
  "encode_publish_capacity_ack value =
    encode_wire_status (pa_status value) @ write_generation (pa_generation value)"

definition decode_publish_capacity_ack :: "publish_capacity_ack reader" where
  "decode_publish_capacity_ack =
    rbind decode_wire_status (\<lambda>status. rbind read_generation (\<lambda>generation.
      rret \<lparr> pa_status = status, pa_generation = generation \<rparr>))"

definition publish_capacity_ack_ok :: "publish_capacity_ack \<Rightarrow> bool" where
  "publish_capacity_ack_ok value \<longleftrightarrow>
    wire_status_ok (pa_status value)"

interpretation c_publish_capacity_ack: codec encode_publish_capacity_ack decode_publish_capacity_ack publish_capacity_ack_ok
  by (rule codecI, simp add: encode_publish_capacity_ack_def decode_publish_capacity_ack_def publish_capacity_ack_ok_def codec_read,
    simp add: encode_publish_capacity_ack_def decode_publish_capacity_ack_def publish_capacity_ack_ok_def codec_canon)

declare c_publish_capacity_ack.read_bind [codec_read] c_publish_capacity_ack.reads_bind [codec_canon]

record set_policy_request =
  sq_policy :: policy

definition encode_set_policy_request :: "set_policy_request \<Rightarrow> bytes" where
  "encode_set_policy_request value =
    encode_policy (sq_policy value)"

definition decode_set_policy_request :: "set_policy_request reader" where
  "decode_set_policy_request =
    rbind decode_policy (\<lambda>policy.
      rret \<lparr> sq_policy = policy \<rparr>)"

definition set_policy_request_ok :: "set_policy_request \<Rightarrow> bool" where
  "set_policy_request_ok value \<longleftrightarrow>
    policy_ok (sq_policy value)"

interpretation c_set_policy_request: codec encode_set_policy_request decode_set_policy_request set_policy_request_ok
  by (rule codecI, simp add: encode_set_policy_request_def decode_set_policy_request_def set_policy_request_ok_def codec_read,
    simp add: encode_set_policy_request_def decode_set_policy_request_def set_policy_request_ok_def codec_canon)

declare c_set_policy_request.read_bind [codec_read] c_set_policy_request.reads_bind [codec_canon]

record set_policy_ack =
  sa_status :: wire_status
  sa_generation :: generation

definition encode_set_policy_ack :: "set_policy_ack \<Rightarrow> bytes" where
  "encode_set_policy_ack value =
    encode_wire_status (sa_status value) @ write_generation (sa_generation value)"

definition decode_set_policy_ack :: "set_policy_ack reader" where
  "decode_set_policy_ack =
    rbind decode_wire_status (\<lambda>status. rbind read_generation (\<lambda>generation.
      rret \<lparr> sa_status = status, sa_generation = generation \<rparr>))"

definition set_policy_ack_ok :: "set_policy_ack \<Rightarrow> bool" where
  "set_policy_ack_ok value \<longleftrightarrow>
    wire_status_ok (sa_status value)"

interpretation c_set_policy_ack: codec encode_set_policy_ack decode_set_policy_ack set_policy_ack_ok
  by (rule codecI, simp add: encode_set_policy_ack_def decode_set_policy_ack_def set_policy_ack_ok_def codec_read,
    simp add: encode_set_policy_ack_def decode_set_policy_ack_def set_policy_ack_ok_def codec_canon)

declare c_set_policy_ack.read_bind [codec_read] c_set_policy_ack.reads_bind [codec_canon]

record submit_requests_request =
  bq_requests :: "bandwidth_request list"

definition encode_submit_requests_request :: "submit_requests_request \<Rightarrow> bytes" where
  "encode_submit_requests_request value =
    w_vector encode_request (bq_requests value)"

definition decode_submit_requests_request :: "submit_requests_request reader" where
  "decode_submit_requests_request =

    rbind (r_vector kMaxRequestsPerRound EC_ProtocolPayloadTooLarge decode_request) (\<lambda>requests.
      rret \<lparr> bq_requests = requests \<rparr>)"

definition submit_requests_request_ok :: "submit_requests_request \<Rightarrow> bool" where
  "submit_requests_request_ok value \<longleftrightarrow>
    vector_ok kMaxRequestsPerRound request_ok (bq_requests value)"

interpretation c_submit_requests_request: codec encode_submit_requests_request decode_submit_requests_request submit_requests_request_ok
  by (rule codecI, simp add: encode_submit_requests_request_def decode_submit_requests_request_def submit_requests_request_ok_def codec_read,
    simp add: encode_submit_requests_request_def decode_submit_requests_request_def submit_requests_request_ok_def codec_canon)

declare c_submit_requests_request.read_bind [codec_read] c_submit_requests_request.reads_bind [codec_canon]

record submit_requests_ack =
  ba_status :: wire_status
  ba_accepted :: u32
  ba_refused :: "ident list"

definition encode_submit_requests_ack :: "submit_requests_ack \<Rightarrow> bytes" where
  "encode_submit_requests_ack value =
    encode_wire_status (ba_status value) @ w_u32 (ba_accepted value) @
    w_vector write_id (ba_refused value)"

definition decode_submit_requests_ack :: "submit_requests_ack reader" where
  "decode_submit_requests_ack =
    rbind decode_wire_status (\<lambda>status. rbind r_u32 (\<lambda>accepted.
    rbind (r_vector kMaxRequestsPerRound EC_ProtocolPayloadTooLarge read_id) (\<lambda>refused.
      rret \<lparr> ba_status = status, ba_accepted = accepted, ba_refused = refused \<rparr>)))"

definition submit_requests_ack_ok :: "submit_requests_ack \<Rightarrow> bool" where
  "submit_requests_ack_ok value \<longleftrightarrow>
    wire_status_ok (ba_status value) \<and>
    vector_ok kMaxRequestsPerRound (\<lambda>_. True) (ba_refused value)"

interpretation c_submit_requests_ack: codec encode_submit_requests_ack decode_submit_requests_ack submit_requests_ack_ok
  by (rule codecI, simp add: encode_submit_requests_ack_def decode_submit_requests_ack_def submit_requests_ack_ok_def codec_read,
    simp add: encode_submit_requests_ack_def decode_submit_requests_ack_def submit_requests_ack_ok_def codec_canon)

declare c_submit_requests_ack.read_bind [codec_read] c_submit_requests_ack.reads_bind [codec_canon]

record arbitrate_request =
  aq_target :: capacity_target

definition encode_arbitrate_request :: "arbitrate_request \<Rightarrow> bytes" where
  "encode_arbitrate_request value =
    encode_capacity_target (aq_target value)"

definition decode_arbitrate_request :: "arbitrate_request reader" where
  "decode_arbitrate_request =
    rbind decode_capacity_target (\<lambda>target.
      rret \<lparr> aq_target = target \<rparr>)"

interpretation c_arbitrate_request: codec encode_arbitrate_request decode_arbitrate_request "\<lambda>_. True"
  by (rule codecI, simp add: encode_arbitrate_request_def decode_arbitrate_request_def codec_read,
    simp add: encode_arbitrate_request_def decode_arbitrate_request_def codec_canon)

declare c_arbitrate_request.read_bind [OF TrueI, codec_read] c_arbitrate_request.reads_bind [codec_canon]

record arbitrate_ack =
  aa_status :: wire_status
  aa_decision :: ident
  aa_accounting :: resource_accounting
  aa_decisions :: "decision_message list"

definition encode_arbitrate_ack :: "arbitrate_ack \<Rightarrow> bytes" where
  "encode_arbitrate_ack value =
    encode_wire_status (aa_status value) @ write_id (aa_decision value) @
    encode_accounting (aa_accounting value) @
    w_vector encode_arbitration_decision (aa_decisions value)"

definition decode_arbitrate_ack :: "arbitrate_ack reader" where
  "decode_arbitrate_ack =
    rbind decode_wire_status (\<lambda>status. rbind read_id (\<lambda>decision.
    rbind decode_accounting (\<lambda>accounting.
    rbind (r_vector kMaxVectorElementsInFrame EC_ProtocolPayloadTooLarge decode_arbitration_decision) (\<lambda>decisions.
      rret \<lparr> aa_status = status, aa_decision = decision, aa_accounting = accounting,
      aa_decisions = decisions \<rparr>))))"

definition arbitrate_ack_ok :: "arbitrate_ack \<Rightarrow> bool" where
  "arbitrate_ack_ok value \<longleftrightarrow>
    wire_status_ok (aa_status value) \<and> accounting_ok (aa_accounting value) \<and>
    vector_ok kMaxVectorElementsInFrame decision_ok (aa_decisions value)"

interpretation c_arbitrate_ack: codec encode_arbitrate_ack decode_arbitrate_ack arbitrate_ack_ok
  by (rule codecI, simp add: encode_arbitrate_ack_def decode_arbitrate_ack_def arbitrate_ack_ok_def codec_read,
    simp add: encode_arbitrate_ack_def decode_arbitrate_ack_def arbitrate_ack_ok_def codec_canon)

declare c_arbitrate_ack.read_bind [codec_read] c_arbitrate_ack.reads_bind [codec_canon]

record query_grant_request =
  gq_grant :: ident
  gq_generation :: generation

definition encode_query_grant_request :: "query_grant_request \<Rightarrow> bytes" where
  "encode_query_grant_request value =
    write_id (gq_grant value) @ write_generation (gq_generation value)"

definition decode_query_grant_request :: "query_grant_request reader" where
  "decode_query_grant_request =
    rbind read_id (\<lambda>grant. rbind read_generation (\<lambda>generation.
      rret \<lparr> gq_grant = grant, gq_generation = generation \<rparr>))"

interpretation c_query_grant_request: codec encode_query_grant_request decode_query_grant_request "\<lambda>_. True"
  by (rule codecI, simp add: encode_query_grant_request_def decode_query_grant_request_def codec_read,
    simp add: encode_query_grant_request_def decode_query_grant_request_def codec_canon)

declare c_query_grant_request.read_bind [OF TrueI, codec_read] c_query_grant_request.reads_bind [codec_canon]

record query_grant_ack =
  gk_status :: wire_status
  gk_found :: bool
  gk_grant :: grant

definition encode_query_grant_ack :: "query_grant_ack \<Rightarrow> bytes" where
  "encode_query_grant_ack value =
    encode_wire_status (gk_status value) @ w_bool (gk_found value) @
    encode_grant (gk_grant value)"

definition decode_query_grant_ack :: "query_grant_ack reader" where
  "decode_query_grant_ack =
    rbind decode_wire_status (\<lambda>status. rbind r_bool (\<lambda>found.
    rbind decode_grant (\<lambda>grant.
      rret \<lparr> gk_status = status, gk_found = found, gk_grant = grant \<rparr>)))"

definition query_grant_ack_ok :: "query_grant_ack \<Rightarrow> bool" where
  "query_grant_ack_ok value \<longleftrightarrow>
    wire_status_ok (gk_status value) \<and> grant_ok (gk_grant value)"

interpretation c_query_grant_ack: codec encode_query_grant_ack decode_query_grant_ack query_grant_ack_ok
  by (rule codecI, simp add: encode_query_grant_ack_def decode_query_grant_ack_def query_grant_ack_ok_def codec_read,
    simp add: encode_query_grant_ack_def decode_query_grant_ack_def query_grant_ack_ok_def codec_canon)

declare c_query_grant_ack.read_bind [codec_read] c_query_grant_ack.reads_bind [codec_canon]

record query_accounting_request =
  nq_target :: capacity_target

definition encode_query_accounting_request :: "query_accounting_request \<Rightarrow> bytes" where
  "encode_query_accounting_request value =
    encode_capacity_target (nq_target value)"

definition decode_query_accounting_request :: "query_accounting_request reader" where
  "decode_query_accounting_request =
    rbind decode_capacity_target (\<lambda>target.
      rret \<lparr> nq_target = target \<rparr>)"

interpretation c_query_accounting_request: codec encode_query_accounting_request decode_query_accounting_request "\<lambda>_. True"
  by (rule codecI, simp add: encode_query_accounting_request_def decode_query_accounting_request_def codec_read,
    simp add: encode_query_accounting_request_def decode_query_accounting_request_def codec_canon)

declare c_query_accounting_request.read_bind [OF TrueI, codec_read] c_query_accounting_request.reads_bind [codec_canon]

record query_accounting_ack =
  na_status :: wire_status
  na_accounting :: resource_accounting

definition encode_query_accounting_ack :: "query_accounting_ack \<Rightarrow> bytes" where
  "encode_query_accounting_ack value =
    encode_wire_status (na_status value) @ encode_accounting (na_accounting value)"

definition decode_query_accounting_ack :: "query_accounting_ack reader" where
  "decode_query_accounting_ack =
    rbind decode_wire_status (\<lambda>status. rbind decode_accounting (\<lambda>accounting.
      rret \<lparr> na_status = status, na_accounting = accounting \<rparr>))"

definition query_accounting_ack_ok :: "query_accounting_ack \<Rightarrow> bool" where
  "query_accounting_ack_ok value \<longleftrightarrow>
    wire_status_ok (na_status value) \<and> accounting_ok (na_accounting value)"

interpretation c_query_accounting_ack: codec encode_query_accounting_ack decode_query_accounting_ack query_accounting_ack_ok
  by (rule codecI, simp add: encode_query_accounting_ack_def decode_query_accounting_ack_def query_accounting_ack_ok_def codec_read,
    simp add: encode_query_accounting_ack_def decode_query_accounting_ack_def query_accounting_ack_ok_def codec_canon)

declare c_query_accounting_ack.read_bind [codec_read] c_query_accounting_ack.reads_bind [codec_canon]

record release_request =
  lq_grant :: ident
  lq_generation :: generation

definition encode_release_request :: "release_request \<Rightarrow> bytes" where
  "encode_release_request value =
    write_id (lq_grant value) @ write_generation (lq_generation value)"

definition decode_release_request :: "release_request reader" where
  "decode_release_request =
    rbind read_id (\<lambda>grant. rbind read_generation (\<lambda>generation.
      rret \<lparr> lq_grant = grant, lq_generation = generation \<rparr>))"

interpretation c_release_request: codec encode_release_request decode_release_request "\<lambda>_. True"
  by (rule codecI, simp add: encode_release_request_def decode_release_request_def codec_read,
    simp add: encode_release_request_def decode_release_request_def codec_canon)

declare c_release_request.read_bind [OF TrueI, codec_read] c_release_request.reads_bind [codec_canon]

record release_ack =
  la_status :: wire_status
  la_state :: grant_state
  la_already_released :: bool
  la_released :: bandwidth

definition encode_release_ack :: "release_ack \<Rightarrow> bytes" where
  "encode_release_ack value =
    encode_wire_status (la_status value) @ write_state (la_state value) @
    w_bool (la_already_released value) @ w_bandwidth (la_released value)"

definition decode_release_ack :: "release_ack reader" where
  "decode_release_ack =
    rbind decode_wire_status (\<lambda>status. rbind read_state (\<lambda>state.
    rbind r_bool (\<lambda>already_released. rbind r_bandwidth (\<lambda>released.
      rret \<lparr> la_status = status, la_state = state, la_already_released = already_released,
      la_released = released \<rparr>))))"

definition release_ack_ok :: "release_ack \<Rightarrow> bool" where
  "release_ack_ok value \<longleftrightarrow>
    wire_status_ok (la_status value) \<and> bw_ok (la_released value)"

interpretation c_release_ack: codec encode_release_ack decode_release_ack release_ack_ok
  by (rule codecI, simp add: encode_release_ack_def decode_release_ack_def release_ack_ok_def codec_read,
    simp add: encode_release_ack_def decode_release_ack_def release_ack_ok_def codec_canon)

declare c_release_ack.read_bind [codec_read] c_release_ack.reads_bind [codec_canon]

record revoke_request =
  vq_grant :: ident
  vq_generation :: generation
  vq_reason :: bytes

definition encode_revoke_request :: "revoke_request \<Rightarrow> bytes" where
  "encode_revoke_request value =
    write_id (vq_grant value) @ write_generation (vq_generation value) @
    write_text (vq_reason value)"

definition decode_revoke_request :: "revoke_request reader" where
  "decode_revoke_request =
    rbind read_id (\<lambda>grant. rbind read_generation (\<lambda>generation.
    rbind (read_text 128) (\<lambda>reason.
      rret \<lparr> vq_grant = grant, vq_generation = generation, vq_reason = reason \<rparr>)))"

definition revoke_request_ok :: "revoke_request \<Rightarrow> bool" where
  "revoke_request_ok value \<longleftrightarrow>
    text_ok 128 (vq_reason value)"

interpretation c_revoke_request: codec encode_revoke_request decode_revoke_request revoke_request_ok
  by (rule codecI, simp add: encode_revoke_request_def decode_revoke_request_def revoke_request_ok_def codec_read,
    simp add: encode_revoke_request_def decode_revoke_request_def revoke_request_ok_def codec_canon)

declare c_revoke_request.read_bind [codec_read] c_revoke_request.reads_bind [codec_canon]

record revoke_ack =
  va_status :: wire_status
  va_state :: grant_state

definition encode_revoke_ack :: "revoke_ack \<Rightarrow> bytes" where
  "encode_revoke_ack value =
    encode_wire_status (va_status value) @ write_state (va_state value)"

definition decode_revoke_ack :: "revoke_ack reader" where
  "decode_revoke_ack =
    rbind decode_wire_status (\<lambda>status. rbind read_state (\<lambda>state.
      rret \<lparr> va_status = status, va_state = state \<rparr>))"

definition revoke_ack_ok :: "revoke_ack \<Rightarrow> bool" where
  "revoke_ack_ok value \<longleftrightarrow>
    wire_status_ok (va_status value)"

interpretation c_revoke_ack: codec encode_revoke_ack decode_revoke_ack revoke_ack_ok
  by (rule codecI, simp add: encode_revoke_ack_def decode_revoke_ack_def revoke_ack_ok_def codec_read,
    simp add: encode_revoke_ack_def decode_revoke_ack_def revoke_ack_ok_def codec_canon)

declare c_revoke_ack.read_bind [codec_read] c_revoke_ack.reads_bind [codec_canon]

record fence_publisher_request =
  fq_publisher :: ident
  fq_boot :: boot_id
  fq_reason :: bytes

definition encode_fence_publisher_request :: "fence_publisher_request \<Rightarrow> bytes" where
  "encode_fence_publisher_request value =
    write_id (fq_publisher value) @ encode_boot_id (fq_boot value) @
    write_text (fq_reason value)"

definition decode_fence_publisher_request :: "fence_publisher_request reader" where
  "decode_fence_publisher_request =
    rbind read_id (\<lambda>publisher. rbind decode_boot_id (\<lambda>boot.
    rbind (read_text 128) (\<lambda>reason.
      rret \<lparr> fq_publisher = publisher, fq_boot = boot, fq_reason = reason \<rparr>)))"

definition fence_publisher_request_ok :: "fence_publisher_request \<Rightarrow> bool" where
  "fence_publisher_request_ok value \<longleftrightarrow>
    boot_ok (fq_boot value) \<and> text_ok 128 (fq_reason value)"

interpretation c_fence_publisher_request: codec encode_fence_publisher_request decode_fence_publisher_request fence_publisher_request_ok
  by (rule codecI, simp add: encode_fence_publisher_request_def decode_fence_publisher_request_def fence_publisher_request_ok_def codec_read,
    simp add: encode_fence_publisher_request_def decode_fence_publisher_request_def fence_publisher_request_ok_def codec_canon)

declare c_fence_publisher_request.read_bind [codec_read] c_fence_publisher_request.reads_bind [codec_canon]

record fence_publisher_ack =
  fa_status :: wire_status
  fa_already_fenced :: bool

definition encode_fence_publisher_ack :: "fence_publisher_ack \<Rightarrow> bytes" where
  "encode_fence_publisher_ack value =
    encode_wire_status (fa_status value) @ w_bool (fa_already_fenced value)"

definition decode_fence_publisher_ack :: "fence_publisher_ack reader" where
  "decode_fence_publisher_ack =
    rbind decode_wire_status (\<lambda>status. rbind r_bool (\<lambda>already_fenced.
      rret \<lparr> fa_status = status, fa_already_fenced = already_fenced \<rparr>))"

definition fence_publisher_ack_ok :: "fence_publisher_ack \<Rightarrow> bool" where
  "fence_publisher_ack_ok value \<longleftrightarrow>
    wire_status_ok (fa_status value)"

interpretation c_fence_publisher_ack: codec encode_fence_publisher_ack decode_fence_publisher_ack fence_publisher_ack_ok
  by (rule codecI, simp add: encode_fence_publisher_ack_def decode_fence_publisher_ack_def fence_publisher_ack_ok_def codec_read,
    simp add: encode_fence_publisher_ack_def decode_fence_publisher_ack_def fence_publisher_ack_ok_def codec_canon)

declare c_fence_publisher_ack.read_bind [codec_read] c_fence_publisher_ack.reads_bind [codec_canon]

record explain_request =
  eq_request :: ident
  eq_generation :: generation

definition encode_explain_request :: "explain_request \<Rightarrow> bytes" where
  "encode_explain_request value =
    write_id (eq_request value) @ write_generation (eq_generation value)"

definition decode_explain_request :: "explain_request reader" where
  "decode_explain_request =
    rbind read_id (\<lambda>request. rbind read_generation (\<lambda>generation.
      rret \<lparr> eq_request = request, eq_generation = generation \<rparr>))"

interpretation c_explain_request: codec encode_explain_request decode_explain_request "\<lambda>_. True"
  by (rule codecI, simp add: encode_explain_request_def decode_explain_request_def codec_read,
    simp add: encode_explain_request_def decode_explain_request_def codec_canon)

declare c_explain_request.read_bind [OF TrueI, codec_read] c_explain_request.reads_bind [codec_canon]

record explain_ack =
  ea_status :: wire_status
  ea_explanation :: explanation_message

definition encode_explain_ack :: "explain_ack \<Rightarrow> bytes" where
  "encode_explain_ack value =
    encode_wire_status (ea_status value) @ encode_explanation (ea_explanation value)"

definition decode_explain_ack :: "explain_ack reader" where
  "decode_explain_ack =
    rbind decode_wire_status (\<lambda>status. rbind decode_explanation (\<lambda>explanation.
      rret \<lparr> ea_status = status, ea_explanation = explanation \<rparr>))"

definition explain_ack_ok :: "explain_ack \<Rightarrow> bool" where
  "explain_ack_ok value \<longleftrightarrow>
    wire_status_ok (ea_status value) \<and> explanation_ok (ea_explanation value)"

interpretation c_explain_ack: codec encode_explain_ack decode_explain_ack explain_ack_ok
  by (rule codecI, simp add: encode_explain_ack_def decode_explain_ack_def explain_ack_ok_def codec_read,
    simp add: encode_explain_ack_def decode_explain_ack_def explain_ack_ok_def codec_canon)

declare c_explain_ack.read_bind [codec_read] c_explain_ack.reads_bind [codec_canon]

record shutdown_request =
  dq_reason :: bytes

definition encode_shutdown_request :: "shutdown_request \<Rightarrow> bytes" where
  "encode_shutdown_request value =
    write_text (dq_reason value)"

definition decode_shutdown_request :: "shutdown_request reader" where
  "decode_shutdown_request =
    rbind (read_text 128) (\<lambda>reason.
      rret \<lparr> dq_reason = reason \<rparr>)"

definition shutdown_request_ok :: "shutdown_request \<Rightarrow> bool" where
  "shutdown_request_ok value \<longleftrightarrow>
    text_ok 128 (dq_reason value)"

interpretation c_shutdown_request: codec encode_shutdown_request decode_shutdown_request shutdown_request_ok
  by (rule codecI, simp add: encode_shutdown_request_def decode_shutdown_request_def shutdown_request_ok_def codec_read,
    simp add: encode_shutdown_request_def decode_shutdown_request_def shutdown_request_ok_def codec_canon)

declare c_shutdown_request.read_bind [codec_read] c_shutdown_request.reads_bind [codec_canon]

record shutdown_ack =
  da_status :: wire_status

definition encode_shutdown_ack :: "shutdown_ack \<Rightarrow> bytes" where
  "encode_shutdown_ack value =
    encode_wire_status (da_status value)"

definition decode_shutdown_ack :: "shutdown_ack reader" where
  "decode_shutdown_ack =
    rbind decode_wire_status (\<lambda>status.
      rret \<lparr> da_status = status \<rparr>)"

definition shutdown_ack_ok :: "shutdown_ack \<Rightarrow> bool" where
  "shutdown_ack_ok value \<longleftrightarrow>
    wire_status_ok (da_status value)"

interpretation c_shutdown_ack: codec encode_shutdown_ack decode_shutdown_ack shutdown_ack_ok
  by (rule codecI, simp add: encode_shutdown_ack_def decode_shutdown_ack_def shutdown_ack_ok_def codec_read,
    simp add: encode_shutdown_ack_def decode_shutdown_ack_def shutdown_ack_ok_def codec_canon)

declare c_shutdown_ack.read_bind [codec_read] c_shutdown_ack.reads_bind [codec_canon]

record error_response =
  er_status :: wire_status

definition encode_error_response :: "error_response \<Rightarrow> bytes" where
  "encode_error_response value =
    encode_wire_status (er_status value)"

definition decode_error_response :: "error_response reader" where
  "decode_error_response =
    rbind decode_wire_status (\<lambda>status.
      rret \<lparr> er_status = status \<rparr>)"

definition error_response_ok :: "error_response \<Rightarrow> bool" where
  "error_response_ok value \<longleftrightarrow>
    wire_status_ok (er_status value)"

interpretation c_error_response: codec encode_error_response decode_error_response error_response_ok
  by (rule codecI, simp add: encode_error_response_def decode_error_response_def error_response_ok_def codec_read,
    simp add: encode_error_response_def decode_error_response_def error_response_ok_def codec_canon)

declare c_error_response.read_bind [codec_read] c_error_response.reads_bind [codec_canon]

section \<open>Whole payloads\<close>

definition expect_end :: "bytes \<Rightarrow> status" where
  "expect_end remaining = (if remaining \<noteq> [] then fail EC_ProtocolMalformed else success)"

definition decode_payload :: "'a reader \<Rightarrow> bytes \<Rightarrow> 'a result" where
  "decode_payload dec payload =
    snd (rbind dec (\<lambda>decoded rest. (rest, bindr (expect_end rest) (\<lambda>_. Inr decoded))) payload)"

context codec
begin

lemma payload_exact: "decode_payload dec payload = Inr x \<longleftrightarrow> ok x \<and> payload = enc x"
proof
  assume "decode_payload dec payload = Inr x"
  then have "dec payload = ([], Inr x)"
    by (auto simp: decode_payload_def rbind_def opbind_def bindr_eq_Inr expect_end_def split: if_splits sum.splits prod.splits)
  from canonical [OF this] show "ok x \<and> payload = enc x" by simp
next
  assume "ok x \<and> payload = enc x"
  then show "decode_payload dec payload = Inr x"
    by (simp add: decode_payload_def rbind_def opbind_def whole expect_end_def result_simps)
qed

end

end
