(* ===== verification/Broker_Recovery.thy ===== *)
theory Broker_Recovery
  imports Broker_Rounds Wire_Messages
begin

text \<open>
  Opening a coordinator (\<open>Broker::open\<close>): the durable state image is decoded and installed
  (\<open>load_snapshot\<close>), the journal records after it are replayed (\<open>replay_records\<close>), restored evidence and
  grants are demoted, the epoch advances, and the new boot is journalled.

  The directory and the outcomes of its file operations are arguments, as in the store.  The source
  installs the image while it decodes it; a failure discards the coordinator, so decoding first and
  installing afterwards yields the same coordinators.
\<close>

section \<open>Decoding a state image\<close>

definition kMaxGrantsPerResource :: nat where "kMaxGrantsPerResource = 200000"
definition kMaxResources :: nat where "kMaxResources = 65536"
definition kMaxIdempotencyEntries :: nat where "kMaxIdempotencyEntries = 1000000"

text \<open>\<open>corrupt(restored.error().message)\<close>: every decoding error becomes one of persistence.\<close>

definition r_corrupt :: "'a reader \<Rightarrow> 'a reader" where
  "r_corrupt dec input = (case dec input of (rest, Inl _) \<Rightarrow> (rest, fail EC_PersistenceCorrupt) | (rest, Inr v) \<Rightarrow> (rest, Inr v))"

definition decode_waiting_request :: "(bandwidth_request \<times> u64) reader" where
  "decode_waiting_request = rbind (r_corrupt decode_request) (\<lambda>r. rbind r_u64 (\<lambda>wait. rret (r, wait)))"

definition decode_state :: "state_image reader" where
  "decode_state =
    rbind read_id (\<lambda>epoch. rbind read_id (\<lambda>incarnation. rbind r_u64 (\<lambda>tick. rbind r_u64 (\<lambda>audit_sequence.
    rbind r_u64 (\<lambda>next_grant_id. rbind r_u64 (\<lambda>next_recall_id. rbind r_u64 (\<lambda>next_decision_id.
    rbind r_u64 (\<lambda>next_snapshot_id. rbind r_u64 (\<lambda>next_session_id.
    rbind (r_option (r_corrupt decode_policy)) (\<lambda>policy.
    rbind (r_vector kMaxResources EC_PersistenceCorrupt (r_corrupt decode_capacity_snapshot)) (\<lambda>capacities.
    rbind (r_vector (kMaxObligationsPerResource * kMaxResources) EC_PersistenceCorrupt (r_corrupt decode_obligation)) (\<lambda>obligations.
    rbind (r_vector (kMaxRequestsPerRound * 16) EC_PersistenceCorrupt decode_waiting_request) (\<lambda>requests.
    rbind (r_vector (kMaxGrantsPerResource * kMaxResources) EC_PersistenceCorrupt (r_corrupt decode_grant)) (\<lambda>grants.
    rbind (r_vector kMaxBootFenceRecords EC_PersistenceCorrupt decode_fence) (\<lambda>fences.
    rbind (r_vector kMaxIdempotencyEntries EC_PersistenceCorrupt decode_idempotency) (\<lambda>idempotency.
    rbind (r_vector (kMaxObligationsPerResource * kMaxResources) EC_PersistenceCorrupt decode_request_key) (\<lambda>retired.
      rret \<lparr> sm_epoch = epoch, sm_incarnation = incarnation, sm_tick = tick, sm_audit_sequence = audit_sequence,
        sm_next_grant_id = next_grant_id, sm_next_recall_id = next_recall_id,
        sm_next_decision_id = next_decision_id, sm_next_snapshot_id = next_snapshot_id,
        sm_next_session_id = next_session_id, sm_policy = policy, sm_capacities = capacities,
        sm_obligations = obligations, sm_requests = requests, sm_grants = grants, sm_fences = fences,
        sm_idempotency = idempotency, sm_retired = retired \<rparr>)))))))))))))))))"

definition state_ok :: "state_image \<Rightarrow> bool" where
  "state_ok m \<longleftrightarrow>
    pred_option policy_ok (sm_policy m) \<and>
    vector_ok kMaxResources snapshot_ok (sm_capacities m) \<and>
    vector_ok (kMaxObligationsPerResource * kMaxResources) obligation_ok (sm_obligations m) \<and>
    vector_ok (kMaxRequestsPerRound * 16) (\<lambda>(r, _). request_ok r) (sm_requests m) \<and>
    vector_ok (kMaxGrantsPerResource * kMaxResources) grant_ok (sm_grants m) \<and>
    vector_ok kMaxBootFenceRecords fence_ok (sm_fences m) \<and>
    vector_ok kMaxIdempotencyEntries idempotency_ok (sm_idempotency m) \<and>
    vector_ok (kMaxObligationsPerResource * kMaxResources) (\<lambda>_. True) (sm_retired m)"

section \<open>Installing it\<close>

definition restore_outcome :: "idempotency_record \<Rightarrow> submit_outcome" where
  "restore_outcome e = \<lparr> so_disposition = ID_Replay, so_request = ir_request e, so_generation = ir_generation e,
     so_waiting = ir_waiting e, so_refused = ir_refused e, so_reason = ir_reason e \<rparr>"

definition restore_grant :: "grant \<Rightarrow> broker \<Rightarrow> broker" where
  "restore_grant g b = b\<lparr>br_grants := om_set (gr_id g) g (br_grants b),
     br_next_grant_id := max (br_next_grant_id b) (gr_id g + 1)\<rparr>"

definition restore_fence :: "boot_fence \<Rightarrow> broker \<Rightarrow> broker" where
  "restore_fence f b = b\<lparr>br_fence_hashes := insert (boot_hash (bf_boot f)) (br_fence_hashes b),
     br_fences := br_fences b @ [f]\<rparr>"

definition restore_idempotency :: "idempotency_record \<Rightarrow> broker \<Rightarrow> broker" where
  "restore_idempotency e b =
    (let key = request_key (ir_request e) (ir_generation e) in
     b\<lparr>br_idempotency := om_set key (restore_outcome e) (br_idempotency b),
       br_content_hashes := om_set key (ir_content_hash e) (br_content_hashes b)\<rparr>)"

definition restore_request :: "bandwidth_request \<times> u64 \<Rightarrow> broker \<Rightarrow> broker" where
  "restore_request rw b =
    (let key = request_key (rq_id (fst rw)) (rq_generation (fst rw)) in
     b\<lparr>br_wait_rounds := om_set key (snd rw) (br_wait_rounds b),
       br_requests := om_set key (fst rw) (br_requests b)\<rparr>)"

definition install_state :: "state_image \<Rightarrow> broker \<Rightarrow> broker" where
  "install_state m b =
    fold (\<lambda>(reservation, generation) b. b\<lparr>br_retired_obligations := om_set reservation generation (br_retired_obligations b)\<rparr>)
      (sm_retired m)
    (fold restore_idempotency (sm_idempotency m)
    (fold restore_fence (sm_fences m)
    (fold restore_grant (sm_grants m)
    (fold restore_request (sm_requests m)
    (fold (\<lambda>ob b. b\<lparr>br_obligations := om_set (ob_reservation ob) ob (br_obligations b)\<rparr>) (sm_obligations m)
    (fold (\<lambda>s b. b\<lparr>br_capacities := om_set (cs_target s) s (br_capacities b)\<rparr>) (sm_capacities m)
    (b\<lparr>br_epoch := sm_epoch m, br_incarnation := sm_incarnation m, br_tick := sm_tick m,
      br_audit_sequence := sm_audit_sequence m, br_next_grant_id := sm_next_grant_id m,
      br_next_recall_id := sm_next_recall_id m, br_next_decision_id := sm_next_decision_id m,
      br_next_snapshot_id := sm_next_snapshot_id m, br_next_session_id := sm_next_session_id m,
      br_policy := (case sm_policy m of None \<Rightarrow> br_policy b | Some p \<Rightarrow> Some p)\<rparr>)))))))"

definition load_snapshot :: "snapshot_image \<Rightarrow> unit bop" where
  "load_snapshot img b =
    (case decode_payload decode_state (si_payload img) of
       Inl e \<Rightarrow> (b, Inl e) | Inr m \<Rightarrow> (install_state m b, success))"

section \<open>Replaying the journal\<close>

text \<open>A payload is decoded from its start; what follows the decoded value is not looked at.\<close>

definition decoded :: "'a reader \<Rightarrow> bytes \<Rightarrow> ('a \<Rightarrow> broker \<Rightarrow> broker) \<Rightarrow> unit bop" where
  "decoded dec payload f b =
    (case snd (r_corrupt dec payload) of Inl e \<Rightarrow> (b, Inl e) | Inr v \<Rightarrow> (f v b, success))"

fun apply_payload :: "record_type \<Rightarrow> bytes \<Rightarrow> unit bop" where
  "apply_payload RT_PolicySet payload = decoded decode_policy payload (\<lambda>p b. b\<lparr>br_policy := Some p\<rparr>)"
| "apply_payload RT_CapacityPublished payload = decoded decode_capacity_snapshot payload
    (\<lambda>s b. b\<lparr>br_capacities := om_set (cs_target s) s (br_capacities b)\<rparr>)"
| "apply_payload RT_ObligationUpserted payload = decoded decode_obligation payload
    (\<lambda>ob b. b\<lparr>br_obligations := om_set (ob_reservation ob) ob (br_obligations b),
      br_retired_obligations := om_erase (ob_reservation ob) (br_retired_obligations b)\<rparr>)"
| "apply_payload RT_ObligationRetired payload = (\<lambda>b. case decode_reference payload of
      Inl _ \<Rightarrow> (b, fail EC_PersistenceCorrupt)
    | Inr (reservation, generation) \<Rightarrow> (b\<lparr>br_obligations := om_erase reservation (br_obligations b),
        br_retired_obligations := om_set reservation generation (br_retired_obligations b)\<rparr>, success))"
| "apply_payload RT_RequestAccepted payload = decoded decode_request payload
    (\<lambda>r b. b\<lparr>br_requests := om_set (request_key (rq_id r) (rq_generation r)) r (br_requests b)\<rparr>)"
| "apply_payload RT_RequestRetired payload = decoded decode_request_key payload
    (\<lambda>(i, generation) b. b\<lparr>br_requests := om_erase (request_key i generation) (br_requests b)\<rparr>)"
| "apply_payload RT_RoundCommitted payload = decoded decode_round payload
    (\<lambda>ro b. b\<lparr>br_accounting := om_set (ro_target ro) (ro_accounting ro) (br_accounting b),
      br_last_decision := om_set (ro_target ro) (ro_decision ro) (br_last_decision b),
      br_next_grant_id := max (br_next_grant_id b) (ro_next_grant_id ro),
      br_next_recall_id := max (br_next_recall_id b) (ro_next_recall_id ro)\<rparr>)"
| "apply_payload RT_PublisherFenced payload = decoded decode_fence payload restore_fence"
| "apply_payload RT_EpochAdvanced payload = decoded read_id payload (\<lambda>epoch b. b\<lparr>br_epoch := epoch\<rparr>)"
| "apply_payload RT_IdempotencyRecord payload = decoded decode_idempotency payload restore_idempotency"
| "apply_payload RT_CoordinatorBoot payload = decoded decode_boot payload (\<lambda>_ b. b)"
| "apply_payload _ payload = decoded decode_grant payload restore_grant"

definition replay_record :: "durable_record \<Rightarrow> unit bop" where
  "replay_record rec =
    opbind (apply_payload (re_type rec) (re_payload rec)) (\<lambda>_.
    opmod (\<lambda>b. b\<lparr>br_tick := max (br_tick b) (rh_tick (re_header rec)),
      br_audit_sequence := max (br_audit_sequence b) (rh_sequence (re_header rec))\<rparr>))"

definition replay_records :: "durable_record list \<Rightarrow> unit bop" where
  "replay_records = opfor replay_record"

section \<open>Opening a coordinator\<close>

definition check_config :: "broker_config \<Rightarrow> status" where
  "check_config config =
    (if \<not> valid_id (bc_epoch config) then fail EC_InvalidIdentity
     else if \<not> valid_id (bc_incarnation config) then fail EC_InvalidIdentity
     else if bc_max_idempotency_entries config = 0 then fail EC_InvalidArgument
     else success)"

definition store_options_of :: "broker_config \<Rightarrow> store_options" where
  "store_options_of config = \<lparr> so_fsync_on_commit = bc_fsync_on_commit config,
     so_compaction_records = bc_journal_compaction_records config,
     so_max_journal_records = kMaxJournalRecords \<rparr>"

definition recover_store :: "store \<Rightarrow> recovery_result bop" where
  "recover_store st b = (case store_recover st of (st', r) \<Rightarrow> (b\<lparr>br_store := Some st'\<rparr>, r))"

definition restore :: "recovery_result \<Rightarrow> bool bop" where
  "restore rv =
    opbind (opmod (\<lambda>b. b\<lparr>br_recoveries := 1, br_journal_truncations := rp_truncations (rv_report rv)\<rparr>)) (\<lambda>_.
    opbind (case rv_snapshot rv of None \<Rightarrow> opret () | Some img \<Rightarrow> load_snapshot img) (\<lambda>_.
    opbind (replay_records (rv_records rv)) (\<lambda>_.
      opret (rv_snapshot rv \<noteq> None \<or> rv_records rv \<noteq> []))))"

definition recover_state :: "broker_config \<Rightarrow> store_dir option \<Rightarrow> io_result list \<Rightarrow> bool bop" where
  "recover_state config directory io =
    (if bc_store_directory config = [] then opret False
     else opbind (oplift (store_open (bc_store_directory config) directory io (store_options_of config))) (\<lambda>st.
       opbind (recover_store st) restore))"

definition demote_restored :: "broker \<Rightarrow> broker" where
  "demote_restored b = b\<lparr>br_capacities := om_map_values stale_evidence (br_capacities b),
     br_grants := om_map_values (demote (\<lambda>_. True)) (br_grants b),
     br_accounting := [], br_explanations := [], br_last_decision := []\<rparr>"

definition restart_epoch :: "bool \<Rightarrow> unit bop" where
  "restart_epoch had_durable_state =
    (if had_durable_state then
       opbind (opget br_epoch) (\<lambda>epoch. opbind (oplift (next_fabric_epoch epoch)) (\<lambda>next.
         opmod (\<lambda>b. b\<lparr>br_epoch := next\<rparr>)))
     else opret ())"

definition announce_boot :: "unit bop" where
  "announce_boot =
    opbind (opget br_store) (\<lambda>st. if st = None then opret ()
      else opbind (opget br_epoch) (\<lambda>epoch.
        opbind (persist RT_EpochAdvanced (write_id epoch)) (\<lambda>_.
        opbind (opget (\<lambda>b. \<lparr> bt_coordinator = br_incarnation b, bt_epoch = br_epoch b, bt_tick = br_tick b,
          bt_sequence = br_audit_sequence b + 1 \<rparr>)) (\<lambda>boot.
        opbind (persist RT_CoordinatorBoot (encode_boot boot)) (\<lambda>_.
          broker_flush)))))"

definition open_steps :: "broker_config \<Rightarrow> store_dir option \<Rightarrow> io_result list \<Rightarrow> unit bop" where
  "open_steps config directory io =
    opbind (oplift (check_config config)) (\<lambda>_.
    opbind (recover_state config directory io) (\<lambda>had_durable_state.
    opbind (opmod demote_restored) (\<lambda>_.
    opbind (restart_epoch had_durable_state) (\<lambda>_.
    opbind (opmod (\<lambda>b. b\<lparr>br_tick := br_tick b + 1\<rparr>)) (\<lambda>_.
    opbind announce_boot (\<lambda>_.
      opmod (\<lambda>b. b\<lparr>br_snapshots_written := 0\<rparr>)))))))"

definition broker_open :: "broker_config \<Rightarrow> store_dir option \<Rightarrow> io_result list \<Rightarrow> broker result" where
  "broker_open config directory io =
    (case open_steps config directory io (new_broker config) of (b, Inl e) \<Rightarrow> Inl e | (b, Inr _) \<Rightarrow> Inr b)"

end
