(* ===== verification/Net.thy ===== *)
theory Net
  imports Effects Checksum
begin

text \<open>
  The TCP transport (\<open>net.hpp\<close>, \<open>net.cpp\<close>).  The operating system is outside the program: the value
  each system call returns is an argument of the operation that makes the call, or an element of a
  script of future results.  Of the calls the model assumes only what they document: \<open>send\<close> and
  \<open>recv\<close> never report more bytes than they were given room for.

  A socket is its handle and the bytes the kernel has accepted from it.  The lemmas show that
  \<open>send_all\<close> hands over the whole buffer in order or reports an error after a proper prefix, and
  that it terminates and succeeds on every kernel that keeps accepting bytes.
\<close>

section \<open>Sockets\<close>

record socket =
  sk_handle :: int
  sk_written :: bytes
  sk_sends :: "int list"

definition kInvalidSocket :: int where "kInvalidSocket = - 1"

definition initialise_networking :: status where
  "initialise_networking = success"

definition socket_valid :: "socket \<Rightarrow> bool" where
  "socket_valid s \<longleftrightarrow> sk_handle s \<noteq> - 1"

definition socket_close :: "socket \<Rightarrow> socket" where
  "socket_close s = (if sk_handle s \<noteq> - 1 then s\<lparr>sk_handle := - 1\<rparr> else s)"

text \<open>Moving a socket leaves the source without a handle; the target closes what it held.\<close>

definition socket_move :: "socket \<Rightarrow> socket \<times> socket" where
  "socket_move other = (other, other\<lparr>sk_handle := - 1\<rparr>)"

text \<open>
  Assignment between two different objects: the handle the target held is closed, then the source is moved;
  the result is the socket that was closed, the target and the source.
\<close>

definition socket_assign :: "socket \<Rightarrow> socket \<Rightarrow> socket \<times> socket \<times> socket" where
  "socket_assign this other = (socket_close this, socket_move other)"

definition kChunkBytes :: nat where "kChunkBytes = 2 ^ 20"

text \<open>One \<open>::send\<close>: the next result of the script, at most what was offered; an exhausted script fails.\<close>

definition kernel_send :: "bytes \<Rightarrow> socket \<Rightarrow> socket \<times> int" where
  "kernel_send chunk s =
    (case sk_sends s of
       [] \<Rightarrow> (s, - 1)
     | r # later \<Rightarrow>
         let written = min r (int (length chunk)) in
         (s\<lparr>sk_sends := later, sk_written := sk_written s @ take (nat written) chunk\<rparr>, written))"

lemma kernel_send_shrinks: "kernel_send chunk s = (s', w) \<Longrightarrow> 0 < w \<Longrightarrow> length (sk_sends s') < length (sk_sends s)"
  by (auto simp: kernel_send_def Let_def split: list.splits)

function send_loop :: "bytes \<Rightarrow> socket \<Rightarrow> socket \<times> status" where
  "send_loop rest s =
    (if rest = [] then (s, success)
     else let chunk = take kChunkBytes rest in
       case kernel_send chunk s of
         (s', written) \<Rightarrow> if written \<le> 0 then (s', fail EC_IoError) else send_loop (drop (nat written) rest) s')"
  by auto
termination
  by (relation "measure (\<lambda>(rest, s). length (sk_sends s))") (auto intro: kernel_send_shrinks [OF sym])

declare send_loop.simps [simp del]

definition send_all :: "bytes \<Rightarrow> (socket, unit) op" where
  "send_all data s = (if \<not> socket_valid s then (s, fail EC_ConnectionClosed) else send_loop data s)"

text \<open>\<open>recv\<close> reports the number of bytes it stored; the bytes are what it stored in the buffer.\<close>

definition receive_some :: "nat \<Rightarrow> int \<Rightarrow> bytes \<Rightarrow> socket \<Rightarrow> bytes result" where
  "receive_some capacity read stored s =
    (if \<not> socket_valid s then fail EC_ConnectionClosed
     else if capacity = 0 then Inr []
     else let chunk = (if capacity > kChunkBytes then kChunkBytes else capacity) in
       if read = 0 then Inr []
       else if read < 0 then fail EC_IoError
       else Inr (take (min (nat read) chunk) stored))"

definition wait_readable :: "int \<Rightarrow> socket \<Rightarrow> bool result" where
  "wait_readable ready s =
    (if \<not> socket_valid s then fail EC_ConnectionClosed
     else if ready < 0 then fail EC_IoError
     else Inr (ready > 0))"

section \<open>Connecting\<close>

text \<open>For every address the resolver returned: the handle \<open>socket\<close> gave and the result of \<open>connect\<close>.\<close>

primrec connect_first :: "(int \<times> int) list \<Rightarrow> int" where
  "connect_first [] = - 1"
| "connect_first (entry # entries) =
    (if fst entry = kInvalidSocket then connect_first entries
     else if snd entry = 0 then fst entry
     else connect_first entries)"

definition connect_to :: "bytes \<Rightarrow> int \<Rightarrow> (int \<times> int) list \<Rightarrow> int list \<Rightarrow> socket result" where
  "connect_to host resolved entries sends =
    bindr initialise_networking (\<lambda>_.
    if host = [] \<or> length host > 253 then fail EC_InvalidArgument
    else if resolved \<noteq> 0 then fail EC_IoError
    else let s = \<lparr> sk_handle = connect_first entries, sk_written = [], sk_sends = sends \<rparr> in
      if \<not> socket_valid s then fail EC_IoError else Inr s)"

section \<open>Listening\<close>

record listener =
  ls_handle :: int
  ls_port :: "16 word"

definition listener_valid :: "listener \<Rightarrow> bool" where
  "listener_valid l \<longleftrightarrow> ls_handle l \<noteq> - 1"

definition listener_close :: "listener \<Rightarrow> listener" where
  "listener_close l = (if ls_handle l \<noteq> - 1 then l\<lparr>ls_handle := - 1\<rparr> else l)"

definition listener_move :: "listener \<Rightarrow> listener \<times> listener" where
  "listener_move other = (other, other\<lparr>ls_handle := - 1, ls_port := 0\<rparr>)"

definition listener_assign :: "listener \<Rightarrow> listener \<Rightarrow> listener \<times> listener \<times> listener" where
  "listener_assign this other = (listener_close this, listener_move other)"

text \<open>The results of \<open>socket\<close>, \<open>bind\<close>, \<open>listen\<close> and \<open>getsockname\<close>, and the port the platform chose.\<close>

record bind_calls =
  bd_socket :: int
  bd_bind :: int
  bd_listen :: int
  bd_getsockname :: int
  bd_port :: "16 word"

definition bind_loopback :: "nat \<Rightarrow> bind_calls \<Rightarrow> listener result" where
  "bind_loopback backlog calls =
    bindr initialise_networking (\<lambda>_.
    if backlog = 0 \<or> backlog > 1024 then fail EC_InvalidArgument
    else if bd_socket calls = kInvalidSocket then fail EC_IoError
    else if bd_bind calls \<noteq> 0 then fail EC_IoError
    else if bd_listen calls \<noteq> 0 then fail EC_IoError
    else if bd_getsockname calls \<noteq> 0 then fail EC_IoError
    else Inr \<lparr> ls_handle = bd_socket calls, ls_port = bd_port calls \<rparr>)"

definition accept_one :: "int \<Rightarrow> int \<Rightarrow> int list \<Rightarrow> listener \<Rightarrow> socket result" where
  "accept_one ready accepted sends l =
    (if \<not> listener_valid l then fail EC_ConnectionClosed
     else if ready < 0 then fail EC_IoError
     else if ready = 0 then fail EC_NotFound
     else if accepted = kInvalidSocket then fail EC_IoError
     else Inr \<lparr> sk_handle = accepted, sk_written = [], sk_sends = sends \<rparr>)"

section \<open>Ownership of handles\<close>

text \<open>A handle has one owner: moving or assigning hands it over and leaves the source, and what the target held, without one.\<close>

lemma socket_assign_owner:
  "socket_assign this other = (old, target, source) \<Longrightarrow> \<not> socket_valid old \<and> \<not> socket_valid source \<and> target = other"
  by (auto simp: socket_assign_def socket_move_def socket_close_def socket_valid_def)

lemma listener_assign_owner:
  "listener_assign this other = (old, target, source) \<Longrightarrow>
    \<not> listener_valid old \<and> ls_port old = ls_port this \<and> \<not> listener_valid source \<and> ls_port source = 0 \<and> target = other"
  by (auto simp: listener_assign_def listener_move_def listener_close_def listener_valid_def)

section \<open>Sending\<close>

lemma kernel_send_written:
  assumes "kernel_send chunk s = (s', w)"
  shows "sk_written s' = sk_written s @ take (nat w) chunk" and "sk_handle s' = sk_handle s" and "w \<le> int (length chunk)"
  using assms by (auto simp: kernel_send_def Let_def split: list.splits)

lemma send_loop_prefix:
  "send_loop rest s = (s', r) \<Longrightarrow>
    sk_handle s' = sk_handle s \<and>
    (\<exists>n \<le> length rest. sk_written s' = sk_written s @ take n rest \<and> (r = success \<longleftrightarrow> n = length rest) \<and>
      (r = success \<or> r = fail EC_IoError))"
proof (induction rest s rule: send_loop.induct)
  case (1 rest s)
  show ?case
  proof (cases "rest = []")
    case True
    with "1.prems" show ?thesis by (simp add: send_loop.simps)
  next
    case False
    obtain s1 w where k: "kernel_send (take kChunkBytes rest) s = (s1, w)" by fastforce
    note kw = kernel_send_written [OF k]
    show ?thesis
    proof (cases "w \<le> 0")
      case True
      with False k "1.prems" have "s' = s1" "r = fail EC_IoError" by (simp_all add: send_loop.simps [of rest])
      with True kw False show ?thesis by (intro conjI exI [of _ 0]) auto
    next
      case w: False
      from kw(3) have n: "nat w \<le> length rest" "nat w \<le> kChunkBytes" by simp_all
      from w False k "1.prems" have "send_loop (drop (nat w) rest) s1 = (s', r)" by (simp add: send_loop.simps [of rest])
      from "1.IH" [OF False refl k [symmetric] w this] obtain m where m: "sk_handle s' = sk_handle s1" "m \<le> length (drop (nat w) rest)"
          "sk_written s' = sk_written s1 @ take m (drop (nat w) rest)" "(r = success) = (m = length (drop (nat w) rest))"
          "r = success \<or> r = fail EC_IoError"
        by blast
      have "sk_written s' = sk_written s @ take (nat w + m) rest" using m(3) kw(1) n(2) by (simp add: take_add min_absorb1)
      with m n kw(2) show ?thesis by (intro conjI exI [of _ "nat w + m"]) auto
    qed
  qed
qed

text \<open>A kernel that accepts bytes as long as there are any: enough calls, each accepting at least one.\<close>

definition sends_through :: "nat \<Rightarrow> socket \<Rightarrow> bool" where
  "sends_through n s \<longleftrightarrow> n \<le> length (sk_sends s) \<and> list_all (\<lambda>r. 0 < r) (sk_sends s)"

lemma send_loop_succeeds:
  "sends_through (length rest + m) s \<Longrightarrow> snd (send_loop rest s) = success \<and> sends_through m (fst (send_loop rest s))"
proof (induction rest s rule: send_loop.induct)
  case (1 rest s)
  show ?case
  proof (cases "rest = []")
    case True
    with 1 show ?thesis by (simp add: send_loop.simps)
  next
    case False
    then obtain r later where s: "sk_sends s = r # later" "0 < r"
      using 1 by (cases "sk_sends s") (auto simp: sends_through_def)
    let ?chunk = "take kChunkBytes rest"
    let ?w = "min r (int (length ?chunk))"
    let ?s = "s\<lparr>sk_sends := later, sk_written := sk_written s @ take (nat ?w) ?chunk\<rparr>"
    have k: "kernel_send ?chunk s = (?s, ?w)" using s by (simp add: kernel_send_def Let_def)
    have w: "\<not> ?w \<le> 0" using s False by (cases rest) (auto simp: kChunkBytes_def)
    have "sends_through (length (drop (nat ?w) rest) + m) ?s"
      using 1(2) s w False by (auto simp: sends_through_def)
    from "1.IH" [OF False refl k [symmetric] w this] k w False show ?thesis
      by (simp add: send_loop.simps [of rest])
  qed
qed

lemma send_all_succeeds:
  assumes "socket_valid s" and "sends_through (length data + m) s"
  shows "\<exists>s'. send_all data s = (s', success) \<and> sk_written s' = sk_written s @ data \<and> sk_handle s' = sk_handle s \<and> sends_through m s'"
proof -
  obtain s' r where l: "send_loop data s = (s', r)" by fastforce
  with send_loop_succeeds [OF assms(2)] have "r = success" "sends_through m s'" by simp_all
  with send_loop_prefix [OF l] l assms(1) show ?thesis by (auto simp: send_all_def)
qed

end
