(* ===== verification/Server.thy ===== *)
theory Server
  imports Broker_Recovery Frame Net Printing
begin

text \<open>
  The coordinator server (\<open>server.hpp\<close>, \<open>server.cpp\<close>): options, one handler per message type, the
  loop of a connection, and the acceptor with its connection budget.

  The state shared by all connections is \<open>server\<close>, that of one connection \<open>connection\<close>.  Broker calls
  are serialised by the broker's mutex, so a handler is a function of the broker.  What the
  operating system returns to a poll is an \<open>arrival\<close>.  The wording of diagnostics is not modelled by the
  components below, so the texts of the n-th reply of a connection, where they are not literals of
  \<open>server.cpp\<close>, are an argument: \<open>say n 0\<close> is the status message, \<open>say n 1\<close> and \<open>say n 2\<close> the two texts
  of an explanation.
\<close>

section \<open>State\<close>

record server_options =
  vo_port :: u16
  vo_session_token :: bytes
  vo_max_connections :: nat
  vo_receive_buffer_bytes :: nat

record server =
  sv_broker :: broker
  sv_options :: server_options
  sv_active :: nat
  sv_stopping :: bool
  sv_handled :: u64

record connection =
  cn_socket :: socket
  cn_session :: ident
  cn_publisher :: ident
  cn_boot :: boot_id
  cn_greeted :: bool
  cn_decoder :: frame_decoder
  cn_replies :: nat

type_synonym wording = "nat \<Rightarrow> bytes"
type_synonym diagnostics = "nat \<Rightarrow> wording"

definition ok_status :: "string \<Rightarrow> wire_status" where
  "ok_status message = \<lparr> ws_code = EC_Ok, ws_message = ascii message \<rparr>"

definition error_status :: "bytes \<Rightarrow> error_code \<Rightarrow> wire_status" where
  "error_status message code = \<lparr> ws_code = code, ws_message = message \<rparr>"

text \<open>\<open>code()\<close> of an error.  A run with undefined behaviour has no reply to speak of; any code will do.\<close>

primrec code_of :: "failure \<Rightarrow> error_code" where
  "code_of (Err c) = c"
| "code_of Undefined = EC_InternalError"

text \<open>The code of a result with the literal or the message of the error.\<close>

definition status_of :: "string \<Rightarrow> bytes \<Rightarrow> 'a result \<Rightarrow> wire_status" where
  "status_of literal message r = (case r of Inl e \<Rightarrow> error_status message (code_of e) | Inr _ \<Rightarrow> ok_status literal)"

section \<open>Sending\<close>

definition send_message :: "message_type \<Rightarrow> u64 \<Rightarrow> bytes \<Rightarrow> (connection, unit) op" where
  "send_message type correlation payload c =
    (case encode_frame type correlation payload of
       Inl e \<Rightarrow> (c, Inl e)
     | Inr framed \<Rightarrow> (case send_all framed (cn_socket c) of
         (socket, r) \<Rightarrow> (c\<lparr>cn_socket := socket, cn_replies := Suc (cn_replies c)\<rparr>, r)))"

definition send_ack :: "('a \<Rightarrow> bytes) \<Rightarrow> message_type \<Rightarrow> u64 \<Rightarrow> 'a \<Rightarrow> (connection, unit) op" where
  "send_ack enc type correlation ack = send_message type correlation (enc ack)"

definition send_error :: "u64 \<Rightarrow> error_code \<Rightarrow> bytes \<Rightarrow> (connection, unit) op" where
  "send_error correlation code message =
    send_ack encode_error_response MT_ErrorResponse correlation \<lparr> er_status = error_status message code \<rparr>"

section \<open>The handshake\<close>

definition empty_hello_ack :: "wire_status \<Rightarrow> hello_ack" where
  "empty_hello_ack status = \<lparr> ha_status = status, ha_coordinator = 0, ha_epoch = 0, ha_session = 0, ha_next_grant_id = 1 \<rparr>"

text \<open>Why a handshake is refused; the literal texts are those of the source.\<close>

definition hello_refusal :: "bytes \<Rightarrow> server_options \<Rightarrow> broker \<Rightarrow> hello_request result \<Rightarrow> wire_status option" where
  "hello_refusal message options b request =
    (case request of
       Inl e \<Rightarrow> Some (error_status message (code_of e))
     | Inr q \<Rightarrow>
         if hr_protocol_version q \<noteq> BB_PROTOCOL_VERSION
         then Some (error_status (ascii ''protocol version is not supported by this coordinator'') EC_ProtocolVersionUnsupported)
         else if vo_session_token options \<noteq> [] \<and> hr_session_token q \<noteq> vo_session_token options
         then Some (error_status (ascii ''session token rejected'') EC_HandshakeRejected)
         else if \<not> valid_id (hr_publisher q) \<or> \<not> boot_valid (hr_boot q)
         then Some (error_status (ascii ''handshake requires a publisher id and a boot identity'') EC_InvalidIdentity)
         else if is_fenced (hr_publisher q) (hr_boot q) b = Inr True
         then Some (error_status (ascii ''this boot identity is permanently fenced'') EC_BootFenced)
         else None)"

definition session_for :: "u64 \<Rightarrow> ident" where
  "session_for correlation = (case id_make (correlation + 1) of Inl _ \<Rightarrow> 1 | Inr i \<Rightarrow> i)"

definition greet :: "u64 \<Rightarrow> hello_request \<Rightarrow> connection \<Rightarrow> connection" where
  "greet correlation q c = c\<lparr>cn_publisher := hr_publisher q, cn_boot := hr_boot q, cn_greeted := True,
     cn_session := session_for correlation\<rparr>"

definition accepted_hello :: "ident \<Rightarrow> broker \<Rightarrow> hello_ack" where
  "accepted_hello session b = \<lparr> ha_status = ok_status ''accepted'', ha_coordinator = co_incarnation (broker_status b),
     ha_epoch = co_epoch (broker_status b), ha_session = session, ha_next_grant_id = 1 \<rparr>"

text \<open>A handler returns what the reader has left, the new state and whether to keep going.\<close>

type_synonym served = "bytes \<times> (server \<times> connection) \<times> bool"

definition sent :: "bytes \<Rightarrow> server \<Rightarrow> connection \<times> status \<Rightarrow> served" where
  "sent rest sv out = (rest, (sv, fst out), snd out = success)"

definition handle_hello :: "diagnostics \<Rightarrow> u64 \<Rightarrow> bytes \<Rightarrow> server \<times> connection \<Rightarrow> served" where
  "handle_hello say correlation payload st =
    (case st of (sv, c) \<Rightarrow> case decode_hello_request payload of (rest, request) \<Rightarrow>
      case hello_refusal (say (cn_replies c) 0) (sv_options sv) (sv_broker sv) request of
        Some status \<Rightarrow>
          (rest, (sv, fst (send_ack encode_hello_ack MT_HelloAck correlation (empty_hello_ack status) c)), False)
      | None \<Rightarrow> (case request of
          Inl _ \<Rightarrow> (rest, st, False)
        | Inr q \<Rightarrow>
            let c' = greet correlation q c in
            sent rest sv (send_ack encode_hello_ack MT_HelloAck correlation (accepted_hello (cn_session c') (sv_broker sv)) c')))"

section \<open>Operations on the broker\<close>

text \<open>Decode the request, run the operation, send its acknowledgement.\<close>

definition operation ::
  "'q reader \<Rightarrow> (wording \<Rightarrow> 'q result \<Rightarrow> broker \<Rightarrow> broker \<times> 'a) \<Rightarrow> ('a \<Rightarrow> bytes) \<Rightarrow> message_type \<Rightarrow>
    diagnostics \<Rightarrow> u64 \<Rightarrow> bytes \<Rightarrow> server \<times> connection \<Rightarrow> served" where
  "operation dec act enc type say correlation payload st =
    (case st of (sv, c) \<Rightarrow> case dec payload of (rest, request) \<Rightarrow>
      case act (say (cn_replies c)) request (sv_broker sv) of (b, ack) \<Rightarrow>
        sent rest (sv\<lparr>sv_broker := b\<rparr>) (send_ack enc type correlation ack c))"

definition serve_publish_capacity ::
  "wording \<Rightarrow> publish_capacity_request result \<Rightarrow> broker \<Rightarrow> broker \<times> publish_capacity_ack" where
  "serve_publish_capacity say request b =
    (case request of
       Inl e \<Rightarrow> (b, \<lparr> pa_status = error_status (say 0) (code_of e), pa_generation = 0 \<rparr>)
     | Inr q \<Rightarrow> (case publish_capacity (pq_snapshot q) b of (b', applied) \<Rightarrow>
         (b', \<lparr> pa_status = status_of ''published'' (say 0) applied, pa_generation = cs_generation (pq_snapshot q) \<rparr>)))"

definition serve_set_policy :: "wording \<Rightarrow> set_policy_request result \<Rightarrow> broker \<Rightarrow> broker \<times> set_policy_ack" where
  "serve_set_policy say request b =
    (case request of
       Inl e \<Rightarrow> (b, \<lparr> sa_status = error_status (say 0) (code_of e), sa_generation = 0 \<rparr>)
     | Inr q \<Rightarrow> (case set_policy (sq_policy q) b of (b', applied) \<Rightarrow>
         (b', \<lparr> sa_status = status_of ''installed'' (say 0) applied, sa_generation = po_generation (sq_policy q) \<rparr>)))"

definition submit_one :: "bandwidth_request \<Rightarrow> broker \<times> u32 \<times> ident list \<Rightarrow> broker \<times> u32 \<times> ident list" where
  "submit_one entry st =
    (case st of (b, accepted, refused) \<Rightarrow> case submit entry b of
       (b', Inr _) \<Rightarrow> (b', accepted + 1, refused)
     | (b', Inl _) \<Rightarrow> (b', accepted, refused @ [rq_id entry]))"

definition serve_submit_requests ::
  "wording \<Rightarrow> submit_requests_request result \<Rightarrow> broker \<Rightarrow> broker \<times> submit_requests_ack" where
  "serve_submit_requests say request b =
    (case request of
       Inl e \<Rightarrow> (b, \<lparr> ba_status = error_status (say 0) (code_of e), ba_accepted = 0, ba_refused = [] \<rparr>)
     | Inr q \<Rightarrow> (case fold submit_one (bq_requests q) (b, 0, []) of (b', accepted, refused) \<Rightarrow>
         (b', \<lparr> ba_status = ok_status ''submitted'', ba_accepted = accepted, ba_refused = refused \<rparr>)))"

definition decision_of :: "grant \<Rightarrow> decision_message" where
  "decision_of g = \<lparr> ad_request = gr_request g, ad_request_generation = gr_request_generation g,
     ad_state = gr_state g, ad_reason = gr_reason g, ad_allocation = gr_allocation g,
     ad_requested_minimum = gr_requested_minimum g, ad_requested_desired = gr_requested_desired g,
     ad_requested_maximum = gr_requested_maximum g, ad_denied = gr_denied g, ad_unmet_minimum = 0,
     ad_satisfied = gr_satisfied g, ad_waiting = False, ad_refused = False, ad_starvation_promoted = False,
     ad_next_wait_rounds = 0, ad_effective_rank = 0, ad_effective_weight = 1, ad_grant = Some g,
     ad_previous_grant = None, ad_recall = None, dm_binding_reason = [], dm_authority_mismatch = [] \<rparr>"

definition empty_arbitrate_ack :: "wire_status \<Rightarrow> arbitrate_ack" where
  "empty_arbitrate_ack status = \<lparr> aa_status = status, aa_decision = 0, aa_accounting = default_accounting, aa_decisions = [] \<rparr>"

definition serve_arbitrate :: "wording \<Rightarrow> arbitrate_request result \<Rightarrow> broker \<Rightarrow> broker \<times> arbitrate_ack" where
  "serve_arbitrate say request b =
    (case request of
       Inl e \<Rightarrow> (b, empty_arbitrate_ack (error_status (say 0) (code_of e)))
     | Inr q \<Rightarrow> (case broker_arbitrate (aq_target q) b of
         (b', Inl e) \<Rightarrow> (b', empty_arbitrate_ack (error_status (say 0) (code_of e)))
       | (b', Inr summary) \<Rightarrow>
           (b', \<lparr> aa_status = ok_status ''committed'', aa_decision = rs_decision summary,
              aa_accounting = rs_accounting summary,
              aa_decisions = map decision_of (grants_of (aq_target q) False b') \<rparr>)))"

text \<open>The note of a view says why it is not authoritative; it is the diagnostic of the reply.\<close>

definition serve_query_grant :: "wording \<Rightarrow> query_grant_request result \<Rightarrow> broker \<Rightarrow> broker \<times> query_grant_ack" where
  "serve_query_grant say request b =
    (case request of
       Inl e \<Rightarrow> (b, \<lparr> gk_status = error_status (say 0) (code_of e), gk_found = False, gk_grant = default_grant \<rparr>)
     | Inr q \<Rightarrow> (let view = query_grant (gq_grant q) (gq_generation q) b in
         (b, \<lparr> gk_status = error_status (say 0) EC_Ok, gk_found = gv_found view, gk_grant = gv_grant view \<rparr>)))"

definition serve_query_accounting :: "wording \<Rightarrow> query_accounting_request result \<Rightarrow> broker \<Rightarrow> broker \<times> query_accounting_ack" where
  "serve_query_accounting say request b =
    (case request of
       Inl e \<Rightarrow> (b, \<lparr> na_status = error_status (say 0) (code_of e), na_accounting = default_accounting \<rparr>)
     | Inr q \<Rightarrow> (let current = accounting_of (nq_target q) b in
         (b, \<lparr> na_status = status_of ''current'' (say 0) current,
            na_accounting = (case current of Inl _ \<Rightarrow> default_accounting | Inr account \<Rightarrow> account) \<rparr>)))"

definition serve_release :: "wording \<Rightarrow> release_request result \<Rightarrow> broker \<Rightarrow> broker \<times> release_ack" where
  "serve_release say request b =
    (case request of
       Inl e \<Rightarrow> (b, \<lparr> la_status = error_status (say 0) (code_of e), la_state = GS_Released, la_already_released = False, la_released = 0 \<rparr>)
     | Inr q \<Rightarrow> (case release (lq_grant q) (lq_generation q) b of
         (b', Inl e) \<Rightarrow>
           (b', \<lparr> la_status = error_status (say 0) (code_of e), la_state = GS_Released, la_already_released = False, la_released = 0 \<rparr>)
       | (b', Inr res) \<Rightarrow>
           (b', \<lparr> la_status = ok_status ''released'', la_state = rl_state res,
              la_already_released = rl_already_released res, la_released = rl_released res \<rparr>)))"

definition serve_revoke :: "wording \<Rightarrow> revoke_request result \<Rightarrow> broker \<Rightarrow> broker \<times> revoke_ack" where
  "serve_revoke say request b =
    (case request of
       Inl e \<Rightarrow> (b, \<lparr> va_status = error_status (say 0) (code_of e), va_state = GS_Revoked \<rparr>)
     | Inr q \<Rightarrow> (case revoke (vq_grant q) (vq_generation q) OR_Revoked (vq_reason q) b of
         (b', Inl e) \<Rightarrow> (b', \<lparr> va_status = error_status (say 0) (code_of e), va_state = GS_Revoked \<rparr>)
       | (b', Inr view) \<Rightarrow> (b', \<lparr> va_status = ok_status ''revoked'', va_state = gr_state (gv_grant view) \<rparr>)))"

definition serve_fence_publisher :: "wording \<Rightarrow> fence_publisher_request result \<Rightarrow> broker \<Rightarrow> broker \<times> fence_publisher_ack" where
  "serve_fence_publisher say request b =
    (case request of
       Inl e \<Rightarrow> (b, \<lparr> fa_status = error_status (say 0) (code_of e), fa_already_fenced = False \<rparr>)
     | Inr q \<Rightarrow>
         let before = is_fenced (fq_publisher q) (fq_boot q) b in
         (case fence_publisher (fq_publisher q) (fq_boot q) (fq_reason q) b of (b', applied) \<Rightarrow>
            (b', \<lparr> fa_status = status_of ''fenced'' (say 0) applied, fa_already_fenced = (before = Inr True) \<rparr>)))"

definition explanation_text :: "wording \<Rightarrow> request_explanation \<Rightarrow> explanation_message" where
  "explanation_text say e = request_explanation.extend e (explanation_message.fields (say 1) (say 2))"

definition empty_explanation_message :: explanation_message where
  "empty_explanation_message = explanation_text (\<lambda>_. []) default_explanation"

definition serve_explain :: "wording \<Rightarrow> explain_request result \<Rightarrow> broker \<Rightarrow> broker \<times> explain_ack" where
  "serve_explain say request b =
    (case request of
       Inl e \<Rightarrow> (b, \<lparr> ea_status = error_status (say 0) (code_of e), ea_explanation = empty_explanation_message \<rparr>)
     | Inr q \<Rightarrow> (let found = explain (eq_request q) (eq_generation q) b in
         (b, \<lparr> ea_status = status_of ''explained'' (say 0) found,
            ea_explanation = (case found of Inl _ \<Rightarrow> empty_explanation_message | Inr e \<Rightarrow> explanation_text say e) \<rparr>)))"

text \<open>Whatever the request holds, a shutdown stops the whole server.\<close>

definition handle_shutdown :: "diagnostics \<Rightarrow> u64 \<Rightarrow> bytes \<Rightarrow> server \<times> connection \<Rightarrow> served" where
  "handle_shutdown say correlation payload st =
    (case st of (sv, c) \<Rightarrow> case decode_shutdown_request payload of (rest, request) \<Rightarrow>
      (rest, (sv\<lparr>sv_stopping := True\<rparr>,
         fst (send_ack encode_shutdown_ack MT_ShutdownAck correlation
           \<lparr> da_status = status_of ''stopping'' (say (cn_replies c) 0) request \<rparr> c)), False))"

section \<open>Frames\<close>

definition handle_other :: "u64 \<Rightarrow> bytes \<Rightarrow> server \<times> connection \<Rightarrow> served" where
  "handle_other correlation payload st =
    (case st of (sv, c) \<Rightarrow> (payload, (sv, fst (send_error correlation EC_ProtocolMalformed
       (ascii ''message type is not handled by a coordinator'') c)), False))"

fun dispatch :: "message_type \<Rightarrow> diagnostics \<Rightarrow> u64 \<Rightarrow> bytes \<Rightarrow> server \<times> connection \<Rightarrow> served" where
  "dispatch MT_Hello = handle_hello"
| "dispatch MT_PublishCapacity =
    operation decode_publish_capacity_request serve_publish_capacity encode_publish_capacity_ack MT_PublishCapacityAck"
| "dispatch MT_SetPolicy = operation decode_set_policy_request serve_set_policy encode_set_policy_ack MT_SetPolicyAck"
| "dispatch MT_SubmitRequests =
    operation decode_submit_requests_request serve_submit_requests encode_submit_requests_ack MT_SubmitRequestsAck"
| "dispatch MT_Arbitrate = operation decode_arbitrate_request serve_arbitrate encode_arbitrate_ack MT_ArbitrateAck"
| "dispatch MT_QueryGrant = operation decode_query_grant_request serve_query_grant encode_query_grant_ack MT_QueryGrantAck"
| "dispatch MT_QueryAccounting =
    operation decode_query_accounting_request serve_query_accounting encode_query_accounting_ack MT_QueryAccountingAck"
| "dispatch MT_Release = operation decode_release_request serve_release encode_release_ack MT_ReleaseAck"
| "dispatch MT_Revoke = operation decode_revoke_request serve_revoke encode_revoke_ack MT_RevokeAck"
| "dispatch MT_FencePublisher =
    operation decode_fence_publisher_request serve_fence_publisher encode_fence_publisher_ack MT_FencePublisherAck"
| "dispatch MT_Explain = operation decode_explain_request serve_explain encode_explain_ack MT_ExplainAck"
| "dispatch MT_Shutdown = handle_shutdown"
| "dispatch _ = (\<lambda>_. handle_other)"

definition serve_frame :: "diagnostics \<Rightarrow> message \<Rightarrow> server \<times> connection \<Rightarrow> (server \<times> connection) \<times> bool" where
  "serve_frame say m st =
    (case m of (type, correlation, payload) \<Rightarrow> case st of (sv0, c) \<Rightarrow>
      let sv = sv0\<lparr>sv_handled := sv_handled sv0 + 1\<rparr> in
      if \<not> cn_greeted c \<and> type \<noteq> MT_Hello
      then ((sv, fst (send_error correlation EC_HandshakeRejected
        (ascii ''the first frame on a connection must be a handshake'') c)), False)
      else case dispatch type say correlation payload (sv, c) of (rest, (sv', c'), keep_going) \<Rightarrow>
        (case expect_end rest of
           Inr _ \<Rightarrow> ((sv', c'), keep_going)
         | Inl e \<Rightarrow> ((sv', fst (send_error correlation (code_of e) (say (cn_replies c') 0) c')), False)))"

definition finish :: "server \<times> connection \<Rightarrow> server \<times> connection" where
  "finish st = (case st of (sv, c) \<Rightarrow>
     (sv\<lparr>sv_active := sv_active sv - 1\<rparr>, c\<lparr>cn_socket := socket_close (cn_socket c)\<rparr>))"

lemma send_message_decoder [simp]: "cn_decoder (fst (send_message t n p c)) = cn_decoder c"
  by (simp add: send_message_def split: sum.split prod.split)

lemma send_ack_decoder [simp]: "cn_decoder (fst (send_ack enc t n a c)) = cn_decoder c"
  by (simp add: send_ack_def)

lemma send_error_decoder [simp]: "cn_decoder (fst (send_error n e m c)) = cn_decoder c"
  by (simp add: send_error_def)

lemma dispatch_decoder: "dispatch t say n p (sv, c) = (rest, (sv', c'), going) \<Longrightarrow> cn_decoder c' = cn_decoder c"
  by (cases t) (auto simp: handle_hello_def operation_def sent_def handle_shutdown_def handle_other_def greet_def Let_def
      split: prod.splits option.splits sum.splits)

lemma serve_frame_decoder: "serve_frame say m (sv, c) = ((sv', c'), going) \<Longrightarrow> cn_decoder c' = cn_decoder c"
  by (auto simp: serve_frame_def Let_def dest: dispatch_decoder split: prod.splits if_splits sum.splits)

text \<open>The frames that are complete, until one of them ends the loop; \<open>False\<close> when the connection was closed.\<close>

function serve_frames :: "diagnostics \<Rightarrow> server \<times> connection \<Rightarrow> (server \<times> connection) \<times> bool" where
  "serve_frames say (sv, c) =
    (case decoder_next (cn_decoder c) of
       (d, Inl e) \<Rightarrow> (finish (sv, fst (send_error 0 (code_of e) (say (cn_replies c) 0) (c\<lparr>cn_decoder := d\<rparr>))), False)
     | (d, Inr None) \<Rightarrow> ((sv, c\<lparr>cn_decoder := d\<rparr>), True)
     | (d, Inr (Some m)) \<Rightarrow> (case serve_frame say m (sv, c\<lparr>cn_decoder := d\<rparr>) of
         (st, keep_going) \<Rightarrow> if keep_going then serve_frames say st else (st, True)))"
  by pat_completeness auto
termination
proof (relation "measure (\<lambda>(say, sv, c). buffered_bytes (cn_decoder c))")
  fix say :: diagnostics and sv :: server and c :: connection and d r m opt x st going
  assume seen: "(d, r) = decoder_next (cn_decoder c)" "r = Inr opt" "opt = Some m"
    and step: "(st, going) = serve_frame say m (sv, c\<lparr>cn_decoder := d\<rparr>)" "going"
  then have "cn_decoder (snd st) = d"
    using serve_frame_decoder [of say m sv "c\<lparr>cn_decoder := d\<rparr>" "fst st" "snd st" going] by simp
  then show "((say, st), say, sv, c) \<in> measure (\<lambda>(say, sv, c). buffered_bytes (cn_decoder c))"
    using next_shrinks [of "cn_decoder c" d m] seen by (cases st) simp
qed simp

declare serve_frames.simps [simp del]

section \<open>A connection\<close>

text \<open>What the operating system returns to one poll: of \<open>select\<close>, of \<open>recv\<close>, and the bytes stored.\<close>

record arrival =
  ar_ready :: int
  ar_read :: int
  ar_stored :: bytes

definition serve_arrival :: "diagnostics \<Rightarrow> arrival \<Rightarrow> server \<times> connection \<Rightarrow> (server \<times> connection) \<times> bool" where
  "serve_arrival say a st =
    (case st of (sv, c) \<Rightarrow> case wait_readable (ar_ready a) (cn_socket c) of
       Inl _ \<Rightarrow> (finish st, False)
     | Inr readable \<Rightarrow>
         if \<not> readable then (st, True)
         else case receive_some (vo_receive_buffer_bytes (sv_options sv)) (ar_read a) (ar_stored a) (cn_socket c) of
           Inl _ \<Rightarrow> (finish st, False)
         | Inr received \<Rightarrow>
             if received = [] then (finish st, False)
             else case decoder_feed received (cn_decoder c) of
               (d, Inl e) \<Rightarrow> (finish (sv, fst (send_error 0 (code_of e) (say (cn_replies c) 0) (c\<lparr>cn_decoder := d\<rparr>))), False)
             | (d, Inr _) \<Rightarrow> serve_frames say (sv, c\<lparr>cn_decoder := d\<rparr>))"

text \<open>The loop of a connection over the polls it makes; \<open>True\<close> while it is still polling.\<close>

fun serve_connection :: "diagnostics \<Rightarrow> arrival list \<Rightarrow> server \<times> connection \<Rightarrow> (server \<times> connection) \<times> bool" where
  "serve_connection say arrivals st =
    (if sv_stopping (fst st) then (finish st, False)
     else case arrivals of
       [] \<Rightarrow> (st, True)
     | a # later \<Rightarrow> (case serve_arrival say a st of
         (st', open_still) \<Rightarrow> if open_still then serve_connection say later st' else (st', False)))"

declare serve_connection.simps [simp del]

section \<open>Starting, accepting and stopping\<close>

definition kMaxConnections :: nat where "kMaxConnections = 128"
definition kMaxOutboundQueueBytes :: nat where "kMaxOutboundQueueBytes = 4 * 2 ^ 20"

definition start :: "broker \<Rightarrow> server_options \<Rightarrow> bind_calls \<Rightarrow> (server \<times> listener) result" where
  "start b options calls =
    bindr initialise_networking (\<lambda>_.
    if vo_max_connections options = 0 \<or> vo_max_connections options > kMaxConnections then fail EC_OutOfRange
    else if vo_receive_buffer_bytes options < 4096 \<or> vo_receive_buffer_bytes options > kMaxOutboundQueueBytes
    then fail EC_OutOfRange
    else if length (vo_session_token options) > 256 then fail EC_BoundsExceeded
    else bindr (bind_loopback (vo_max_connections options) calls) (\<lambda>l.
      Inr (\<lparr> sv_broker = b, sv_options = options, sv_active = 0, sv_stopping = False, sv_handled = 0 \<rparr>, l)))"

definition new_connection :: "socket \<Rightarrow> connection" where
  "new_connection socket = \<lparr> cn_socket = socket, cn_session = 0, cn_publisher = 0, cn_boot = boot_unset,
     cn_greeted = False, cn_decoder = decoder_reset, cn_replies = 0 \<rparr>"

text \<open>One turn of the acceptor: nothing is waiting, the budget is exhausted, or a handler starts.\<close>

definition accept_connection :: "socket result \<Rightarrow> server \<Rightarrow> server \<times> connection option" where
  "accept_connection accepted sv =
    (case accepted of
       Inl _ \<Rightarrow> (sv, None)
     | Inr socket \<Rightarrow>
         if sv_active sv \<ge> vo_max_connections (sv_options sv) then (sv, None)
         else (sv\<lparr>sv_active := sv_active sv + 1\<rparr>, Some (new_connection socket)))"

definition active_connections :: "server \<Rightarrow> nat" where
  "active_connections sv = sv_active sv"

definition handled_messages :: "server \<Rightarrow> u64" where
  "handled_messages sv = sv_handled sv"

text \<open>\<open>stop\<close> returns when every handler has finished.\<close>

definition stop_request :: "server \<times> listener \<Rightarrow> server \<times> listener" where
  "stop_request st = (case st of (sv, l) \<Rightarrow> (sv\<lparr>sv_stopping := True\<rparr>, listener_close l))"

definition stop_returns :: "server \<Rightarrow> bool" where
  "stop_returns sv \<longleftrightarrow> sv_stopping sv \<and> sv_active sv = 0"

end
