(* ===== verification/Client.thy ===== *)
theory Client
  imports Server
begin

text \<open>
  The coordinator client (\<open>client.hpp\<close>, \<open>client.cpp\<close>): one connection, one sequence of correlation ids,
  and one blocking exchange per call.  The polls of the blocking loop are a list of arrivals; when
  they are used up without an answer the call is still waiting, which is the result \<open>None\<close>.
\<close>

section \<open>State\<close>

record client_options =
  lo_host :: bytes
  lo_port :: u16
  lo_session_token :: bytes
  lo_publisher :: ident
  lo_boot :: boot_id

record client =
  cl_socket :: socket
  cl_options :: client_options
  cl_decoder :: frame_decoder
  cl_session :: hello_ack
  cl_correlation :: u64

definition kClientBufferBytes :: nat where "kClientBufferBytes = 64 * 1024"

definition connect :: "client_options \<Rightarrow> int \<Rightarrow> (int \<times> int) list \<Rightarrow> int list \<Rightarrow> client result" where
  "connect options resolved entries sends =
    bindr initialise_networking (\<lambda>_.
    if \<not> valid_id (lo_publisher options) \<or> \<not> boot_valid (lo_boot options) then fail EC_InvalidIdentity
    else if lo_port options = 0 then fail EC_InvalidArgument
    else if length (lo_session_token options) > 256 then fail EC_BoundsExceeded
    else bindr (connect_to (lo_host options) resolved entries sends) (\<lambda>s.
      Inr \<lparr> cl_socket = s, cl_options = options, cl_decoder = decoder_reset,
        cl_session = empty_hello_ack (ok_status []), cl_correlation = 0 \<rparr>))"

definition client_close :: "client \<Rightarrow> client" where
  "client_close cl = cl\<lparr>cl_socket := socket_close (cl_socket cl)\<rparr>"

definition messages_exchanged :: "client \<Rightarrow> u64" where
  "messages_exchanged cl = cl_correlation cl"

section \<open>One exchange\<close>

definition reply_value :: "'a reader \<Rightarrow> message_type \<Rightarrow> u64 \<Rightarrow> message \<Rightarrow> 'a result" where
  "reply_value dec ack_type correlation m =
    (case m of (type, reply_correlation, payload) \<Rightarrow>
      if reply_correlation \<noteq> correlation then fail EC_ProtocolMalformed
      else if type = MT_ErrorResponse then
        (case decode_error_response payload of
           (_, Inl e) \<Rightarrow> Inl e
         | (_, Inr response) \<Rightarrow> fail (ws_code (er_status response)))
      else if type \<noteq> ack_type then fail EC_ProtocolMalformed
      else decode_payload dec payload)"

fun await :: "'a reader \<Rightarrow> message_type \<Rightarrow> u64 \<Rightarrow> arrival list \<Rightarrow> client \<Rightarrow> client \<times> 'a result option" where
  "await dec ack_type correlation arrivals cl =
    (case decoder_next (cl_decoder cl) of
       (d, Inl e) \<Rightarrow> (cl\<lparr>cl_decoder := d\<rparr>, Some (Inl e))
     | (d, Inr (Some m)) \<Rightarrow> (cl\<lparr>cl_decoder := d\<rparr>, Some (reply_value dec ack_type correlation m))
     | (d, Inr None) \<Rightarrow> (case arrivals of
         [] \<Rightarrow> (cl\<lparr>cl_decoder := d\<rparr>, None)
       | a # later \<Rightarrow> (case wait_readable (ar_ready a) (cl_socket cl) of
           Inl e \<Rightarrow> (cl\<lparr>cl_decoder := d\<rparr>, Some (Inl e))
         | Inr readable \<Rightarrow>
             if \<not> readable then await dec ack_type correlation later (cl\<lparr>cl_decoder := d\<rparr>)
             else case receive_some kClientBufferBytes (ar_read a) (ar_stored a) (cl_socket cl) of
               Inl e \<Rightarrow> (cl\<lparr>cl_decoder := d\<rparr>, Some (Inl e))
             | Inr received \<Rightarrow>
                 if received = [] then (cl\<lparr>cl_decoder := d\<rparr>, Some (fail EC_ConnectionClosed))
                 else case decoder_feed received d of
                   (d', Inl e) \<Rightarrow> (cl\<lparr>cl_decoder := d'\<rparr>, Some (Inl e))
                 | (d', Inr _) \<Rightarrow> await dec ack_type correlation later (cl\<lparr>cl_decoder := d'\<rparr>))))"

declare await.simps [simp del]

definition exchange ::
  "message_type \<Rightarrow> message_type \<Rightarrow> u64 \<Rightarrow> bytes \<Rightarrow> 'a reader \<Rightarrow> arrival list \<Rightarrow> client \<Rightarrow> client \<times> 'a result option" where
  "exchange request_type ack_type correlation payload dec arrivals cl =
    (case encode_frame request_type correlation payload of
       Inl e \<Rightarrow> (cl, Some (Inl e))
     | Inr framed \<Rightarrow> (case send_all framed (cl_socket cl) of
         (s, Inl e) \<Rightarrow> (cl\<lparr>cl_socket := s\<rparr>, Some (Inl e))
       | (s, Inr _) \<Rightarrow> await dec ack_type correlation arrivals (cl\<lparr>cl_socket := s\<rparr>)))"

text \<open>Every call takes the next correlation id.\<close>

definition call ::
  "message_type \<Rightarrow> message_type \<Rightarrow> ('q \<Rightarrow> bytes) \<Rightarrow> 'a reader \<Rightarrow> 'q \<Rightarrow> arrival list \<Rightarrow> client \<Rightarrow> client \<times> 'a result option" where
  "call request_type ack_type enc dec request arrivals cl =
    exchange request_type ack_type (cl_correlation cl + 1) (enc request) dec arrivals
      (cl\<lparr>cl_correlation := cl_correlation cl + 1\<rparr>)"

section \<open>The calls\<close>

definition hello_of :: "client_options \<Rightarrow> hello_request" where
  "hello_of options = \<lparr> hr_publisher = lo_publisher options, hr_boot = lo_boot options,
     hr_protocol_version = BB_PROTOCOL_VERSION, hr_session_token = lo_session_token options,
     hr_nonce = boot_hash (lo_boot options) \<rparr>"

definition handshake :: "arrival list \<Rightarrow> client \<Rightarrow> client \<times> hello_ack result option" where
  "handshake arrivals cl =
    (case call MT_Hello MT_HelloAck encode_hello_request decode_hello_ack (hello_of (cl_options cl)) arrivals cl of
       (cl', Some (Inr ack)) \<Rightarrow>
         (cl'\<lparr>cl_session := ack\<rparr>,
          Some (if ws_code (ha_status ack) \<noteq> EC_Ok then fail (ws_code (ha_status ack)) else Inr ack))
     | (cl', r) \<Rightarrow> (cl', r))"

definition client_publish_capacity ::
  "capacity_snapshot \<Rightarrow> arrival list \<Rightarrow> client \<Rightarrow> client \<times> publish_capacity_ack result option" where
  "client_publish_capacity snapshot = call MT_PublishCapacity MT_PublishCapacityAck
     encode_publish_capacity_request decode_publish_capacity_ack \<lparr> pq_snapshot = snapshot \<rparr>"

definition client_set_policy :: "policy \<Rightarrow> arrival list \<Rightarrow> client \<Rightarrow> client \<times> set_policy_ack result option" where
  "client_set_policy p = call MT_SetPolicy MT_SetPolicyAck
     encode_set_policy_request decode_set_policy_ack \<lparr> sq_policy = p \<rparr>"

definition client_submit ::
  "bandwidth_request list \<Rightarrow> arrival list \<Rightarrow> client \<Rightarrow> client \<times> submit_requests_ack result option" where
  "client_submit requests = call MT_SubmitRequests MT_SubmitRequestsAck
     encode_submit_requests_request decode_submit_requests_ack \<lparr> bq_requests = requests \<rparr>"

definition client_arbitrate :: "capacity_target \<Rightarrow> arrival list \<Rightarrow> client \<Rightarrow> client \<times> arbitrate_ack result option" where
  "client_arbitrate target = call MT_Arbitrate MT_ArbitrateAck
     encode_arbitrate_request decode_arbitrate_ack \<lparr> aq_target = target \<rparr>"

definition client_query_grant ::
  "ident \<Rightarrow> generation \<Rightarrow> arrival list \<Rightarrow> client \<Rightarrow> client \<times> query_grant_ack result option" where
  "client_query_grant i generation = call MT_QueryGrant MT_QueryGrantAck
     encode_query_grant_request decode_query_grant_ack \<lparr> gq_grant = i, gq_generation = generation \<rparr>"

definition client_query_accounting ::
  "capacity_target \<Rightarrow> arrival list \<Rightarrow> client \<Rightarrow> client \<times> query_accounting_ack result option" where
  "client_query_accounting target = call MT_QueryAccounting MT_QueryAccountingAck
     encode_query_accounting_request decode_query_accounting_ack \<lparr> nq_target = target \<rparr>"

definition client_release :: "ident \<Rightarrow> generation \<Rightarrow> arrival list \<Rightarrow> client \<Rightarrow> client \<times> release_ack result option" where
  "client_release i generation = call MT_Release MT_ReleaseAck
     encode_release_request decode_release_ack \<lparr> lq_grant = i, lq_generation = generation \<rparr>"

definition client_revoke ::
  "ident \<Rightarrow> generation \<Rightarrow> bytes \<Rightarrow> arrival list \<Rightarrow> client \<Rightarrow> client \<times> revoke_ack result option" where
  "client_revoke i generation reason = call MT_Revoke MT_RevokeAck
     encode_revoke_request decode_revoke_ack \<lparr> vq_grant = i, vq_generation = generation, vq_reason = reason \<rparr>"

definition client_fence_publisher ::
  "ident \<Rightarrow> boot_id \<Rightarrow> bytes \<Rightarrow> arrival list \<Rightarrow> client \<Rightarrow> client \<times> fence_publisher_ack result option" where
  "client_fence_publisher publisher boot reason = call MT_FencePublisher MT_FencePublisherAck
     encode_fence_publisher_request decode_fence_publisher_ack
     \<lparr> fq_publisher = publisher, fq_boot = boot, fq_reason = reason \<rparr>"

definition client_explain :: "ident \<Rightarrow> generation \<Rightarrow> arrival list \<Rightarrow> client \<Rightarrow> client \<times> explain_ack result option" where
  "client_explain i generation = call MT_Explain MT_ExplainAck
     encode_explain_request decode_explain_ack \<lparr> eq_request = i, eq_generation = generation \<rparr>"

definition shutdown_coordinator :: "bytes \<Rightarrow> arrival list \<Rightarrow> client \<Rightarrow> client \<times> shutdown_ack result option" where
  "shutdown_coordinator reason = call MT_Shutdown MT_ShutdownAck
     encode_shutdown_request decode_shutdown_ack \<lparr> dq_reason = reason \<rparr>"

end
