(* ===== verification/Broker_Laws.thy ===== *)
theory Broker_Laws
  imports Broker_Rounds
begin

text \<open>
  What every operation of the coordinator keeps.  \<open>coherent\<close> is the invariant of the tables: grants and
  requests stand under their own identities and grant identities are below the next one to be
  issued.  \<open>succeeds\<close> relates the grant of an identity to its later versions; \<open>advances\<close> bundles both
  with the monotonicity of epochs and fences into one preorder, along which every operation moves.
\<close>

section \<open>Frames\<close>

lemma persist_state:
  obtains st a where "fst (persist t p b) = b\<lparr>br_store := st, br_audit_sequence := a\<rparr>"
proof (cases "br_store b")
  case None
  then have "fst (persist t p b) = b\<lparr>br_store := None, br_audit_sequence := br_audit_sequence b + 1\<rparr>"
    by (simp add: persist_def)
  then show thesis by (rule that)
next
  case (Some st)
  show thesis
  proof (cases "id_make (br_audit_sequence b + 1)")
    case (Inl e)
    then show thesis by (intro that [of "br_audit_sequence b" "br_store b"]) (simp add: persist_def Some)
  next
    case (Inr seq)
    obtain st' r where a: "store_append t (record_header_of seq b) p st = (st', r)" by fastforce
    show thesis
      by (cases r) (simp_all add: that [of "br_audit_sequence b" "Some st'"] that [of seq "Some st'"] persist_def Some Inr a)
  qed
qed

lemma persist_fields [simp]:
  assumes "persist t p b = (b', r)"
  shows "br_grants b' = br_grants b" "br_requests b' = br_requests b" "br_next_grant_id b' = br_next_grant_id b"
    "br_fence_hashes b' = br_fence_hashes b" "br_epoch b' = br_epoch b" "br_fences b' = br_fences b"
    "br_capacities b' = br_capacities b" "br_policy b' = br_policy b" "br_accounting b' = br_accounting b"
    "br_tick b' = br_tick b" "br_idempotency b' = br_idempotency b" "br_content_hashes b' = br_content_hashes b"
    "br_obligations b' = br_obligations b" "br_config b' = br_config b" "br_wait_rounds b' = br_wait_rounds b"
    "br_incarnation b' = br_incarnation b" "br_retired_obligations b' = br_retired_obligations b"
  using assms by (cases rule: persist_state [of t p b]; simp)+

lemma persist_memory: "br_store b = None \<Longrightarrow> persist t p b = (b\<lparr>br_audit_sequence := br_audit_sequence b + 1\<rparr>, success)"
  by (simp add: persist_def)

lemma om_set_set [simp]: "om_set k v (om_set k w m) = om_set k v m"
  by (induction k w m rule: om_set.induct) auto

section \<open>The versions of a grant\<close>

definition succeeds :: "grant \<Rightarrow> grant \<Rightarrow> bool" where
  "succeeds g g' \<longleftrightarrow> gr_id g' = gr_id g \<and> gr_request g' = gr_request g \<and>
    gr_request_generation g' = gr_request_generation g \<and> gr_target g' = gr_target g \<and>
    gr_generation g \<le> gr_generation g' \<and> (is_terminal (gr_state g) \<longrightarrow> g' = g) \<and>
    (gr_generation g' = gr_generation g \<longrightarrow> gr_allocation g' = gr_allocation g \<and> gr_authority g' = gr_authority g \<and>
      (authorises_consumption (gr_state g') \<longrightarrow> authorises_consumption (gr_state g)))"

lemma succeeds_refl [simp]: "succeeds g g"
  by (simp add: succeeds_def)

lemma succeeds_trans: "succeeds g g' \<Longrightarrow> succeeds g' g'' \<Longrightarrow> succeeds g g''"
  unfolding succeeds_def by (metis order.antisym order.trans)

definition grants_evolve :: "(u64, grant) omap \<Rightarrow> (u64, grant) omap \<Rightarrow> bool" where
  "grants_evolve m m' \<longleftrightarrow> (\<forall>i g. om_find m i = Some g \<longrightarrow> (\<exists>g'. om_find m' i = Some g' \<and> succeeds g g'))"

lemma evolve_refl [simp]: "grants_evolve m m"
  by (simp add: grants_evolve_def)

lemma evolve_trans: "grants_evolve m m' \<Longrightarrow> grants_evolve m' m'' \<Longrightarrow> grants_evolve m m''"
  unfolding grants_evolve_def by (meson succeeds_trans)

lemma evolve_set:
  "(\<And>g. om_find m i = Some g \<Longrightarrow> succeeds g g') \<Longrightarrow> grants_evolve m (om_set i g' m)"
  by (auto simp: grants_evolve_def om_find_set)

lemma evolve_map: "(\<And>g. succeeds g (f g)) \<Longrightarrow> grants_evolve m (om_map_values f m)"
  by (auto simp: grants_evolve_def om_find_map_values)

lemma succeeds_demote: "succeeds g (demote p g)"
  by (auto simp: demote_def succeeds_def is_live_def is_terminal_def authorises_consumption_def)

lemma advance_succeeds:
  assumes "advance_generation g = Inr g'" and "\<not> is_terminal (gr_state g)"
  shows "succeeds g (g'\<lparr>gr_state := s, gr_reason := r\<rparr>)" and "succeeds g (g'\<lparr>gr_reason := r\<rparr>)"
    and "succeeds g (g'\<lparr>gr_reason := r, gr_state := s\<rparr>)"
  using assms by (auto simp: succeeds_def advance_generation_def dest: gen_next_less)

section \<open>The invariant of the tables\<close>

definition coherent :: "broker \<Rightarrow> bool" where
  "coherent b \<longleftrightarrow> om_ok (br_requests b) \<and>
    (\<forall>(k, r) \<in> set (br_requests b). k = request_key (rq_id r) (rq_generation r)) \<and>
    om_ok (br_grants b) \<and> (\<forall>(i, g) \<in> set (br_grants b). gr_id g = i \<and> i < br_next_grant_id b)"

definition advances :: "broker \<Rightarrow> broker \<Rightarrow> bool" where
  "advances b b' \<longleftrightarrow> (coherent b \<longrightarrow> coherent b' \<and> grants_evolve (br_grants b) (br_grants b') \<and>
    br_fence_hashes b \<subseteq> br_fence_hashes b' \<and> br_epoch b \<le> br_epoch b')"

interpretation advance: progress advances
proof
  show "advances s s" for s by (simp add: advances_def)
  show "advances s u" if "advances s t" "advances t u" for s t u
    using that by (auto simp: advances_def intro: evolve_trans)
qed

lemma advances_same:
  assumes "br_requests b' = br_requests b" "br_grants b' = br_grants b" "br_next_grant_id b' = br_next_grant_id b"
    "br_fence_hashes b' = br_fence_hashes b" "br_epoch b' = br_epoch b"
  shows "advances b b'"
  using assms by (simp add: advances_def coherent_def)

lemma persist_advances: "steps advances (persist t p)"
  unfolding steps_def by (metis advances_same persist_fields(1-5) surjective_pairing)

lemma advances_mod_same:
  assumes "\<And>b. br_requests (f b) = br_requests b" "\<And>b. br_grants (f b) = br_grants b"
    "\<And>b. br_next_grant_id (f b) = br_next_grant_id b" "\<And>b. br_fence_hashes (f b) = br_fence_hashes b"
    "\<And>b. br_epoch (f b) = br_epoch b"
  shows "steps advances (opmod f)"
  by (rule advance.mod, rule advances_same) (simp_all add: assms)

lemma coherent_erase: "coherent b \<Longrightarrow> coherent (b\<lparr>br_requests := om_erase k (br_requests b)\<rparr>)"
proof -
  have "set (om_erase k m) \<subseteq> set m" for m :: "(request_key, bandwidth_request) omap"
    by (induction k m rule: om_erase.induct) auto
  then show "coherent b \<Longrightarrow> coherent (b\<lparr>br_requests := om_erase k (br_requests b)\<rparr>)"
    by (fastforce simp: coherent_def om_ok_erase)
qed

lemma set_om_set: "set (om_set k v m) \<subseteq> insert (k, v) (set m)"
  by (induction k v m rule: om_set.induct) auto

lemma coherent_request:
  "coherent b \<Longrightarrow> coherent (b\<lparr>br_requests := om_set (request_key (rq_id r) (rq_generation r)) r (br_requests b)\<rparr>)"
  using set_om_set [of "request_key (rq_id r) (rq_generation r)" r "br_requests b"]
  by (fastforce simp: coherent_def om_ok_set)

lemma coherent_grant:
  assumes "coherent b" and "gr_id g = i" and "i < br_next_grant_id b"
  shows "coherent (b\<lparr>br_grants := om_set i g (br_grants b)\<rparr>)"
  using assms set_om_set [of i g "br_grants b"] by (fastforce simp: coherent_def om_ok_set)

lemma coherent_map_grants:
  "coherent b \<Longrightarrow> (\<And>g. gr_id (f g) = gr_id g) \<Longrightarrow> coherent (b\<lparr>br_grants := om_map_values f (br_grants b)\<rparr>)"
  using om_ok_map_values [of f "br_grants b"] by (auto simp: coherent_def om_map_values_def)

lemma coherent_find: "coherent b \<Longrightarrow> om_find (br_grants b) i = Some g \<Longrightarrow> gr_id g = i \<and> i < br_next_grant_id b"
  by (auto simp: coherent_def dest!: om_find_some)

lemma coherent_cong:
  "br_requests b' = br_requests b \<Longrightarrow> br_grants b' = br_grants b \<Longrightarrow> br_next_grant_id b' = br_next_grant_id b \<Longrightarrow>
    coherent b' = coherent b"
  by (simp add: coherent_def)

lemma demote_id [simp]: "gr_id (demote p g) = gr_id g"
  by (simp add: demote_def)

section \<open>Configuration and requests\<close>

lemma set_policy_advances: "steps advances (set_policy p)"
  unfolding set_policy_def Let_def
  by (intro advance.intros persist_advances advances_mod_same) simp_all

lemma publish_capacity_advances: "steps advances (publish_capacity s)"
  unfolding publish_capacity_def
proof (intro advance.intros persist_advances advance.mod)
  fix b :: broker
  let ?gs = "om_map_values (demote (\<lambda>g. gr_target g = cs_target s)) (br_grants b)"
  have "coherent b \<Longrightarrow> coherent (b\<lparr>br_grants := ?gs\<rparr>)" by (rule coherent_map_grants) simp_all
  then show "advances b (b\<lparr>br_capacities := om_set (cs_target s) s (br_capacities b), br_grants := ?gs,
      br_accounting := om_erase (cs_target s) (br_accounting b)\<rparr>)"
    by (simp add: advances_def evolve_map succeeds_demote coherent_def)
qed

lemma upsert_obligation_advances: "steps advances (upsert_obligation ob)"
  unfolding upsert_obligation_def
  by (intro advance.intros persist_advances advances_mod_same) simp_all

lemma retire_obligation_advances: "steps advances (retire_obligation i n)"
  unfolding retire_obligation_def
  by (intro advance.intros persist_advances advances_mod_same) simp_all

lemma submit_advances: "steps advances (submit r)"
  unfolding submit_def Let_def
proof (intro advance.intros persist_advances advance.mod)
  fix b h v w
  let ?key = "request_key (rq_id r) (rq_generation r)"
  show "advances b (b\<lparr>br_requests := om_set ?key r (br_requests b), br_content_hashes := om_set ?key h (br_content_hashes b),
      br_wait_rounds := om_set ?key v (br_wait_rounds b), br_idempotency := om_set ?key w (br_idempotency b)\<rparr>)"
    using coherent_request [of b r] by (simp add: advances_def coherent_def)
qed

lemma erase_request_advances:
  "steps advances (opmod (\<lambda>b. b\<lparr>br_requests := om_erase k (br_requests b), br_wait_rounds := om_erase k (br_wait_rounds b)\<rparr>))"
  using coherent_erase [of _ k] by (intro advance.mod) (simp add: advances_def coherent_def)

lemma retire_request_advances: "steps advances (retire_request i n)"
  unfolding retire_request_def Let_def
  by (intro advance.intros persist_advances erase_request_advances)

section \<open>The epoch\<close>

lemma next_epoch_less: "next_fabric_epoch e = Inr e' \<Longrightarrow> e < e'"
  using gen_next_less [of e e'] by (auto simp: next_fabric_epoch_def gen_next_def valid_id_def split: if_splits)

lemma advance_epoch_advances: "steps advances advance_epoch"
  unfolding advance_epoch_def
proof (rule advance.bind_get, intro advance.run_bind)
  fix b b1 b2 n x
  assume 1: "oplift (next_fabric_epoch (br_epoch b)) b = (b1, Inr n)"
    and 2: "persist RT_EpochAdvanced (write_id n) b1 = (b2, Inr x)"
  have less: "br_epoch b2 \<le> n" using 1 2 next_epoch_less [of "br_epoch b" n] by (auto simp: oplift_def)
  let ?gs = "om_map_values (demote (\<lambda>g. gr_state g \<noteq> GS_RevalidationRequired)) (br_grants b2)"
  have "coherent b2 \<Longrightarrow> coherent (b2\<lparr>br_grants := ?gs\<rparr>)" by (rule coherent_map_grants) simp_all
  with less show "advances b2 (fst (opmod (\<lambda>b. b\<lparr>br_epoch := n, br_tick := br_tick b + 1,
      br_grants := om_map_values (demote (\<lambda>g. gr_state g \<noteq> GS_RevalidationRequired)) (br_grants b),
      br_accounting := [], br_capacities := om_map_values stale_evidence (br_capacities b)\<rparr>) b2))"
    by (simp add: opmod_def advances_def evolve_map succeeds_demote coherent_def)
qed (rule advance.run, intro advance.intros persist_advances)+

section \<open>Withdrawing a grant\<close>

lemma withdraw_eval:
  assumes "om_find (br_grants b) i = Some g" and "advance_generation g = Inr g1"
    and "transition_to s (g1\<lparr>gr_reason := r\<rparr>) = Inr g2"
  shows "withdraw i t r s b = opbind (persist_grant t g2) (\<lambda>_. opret (g, g2)) (b\<lparr>br_grants := om_set i g2 (br_grants b)\<rparr>)"
  by (simp add: withdraw_def grant_ref_def put_grant_def op_eval Let_def assms(1,2))
    (simp only: assms(3) sum.case opret_def)

text \<open>A withdrawal changes the grant it names and nothing else of the tables.\<close>

lemma withdraw_state:
  assumes "om_find (br_grants b) i = Some g" and "\<not> is_terminal (gr_state g)"
  obtains (untouched) "fst (withdraw i t r s b) = b"
    | (changed) g' st a where "fst (withdraw i t r s b) = b\<lparr>br_grants := om_set i g' (br_grants b), br_store := st, br_audit_sequence := a\<rparr>"
      "succeeds g g'"
proof (cases "advance_generation g")
  case (Inl e)
  then show thesis using untouched assms(1) by (simp add: withdraw_def grant_ref_def op_eval)
next
  case (Inr g1)
  let ?m = "g1\<lparr>gr_reason := r\<rparr>"
  note adv = advance_succeeds [OF Inr assms(2)]
  show thesis
  proof (cases "transition_to s ?m")
    case (Inl e)
    then show thesis using Inr assms(1) adv(2) [of r]
      by (intro changed [of "br_audit_sequence b" "br_store b" ?m])
        (simp_all add: withdraw_def grant_ref_def op_eval put_grant_def Let_def)
  next
    case (Inr g2)
    have g2: "g2 = ?m\<lparr>gr_state := s\<rparr>" using Inr by (simp add: transition_to_def split: if_splits)
    let ?b = "b\<lparr>br_grants := om_set i g2 (br_grants b)\<rparr>"
    obtain st a where p: "fst (persist_grant t g2 ?b) = ?b\<lparr>br_store := st, br_audit_sequence := a\<rparr>"
      unfolding persist_grant_def by (rule persist_state)
    have "fst (withdraw i t r s b) = fst (persist_grant t g2 ?b)"
      by (simp add: withdraw_eval [OF assms(1) \<open>advance_generation g = Inr g1\<close> Inr] op_eval split: prod.splits sum.splits)
    with p adv(3) [where r = r and s = s] g2 show thesis by (intro changed [of a st g2]) simp_all
  qed
qed

lemma put_advances:
  assumes g: "om_find (br_grants b) i = Some g" and s: "succeeds g g'"
  shows "advances b (b\<lparr>br_grants := om_set i g' (br_grants b)\<rparr>)"
proof -
  have "coherent (b\<lparr>br_grants := om_set i g' (br_grants b)\<rparr>)" if c: "coherent b"
    using coherent_find [OF c g] s by (intro coherent_grant [OF c]) (simp_all add: succeeds_def)
  moreover have "grants_evolve (br_grants b) (om_set i g' (br_grants b))" using g s by (intro evolve_set) simp
  ultimately show ?thesis by (simp add: advances_def)
qed

lemma withdraw_advances:
  assumes "om_find (br_grants b) i = Some g" and "\<not> is_terminal (gr_state g)"
  shows "advances b (fst (withdraw i t r s b))"
proof (cases rule: withdraw_state [OF assms, of t r s])
  case (2 g' st a)
  from put_advances [OF assms(1) 2(2)] show ?thesis
    unfolding 2(1) by (rule advance.trans) (rule advances_same, simp_all)
qed (simp add: advance.refl)

lemma retire_accounting_advances: "steps advances (retire_accounting t g)"
  unfolding steps_def retire_accounting_def
  by (auto intro!: advances_same split: option.split prod.split)

lemma retire_accounting_frame [simp]:
  "br_grants (fst (retire_accounting t g b)) = br_grants b" "br_fence_hashes (fst (retire_accounting t g b)) = br_fence_hashes b"
  "br_requests (fst (retire_accounting t g b)) = br_requests b"
  by (simp_all add: retire_accounting_def split: option.split prod.split)

lemma withdraw_others:
  assumes "om_find (br_grants b) i = Some g" and "\<not> is_terminal (gr_state g)" and "j \<noteq> i"
  shows "om_find (br_grants (fst (withdraw i t r s b))) j = om_find (br_grants b) j"
  by (cases rule: withdraw_state [OF assms(1,2), of t r s]) (simp_all add: om_find_set assms(3))

text \<open>Withdrawing distinct grants one after the other.\<close>

definition withdrawable :: "broker \<Rightarrow> u64 \<Rightarrow> bool" where
  "withdrawable b i \<longleftrightarrow> (\<exists>g. om_find (br_grants b) i = Some g \<and> \<not> is_terminal (gr_state g))"

lemma withdraw_then:
  assumes "withdrawable b i" and "\<And>b1 x. withdraw i t r s b = (b1, Inr x) \<Longrightarrow>
      (\<And>j. j \<noteq> i \<Longrightarrow> withdrawable b j \<Longrightarrow> withdrawable b1 j) \<Longrightarrow> advances b1 (fst (k x b1))"
  shows "advances b (fst (opbind (withdraw i t r s) k b))"
proof (rule advance.run_bind)
  from assms(1) obtain g where g: "om_find (br_grants b) i = Some g" "\<not> is_terminal (gr_state g)"
    by (auto simp: withdrawable_def)
  show "advances b (fst (withdraw i t r s b))" by (rule withdraw_advances [OF g])
  fix b1 x assume w: "withdraw i t r s b = (b1, Inr x)"
  have "withdrawable b1 j" if "j \<noteq> i" "withdrawable b j" for j
    using withdraw_others [OF g that(1), of t r s] that(2) w by (simp add: withdrawable_def)
  with w show "advances b1 (fst (k x b1))" by (rule assms(2))
qed

lemma withdrawable_retire [simp]: "withdrawable (fst (retire_accounting t g b)) = withdrawable b"
  by (simp add: withdrawable_def fun_eq_iff)

lemma fence_grants_advance:
  "distinct keys \<Longrightarrow> \<forall>i \<in> set keys. withdrawable b i \<Longrightarrow> advances b (fst (opfor fence_grant keys b))"
proof (induction keys arbitrary: b)
  case (Cons i keys)
  show ?case
    unfolding opfor.simps fence_grant_def
  proof (rule advance.run_bind)
    show "advances b (fst (opbind (withdraw i RT_GrantRevoked OR_Fenced GS_Fenced) (\<lambda>(before, g). retire_accounting (gr_target g) before) b))"
      using Cons.prems by (intro withdraw_then) (auto intro: advance.run retire_accounting_advances)
  next
    fix b1 x
    assume *: "opbind (withdraw i RT_GrantRevoked OR_Fenced GS_Fenced) (\<lambda>(before, g). retire_accounting (gr_target g) before) b = (b1, Inr x)"
    obtain g where g: "om_find (br_grants b) i = Some g" "\<not> is_terminal (gr_state g)"
      using Cons.prems by (auto simp: withdrawable_def)
    have "om_find (br_grants b1) j = om_find (br_grants b) j" if "j \<in> set keys" for j
    proof -
      have "j \<noteq> i" using Cons.prems that by auto
      from withdraw_others [OF g this, of RT_GrantRevoked OR_Fenced GS_Fenced] * show ?thesis
        by (auto simp: opbind_success) (metis fst_conv retire_accounting_frame(1))
    qed
    with Cons.prems have "\<forall>j \<in> set keys. withdrawable b1 j" by (simp add: withdrawable_def)
    with Cons.prems(1) show "advances b1 (fst (opfor (\<lambda>key. opbind (withdraw key RT_GrantRevoked OR_Fenced GS_Fenced)
          (\<lambda>(before, g). retire_accounting (gr_target g) before)) keys b1))"
      using Cons.IH [of b1] by (simp add: fence_grant_def [abs_def])
  qed
qed (simp add: opret_def advance.refl)

lemma fenced_keys_withdrawable:
  assumes "coherent b"
  shows "distinct (fenced_keys boot b)" and "\<forall>i \<in> set (fenced_keys boot b). withdrawable b i"
proof -
  have ok: "om_ok (br_grants b)" using assms by (simp add: coherent_def)
  then have "distinct (map fst (br_grants b))" by (simp add: om_ok_def strict_sorted_iff)
  then show "distinct (fenced_keys boot b)" unfolding fenced_keys_def by (rule distinct_map_filter)
  show "\<forall>i \<in> set (fenced_keys boot b). withdrawable b i"
    using om_find_mem [OF ok]
    by (auto simp: fenced_keys_def withdrawable_def is_live_def is_terminal_def)
qed

lemma advancesI: "(coherent b \<Longrightarrow> advances b b') \<Longrightarrow> advances b b'"
  by (simp add: advances_def)

lemma fence_all_advances: "steps advances (opbind (opget (fenced_keys boot)) (opfor fence_grant))"
proof (rule advance.bind_get, rule advancesI)
  fix b assume "coherent b"
  from fence_grants_advance [OF fenced_keys_withdrawable [OF this]]
  show "advances b (fst (opfor fence_grant (fenced_keys boot b) b))" .
qed

lemma fence_publisher_advances: "steps advances (fence_publisher p boot reason)"
proof -
  have add: "steps advances (opmod (\<lambda>b. b\<lparr>br_fence_hashes := insert (boot_hash boot) (br_fence_hashes b), br_fences := br_fences b @ [f]\<rparr>))" for f
    by (rule advance.mod) (auto simp: advances_def coherent_def)
  show ?thesis
    unfolding fence_publisher_def Let_def by (rule fence_all_advances add advance.intros persist_advances)+
qed

section \<open>Operations on one grant\<close>

lemma current_grantD:
  "current_grant i n b = (b', Inr g) \<Longrightarrow> b' = b \<and> om_find (br_grants b) i = Some g \<and> gr_generation g = n"
  by (auto simp: current_grant_def op_eval split: option.splits if_splits)

lemma current_grant_advances: "steps advances (current_grant i n)"
  unfolding current_grant_def by (intro advance.intros)

lemma on_current:
  assumes "\<And>b g. om_find (br_grants b) i = Some g \<Longrightarrow> advances b (fst (k g b))"
  shows "steps advances (opbind (current_grant i n) k)"
  unfolding steps_def
proof (intro allI advance.run_bind)
  show "advances b (fst (current_grant i n b))" for b by (rule advance.run [OF current_grant_advances])
  fix b b1 g assume "current_grant i n b = (b1, Inr g)"
  from current_grantD [OF this] assms show "advances b1 (fst (k g b1))" by blast
qed

lemma advance_if: "(c \<Longrightarrow> advances b (fst (m b))) \<Longrightarrow> (\<not> c \<Longrightarrow> advances b (fst (m' b))) \<Longrightarrow>
    advances b (fst ((if c then m else m') b))"
  by simp

lemma advance_reads: "advances b (fst (k (f b) b)) \<Longrightarrow> advances b (fst (opbind (opget f) k b))"
  by (simp add: op_eval)

lemma withdraw_current:
  assumes "om_find (br_grants b) i = Some g" and "\<not> is_terminal (gr_state g)" and "\<And>x. steps advances (k x)"
  shows "advances b (fst (opbind (withdraw i t r s) k b))"
  using assms(1,2) by (intro withdraw_then advance.run [OF assms(3)]) (auto simp: withdrawable_def)

lemma release_advances: "steps advances (release i n)"
  unfolding release_def Let_def
  by (intro on_current advance_reads advance_if withdraw_current advance.run [OF advance.ret] advance.run [OF advance.lift])
    (auto intro!: advance.intros retire_accounting_advances erase_request_advances persist_advances)

lemma revoke_advances: "steps advances (revoke i n reason detail)"
  unfolding revoke_def Let_def
  by (rule advance.bind [OF advance.lift], intro on_current advance_if withdraw_current advance.run [OF advance.ret])
    (auto intro!: advance.intros retire_accounting_advances)

lemma advance_opt: "(x = None \<Longrightarrow> advances b (fst (m b))) \<Longrightarrow> (\<And>y. x = Some y \<Longrightarrow> advances b (fst (k y b))) \<Longrightarrow>
    advances b (fst ((case x of None \<Rightarrow> m | Some y \<Rightarrow> k y) b))"
  by (cases x) simp_all

lemma revalidated_succeeds:
  "advance_generation g = Inr g1 \<Longrightarrow> \<not> is_terminal (gr_state g) \<Longrightarrow> succeeds g (revalidated tick a g1)"
  by (auto simp: succeeds_def revalidated_def advance_generation_def dest: gen_next_less)

lemma revalidate_advances: "steps advances (revalidate i n)"
  unfolding revalidate_def Let_def id_def
proof (intro on_current advance_reads advance_if advance_opt advance.run [OF advance.lift])
  fix b :: broker and g
  assume g: "om_find (br_grants b) i = Some g" and "\<not> gr_state g \<noteq> GS_RevalidationRequired"
  then have live: "\<not> is_terminal (gr_state g)" by (simp add: is_terminal_def)
  show "advances b (fst (opbind (withdraw i RT_GrantRevoked OR_Stale GS_Stale)
      (\<lambda>(before, g'). opbind (retire_accounting (gr_target g') before) (\<lambda>_. oplift (fail EC_RevalidationRequired))) b))"
    by (rule withdraw_current [OF g live]) (intro advance.intros retire_accounting_advances)
  show "advances b (fst (opbind (oplift (advance_generation g)) (\<lambda>g1.
      opbind (put_grant i (revalidated tick a g1)) (\<lambda>_. opbind (persist_grant RT_GrantRevalidated (revalidated tick a g1)) (\<lambda>_.
        opret (view (revalidated tick a g1))))) b))" for tick a and view :: "grant \<Rightarrow> grant_view"
  proof (rule advance.run_bind)
    fix b1 g1 assume "oplift (advance_generation g) b = (b1, Inr g1)"
    then have b1: "b1 = b" and s: "succeeds g (revalidated tick a g1)"
      using revalidated_succeeds [OF _ live] by (auto simp: oplift_def)
    show "advances b1 (fst (opbind (put_grant i (revalidated tick a g1)) (\<lambda>_. opbind (persist_grant RT_GrantRevalidated
        (revalidated tick a g1)) (\<lambda>_. opret (view (revalidated tick a g1)))) b1))"
    proof (rule advance.run_bind)
      show "advances b1 (fst (put_grant i (revalidated tick a g1) b1))"
        using put_advances [OF g s] by (simp add: b1 put_grant_def opmod_def)
      show "advances b2 (fst (opbind (persist_grant RT_GrantRevalidated (revalidated tick a g1)) (\<lambda>_. opret (view (revalidated tick a g1))) b2))" for b2
        unfolding persist_grant_def by (rule advance.run) (intro advance.intros persist_advances)
    qed
  qed (simp add: oplift_def advance.refl)
qed

end
