(* ===== verification/Broker_Round_Laws.thy ===== *)
theory Broker_Round_Laws
  imports Broker_Laws Arbitrator_Decisions
begin

text \<open>
  Rounds keep the invariant of the tables.  Each grant a round decides either continues the live
  grant of its candidate or takes the next unused identity, so that the decisions of a round
  touch distinct grants and never an ended one.
\<close>

section \<open>Where the grant of a decision comes from\<close>

lemma terminate_succeeds:
  "\<not> is_terminal (gr_state h) \<Longrightarrow>
    ensures (terminate_grant input item h d nr) (\<lambda>(d', _). \<exists>g. ad_grant d' = Some g \<and> succeeds h g)"
  by (auto simp: terminate_grant_def Let_def ensures_simps transition_to_def
      intro!: ensuresI advance_succeeds split: if_splits)

lemma update_succeeds:
  "\<not> is_terminal (gr_state p) \<Longrightarrow>
    ensures (update_grant input item p d w nr) (\<lambda>(d', _). \<exists>g. ad_grant d' = Some g \<and> succeeds p g)"
  by (auto simp: update_grant_def Let_def ensures_simps fund_grant_def stamp_grant_def advance_generation_def succeeds_def
      intro!: ensuresI dest: gen_next_less)

lemma new_grant_id:
  "ensures (new_grant input item d w n) (\<lambda>(d', m). m = n + 1 \<and> n < n + 1 \<and> (\<exists>g. ad_grant d' = Some g \<and> gr_id g = n))"
proof (rule ensuresI)
  fix x assume x: "new_grant input item d w n = Inr x"
  then have "n \<noteq> kMaxValue" "n \<noteq> 0" by (auto simp: new_grant_def Let_def kMaxValue_def id_make_def valid_id_def split: if_splits)
  then have "n < n + 1" using gen_next_less [of n "n + 1"] by (simp add: gen_next_def)
  with ensuresD [OF new_grant_fate x] show "case x of (d', m) \<Rightarrow> m = n + 1 \<and> n < n + 1 \<and> (\<exists>g. ad_grant d' = Some g \<and> gr_id g = n)"
    by auto
qed

lemma stamp_succeeds: "\<not> is_terminal (gr_state g) \<Longrightarrow> succeeds g (stamp_grant input request d w g)"
  by (simp add: succeeds_def stamp_grant_def)

lemma live_not_terminal: "is_live s \<Longrightarrow> \<not> is_terminal s"
  by (auto simp: is_live_def is_terminal_def)

definition grant_from :: "u64 \<Rightarrow> arbitration_candidate \<Rightarrow> arbitration_decision \<Rightarrow> u64 \<Rightarrow> bool" where
  "grant_from n c d m \<longleftrightarrow> (case ad_grant d of
      None \<Rightarrow> m = n
    | Some g \<Rightarrow> (case live_grant c of
        Some p \<Rightarrow> m = n \<and> succeeds p g
      | None \<Rightarrow> gr_id g = n \<and> m = n + 1 \<and> n < n + 1))"

lemma materialise_from:
  assumes "materialise input item c d n nr = Inr (d', m, nr')" and "ad_grant d = None"
  shows "grant_from n c d' m"
  using assms(1)
proof (cases rule: materialise_cases)
  case (closed g)
  then have "\<not> is_terminal (gr_state g)" by (simp add: live_grant_Some live_not_terminal)
  from ensuresD [OF terminate_succeeds [OF this] closed(3)] closed show ?thesis by (auto simp: grant_from_def)
next
  case (renewed g)
  then have "\<not> is_terminal (gr_state g)" by (simp add: live_grant_Some live_not_terminal)
  from stamp_succeeds [OF this] renewed show ?thesis by (simp add: grant_from_def)
next
  case (changed g)
  then have "\<not> is_terminal (gr_state g)" by (simp add: live_grant_Some live_not_terminal)
  from ensuresD [OF update_succeeds [OF this] changed(4)] changed show ?thesis by (auto simp: grant_from_def)
next
  case fresh
  from ensuresD [OF new_grant_id fresh(4)] fresh show ?thesis by (auto simp: grant_from_def)
next
  case none
  with assms(2) show ?thesis by (simp add: grant_from_def)
qed

text \<open>The decisions of a round against its candidates, with the identities they take in turn.\<close>

fun grants_from :: "u64 \<Rightarrow> arbitration_candidate list \<Rightarrow> arbitration_decision list \<Rightarrow> u64 \<Rightarrow> bool" where
  "grants_from n [] [] m \<longleftrightarrow> n = m"
| "grants_from n (c # cs) (d # ds) m \<longleftrightarrow> (\<exists>k. grant_from n c d k \<and> grants_from k cs ds m)"
| "grants_from n _ _ m \<longleftrightarrow> False"

lemma make_decisions_from:
  assumes "fold_res (make_decision input pools st) items (ds, n, nr) = Inr (ds', m, nr')"
  shows "\<exists>ds1. ds' = ds @ ds1 \<and> grants_from n (map (\<lambda>w. ai_candidates input ! wi_candidate_index w) items) ds1 m"
  using assms
proof (induction items arbitrary: ds n nr)
  case (Cons item items)
  let ?c = "ai_candidates input ! wi_candidate_index item"
  from Cons.prems obtain d1 d2 k nr1 d where cl: "classify_item input pools st item (cn_wait_rounds ?c) = Inr d1"
    and m: "materialise input item ?c d1 n nr = Inr (d2, k, nr1)" and ch: "check_decision d2 = Inr d"
    and rest: "fold_res (make_decision input pools st) items (ds @ [d], k, nr1) = Inr (ds', m, nr')"
    unfolding make_decision_def Let_def
    by (auto simp only: fold_res.simps bindr_eq_Inr prod.case split_paired_Ex Inr_inject prod.inject)
  have "grant_from n ?c d2 k" using materialise_from [OF m] classify_allocation [OF cl] by simp
  then have "grant_from n ?c d k" using check_decision_same [OF ch] by (simp add: grant_from_def)
  with Cons.IH [OF rest] show ?case by auto
qed simp

lemma arbitrate_from:
  assumes "arbitrate input = Inr out"
  obtains ds where "grants_from (ai_next_grant_id input) (ai_candidates input) ds (ao_next_grant_id out)"
    "ao_decisions out = sort_by decision_before ds"
  using assms
proof (cases rule: arbitrate_parts)
  case (1 q physical pools run st b c ds ng nr)
  have fr: "list_all2 item_frame (rs_items run) (rs_items (st_run st))"
    using arb_allocate_inv [OF 1(1) 1(4) 1(5) 1(6)] by (simp add: allocated_inv_def items_inv_def)
  have "map wi_candidate_index (rs_items (st_run st)) = map wi_candidate_index (rs_items run)"
    by (rule list_all2_map_eq2 [OF fr]) (simp add: item_frame_def)
  also have "\<dots> = map fst (map (\<lambda>w. (wi_candidate_index w, wi_request w)) (rs_items run))" by simp
  also have "\<dots> = map fst (zip [0..<length (ai_candidates input)] (ai_candidates input))"
    unfolding prepared_requests [OF 1(5)] by (simp only: map_map comp_def split_beta prod.sel)
  finally have idx: "map wi_candidate_index (rs_items (st_run st)) = [0..<length (ai_candidates input)]" by simp
  have "map (\<lambda>w. ai_candidates input ! wi_candidate_index w) (rs_items (st_run st)) =
      map ((!) (ai_candidates input)) (map wi_candidate_index (rs_items (st_run st)))" by simp
  also have "\<dots> = ai_candidates input" unfolding idx by (rule map_nth)
  finally show thesis using make_decisions_from [OF 1(9)] 1(11,12) by (intro that [of ds]) simp_all
qed

definition decided :: "arbitration_decision list \<Rightarrow> grant list" where
  "decided ds = List.map_filter ad_grant ds"

definition continued :: "arbitration_candidate list \<Rightarrow> grant list" where
  "continued cs = List.map_filter live_grant cs"

lemma decided_simps [simp]:
  "decided [] = []" "decided (d # ds) = (case ad_grant d of None \<Rightarrow> decided ds | Some g \<Rightarrow> g # decided ds)"
  by (simp_all add: decided_def map_filter_simps split: option.split)

lemma continued_simps [simp]:
  "continued [] = []" "continued (c # cs) = (case live_grant c of None \<Rightarrow> continued cs | Some g \<Rightarrow> g # continued cs)"
  by (simp_all add: continued_def map_filter_simps split: option.split)

lemma grant_from_cases:
  assumes "grant_from n c d m"
  obtains (none) "ad_grant d = None" "m = n"
    | (continues) g p where "ad_grant d = Some g" "live_grant c = Some p" "m = n" "succeeds p g"
    | (issues) g where "ad_grant d = Some g" "live_grant c = None" "gr_id g = n" "m = n + 1" "n < m"
  using assms by (auto simp: grant_from_def split: option.splits)

lemma grants_from_le: "grants_from n cs ds m \<Longrightarrow> n \<le> m"
proof (induction n cs ds m rule: grants_from.induct)
  case (2 n c cs d ds m)
  then obtain k where k: "grant_from n c d k" "k \<le> m" by auto
  from k(1) show ?case using k(2) by (cases rule: grant_from_cases) auto
qed auto

lemma grants_from_origin:
  "grants_from n cs ds m \<Longrightarrow> g \<in> set (decided ds) \<Longrightarrow>
    (\<exists>p \<in> set (continued cs). succeeds p g) \<or> n \<le> gr_id g \<and> gr_id g < m"
proof (induction n cs ds m rule: grants_from.induct)
  case (2 n c cs d ds m)
  then obtain k where k: "grant_from n c d k" "grants_from k cs ds m" by auto
  note IH = "2.IH" [OF k(2)] and le = grants_from_le [OF k(2)]
  from k(1) show ?case
    by (cases rule: grant_from_cases) (use IH le "2.prems"(2) in \<open>auto split: option.splits\<close>)
qed auto

lemma succeeds_id: "succeeds p g \<Longrightarrow> gr_id g = gr_id p"
  by (simp add: succeeds_def)

lemma grants_from_distinct:
  assumes "grants_from n cs ds m" and "\<forall>p \<in> set (continued cs). gr_id p < n" and "distinct (map gr_id (continued cs))"
  shows "distinct (map gr_id (decided ds))"
  using assms
proof (induction n cs ds m rule: grants_from.induct)
  case (2 n c cs d ds m)
  then obtain k where k: "grant_from n c d k" "grants_from k cs ds m" by auto
  have sub: "\<forall>p \<in> set (continued cs). gr_id p < n" "distinct (map gr_id (continued cs))"
    using "2.prems"(2,3) by (auto split: option.splits)
  have nk: "n \<le> k" using k(1) by (cases rule: grant_from_cases) auto
  have dist: "distinct (map gr_id (decided ds))"
    using "2.IH" [OF k(2)] sub nk by fastforce
  from k(1) show ?case
  proof (cases rule: grant_from_cases)
    case (continues g p)
    have p: "gr_id p \<notin> gr_id ` set (continued cs)" "gr_id p < k" using "2.prems"(2,3) continues(2,3) by auto
    have "gr_id h \<noteq> gr_id p" if "h \<in> set (decided ds)" for h
      using grants_from_origin [OF k(2) that] p succeeds_id by (metis imageI linorder_not_less)
    then have "gr_id g \<notin> gr_id ` set (decided ds)" unfolding succeeds_id [OF continues(4)] by (metis imageE)
    with dist continues(1) show ?thesis by simp
  next
    case (issues g)
    have "gr_id h \<noteq> n" if "h \<in> set (decided ds)" for h
      using grants_from_origin [OF k(2) that] sub(1) issues(5) succeeds_id by (metis linorder_not_less order.strict_iff_not)
    then have "gr_id g \<notin> gr_id ` set (decided ds)" unfolding issues(3) by (metis imageE)
    with dist issues(1) show ?thesis by simp
  qed (use dist in simp)
qed auto

section \<open>The candidates of a round\<close>

lemma find_member: "find P xs = Some x \<Longrightarrow> x \<in> set xs \<and> P x"
  by (induction xs) (auto split: if_splits)

lemma candidate_live:
  assumes "coherent b" and "live_grant (candidate_of b (k, r)) = Some p"
  shows "om_find (br_grants b) (gr_id p) = Some p \<and> gr_id p < br_next_grant_id b \<and>
    gr_request p = rq_id r \<and> gr_request_generation p = rq_generation r"
proof -
  from assms(2) have f: "find (\<lambda>g. gr_request g = rq_id r \<and> gr_request_generation g = rq_generation r \<and> is_live (gr_state g))
      (map snd (br_grants b)) = Some p"
    by (simp add: live_grant_Some candidate_of_def)
  note found = find_member [OF f]
  then obtain i where "(i, p) \<in> set (br_grants b)" by auto
  moreover have "gr_request p = rq_id r \<and> gr_request_generation p = rq_generation r" using found by simp
  ultimately show ?thesis using assms(1) by (auto simp: coherent_def om_find_mem)
qed

lemma candidates_distinct:
  assumes "coherent b" and "distinct (map fst l)" and "\<forall>(k, r) \<in> set l. k = request_key (rq_id r) (rq_generation r)"
  shows "distinct (map gr_id (continued (map (candidate_of b) l)))"
  using assms(2,3)
proof (induction l)
  case (Cons e l)
  obtain k r where e: "e = (k, r)" by fastforce
  have apart: "gr_id p \<noteq> gr_id p'" if p: "live_grant (candidate_of b e) = Some p" and p': "p' \<in> set (continued (map (candidate_of b) l))" for p p'
  proof
    assume same: "gr_id p = gr_id p'"
    from p' obtain k' r' where l: "(k', r') \<in> set l" "live_grant (candidate_of b (k', r')) = Some p'"
      by (auto simp: continued_def map_filter_def)
    note 1 = candidate_live [OF assms(1) p [unfolded e]] and 2 = candidate_live [OF assms(1) l(2)]
    have "p = p'" using 1 2 same by (metis option.inject)
    then have "rq_id r = rq_id r'" "rq_generation r = rq_generation r'" using 1 2 by metis+
    with Cons.prems(2) l(1) have "k = k'" by (auto simp: e)
    with Cons.prems(1) l(1) show False by (force simp: e)
  qed
  have "gr_id p \<notin> gr_id ` set (continued (map (candidate_of b) l))" if "live_grant (candidate_of b e) = Some p" for p
    using apart [OF that] by (metis imageE)
  moreover have "distinct (map gr_id (continued (map (candidate_of b) l)))"
    using Cons.prems by (intro Cons.IH) simp_all
  ultimately show ?case by (cases "live_grant (candidate_of b e)") simp_all
qed simp

section \<open>Applying the decisions\<close>

abbreviation with_next :: "u64 \<Rightarrow> broker \<Rightarrow> broker" where
  "with_next n b \<equiv> b\<lparr>br_next_grant_id := n\<rparr>"

definition keeps_tables :: "broker \<Rightarrow> broker \<Rightarrow> bool" where
  "keeps_tables b b' \<longleftrightarrow> br_grants b' = br_grants b \<and> br_requests b' = br_requests b \<and>
    br_next_grant_id b' = br_next_grant_id b \<and> br_fence_hashes b' = br_fence_hashes b \<and> br_epoch b' = br_epoch b"

interpretation tables: progress keeps_tables
  by unfold_locales (simp_all add: keeps_tables_def)

lemma persist_tables: "steps keeps_tables (persist t p)"
  unfolding steps_def keeps_tables_def by (metis persist_fields(1-5) surjective_pairing)

definition decided_tables :: "arbitration_decision \<Rightarrow> broker \<Rightarrow> broker" where
  "decided_tables d b = b\<lparr>br_grants := (case ad_grant d of None \<Rightarrow> br_grants b
     | Some g \<Rightarrow> om_set (gr_id g) g (br_grants b))\<rparr>"

lemma apply_decision_frame: "keeps_tables (decided_tables d b) (fst (apply_decision input acc d b))"
proof -
  have rest: "steps keeps_tables (opbind (opmod (\<lambda>b. b\<lparr>br_wait_rounds := f (br_wait_rounds b)\<rparr>)) (\<lambda>_.
      opbind (opget (\<lambda>b. om_find (br_requests b) key)) (\<lambda>request. case request of None \<Rightarrow> opret ()
      | Some r \<Rightarrow> opbind (oplift (explanation_validate (x r))) (\<lambda>_.
          opmod (\<lambda>b. b\<lparr>br_explanations := om_set key (x r) (br_explanations b)\<rparr>)))))" for f key x
    by (intro tables.intros tables.mod) (simp_all add: keeps_tables_def)
  show ?thesis
  proof (cases "ad_grant d")
    case None
    have "decided_tables d b = b" by (simp add: decided_tables_def None)
    then show ?thesis using tables.run [OF rest]
      by (simp add: apply_decision_def Let_def store_decided_grant_def None opbind_eval opret_def)
  next
    case (Some g)
    have "apply_decision input acc d b = opbind (persist_grant (grant_record_type (om_find (br_grants b) (gr_id g) \<noteq> None) (gr_state g)) g)
        (\<lambda>_. opbind (opmod (\<lambda>b. b\<lparr>br_wait_rounds := om_set (request_key (ad_request d) (ad_request_generation d)) (ad_next_wait_rounds d) (br_wait_rounds b)\<rparr>)) (\<lambda>_.
          opbind (opget (\<lambda>b. om_find (br_requests b) (request_key (ad_request d) (ad_request_generation d)))) (\<lambda>request. case request of None \<Rightarrow> opret ()
          | Some r \<Rightarrow> opbind (oplift (explanation_validate (build_explanation d input acc r))) (\<lambda>_.
            opmod (\<lambda>b. b\<lparr>br_explanations := om_set (request_key (ad_request d) (ad_request_generation d)) (build_explanation d input acc r) (br_explanations b)\<rparr>)))))
        (decided_tables d b)"
      by (simp add: apply_decision_def Let_def store_decided_grant_def Some op_eval put_grant_def decided_tables_def)
    then show ?thesis unfolding persist_grant_def
      by (simp only:) (rule tables.run, intro tables.bind [OF persist_tables] rest)
  qed
qed

lemma apply_decisions_advance:
  assumes "distinct (map gr_id (decided ds))"
    and "\<forall>g \<in> set (decided ds). gr_id g < n \<and> (\<forall>p. om_find (br_grants b) (gr_id g) = Some p \<longrightarrow> succeeds p g)"
  shows "advances (with_next n b) (with_next n (fst (opfor (apply_decision input acc) ds b))) \<and>
    br_next_grant_id (fst (opfor (apply_decision input acc) ds b)) = br_next_grant_id b"
  using assms
proof (induction ds arbitrary: b)
  case (Cons d ds)
  let ?b = "fst (apply_decision input acc d b)"
  note frame = apply_decision_frame [of d b input acc, unfolded keeps_tables_def decided_tables_def, simplified]
  have one: "advances (with_next n b) (with_next n ?b)"
  proof (cases "ad_grant d")
    case None
    then show ?thesis using frame by (intro advances_same) simp_all
  next
    case (Some g)
    then have g: "gr_id g < n" "\<And>p. om_find (br_grants b) (gr_id g) = Some p \<Longrightarrow> succeeds p g" using Cons.prems(2) by auto
    have "advances (with_next n b) ((with_next n b)\<lparr>br_grants := om_set (gr_id g) g (br_grants b)\<rparr>)"
      using coherent_grant [of "with_next n b" g "gr_id g"] g by (simp add: advances_def evolve_set)
    then show ?thesis by (rule advance.trans) (rule advances_same, use frame Some in simp_all)
  qed
  have same: "om_find (br_grants ?b) (gr_id g) = om_find (br_grants b) (gr_id g)" if "g \<in> set (decided ds)" for g
  proof (cases "ad_grant d")
    case (Some h)
    then have "gr_id h \<notin> gr_id ` set (decided ds)" using Cons.prems(1) by simp
    then have "gr_id g \<noteq> gr_id h" using that by (metis imageI)
    then show ?thesis using frame by (simp add: Some om_find_set)
  qed (use frame in simp)
  have d: "distinct (map gr_id (decided ds))" using Cons.prems(1) by (cases "ad_grant d") simp_all
  have "\<forall>g \<in> set (decided ds). gr_id g < n \<and> (\<forall>p. om_find (br_grants b) (gr_id g) = Some p \<longrightarrow> succeeds p g)"
    using Cons.prems(2) by (cases "ad_grant d") simp_all
  then have "\<forall>g \<in> set (decided ds). gr_id g < n \<and> (\<forall>p. om_find (br_grants ?b) (gr_id g) = Some p \<longrightarrow> succeeds p g)"
    by (simp add: same)
  note IH = Cons.IH [OF d this]
  obtain r where r: "apply_decision input acc d b = (?b, r)" by (metis prod.collapse)
  have next_id: "br_next_grant_id ?b = br_next_grant_id b" using frame by simp
  show ?case
  proof (cases r)
    case (Inl e)
    have "opfor (apply_decision input acc) (d # ds) b = (?b, Inl e)"
      unfolding opfor.simps by (rule opbind_fail) (rule r [unfolded Inl])
    then show ?thesis using one next_id by (simp del: opfor.simps)
  next
    case (Inr u)
    have "opfor (apply_decision input acc) (d # ds) b = opfor (apply_decision input acc) ds ?b"
      unfolding opfor.simps by (rule opbind_eval) (rule r [unfolded Inr])
    then show ?thesis using advance.trans [OF one] IH next_id by (simp del: opfor.simps)
  qed
qed (simp add: opret_def advance.refl)

section \<open>The round\<close>

lemma decided_perm: "mset ds = mset ds' \<Longrightarrow> mset (decided ds) = mset (decided ds')"
proof -
  assume *: "mset ds = mset ds'"
  have "mset (decided xs) = image_mset (the \<circ> ad_grant) (filter_mset (\<lambda>d. ad_grant d \<noteq> None) (mset xs))" for xs
    by (simp add: decided_def map_filter_def)
  with * show "mset (decided ds) = mset (decided ds')" by simp
qed

lemma sort_by_mset: "mset (sort_by f xs) = mset xs"
  by simp

text \<open>The decisions of a round over the coordinator's state touch distinct grants, each continuing the
  installed grant of its identity or taking an unused identity.\<close>

lemma round_decides:
  assumes c: "coherent b" and a: "arbitrate (round_input target s p decision b) = Inr out"
  shows "distinct (map gr_id (decided (ao_decisions out)))" and "br_next_grant_id b \<le> ao_next_grant_id out"
    and "\<forall>g \<in> set (decided (ao_decisions out)). gr_id g < ao_next_grant_id out \<and>
      (\<forall>q. om_find (br_grants b) (gr_id g) = Some q \<longrightarrow> succeeds q g)"
proof -
  let ?l = "filter (\<lambda>(_, r). rq_target r = target) (br_requests b)"
  let ?cs = "map (candidate_of b) ?l"
  obtain ds where ds: "grants_from (br_next_grant_id b) ?cs ds (ao_next_grant_id out)" "ao_decisions out = sort_by decision_before ds"
    by (rule arbitrate_from [OF a]) (simp add: round_input_def)
  have m: "mset (decided (ao_decisions out)) = mset (decided ds)" unfolding ds(2) by (rule decided_perm) (rule sort_by_mset)
  have old: "om_find (br_grants b) (gr_id q) = Some q \<and> gr_id q < br_next_grant_id b" if "q \<in> set (continued ?cs)" for q
  proof -
    from that obtain k r where "live_grant (candidate_of b (k, r)) = Some q" by (auto simp: continued_def map_filter_def)
    from candidate_live [OF c this] show ?thesis by simp
  qed
  have "distinct (map fst (br_requests b))" using c by (simp add: coherent_def om_ok_def strict_sorted_iff)
  then have "distinct (map fst ?l)" by (rule distinct_map_filter)
  then have "distinct (map gr_id (continued ?cs))" using c by (intro candidates_distinct) (auto simp: coherent_def)
  with old have "distinct (map gr_id (decided ds))" by (intro grants_from_distinct [OF ds(1)]) auto
  then show "distinct (map gr_id (decided (ao_decisions out)))" using m by (metis mset_eq_imp_distinct_iff mset_map)
  show le: "br_next_grant_id b \<le> ao_next_grant_id out" by (rule grants_from_le [OF ds(1)])
  show "\<forall>g \<in> set (decided (ao_decisions out)). gr_id g < ao_next_grant_id out \<and>
      (\<forall>q. om_find (br_grants b) (gr_id g) = Some q \<longrightarrow> succeeds q g)"
  proof
    fix g assume "g \<in> set (decided (ao_decisions out))"
    then have "g \<in> set (decided ds)" using m by (metis set_mset_mset)
    from grants_from_origin [OF ds(1) this]
    show "gr_id g < ao_next_grant_id out \<and> (\<forall>q. om_find (br_grants b) (gr_id g) = Some q \<longrightarrow> succeeds q g)"
    proof
      assume "\<exists>q \<in> set (continued ?cs). succeeds q g"
      then obtain q where q: "q \<in> set (continued ?cs)" "succeeds q g" by blast
      from old [OF q(1)] q(2) le show ?thesis by (auto simp: succeeds_id)
    next
      assume new: "br_next_grant_id b \<le> gr_id g \<and> gr_id g < ao_next_grant_id out"
      then have "om_find (br_grants b) (gr_id g) = None" using coherent_find [OF c] by (metis linorder_not_less not_None_eq)
      with new show ?thesis by simp
    qed
  qed
qed

lemma maybe_compact_advances: "steps advances maybe_compact"
  unfolding steps_def maybe_compact_def Let_def
  by (auto intro!: advances_same split: option.split prod.split sum.split)

lemma compact_advances: "steps advances compact_if_needed"
  unfolding compact_if_needed_def by (intro advance.intros maybe_compact_advances)

definition evolves :: "broker \<Rightarrow> broker \<Rightarrow> bool" where
  "evolves b b' \<longleftrightarrow> grants_evolve (br_grants b) (br_grants b') \<and> br_fence_hashes b \<subseteq> br_fence_hashes b' \<and> br_epoch b \<le> br_epoch b'"

lemma advances_evolves: "advances b b' \<longleftrightarrow> (coherent b \<longrightarrow> coherent b' \<and> evolves b b')"
  by (auto simp: advances_def evolves_def)

lemma coherent_with_next: "coherent b \<Longrightarrow> br_next_grant_id b \<le> n \<Longrightarrow> coherent (with_next n b)"
  by (auto simp: coherent_def)

lemma commit_coherent:
  assumes "coherent (with_next (ao_next_grant_id out) b)" and "br_next_grant_id b \<le> ao_next_grant_id out"
  shows "coherent (fst (commit_round target out b)) \<and> br_grants (fst (commit_round target out b)) = br_grants b \<and>
    br_fence_hashes (fst (commit_round target out b)) = br_fence_hashes b \<and> br_epoch (fst (commit_round target out b)) = br_epoch b"
proof -
  let ?f = "\<lambda>b. b\<lparr>br_next_grant_id := max (br_next_grant_id b) (ao_next_grant_id out),
      br_next_recall_id := max (br_next_recall_id b) (ao_next_recall_id out),
      br_next_decision_id := br_next_decision_id b + 1,
      br_accounting := om_set target (ao_accounting out) (br_accounting b),
      br_last_decision := om_set target (ao_decision out) (br_last_decision b)\<rparr>"
  have "keeps_tables (?f b) (fst (commit_round target out b))"
    using tables.run [OF persist_tables] by (simp add: commit_round_def op_eval)
  moreover have "coherent (?f b)" using assms by (simp add: coherent_def max_def)
  ultimately show ?thesis by (auto simp: keeps_tables_def coherent_def)
qed

lemma run_round_evolves:
  assumes c: "coherent b" and run: "run_round target p m s b = (b', r)"
  shows "evolves b b' \<and> (\<forall>x. r = Inr x \<longrightarrow> coherent b')"
proof -
  let ?b1 = "b\<lparr>br_tick := br_tick b + 1\<rparr>"
  have c1: "coherent ?b1" and e1: "evolves b ?b1" using c by (simp_all add: coherent_def evolves_def)
  show ?thesis
  proof (cases "id_make (br_next_decision_id b)")
    case (Inl e)
    then show ?thesis using run e1 by (auto simp: run_round_def op_eval)
  next
    case (Inr decision)
    let ?input = "round_input target s p decision ?b1"
    show ?thesis
    proof (cases "arbitrate ?input")
      case (Inl e)
      then show ?thesis using run e1 \<open>id_make _ = Inr decision\<close> by (auto simp: run_round_def op_eval)
    next
      case (Inr out)
      let ?n = "ao_next_grant_id out"
      note dec = round_decides [OF c1 Inr]
      let ?apply = "opfor (apply_decision ?input (ao_accounting out)) (ao_decisions out)"
      let ?b2 = "fst (?apply ?b1)"
      have "advances (with_next ?n ?b1) (with_next ?n ?b2)" and n2: "br_next_grant_id ?b2 = br_next_grant_id ?b1"
        using apply_decisions_advance [OF dec(1,3)] by blast+
      then have c2: "coherent (with_next ?n ?b2)" and e2: "evolves ?b1 ?b2"
        using coherent_with_next [OF c1 dec(2)] by (auto simp: advances_def evolves_def)
      have eb2: "evolves b ?b2" using e1 e2 by (auto simp: evolves_def)
      have eq: "run_round target p m s b = opbind ?apply (\<lambda>_. opbind (commit_round target out) (\<lambda>_.
          opbind compact_if_needed (\<lambda>_. opret (summarise target m out)))) ?b1"
        using \<open>id_make _ = Inr decision\<close> Inr by (simp add: run_round_def op_eval split: prod.split sum.split)
      from run [unfolded eq] show ?thesis
      proof (cases rule: opbind_cases)
        case (failed e)
        with eb2 show ?thesis by simp
      next
        case (goes_on u)
        note com = commit_coherent [OF c2, of target]
        let ?b3 = "fst (commit_round target out ?b2)"
        let ?rest = "opbind compact_if_needed (\<lambda>_. opret (summarise target m out))"
        have c3: "coherent ?b3" and e3: "evolves b ?b3" using com n2 dec(2) eb2 by (auto simp: evolves_def)
        have "advances ?b3 (fst (?rest ?b3))" by (rule advance.run) (intro advance.intros compact_advances)
        with c3 e3 have fin: "coherent (fst (?rest ?b3)) \<and> evolves b (fst (?rest ?b3))"
          by (auto simp: advances_def evolves_def intro: evolve_trans)
        from goes_on(2) show ?thesis
        proof (cases rule: opbind_cases)
          case (goes_on v)
          then have "b' = fst (?rest ?b3)" by simp
          with fin show ?thesis by simp
        qed (use c3 e3 in simp)
      qed
    qed
  qed
qed

lemma orphans_withdrawable:
  assumes "coherent b"
  shows "distinct (orphans target b)" and "\<forall>i \<in> set (orphans target b). withdrawable b i"
proof -
  have ok: "om_ok (br_grants b)" using assms by (simp add: coherent_def)
  have key: "gr_id (snd e) = fst e" if "e \<in> set (br_grants b)" for e
    using assms that by (cases e) (auto simp: coherent_def)
  have "map gr_id (map snd (br_grants b)) = map fst (br_grants b)"
    unfolding map_map comp_def map_eq_conv using key by blast
  moreover have "distinct (map fst (br_grants b))" using ok by (simp add: om_ok_def strict_sorted_iff)
  ultimately have "distinct (map gr_id (map snd (br_grants b)))" by (simp only:)
  then show "distinct (orphans target b)" unfolding orphans_def by (rule distinct_map_filter)
  show "\<forall>i \<in> set (orphans target b). withdrawable b i"
  proof
    fix i assume "i \<in> set (orphans target b)"
    then obtain e where e: "e \<in> set (br_grants b)" "i = gr_id (snd e)" "is_live (gr_state (snd e))"
      by (auto simp: orphans_def)
    have "om_find (br_grants b) (fst e) = Some (snd e)" using om_find_mem [OF ok] e(1) by (metis prod.collapse)
    with e key [OF e(1)] show "withdrawable b i" by (auto simp: withdrawable_def live_not_terminal)
  qed
qed

lemma revoke_orphans_advances:
  "distinct is \<Longrightarrow> \<forall>i \<in> set is. withdrawable b i \<Longrightarrow> advances b (fst (revoke_orphans target is b))"
proof (induction "is" arbitrary: b)
  case (Cons i "is")
  show ?case
    unfolding revoke_orphans.simps
  proof (rule withdraw_then)
    show "withdrawable b i" using Cons.prems by simp
    fix b1 x
    assume "withdraw i RT_GrantRevoked OR_Revoked GS_Revoked b = (b1, Inr x)"
      and keep: "\<And>j. j \<noteq> i \<Longrightarrow> withdrawable b j \<Longrightarrow> withdrawable b1 j"
    have left: "\<forall>j \<in> set is. withdrawable b1 j" using Cons.prems keep by (metis distinct.simps(2) list.set_intros(2))
    obtain before g where x: "x = (before, g)" by fastforce
    show "advances b1 (fst ((case x of (before, _) \<Rightarrow> opbind (retire_accounting target before) (\<lambda>_.
        opbind (revoke_orphans target is) (\<lambda>n. opret ((case ga_total (gr_allocation before) of Inl _ \<Rightarrow> 0
          | Inr amount \<Rightarrow> if is_positive amount then 1 else 0) + n)))) b1))"
      unfolding x prod.case
    proof (rule advance.run_bind)
      show "advances b1 (fst (retire_accounting target before b1))" by (rule advance.run [OF retire_accounting_advances])
      fix b2 u assume "retire_accounting target before b1 = (b2, Inr u)"
      then have "\<forall>j \<in> set is. withdrawable b2 j" using left withdrawable_retire [of target before b1] by simp
      then have "advances b2 (fst (revoke_orphans target is b2))" using Cons.IH Cons.prems(1) by simp
      then show "advances b2 (fst (opbind (revoke_orphans target is) (\<lambda>n. opret ((case ga_total (gr_allocation before) of Inl _ \<Rightarrow> 0
          | Inr amount \<Rightarrow> if is_positive amount then 1 else 0) + n)) b2))"
        by (rule advance.run_bind) (rule advance.run [OF advance.ret])
    qed
  qed
qed (simp add: opret_def advance.refl)

lemma round_snapshot_advances: "steps advances (round_snapshot target)"
  unfolding round_snapshot_def Let_def
  by (intro advance.intros advances_mod_same) simp_all

lemma broker_arbitrate_evolves:
  assumes c: "coherent b" and run: "broker_arbitrate target b = (b', r)"
  shows "evolves b b' \<and> (\<forall>x. r = Inr x \<longrightarrow> coherent b')"
proof -
  have refl: "evolves b b" by (simp add: evolves_def)
  show ?thesis
  proof (cases "target_validate target = success \<and> br_policy b \<noteq> None")
    case False
    then show ?thesis using run refl c
      by (cases "target_validate target") (auto simp: broker_arbitrate_def op_eval)
  next
    case True
    then obtain p where p: "br_policy b = Some p" by auto
    let ?orph = "revoke_orphans target (orphans target b)"
    let ?b1 = "fst (?orph b)" let ?b2 = "fst (round_snapshot target ?b1)"
    have "advances b ?b1" by (rule revoke_orphans_advances [OF orphans_withdrawable [OF c]])
    then have 1: "coherent ?b1" "evolves b ?b1" using c by (auto simp: advances_evolves)
    have "advances ?b1 ?b2" by (rule advance.run [OF round_snapshot_advances])
    then have 2: "coherent ?b2" "evolves b ?b2" using 1 by (auto simp: advances_evolves evolves_def intro: evolve_trans)
    have eq: "broker_arbitrate target b = opbind ?orph (\<lambda>m. opbind (round_snapshot target) (run_round target p m)) b"
      using True p by (simp add: broker_arbitrate_def op_eval split: prod.split sum.split)
    consider "b' = ?b1" "\<exists>e. r = Inl e" | "b' = ?b2" "\<exists>e. r = Inl e" | m s where "run_round target p m s ?b2 = (b', r)"
      using run unfolding eq by (elim opbind_cases) blast+
    then show ?thesis
    proof cases
      case (3 m s)
      from run_round_evolves [OF 2(1) 3] 2(2) show ?thesis by (auto simp: evolves_def intro: evolve_trans)
    qed (use 1 2 in auto)
  qed
qed

section \<open>Runs of the coordinator\<close>

text \<open>One step for every member function that changes the state, whatever it returns.  A round that
  fails after it has stored new grants leaves them behind without reserving their identities;
  only such rounds are excluded.\<close>

inductive coordinator_step :: "broker \<Rightarrow> broker \<Rightarrow> bool" where
  "set_policy p b = (b', r) \<Longrightarrow> coordinator_step b b'"
| "publish_capacity s b = (b', r) \<Longrightarrow> coordinator_step b b'"
| "upsert_obligation ob b = (b', r) \<Longrightarrow> coordinator_step b b'"
| "retire_obligation i n b = (b', r) \<Longrightarrow> coordinator_step b b'"
| "submit q b = (b', v) \<Longrightarrow> coordinator_step b b'"
| "retire_request i n b = (b', r) \<Longrightarrow> coordinator_step b b'"
| "broker_arbitrate target b = (b', w) \<Longrightarrow> (\<exists>x. w = Inr x) \<or> coherent b' \<Longrightarrow> coordinator_step b b'"
| "release i n b = (b', x) \<Longrightarrow> coordinator_step b b'"
| "revoke i n reason detail b = (b', y) \<Longrightarrow> coordinator_step b b'"
| "revalidate i n b = (b', y) \<Longrightarrow> coordinator_step b b'"
| "fence_publisher publisher boot text b = (b', r) \<Longrightarrow> coordinator_step b b'"
| "advance_epoch b = (b', e) \<Longrightarrow> coordinator_step b b'"
| "broker_flush b = (b', r) \<Longrightarrow> coordinator_step b b'"

lemma flush_advances: "steps advances broker_flush"
  unfolding steps_def broker_flush_def by (auto intro!: advances_same split: option.split prod.split)

lemma step_advances: "coordinator_step b b' \<Longrightarrow> advances b b'"
proof (induction rule: coordinator_step.induct)
  case (7 target b b' w)
  from broker_arbitrate_evolves [OF _ 7(1)] 7(2) show ?case by (auto simp: advances_evolves)
qed (erule stepsD [rotated], rule set_policy_advances publish_capacity_advances upsert_obligation_advances
    retire_obligation_advances submit_advances retire_request_advances release_advances revoke_advances
    revalidate_advances fence_publisher_advances advance_epoch_advances flush_advances)+

lemma run_advances: "coordinator_step\<^sup>*\<^sup>* b b' \<Longrightarrow> advances b b'"
  by (induction rule: rtranclp_induct) (auto intro: advance.refl advance.trans step_advances)

end
