(* ===== verification/Broker_Contract.thy ===== *)
theory Broker_Contract
  imports Broker_Round_Laws Broker_Recovery
begin

text \<open>
  The contract of the coordinator towards its callers, operation by operation: withdrawals,
  fencing, idempotent submission, revalidation, opening after a restart, and the durable image.
\<close>

section \<open>Authority over a run\<close>

lemma query_found: "gv_found (query_grant i n b) \<longleftrightarrow> om_find (br_grants b) i \<noteq> None"
  by (simp add: query_grant_def Let_def split: option.split)

lemma query_Some:
  "om_find (br_grants b) i = Some g \<Longrightarrow> query_grant i n b = \<lparr> gv_grant = g, gv_found = True,
    gv_authoritative = (authorises_consumption (gr_state g) \<and> gr_generation g = n), gv_generation_current = (gr_generation g = n) \<rparr>"
  by (simp add: query_grant_def Let_def)

lemma run_query:
  assumes "coherent b" and "coordinator_step\<^sup>*\<^sup>* b b'" and "gv_found (query_grant i n b)"
  obtains g g' where "om_find (br_grants b) i = Some g" "om_find (br_grants b') i = Some g'" "succeeds g g'"
proof -
  obtain g where g: "om_find (br_grants b) i = Some g" using assms(3) by (auto simp: query_found)
  have "grants_evolve (br_grants b) (br_grants b')" using run_advances [OF assms(2)] assms(1) by (simp add: advances_def)
  with g obtain g' where "om_find (br_grants b') i = Some g'" "succeeds g g'" by (auto simp: grants_evolve_def)
  with g that show thesis by blast
qed

lemma run_authority:
  assumes "coherent b" and "coordinator_step\<^sup>*\<^sup>* b b'" and "gv_found (query_grant i n b)"
    and "n \<le> gr_generation (gv_grant (query_grant i n b))" and "\<not> gv_authoritative (query_grant i n b)"
  shows "\<not> gv_authoritative (query_grant i n b')"
proof -
  obtain g g' where g: "om_find (br_grants b) i = Some g" "om_find (br_grants b') i = Some g'" "succeeds g g'"
    by (rule run_query [OF assms(1-3)])
  note old = query_Some [OF g(1), of n] and new = query_Some [OF g(2), of n]
  have "n \<le> gr_generation g" "\<not> (authorises_consumption (gr_state g) \<and> gr_generation g = n)"
    using assms(4,5) unfolding old by simp_all
  moreover have "gr_generation g = gr_generation g'" if "gr_generation g' = n"
    using g(3) that calculation(1) unfolding succeeds_def by (metis order.antisym)
  ultimately have "\<not> (authorises_consumption (gr_state g') \<and> gr_generation g' = n)"
    using g(3) unfolding succeeds_def by metis
  then show ?thesis unfolding new by simp
qed

lemma run_content:
  assumes "coherent b" and "coordinator_step\<^sup>*\<^sup>* b b'"
    and "gv_generation_current (query_grant i n b)" and "gv_generation_current (query_grant i n b')"
  shows "gr_allocation (gv_grant (query_grant i n b')) = gr_allocation (gv_grant (query_grant i n b)) \<and>
    gr_authority (gv_grant (query_grant i n b')) = gr_authority (gv_grant (query_grant i n b))"
proof -
  have "gv_found (query_grant i n b)" using assms(3) by (simp add: query_grant_def Let_def split: option.splits)
  then obtain g g' where g: "om_find (br_grants b) i = Some g" "om_find (br_grants b') i = Some g'" "succeeds g g'"
    by (rule run_query [OF assms(1,2)])
  then show ?thesis using assms(3,4) by (auto simp: query_Some succeeds_def)
qed

section \<open>A successful withdrawal\<close>

lemma withdraw_success:
  assumes "om_find (br_grants b) i = Some g" and "withdraw i t r s b = (b', Inr (x, g2))"
  shows "x = g \<and> gr_state g2 = s \<and> gr_authority g2 = gr_authority g \<and> gr_allocation g2 = gr_allocation g \<and>
    gr_target g2 = gr_target g \<and> gr_request g2 = gr_request g \<and> gr_request_generation g2 = gr_request_generation g \<and>
    gr_generation g < gr_generation g2 \<and> br_grants b' = om_set i g2 (br_grants b) \<and> keeps_tables (b\<lparr>br_grants := om_set i g2 (br_grants b)\<rparr>) b'"
proof -
  obtain g1 where g1: "advance_generation g = Inr g1"
    using assms by (cases "advance_generation g") (auto simp: withdraw_def grant_ref_def op_eval)
  obtain h where h: "transition_to s (g1\<lparr>gr_reason := r\<rparr>) = Inr h"
    using assms g1
    by (cases "transition_to s (g1\<lparr>gr_reason := r\<rparr>)") (auto simp: withdraw_def grant_ref_def put_grant_def op_eval Let_def)
  have hs: "h = g1\<lparr>gr_reason := r, gr_state := s\<rparr>" using h by (simp add: transition_to_def split: if_splits)
  note w = assms(2) [unfolded withdraw_eval [OF assms(1) g1 h]]
  from w have x: "x = g" "g2 = h" and p: "fst (persist_grant t h (b\<lparr>br_grants := om_set i h (br_grants b)\<rparr>)) = b'"
    by (auto simp: op_eval split: prod.splits sum.splits)
  have "keeps_tables (b\<lparr>br_grants := om_set i h (br_grants b)\<rparr>) b'"
    using tables.run [OF persist_tables] p by (auto simp: persist_grant_def)
  moreover from this have "br_grants b' = om_set i h (br_grants b)" by (simp add: keeps_tables_def)
  ultimately show ?thesis using x hs g1 by (auto simp: advance_generation_def dest: gen_next_less)
qed

section \<open>Fencing\<close>

lemma retire_tables: "steps keeps_tables (retire_accounting t g)"
  by (auto simp: steps_def retire_accounting_def keeps_tables_def split: option.split prod.split)

lemma fence_grant_success:
  assumes "om_find (br_grants b) i = Some g" and "fence_grant i b = (b', Inr u)"
  shows "\<exists>g'. br_grants b' = om_set i g' (br_grants b) \<and> gr_state g' = GS_Fenced \<and> br_fence_hashes b' = br_fence_hashes b"
proof -
  from assms(2) obtain b1 x h where w: "withdraw i RT_GrantRevoked OR_Fenced GS_Fenced b = (b1, Inr (x, h))"
    and r: "retire_accounting (gr_target h) x b1 = (b', Inr u)"
    by (auto simp: fence_grant_def opbind_success)
  have "keeps_tables b1 b'" using tables.run [OF retire_tables] r by (metis fst_conv)
  with withdraw_success [OF assms(1) w] show ?thesis by (auto simp: keeps_tables_def)
qed

lemma fence_grants_success:
  assumes "distinct keys" and "\<forall>i \<in> set keys. om_find (br_grants b) i \<noteq> None" and "opfor fence_grant keys b = (b', Inr u)"
  shows "(\<forall>i \<in> set keys. \<exists>g. om_find (br_grants b') i = Some g \<and> gr_state g = GS_Fenced) \<and>
    (\<forall>i. i \<notin> set keys \<longrightarrow> om_find (br_grants b') i = om_find (br_grants b) i) \<and> br_fence_hashes b' = br_fence_hashes b"
  using assms
proof (induction keys arbitrary: b)
  case (Cons i keys)
  from Cons.prems(3) obtain b1 v where 1: "fence_grant i b = (b1, Inr v)" and 2: "opfor fence_grant keys b1 = (b', Inr u)"
    by (auto simp: opbind_success)
  obtain g where "om_find (br_grants b) i = Some g" using Cons.prems(2) by auto
  from fence_grant_success [OF this 1] obtain g' where g': "br_grants b1 = om_set i g' (br_grants b)"
    "gr_state g' = GS_Fenced" "br_fence_hashes b1 = br_fence_hashes b" by blast
  have "\<forall>j \<in> set keys. om_find (br_grants b1) j \<noteq> None" using Cons.prems(1,2) by (auto simp: g'(1) om_find_set)
  from Cons.IH [OF _ this 2] Cons.prems(1) g' show ?case by (auto simp: om_find_set)
qed (simp add: opret_def)

lemma fence_effect:
  assumes c: "coherent b" and new: "boot_hash boot \<notin> br_fence_hashes b" and run: "fence_publisher p boot reason b = (b', Inr u)"
  shows "is_fenced p boot b' = Inr True \<and>
    (\<forall>i g. om_find (br_grants b') i = Some g \<and> av_publisher_boot (gr_authority g) = boot \<longrightarrow>
      om_find (br_grants b) i = Some g \<and> \<not> is_live (gr_state g) \<or> gr_state g = GS_Fenced) \<and>
    (\<forall>i g. om_find (br_grants b) i = Some g \<and> (av_publisher_boot (gr_authority g) \<noteq> boot \<or> \<not> is_live (gr_state g)) \<longrightarrow>
      om_find (br_grants b') i = Some g)"
proof -
  let ?f = "\<lparr> bf_publisher = p, bf_boot = boot, bf_sequence = br_audit_sequence b + 1, bf_tick = br_tick b, bf_reason = reason \<rparr>"
  have v: "valid_id p" "boot_valid boot" using run by (auto simp: fence_publisher_def op_eval split: if_splits)
  from run v new obtain b1 where b1: "persist RT_PublisherFenced (encode_fence ?f) b = (b1, success)"
    and loop: "opfor fence_grant (fenced_keys boot b1) (b1\<lparr>br_fence_hashes := insert (boot_hash boot) (br_fence_hashes b1),
        br_fences := br_fences b1 @ [?f]\<rparr>) = (b', Inr u)"
    by (auto simp: fence_publisher_def Let_def op_eval fenced_keys_def split: if_splits sum.splits prod.splits)
  let ?b2 = "b1\<lparr>br_fence_hashes := insert (boot_hash boot) (br_fence_hashes b1), br_fences := br_fences b1 @ [?f]\<rparr>"
  have g1: "br_grants b1 = br_grants b" using b1 by simp
  then have keys: "fenced_keys boot b1 = fenced_keys boot b" by (simp add: fenced_keys_def)
  have ok: "om_ok (br_grants b)" using c by (simp add: coherent_def)
  have mem: "i \<in> set (fenced_keys boot b) \<longleftrightarrow> (\<exists>g. om_find (br_grants b) i = Some g \<and> av_publisher_boot (gr_authority g) = boot \<and> is_live (gr_state g))" for i
    using om_find_mem [OF ok] by (force simp: fenced_keys_def dest: om_find_some)
  have "\<forall>i \<in> set (fenced_keys boot b1). om_find (br_grants ?b2) i \<noteq> None" using mem by (auto simp: keys g1)
  from fence_grants_success [OF _ this loop] fenced_keys_withdrawable(1) [OF c]
  have after: "\<forall>i \<in> set (fenced_keys boot b). \<exists>g. om_find (br_grants b') i = Some g \<and> gr_state g = GS_Fenced"
    "\<forall>i. i \<notin> set (fenced_keys boot b) \<longrightarrow> om_find (br_grants b') i = om_find (br_grants b) i"
    "boot_hash boot \<in> br_fence_hashes b'" by (simp_all add: keys g1)
  show ?thesis
  proof (intro conjI allI impI)
    show "is_fenced p boot b' = Inr True" using v after(3) by (simp add: is_fenced_def)
    fix i g
    show "om_find (br_grants b) i = Some g \<and> \<not> is_live (gr_state g) \<or> gr_state g = GS_Fenced"
      if "om_find (br_grants b') i = Some g \<and> av_publisher_boot (gr_authority g) = boot"
    proof (cases "i \<in> set (fenced_keys boot b)")
      case True
      with after(1) that show ?thesis by fastforce
    next
      case False
      with after(2) that have "om_find (br_grants b) i = Some g" by simp
      with False that mem show ?thesis by blast
    qed
    show "om_find (br_grants b') i = Some g"
      if "om_find (br_grants b) i = Some g \<and> (av_publisher_boot (gr_authority g) \<noteq> boot \<or> \<not> is_live (gr_state g))"
      using that after(2) mem by auto
  qed
qed

section \<open>Submission\<close>

lemma get_bind: "opbind (opget f) k b = k (f b) b"
  by (simp add: op_eval)

lemma lift_bind: "opbind (oplift (Inr x)) k b = k x b"
  by (simp add: op_eval)

lemma submit_new:
  assumes "submit r b = (b', Inr res)" and "so_disposition res = ID_New"
  shows "request_validate r = success \<and> av_fabric_epoch (rq_authority r) = br_epoch b' \<and> br_policy b' \<noteq> None \<and>
    om_find (br_idempotency b') (request_key (rq_id r) (rq_generation r)) = Some res \<and>
    om_find (br_content_hashes b') (request_key (rq_id r) (rq_generation r)) = Some (request_content_hash r) \<and>
    om_find (br_requests b') (request_key (rq_id r) (rq_generation r)) = Some r"
proof -
  let ?key = "request_key (rq_id r) (rq_generation r)"
  have fresh: "om_find (br_idempotency b) ?key = None" and checks: "br_policy b \<noteq> None" "request_validate r = success"
      "av_fabric_epoch (rq_authority r) = br_epoch b"
    using assms by (auto simp: submit_def Let_def op_eval split: if_splits sum.splits option.splits)
  have "submit r b = (if length (br_idempotency b) \<ge> bc_max_idempotency_entries (br_config b) then (b, fail EC_ResourceExhausted)
      else opbind (persist RT_RequestAccepted (encode_request r)) (\<lambda>_.
        opbind (persist RT_IdempotencyRecord (encode_idempotency (outcome_record (request_content_hash r) (first_outcome r b)))) (\<lambda>_.
        opbind (opmod (\<lambda>x. x\<lparr>br_requests := om_set ?key r (br_requests x), br_content_hashes := om_set ?key (request_content_hash r) (br_content_hashes x),
          br_wait_rounds := om_set ?key 0 (br_wait_rounds x), br_idempotency := om_set ?key (first_outcome r b) (br_idempotency x)\<rparr>)) (\<lambda>_.
          opret (first_outcome r b)))) b)"
    using fresh checks by (auto simp: submit_def Let_def get_bind lift_bind oplift_def [of "fail _"])
  with assms(1) obtain b1 b2 where 1: "persist RT_RequestAccepted (encode_request r) b = (b1, success)"
    and 2: "persist RT_IdempotencyRecord (encode_idempotency (outcome_record (request_content_hash r) (first_outcome r b))) b1 = (b2, success)"
    and b': "b' = b2\<lparr>br_requests := om_set ?key r (br_requests b2), br_content_hashes := om_set ?key (request_content_hash r) (br_content_hashes b2),
        br_wait_rounds := om_set ?key 0 (br_wait_rounds b2), br_idempotency := om_set ?key (first_outcome r b) (br_idempotency b2)\<rparr>"
    and res: "res = first_outcome r b"
    by (auto simp: opbind_success opmod_def opret_def split: if_splits)
  note f1 = persist_fields [OF 1] and f2 = persist_fields [OF 2]
  show ?thesis using checks f1 f2 by (simp add: b' res om_find_set)
qed

lemma submit_again:
  assumes "br_policy b \<noteq> None" and "request_validate q = success" and "av_fabric_epoch (rq_authority q) = br_epoch b"
    and "om_find (br_idempotency b) (request_key (rq_id q) (rq_generation q)) = Some res"
    and "om_find (br_content_hashes b) (request_key (rq_id q) (rq_generation q)) = Some h"
  shows "submit q b = (b, if h = request_content_hash q then Inr (res\<lparr>so_disposition := ID_Replay\<rparr>) else fail EC_IdentityConflict)"
  using assms by (simp add: submit_def Let_def op_eval)

lemma submit_idempotent:
  assumes "submit r b = (b', Inr res)" and "so_disposition res = ID_New"
  shows "submit r b' = (b', Inr (res\<lparr>so_disposition := ID_Replay\<rparr>)) \<and>
    (\<forall>q. rq_id q = rq_id r \<and> rq_generation q = rq_generation r \<and> request_validate q = success \<and>
      av_fabric_epoch (rq_authority q) = br_epoch b' \<and> request_content_hash q \<noteq> request_content_hash r \<longrightarrow>
      submit q b' = (b', fail EC_IdentityConflict))"
  using submit_new [OF assms] submit_again [of b'] by (auto simp: eq_commute)

section \<open>Release\<close>

lemma current_grant_eq:
  "om_find (br_grants b) i = Some g \<Longrightarrow> current_grant i n b = (b, if gr_generation g \<noteq> n then fail EC_StaleGrant else Inr g)"
  by (simp add: current_grant_def op_eval)

lemma release_effect:
  assumes "release i n b = (b', Inr res)" and "\<not> rl_already_released res"
  shows "\<exists>g g'. om_find (br_grants b) i = Some g \<and> gr_generation g = n \<and> om_find (br_grants b') i = Some g' \<and>
    gr_state g' = GS_Released \<and> n < gr_generation g' \<and> rl_released res = total_allocation (gr_allocation g) \<and>
    (\<forall>j. j \<noteq> i \<longrightarrow> om_find (br_grants b') j = om_find (br_grants b) j) \<and>
    br_requests b' = om_erase (request_key (gr_request g) (gr_request_generation g)) (br_requests b)"
proof -
  from assms(1) obtain b0 g where g: "current_grant i n b = (b0, Inr g)" by (auto simp: release_def opbind_success)
  note cg = current_grantD [OF g]
  have live: "gr_state g \<noteq> GS_Released" "\<not> is_terminal (gr_state g)"
    using assms cg by (auto simp: release_def opbind_eval current_grant_eq op_eval split: if_splits)
  from assms cg live obtain b1 x g' b2 b3 where w: "withdraw i RT_GrantReleased OR_Released GS_Released b = (b1, Inr (x, g'))"
    and r: "retire_accounting (gr_target g') x b1 = (b2, success)"
    and p: "persist RT_RequestRetired (encode_request_key (request_key (gr_request g') (gr_request_generation g')))
      (b2\<lparr>br_requests := om_erase (request_key (gr_request g') (gr_request_generation g')) (br_requests b2),
        br_wait_rounds := om_erase (request_key (gr_request g') (gr_request_generation g')) (br_wait_rounds b2)\<rparr>) = (b3, success)"
    and out: "b' = b3" "rl_released res = total_allocation (gr_allocation x)"
    by (auto simp: release_def Let_def opbind_success current_grant_eq opget_def opmod_def opret_def split: if_splits)
  have "keeps_tables b1 b2" using tables.run [OF retire_tables] r by (metis fst_conv)
  with withdraw_success [OF conjunct1 [OF conjunct2 [OF cg]] w] persist_fields [OF p] out cg show ?thesis
    by (auto simp: keeps_tables_def om_find_set)
qed

lemma release_retry:
  assumes "release i n b = (b', Inr res)" and "\<not> rl_already_released res"
  shows "release i n b' = (b', fail EC_StaleGrant) \<and>
    (\<exists>m > n. release i m b' = (b', Inr \<lparr> rl_already_released = True, rl_state = GS_Released, rl_released = 0, rl_tick = br_tick b' \<rparr>))"
proof -
  from release_effect [OF assms] obtain g' where g': "om_find (br_grants b') i = Some g'" "gr_state g' = GS_Released" "n < gr_generation g'"
    by blast
  then have "gr_generation g' \<noteq> n" by simp
  with g'(1) have "release i n b' = (b', fail EC_StaleGrant)" by (simp add: release_def opbind_def current_grant_eq)
  moreover have "release i (gr_generation g') b' =
      (b', Inr \<lparr> rl_already_released = True, rl_state = GS_Released, rl_released = 0, rl_tick = br_tick b' \<rparr>)"
    using g' by (simp add: release_def op_eval current_grant_eq)
  ultimately show ?thesis using g'(3) by blast
qed

section \<open>Revalidation\<close>

lemma revalidate_memory:
  assumes "br_store b = None" and "om_find (br_grants b) i = Some g" and "gr_generation g = n" and "gr_state g = GS_RevalidationRequired"
    and "om_find (br_requests b) (request_key (gr_request g) (gr_request_generation g)) = Some q"
    and "om_find (br_capacities b) (gr_target g) = Some s" and "cs_evidence s = EV_Known"
    and "br_policy b = Some p" and "boot_hash (av_publisher_boot (rq_authority q)) \<notin> br_fence_hashes b"
    and "advance_generation g = Inr g1"
  shows "\<exists>b' v. revalidate i n b = (b', Inr v) \<and> gv_authoritative v \<and> gr_allocation (gv_grant v) = gr_allocation g \<and>
    query_grant i (gr_generation (gv_grant v)) b' = v"
proof -
  let ?g = "revalidated (br_tick b) (rebind_authority b p s (rq_authority q)) g1"
  let ?b = "b\<lparr>br_grants := om_set i ?g (br_grants b)\<rparr>"
  let ?v = "\<lparr> gv_grant = ?g, gv_found = True, gv_authoritative = True, gv_generation_current = True \<rparr>"
  have "revalidate i n b = (?b\<lparr>br_audit_sequence := br_audit_sequence b + 1\<rparr>, Inr ?v)"
    using assms by (simp add: revalidate_def op_eval current_grant_eq put_grant_def persist_grant_def persist_memory Let_def)
  moreover have "query_grant i (gr_generation ?g) (?b\<lparr>br_audit_sequence := br_audit_sequence b + 1\<rparr>) = ?v"
    by (simp add: query_grant_def Let_def om_find_set revalidated_def authorises_consumption_def)
  moreover have "gr_allocation ?g = gr_allocation g" using assms(10) by (auto simp: revalidated_def advance_generation_def)
  ultimately show ?thesis by (intro exI [of _ "?b\<lparr>br_audit_sequence := br_audit_sequence b + 1\<rparr>"] exI [of _ ?v]) simp
qed

end
