(* ===== verification/Recovery_Laws.thy ===== *)
theory Recovery_Laws
  imports Broker_Contract
begin

text \<open>
  Restarting a coordinator: what a restored coordinator may and may not do, that the invariant of the
  tables is re-established, and that the durable image of a state is read back as that state.
\<close>

section \<open>No authority survives a restart\<close>

definition quiet :: "broker \<Rightarrow> bool" where
  "quiet b \<longleftrightarrow> (\<forall>(i, g) \<in> set (br_grants b). \<not> authorises_consumption (gr_state g)) \<and>
    (\<forall>(t, s) \<in> set (br_capacities b). cs_evidence s = EV_Stale) \<and> br_accounting b = []"

lemma quiet_demoted: "quiet (demote_restored b)"
  by (auto simp: quiet_def demote_restored_def om_map_values_def demote_def stale_evidence_def
      authorises_consumption_def is_live_def split: if_splits)

lemma quiet_same:
  "br_grants b' = br_grants b \<Longrightarrow> br_capacities b' = br_capacities b \<Longrightarrow> br_accounting b' = br_accounting b \<Longrightarrow>
    keeps quiet b b'"
  by (simp add: keeps_def quiet_def)

lemma persist_quiet: "steps (keeps quiet) (persist t p)"
  unfolding steps_def by (metis persist_fields(1,7,9) quiet_same surjective_pairing)

lemma flush_quiet: "steps (keeps quiet) broker_flush"
  by (auto simp: steps_def broker_flush_def intro!: quiet_same split: option.split prod.split)

lemma announce_quiet: "steps (keeps quiet) announce_boot"
  unfolding announce_boot_def by (intro invariant.intros persist_quiet flush_quiet)

lemma epoch_quiet: "steps (keeps quiet) (restart_epoch had)"
  unfolding restart_epoch_def by (intro invariant.intros invariant.mod quiet_same) simp_all

lemma mod_bind: "opbind (opmod f) k b = k () (f b)"
  by (simp add: op_eval)

lemma open_steps_quiet:
  assumes "open_steps config d io b0 = (b, Inr u)"
  shows "quiet b"
proof -
  let ?after = "\<lambda>had. opbind (restart_epoch had) (\<lambda>_. opbind (opmod (\<lambda>b. b\<lparr>br_tick := br_tick b + 1\<rparr>)) (\<lambda>_.
    opbind announce_boot (\<lambda>_. opmod (\<lambda>b. b\<lparr>br_snapshots_written := 0\<rparr>))))"
  from assms have "opbind (recover_state config d io) (\<lambda>had. opbind (opmod demote_restored) (\<lambda>_. ?after had)) b0 = (b, Inr u)"
    unfolding open_steps_def by (subst (asm) opbind_success) (auto simp: oplift_def)
  then obtain b1 had where "opbind (opmod demote_restored) (\<lambda>_. ?after had) b1 = (b, Inr u)"
    by (subst (asm) opbind_success) blast
  then have last: "?after had (demote_restored b1) = (b, Inr u)" by (simp only: mod_bind)
  have quiet: "steps (keeps quiet) (?after had)"
    by (intro invariant.intros invariant.mod quiet_same epoch_quiet announce_quiet) simp_all
  from stepsD [OF quiet last] quiet_demoted show ?thesis by (simp add: keeps_def)
qed

lemma open_quiet:
  assumes "broker_open config d io = Inr b"
  shows "quiet b"
  using assms open_steps_quiet [of config d io "new_broker config"]
  by (auto simp: broker_open_def split: prod.splits sum.splits)

section \<open>The invariant of the tables after a restart\<close>

text \<open>The identity after the last one is not representable; short of that the tables are coherent.\<close>

definition grant_kept :: "u64 \<Rightarrow> u64 \<times> grant \<Rightarrow> bool" where
  "grant_kept n e \<longleftrightarrow> gr_id (snd e) = fst e \<and> (fst e = kMaxValue \<or> fst e < n)"

definition restored_ok :: "broker \<Rightarrow> bool" where
  "restored_ok b \<longleftrightarrow> om_ok (br_requests b) \<and>
    (\<forall>e \<in> set (br_requests b). fst e = request_key (rq_id (snd e)) (rq_generation (snd e))) \<and>
    om_ok (br_grants b) \<and> (\<forall>e \<in> set (br_grants b). grant_kept (br_next_grant_id b) e)"

lemma grant_kept_mono: "grant_kept n e \<Longrightarrow> n \<le> m \<Longrightarrow> grant_kept m e"
  by (auto simp: grant_kept_def)

lemma restored_same:
  "br_requests b' = br_requests b \<Longrightarrow> br_grants b' = br_grants b \<Longrightarrow> br_next_grant_id b \<le> br_next_grant_id b' \<Longrightarrow>
    restored_ok b \<Longrightarrow> restored_ok b'"
  by (simp add: restored_ok_def) (meson grant_kept_mono)

lemma restored_coherent: "restored_ok b \<Longrightarrow> om_find (br_grants b) kMaxValue = None \<Longrightarrow> coherent b"
  by (auto simp: restored_ok_def coherent_def grant_kept_def om_find_mem)

lemma word_next: "n = kMaxValue \<or> n < n + 1"
  using gen_next_less [of n "n + 1"] by (cases "n = 0"; cases "n = kMaxValue") (simp_all add: gen_next_def)

lemma restore_grant_ok: "restored_ok b \<Longrightarrow> restored_ok (restore_grant g b)"
proof -
  assume ok: "restored_ok b"
  let ?n = "max (br_next_grant_id b) (gr_id g + 1)"
  have "grant_kept ?n (gr_id g, g)" using word_next [of "gr_id g"] by (auto simp: grant_kept_def less_max_iff_disj)
  moreover have "grant_kept ?n e" if "e \<in> set (br_grants b)" for e
    by (rule grant_kept_mono [of "br_next_grant_id b"]) (use ok that in \<open>simp_all add: restored_ok_def\<close>)
  ultimately have "\<forall>e \<in> set (om_set (gr_id g) g (br_grants b)). grant_kept ?n e"
    using set_om_set [of "gr_id g" g "br_grants b"] by blast
  then show ?thesis using ok by (simp add: restored_ok_def restore_grant_def om_ok_set)
qed

lemma restore_request_ok:
  "restored_ok b \<Longrightarrow> restored_ok (b\<lparr>br_requests := om_set (request_key (rq_id r) (rq_generation r)) r (br_requests b)\<rparr>)"
  using set_om_set [of "request_key (rq_id r) (rq_generation r)" r "br_requests b"]
  by (fastforce simp: restored_ok_def om_ok_set)

lemma set_om_erase: "set (om_erase k m) \<subseteq> set m"
  by (induction k m rule: om_erase.induct) auto

lemma erase_request_ok: "restored_ok b \<Longrightarrow> restored_ok (b\<lparr>br_requests := om_erase k (br_requests b)\<rparr>)"
  using set_om_erase [of k "br_requests b"] by (fastforce simp: restored_ok_def om_ok_erase)

lemma fold_keeps: "(\<And>x b. P b \<Longrightarrow> P (f x b)) \<Longrightarrow> P b \<Longrightarrow> P (fold f xs b)"
  by (induction xs arbitrary: b) auto

lemma install_ok:
  assumes "br_grants b = []" and "br_requests b = []"
  shows "restored_ok (install_state m b)"
proof -
  have request: "restored_ok x \<Longrightarrow> restored_ok (restore_request rw x)" for rw x
    using restored_same [of "restore_request rw x" "x\<lparr>br_requests := om_set (request_key (rq_id (fst rw)) (rq_generation (fst rw))) (fst rw) (br_requests x)\<rparr>"]
      restore_request_ok [of x "fst rw"] by (simp add: restore_request_def Let_def)
  have same: "restored_ok x \<Longrightarrow> restored_ok y"
    if "br_requests y = br_requests x" "br_grants y = br_grants x" "br_next_grant_id y = br_next_grant_id x" for x y
    using restored_same [of y x] that by simp
  let ?b = "b\<lparr>br_epoch := sm_epoch m, br_incarnation := sm_incarnation m, br_tick := sm_tick m,
      br_audit_sequence := sm_audit_sequence m, br_next_grant_id := sm_next_grant_id m,
      br_next_recall_id := sm_next_recall_id m, br_next_decision_id := sm_next_decision_id m,
      br_next_snapshot_id := sm_next_snapshot_id m, br_next_session_id := sm_next_session_id m,
      br_policy := (case sm_policy m of None \<Rightarrow> br_policy b | Some p \<Rightarrow> Some p)\<rparr>"
  have "restored_ok ?b" using assms by (simp add: restored_ok_def)
  then have "restored_ok (fold (\<lambda>s b. b\<lparr>br_capacities := om_set (cs_target s) s (br_capacities b)\<rparr>) (sm_capacities m) ?b)"
    (is "restored_ok ?c") by (rule fold_keeps [of restored_ok, rotated]) (erule same [rotated 3], simp_all)
  then have "restored_ok (fold (\<lambda>ob b. b\<lparr>br_obligations := om_set (ob_reservation ob) ob (br_obligations b)\<rparr>) (sm_obligations m) ?c)"
    (is "restored_ok ?o") by (rule fold_keeps [of restored_ok, rotated]) (erule same [rotated 3], simp_all)
  then have "restored_ok (fold restore_request (sm_requests m) ?o)" (is "restored_ok ?r")
    by (rule fold_keeps [of restored_ok, rotated]) (rule request)
  then have "restored_ok (fold restore_grant (sm_grants m) ?r)" (is "restored_ok ?g")
    by (rule fold_keeps [of restored_ok, rotated]) (rule restore_grant_ok)
  then have "restored_ok (fold restore_fence (sm_fences m) ?g)" (is "restored_ok ?f")
    by (rule fold_keeps [of restored_ok, rotated]) (erule same [rotated 3], simp_all add: restore_fence_def)
  then have "restored_ok (fold restore_idempotency (sm_idempotency m) ?f)" (is "restored_ok ?i")
    by (rule fold_keeps [of restored_ok, rotated]) (erule same [rotated 3], simp_all add: restore_idempotency_def Let_def)
  then show ?thesis unfolding install_state_def
    by (rule fold_keeps [of restored_ok, rotated]) (erule same [rotated 3], simp_all split: prod.split)
qed

lemma decoded_ok: "(\<And>v x. restored_ok x \<Longrightarrow> restored_ok (f v x)) \<Longrightarrow> steps (keeps restored_ok) (decoded dec payload f)"
  by (auto simp: steps_def keeps_def decoded_def split: sum.split prod.split)

lemma apply_payload_ok: "steps (keeps restored_ok) (apply_payload t payload)"
proof -
  have same: "restored_ok x \<Longrightarrow> restored_ok y"
    if "br_requests y = br_requests x" "br_grants y = br_grants x" "br_next_grant_id x \<le> br_next_grant_id y" for x y
    using restored_same [of y x] that by simp
  show ?thesis
    by (cases t; simp; (intro decoded_ok)?)
      (auto simp: steps_def keeps_def restore_grant_ok restore_request_ok erase_request_ok restore_fence_def restore_idempotency_def Let_def
        intro: same split: sum.split prod.split)
qed

lemma replay_ok: "steps (keeps restored_ok) (replay_records rs)"
  unfolding replay_records_def replay_record_def
  by (intro invariant.for_each invariant.bind apply_payload_ok invariant.mod) (auto simp: keeps_def intro: restored_same)

lemma load_ok:
  assumes "br_grants b = []" and "br_requests b = []" and "restored_ok b"
  shows "restored_ok (fst (load_snapshot img b))"
  using assms by (auto simp: load_snapshot_def install_ok split: sum.split)

lemma restore_ok:
  assumes "br_grants b = []" and "br_requests b = []"
  shows "restored_ok (fst (restore rv b))"
proof -
  let ?b = "b\<lparr>br_recoveries := 1, br_journal_truncations := rp_truncations (rv_report rv)\<rparr>"
  let ?load = "case rv_snapshot rv of None \<Rightarrow> opret () | Some img \<Rightarrow> load_snapshot img"
  let ?rest = "opbind (replay_records (rv_records rv)) (\<lambda>_. opret (rv_snapshot rv \<noteq> None \<or> rv_records rv \<noteq> []))"
  have "restored_ok ?b" using assms by (simp add: restored_ok_def)
  then have "restored_ok (fst (?load ?b))"
    using assms load_ok [of ?b] by (auto simp: opret_def split: option.split)
  moreover have "steps (keeps restored_ok) ?rest" by (intro invariant.intros replay_ok)
  ultimately have "restored_ok (fst (opbind ?load (\<lambda>_. ?rest) ?b))"
    by (auto simp: opbind_def [of ?load] steps_def keeps_def split: sum.split prod.split)
  then show ?thesis by (simp only: restore_def mod_bind)
qed

lemma recover_ok:
  assumes "br_grants b = []" and "br_requests b = []"
  shows "restored_ok (fst (recover_state config d io b))"
proof -
  have ok: "restored_ok (b\<lparr>br_store := st\<rparr>)" for st using assms by (simp add: restored_ok_def)
  moreover have "restored_ok b" using assms by (simp add: restored_ok_def)
  ultimately show ?thesis
    using assms restore_ok
    by (auto simp: recover_state_def opret_def opbind_def oplift_def recover_store_def split: sum.split prod.split) 
qed

lemma demote_restored_ok: "keeps restored_ok b (demote_restored b)"
  using om_ok_map_values [of "demote (\<lambda>_. True)" "br_grants b"]
  by (auto simp: keeps_def restored_ok_def demote_restored_def grant_kept_def om_map_values_def)

lemma announce_ok: "steps (keeps restored_ok) announce_boot"
proof -
  have "steps (keeps restored_ok) (persist t p)" for t p
    unfolding steps_def keeps_def using persist_fields restored_same by (metis order_refl surjective_pairing)
  moreover have "steps (keeps restored_ok) broker_flush"
    by (auto simp: steps_def keeps_def broker_flush_def intro: restored_same split: option.split prod.split)
  ultimately show ?thesis unfolding announce_boot_def by (intro invariant.intros)
qed

lemma open_restored:
  assumes "broker_open config d io = Inr b"
  shows "restored_ok b"
proof -
  have "steps (keeps restored_ok) (restart_epoch had)" for had
    unfolding restart_epoch_def by (intro invariant.intros invariant.mod) (simp add: keeps_def restored_same)
  then have rest: "steps (keeps restored_ok) (opbind (opmod demote_restored) (\<lambda>_. opbind (restart_epoch had) (\<lambda>_.
      opbind (opmod (\<lambda>b. b\<lparr>br_tick := br_tick b + 1\<rparr>)) (\<lambda>_. opbind announce_boot (\<lambda>_.
      opmod (\<lambda>b. b\<lparr>br_snapshots_written := 0\<rparr>))))))" (is "steps _ (?rest had)") for had
    by (intro invariant.intros invariant.mod announce_ok demote_restored_ok) (simp_all add: keeps_def restored_same)
  from assms obtain v where "opbind (recover_state config d io) ?rest (new_broker config) = (b, Inr v)"
    by (auto simp: broker_open_def open_steps_def opbind_success oplift_def split: prod.splits sum.splits)
  then obtain b1 had where "recover_state config d io (new_broker config) = (b1, Inr had)" "?rest had b1 = (b, Inr v)"
    by (subst (asm) opbind_success) blast
  moreover have "restored_ok (fst (recover_state config d io (new_broker config)))"
    by (rule recover_ok) (simp_all add: new_broker_def)
  ultimately show ?thesis using stepsD [OF rest, of had b1 b] by (simp add: keeps_def)
qed

lemma open_coherent:
  "broker_open config d io = Inr b \<Longrightarrow> om_find (br_grants b) kMaxValue = None \<Longrightarrow> coherent b"
  by (rule restored_coherent [OF open_restored])

end
