(* ===== verification/Server_Laws.thy ===== *)
theory Server_Laws
  imports Client Recovery_Laws
begin

text \<open>
  What the server and the client promise together.  A request reaches the broker only on a connection
  that has been greeted, and a fenced boot is never greeted.  Whatever frames arrive on whatever
  connections, the broker only moves by its own operations, so its guarantees hold for the whole
  system, and the number of connections stays within the budget.  For every operation the locale
  \<open>rpc\<close> shows that a call of the client over any chunking of the two byte streams is the call of the
  broker's operation.
\<close>

section \<open>Greeting\<close>

lemma send_message_frame [simp]:
  "cn_greeted (fst (send_message t n p c)) = cn_greeted c" "cn_boot (fst (send_message t n p c)) = cn_boot c"
  "cn_publisher (fst (send_message t n p c)) = cn_publisher c"
  by (simp_all add: send_message_def split: sum.split prod.split)

lemma send_ack_frame [simp]:
  "cn_greeted (fst (send_ack enc t n a c)) = cn_greeted c" "cn_boot (fst (send_ack enc t n a c)) = cn_boot c"
  "cn_publisher (fst (send_ack enc t n a c)) = cn_publisher c"
  by (simp_all add: send_ack_def)

lemma send_error_frame [simp]:
  "cn_greeted (fst (send_error n e m c)) = cn_greeted c" "cn_boot (fst (send_error n e m c)) = cn_boot c"
  "cn_publisher (fst (send_error n e m c)) = cn_publisher c"
  by (simp_all add: send_error_def)

text \<open>The conditions under which a handshake is accepted.\<close>

definition may_greet :: "server \<Rightarrow> hello_request \<Rightarrow> bool" where
  "may_greet sv q \<longleftrightarrow> hr_protocol_version q = BB_PROTOCOL_VERSION \<and>
    (vo_session_token (sv_options sv) \<noteq> [] \<longrightarrow> hr_session_token q = vo_session_token (sv_options sv)) \<and>
    valid_id (hr_publisher q) \<and> boot_valid (hr_boot q) \<and> is_fenced (hr_publisher q) (hr_boot q) (sv_broker sv) = Inr False"

lemma hello_accepts:
  "hello_refusal m (sv_options sv) (sv_broker sv) request = None \<longleftrightarrow> (\<exists>q. request = Inr q \<and> may_greet sv q)"
  by (auto simp: hello_refusal_def may_greet_def is_fenced_def split: sum.splits if_splits)

definition same_peer :: "connection \<Rightarrow> connection \<Rightarrow> bool" where
  "same_peer c c' \<longleftrightarrow> cn_greeted c' = cn_greeted c \<and> cn_publisher c' = cn_publisher c \<and> cn_boot c' = cn_boot c"

definition greeted_by :: "server \<Rightarrow> message \<Rightarrow> connection \<Rightarrow> bool" where
  "greeted_by sv m c \<longleftrightarrow> (\<exists>n p rest q. m = (MT_Hello, n, p) \<and> decode_hello_request p = (rest, Inr q) \<and> may_greet sv q \<and>
    cn_publisher c = hr_publisher q \<and> cn_boot c = hr_boot q)"

lemma dispatch_peer:
  assumes "dispatch t say n p (sv, c) = (rest, (sv', c'), going)"
  shows "same_peer c c' \<or> greeted_by sv (t, n, p) c'"
proof (cases "t = MT_Hello")
  case True
  obtain rest' request where r: "decode_hello_request p = (rest', request)" by fastforce
  show ?thesis
  proof (cases "hello_refusal (say (cn_replies c) 0) (sv_options sv) (sv_broker sv) request")
    case None
    then obtain q where q: "request = Inr q" "may_greet sv q" by (auto simp: hello_accepts)
    with None r True assms(1) show ?thesis by (auto simp: handle_hello_def sent_def Let_def greet_def greeted_by_def)
  next
    case (Some s)
    with r True assms show ?thesis by (auto simp: handle_hello_def same_peer_def)
  qed
next
  case False
  with assms show ?thesis
    by (cases t) (auto simp: operation_def sent_def handle_shutdown_def handle_other_def same_peer_def split: prod.splits)
qed

lemma serve_frame_peer:
  assumes "serve_frame say m (sv, c) = ((sv', c'), going)"
  shows "same_peer c c' \<or> greeted_by sv m c'"
proof -
  obtain t n p where m: "m = (t, n, p)" by (cases m)
  let ?sv = "sv\<lparr>sv_handled := sv_handled sv + 1\<rparr>"
  obtain rest sv1 c1 going1 where d: "dispatch t say n p (?sv, c) = (rest, (sv1, c1), going1)"
    by (metis prod.exhaust)
  have "same_peer c1 c' \<or> same_peer c c'"
    using assms(1) m d by (auto simp: serve_frame_def same_peer_def Let_def simp del: dispatch.simps split: sum.splits if_splits)
  with dispatch_peer [OF d] m show ?thesis by (auto simp: may_greet_def greeted_by_def same_peer_def)
qed

lemma ungreeted_inert:
  assumes "serve_frame say (t, n, p) (sv, c) = ((sv', c'), going)" and "\<not> cn_greeted c"
  shows "sv_broker sv' = sv_broker sv \<and> sv_stopping sv' = sv_stopping sv"
proof -
  have "sv_broker sv1 = sv_broker sv2 \<and> sv_stopping sv1 = sv_stopping sv2"
    if "handle_hello say n p (sv2, c) = (rest, (sv1, c1), going1)" for rest sv1 sv2 c1 going1
    using that by (auto simp: handle_hello_def sent_def Let_def split: prod.splits option.splits sum.splits)
  note hello = this [OF sym]
  show ?thesis
  proof (cases "t = MT_Hello")
    case True
    obtain rest sv1 c1 going1 where d: "handle_hello say n p (sv\<lparr>sv_handled := sv_handled sv + 1\<rparr>, c) = (rest, (sv1, c1), going1)"
      by (metis prod.exhaust)
    with assms(1) True hello [OF d [symmetric]] show ?thesis
      by (auto simp: serve_frame_def Let_def split: sum.splits)
  qed (use assms in \<open>auto simp: serve_frame_def Let_def\<close>)
qed

section \<open>The broker only moves by its own operations\<close>

lemma submit_all_steps: "coordinator_step\<^sup>*\<^sup>* b (fst (fold submit_one qs (b, k, refused)))"
proof (induction qs arbitrary: b k refused)
  case (Cons q qs)
  obtain b1 r where r: "submit q b = (b1, r)" by fastforce
  have "coordinator_step b b1" by (rule coordinator_step.intros(5) [OF r])
  moreover obtain k1 f1 where "submit_one q (b, k, refused) = (b1, k1, f1)" using r by (cases r) (auto simp: submit_one_def)
  ultimately show ?case using Cons.IH [of b1 k1 f1] by (simp add: converse_rtranclp_into_rtranclp)
qed simp

lemma served_steps:
  "coordinator_step\<^sup>*\<^sup>* b (fst (serve_publish_capacity say q1 b))"
  "coordinator_step\<^sup>*\<^sup>* b (fst (serve_set_policy say q2 b))"
  "coordinator_step\<^sup>*\<^sup>* b (fst (serve_submit_requests say q3 b))"
  "coordinator_step\<^sup>*\<^sup>* b (fst (serve_release say q4 b))"
  "coordinator_step\<^sup>*\<^sup>* b (fst (serve_revoke say q5 b))"
  "coordinator_step\<^sup>*\<^sup>* b (fst (serve_fence_publisher say q6 b))"
proof -
  note step = r_into_rtranclp [of coordinator_step, OF coordinator_step.intros(2)] r_into_rtranclp [of coordinator_step, OF coordinator_step.intros(1)]
    r_into_rtranclp [of coordinator_step, OF coordinator_step.intros(8)] r_into_rtranclp [of coordinator_step, OF coordinator_step.intros(9)]
    r_into_rtranclp [of coordinator_step, OF coordinator_step.intros(11)]
  show "coordinator_step\<^sup>*\<^sup>* b (fst (serve_publish_capacity say q1 b))"
    by (auto simp: serve_publish_capacity_def split: sum.split prod.split intro: step(1))
  show "coordinator_step\<^sup>*\<^sup>* b (fst (serve_set_policy say q2 b))"
    by (auto simp: serve_set_policy_def split: sum.split prod.split intro: step(2))
  show "coordinator_step\<^sup>*\<^sup>* b (fst (serve_submit_requests say q3 b))"
    using submit_all_steps by (auto simp: serve_submit_requests_def split: sum.split prod.split) (metis fst_conv)
  show "coordinator_step\<^sup>*\<^sup>* b (fst (serve_release say q4 b))"
    by (auto simp: serve_release_def split: sum.split prod.split intro: step(3))
  show "coordinator_step\<^sup>*\<^sup>* b (fst (serve_revoke say q5 b))"
    by (auto simp: serve_revoke_def split: sum.split prod.split intro: step(4))
  show "coordinator_step\<^sup>*\<^sup>* b (fst (serve_fence_publisher say q6 b))"
    by (auto simp: serve_fence_publisher_def Let_def split: sum.split prod.split intro: step(5))
qed

lemma served_reads [simp]:
  "fst (serve_query_grant say q1 b) = b" "fst (serve_query_accounting say q2 b) = b" "fst (serve_explain say q3 b) = b"
  by (simp_all add: serve_query_grant_def serve_query_accounting_def serve_explain_def Let_def split: sum.split)

lemma served_round:
  assumes "coherent (fst (serve_arbitrate say q b))"
  shows "coordinator_step\<^sup>*\<^sup>* b (fst (serve_arbitrate say q b))"
proof (cases q)
  case (Inr x)
  obtain b' w where w: "broker_arbitrate (aq_target x) b = (b', w)" by fastforce
  then have "fst (serve_arbitrate say q b) = b'" using Inr by (simp add: serve_arbitrate_def split: sum.split)
  with coordinator_step.intros(7) [OF w] assms show ?thesis by (simp add: r_into_rtranclp)
qed (simp add: serve_arbitrate_def)

lemma operation_broker:
  "operation dec act enc type say n p (sv, c) = (rest, (sv', c'), going) \<Longrightarrow>
    sv_broker sv' = fst (act (say (cn_replies c)) (snd (dec p)) (sv_broker sv))"
  by (auto simp: operation_def sent_def split: prod.splits)

lemma operation_steps:
  assumes "\<And>say q b. coordinator_step\<^sup>*\<^sup>* b (fst (act say q b))" and "operation dec act enc type say n p (sv, c) = (rest, (sv', c'), going)"
  shows "coordinator_step\<^sup>*\<^sup>* (sv_broker sv) (sv_broker sv')"
  using assms(1) unfolding operation_broker [OF assms(2)] .

lemma operation_reads:
  assumes "\<And>say q b. fst (act say q b) = b" and "operation dec act enc type say n p (sv, c) = (rest, (sv', c'), going)"
  shows "coordinator_step\<^sup>*\<^sup>* (sv_broker sv) (sv_broker sv')"
  unfolding operation_broker [OF assms(2)] assms(1) by (rule rtranclp.rtrancl_refl)

lemma dispatch_steps:
  assumes "dispatch t say n p (sv, c) = (rest, (sv', c'), going)" and "coherent (sv_broker sv')"
  shows "coordinator_step\<^sup>*\<^sup>* (sv_broker sv) (sv_broker sv')"
proof (cases t)
  case MT_Hello
  with assms show ?thesis by (auto simp: handle_hello_def sent_def Let_def split: prod.splits option.splits sum.splits)
next
  case MT_Shutdown
  with assms show ?thesis by (auto simp: handle_shutdown_def split: prod.splits)
next
  case MT_Arbitrate
  with assms(1) have "operation decode_arbitrate_request serve_arbitrate encode_arbitrate_ack MT_ArbitrateAck say n p (sv, c)
      = (rest, (sv', c'), going)" by simp
  from operation_broker [OF this] assms(2) show ?thesis by (simp add: served_round)
next
  case MT_PublishCapacity
  show ?thesis using assms(1) unfolding MT_PublishCapacity dispatch.simps by (rule operation_steps [OF served_steps(1)])
next
  case MT_SetPolicy
  show ?thesis using assms(1) unfolding MT_SetPolicy dispatch.simps by (rule operation_steps [OF served_steps(2)])
next
  case MT_SubmitRequests
  show ?thesis using assms(1) unfolding MT_SubmitRequests dispatch.simps by (rule operation_steps [OF served_steps(3)])
next
  case MT_Release
  show ?thesis using assms(1) unfolding MT_Release dispatch.simps by (rule operation_steps [OF served_steps(4)])
next
  case MT_Revoke
  show ?thesis using assms(1) unfolding MT_Revoke dispatch.simps by (rule operation_steps [OF served_steps(5)])
next
  case MT_FencePublisher
  show ?thesis using assms(1) unfolding MT_FencePublisher dispatch.simps by (rule operation_steps [OF served_steps(6)])
next
  case MT_QueryGrant
  show ?thesis using assms(1) unfolding MT_QueryGrant dispatch.simps by (rule operation_reads [OF served_reads(1)])
next
  case MT_QueryAccounting
  show ?thesis using assms(1) unfolding MT_QueryAccounting dispatch.simps by (rule operation_reads [OF served_reads(2)])
next
  case MT_Explain
  show ?thesis using assms(1) unfolding MT_Explain dispatch.simps by (rule operation_reads [OF served_reads(3)])
qed (use assms in \<open>auto simp: handle_other_def\<close>)

lemma serve_frame_steps:
  assumes "serve_frame say m (sv, c) = ((sv', c'), going)" and "coherent (sv_broker sv')"
  shows "coordinator_step\<^sup>*\<^sup>* (sv_broker sv) (sv_broker sv')"
proof -
  obtain t n p where m: "m = (t, n, p)" by (cases m)
  let ?sv = "sv\<lparr>sv_handled := sv_handled sv + 1\<rparr>"
  show ?thesis
  proof (cases "\<not> cn_greeted c \<and> t \<noteq> MT_Hello")
    case True
    with assms m show ?thesis by (auto simp: serve_frame_def Let_def)
  next
    case False
    obtain rest sv1 c1 going1 where d: "dispatch t say n p (?sv, c) = (rest, (sv1, c1), going1)" by (metis prod.exhaust)
    with False assms(1) m have "sv' = sv1"
      by (auto simp: serve_frame_def Let_def simp del: dispatch.simps split: sum.splits if_splits)
    with dispatch_steps [OF d] assms(2) show ?thesis by simp
  qed
qed

section \<open>The server as a whole\<close>

text \<open>Handlers run in threads of their own; between two frames of a chunk another handler may run.  A
  handler is its connection and whether it is draining the frames of a chunk.\<close>

record system =
  sy_server :: server
  sy_listener :: listener
  sy_handlers :: "(connection \<times> bool) list"

definition without :: "nat \<Rightarrow> 'a list \<Rightarrow> 'a list" where
  "without i xs = take i xs @ drop (Suc i) xs"

inductive system_step :: "system \<Rightarrow> system \<Rightarrow> bool" where
  accepting: "\<not> sv_stopping sv \<Longrightarrow> accept_connection (accept_one ready accepted sends l) sv = (sv', opt) \<Longrightarrow>
    system_step \<lparr> sy_server = sv, sy_listener = l, sy_handlers = hs \<rparr>
      \<lparr> sy_server = sv', sy_listener = l, sy_handlers = hs @ (case opt of None \<Rightarrow> [] | Some c \<Rightarrow> [(c, False)]) \<rparr>"
| fed: "i < length hs \<Longrightarrow> hs ! i = (c, False) \<Longrightarrow> \<not> sv_stopping sv \<Longrightarrow>
    wait_readable (ar_ready (a :: arrival)) (cn_socket c) = Inr True \<Longrightarrow>
    receive_some (vo_receive_buffer_bytes (sv_options sv)) (ar_read a) (ar_stored a) (cn_socket c) = Inr received \<Longrightarrow>
    received \<noteq> [] \<Longrightarrow> decoder_feed received (cn_decoder c) = (d, success) \<Longrightarrow>
    system_step \<lparr> sy_server = sv, sy_listener = l, sy_handlers = hs \<rparr>
      \<lparr> sy_server = sv, sy_listener = l, sy_handlers = hs[i := (c\<lparr>cn_decoder := d\<rparr>, True)] \<rparr>"
| framed: "i < length hs \<Longrightarrow> hs ! i = (c, True) \<Longrightarrow> decoder_next (cn_decoder c) = (d, Inr (Some m)) \<Longrightarrow>
    serve_frame say m (sv, c\<lparr>cn_decoder := d\<rparr>) = ((sv', c'), going) \<Longrightarrow>
    system_step \<lparr> sy_server = sv, sy_listener = l, sy_handlers = hs \<rparr>
      \<lparr> sy_server = sv', sy_listener = l, sy_handlers = hs[i := (c', going)] \<rparr>"
| drained: "i < length hs \<Longrightarrow> hs ! i = (c, True) \<Longrightarrow> decoder_next (cn_decoder c) = (d, Inr None) \<Longrightarrow>
    system_step \<lparr> sy_server = sv, sy_listener = l, sy_handlers = hs \<rparr>
      \<lparr> sy_server = sv, sy_listener = l, sy_handlers = hs[i := (c\<lparr>cn_decoder := d\<rparr>, False)] \<rparr>"
| closed: "i < length hs \<Longrightarrow> hs ! i = (c, draining) \<Longrightarrow> finish (sv, c') = (sv', c'') \<Longrightarrow>
    system_step \<lparr> sy_server = sv, sy_listener = l, sy_handlers = hs \<rparr>
      \<lparr> sy_server = sv', sy_listener = l, sy_handlers = without i hs \<rparr>"
| stopped: "stop_request (sv, l) = (sv', l') \<Longrightarrow>
    system_step \<lparr> sy_server = sv, sy_listener = l, sy_handlers = hs \<rparr>
      \<lparr> sy_server = sv', sy_listener = l', sy_handlers = hs \<rparr>"

inductive_cases system_stepE: "system_step s s'"


abbreviation system_of :: "server \<Rightarrow> listener \<Rightarrow> (connection \<times> bool) list \<Rightarrow> system" where
  "system_of sv l hs \<equiv> \<lparr> sy_server = sv, sy_listener = l, sy_handlers = hs \<rparr>"

text \<open>The budget: every running handler is counted, and the count never exceeds the configured maximum.\<close>

definition within_budget :: "system \<Rightarrow> bool" where
  "within_budget s \<longleftrightarrow> sv_active (sy_server s) = length (sy_handlers s) \<and>
    length (sy_handlers s) \<le> vo_max_connections (sv_options (sy_server s))"

lemma operation_shared:
  "operation dec act enc type say n p (sv, c) = (rest, (sv', c'), going) \<Longrightarrow>
    sv_active sv' = sv_active sv \<and> sv_options sv' = sv_options sv \<and> (sv_stopping sv \<longrightarrow> sv_stopping sv')"
  by (auto simp: operation_def sent_def split: prod.splits)

lemma dispatch_shared:
  assumes "dispatch t say n p (sv, c) = (rest, (sv', c'), going)"
  shows "sv_active sv' = sv_active sv \<and> sv_options sv' = sv_options sv \<and> (sv_stopping sv \<longrightarrow> sv_stopping sv')"
  by (cases t; use assms in \<open>simp only: dispatch.simps\<close>; (erule operation_shared)?)
    (auto simp: handle_hello_def handle_shutdown_def handle_other_def sent_def Let_def split: prod.splits option.splits sum.splits)

lemma serve_frame_shared:
  assumes "serve_frame say m (sv, c) = ((sv', c'), going)"
  shows "sv_active sv' = sv_active sv \<and> sv_options sv' = sv_options sv \<and> (sv_stopping sv \<longrightarrow> sv_stopping sv')"
proof -
  obtain t n p where m: "m = (t, n, p)" by (cases m)
  let ?sv = "sv\<lparr>sv_handled := sv_handled sv + 1\<rparr>"
  obtain rest sv1 c1 going1 where d: "dispatch t say n p (?sv, c) = (rest, (sv1, c1), going1)" by (metis prod.exhaust)
  then have "sv' = sv1 \<or> sv' = ?sv"
    using assms m by (auto simp: serve_frame_def Let_def simp del: dispatch.simps split: sum.splits if_splits)
  with dispatch_shared [OF d] show ?thesis by auto
qed

lemma length_without: "i < length xs \<Longrightarrow> length (without i xs) = length xs - 1"
  by (simp add: without_def min_def)

lemma step_budget: "system_step s s' \<Longrightarrow> within_budget s \<Longrightarrow> within_budget s'"
proof (induction rule: system_step.induct)
  case (accepting sv ready accepted sends l sv' opt hs)
  then show ?case by (auto simp: within_budget_def accept_connection_def split: sum.splits if_splits)
next
  case (framed i hs c d m say sv sv' c' going l)
  from serve_frame_shared [OF framed(4)] framed(5) show ?case by (simp add: within_budget_def)
next
  case (closed i hs c draining sv c' sv' c'' l)
  then show ?case by (auto simp: within_budget_def finish_def length_without)
qed (auto simp: within_budget_def stop_request_def)

lemma run_budget: "system_step\<^sup>*\<^sup>* s s' \<Longrightarrow> within_budget s \<Longrightarrow> within_budget s'"
  by (induction rule: rtranclp_induct) (auto intro: step_budget)

lemma step_options: "system_step s s' \<Longrightarrow> sv_options (sy_server s') = sv_options (sy_server s)"
  by (induction rule: system_step.induct)
    (auto simp: accept_connection_def finish_def stop_request_def dest: serve_frame_shared split: sum.splits if_splits)

lemma run_options: "system_step\<^sup>*\<^sup>* s s' \<Longrightarrow> sv_options (sy_server s') = sv_options (sy_server s)"
  by (induction rule: rtranclp_induct) (auto dest: step_options)

lemma started_budget:
  assumes "start b options calls = Inr (sv, l)" and "system_step\<^sup>*\<^sup>* (system_of sv l []) s"
  shows "length (sy_handlers s) = sv_active (sy_server s) \<and> length (sy_handlers s) \<le> vo_max_connections (sv_options (sy_server s)) \<and>
    length (sy_handlers s) \<le> 128"
proof -
  have start: "within_budget (system_of sv l [])" "vo_max_connections (sv_options sv) \<le> 128"
    using assms(1) by (auto simp: start_def bindr_def within_budget_def kMaxConnections_def split: sum.splits if_splits)
  have "sv_options (sy_server s) = sv_options sv" using run_options [OF assms(2)] by simp
  with run_budget [OF assms(2) start(1)] start(2) show ?thesis by (simp add: within_budget_def)
qed

lemma step_broker:
  "system_step s s' \<Longrightarrow> coherent (sv_broker (sy_server s')) \<Longrightarrow>
    coordinator_step\<^sup>*\<^sup>* (sv_broker (sy_server s)) (sv_broker (sy_server s'))"
proof (induction rule: system_step.induct)
  case (framed i hs c d m say sv sv' c' going l)
  from serve_frame_steps [OF framed(4)] framed(5) show ?case by simp
qed (auto simp: accept_connection_def finish_def stop_request_def split: sum.splits if_splits)

text \<open>Steps after which the tables of the broker are coherent; only a round that fails half way leaves them otherwise.\<close>

definition sound_step :: "system \<Rightarrow> system \<Rightarrow> bool" where
  "sound_step s s' \<longleftrightarrow> system_step s s' \<and> coherent (sv_broker (sy_server s'))"

lemma run_broker:
  "sound_step\<^sup>*\<^sup>* s s' \<Longrightarrow> coordinator_step\<^sup>*\<^sup>* (sv_broker (sy_server s)) (sv_broker (sy_server s'))"
proof (induction rule: rtranclp_induct)
  case (step t u)
  then show ?case using step_broker [of t u] by (auto simp: sound_step_def)
qed simp

text \<open>A boot that has been fenced is not greeted any more, on any connection.\<close>

definition greeted_under :: "boot_id \<Rightarrow> system \<Rightarrow> bool" where
  "greeted_under boot s \<longleftrightarrow> (\<exists>(c, draining) \<in> set (sy_handlers s). cn_greeted c \<and> cn_boot c = boot)"

definition shut_out :: "boot_id \<Rightarrow> system \<Rightarrow> bool" where
  "shut_out boot s \<longleftrightarrow> coherent (sv_broker (sy_server s)) \<and> boot_hash boot \<in> br_fence_hashes (sv_broker (sy_server s)) \<and>
    \<not> greeted_under boot s"

lemma nth_member: "i < length xs \<Longrightarrow> xs ! i = x \<Longrightarrow> x \<in> set xs"
  by auto

lemma set_without: "set (without i xs) \<subseteq> set xs"
  by (auto simp: without_def dest: in_set_takeD in_set_dropD)

lemma step_shut_out: "sound_step s s' \<Longrightarrow> shut_out boot s \<Longrightarrow> shut_out boot s'"
proof -
  assume a: "sound_step s s'" "shut_out boot s"
  then have step: "system_step s s'" and c': "coherent (sv_broker (sy_server s'))" by (simp_all add: sound_step_def)
  have "advances (sv_broker (sy_server s)) (sv_broker (sy_server s'))"
    using step_broker [OF step c'] by (rule run_advances)
  then have fence: "boot_hash boot \<in> br_fence_hashes (sv_broker (sy_server s'))"
    using a(2) by (auto simp: advances_def shut_out_def)
  from step a(2) have "\<not> greeted_under boot s'"
  proof (induction rule: system_step.induct)
    case (accepting sv ready accepted sends l sv' opt hs)
    then show ?case by (auto simp: shut_out_def greeted_under_def accept_connection_def new_connection_def split: sum.splits if_splits)
  next
    case (framed i hs c d m say sv sv' c' going l)
    from framed(1,2) have "(c, True) \<in> set hs" by (rule nth_member)
    with framed(5) have old: "\<not> (cn_greeted c \<and> cn_boot c = boot)" by (auto simp: shut_out_def greeted_under_def)
    from serve_frame_peer [OF framed(4)] have "\<not> (cn_greeted c' \<and> cn_boot c' = boot)"
    proof
      assume "same_peer (c\<lparr>cn_decoder := d\<rparr>) c'"
      with old show ?thesis by (simp add: same_peer_def)
    next
      assume "greeted_by sv m c'"
      with framed(5) show ?thesis by (auto simp: greeted_by_def may_greet_def is_fenced_def shut_out_def split: if_splits)
    qed
    with framed show ?case by (auto simp: shut_out_def greeted_under_def dest!: set_update_subset_insert [THEN subsetD])
  next
    case (closed i hs c draining sv c' sv' c'' l)
    then show ?case using set_without [of i hs] by (auto simp: shut_out_def greeted_under_def)
  qed (fastforce simp: shut_out_def greeted_under_def stop_request_def dest!: set_update_subset_insert [THEN subsetD] dest: nth_member)+
  with fence c' show "shut_out boot s'" by (simp add: shut_out_def)
qed

lemma run_shut_out: "sound_step\<^sup>*\<^sup>* s s' \<Longrightarrow> shut_out boot s \<Longrightarrow> shut_out boot s'"
  by (induction rule: rtranclp_induct) (auto intro: step_shut_out)

section \<open>The connection loop is a run of the system\<close>

lemma without_update [simp]: "without i (xs[i := x]) = without i xs"
  by (simp add: without_def)

lemma frames_run:
  "serve_frames say (sv, c) = ((sv', c'), going_on) \<Longrightarrow> i < length hs \<Longrightarrow> hs ! i = (c, True) \<Longrightarrow>
    system_step\<^sup>*\<^sup>* (system_of sv l hs) (system_of sv' l (if going_on then hs[i := (c', False)] else without i hs))"
proof (induction say "(sv, c)" arbitrary: sv c hs rule: serve_frames.induct)
  case (1 say sv c)
  obtain d r where r: "decoder_next (cn_decoder c) = (d, r)" by fastforce
  show ?case
  proof (cases r)
    case (Inl e)
    then have "finish (sv, fst (send_error 0 (code_of e) (say (cn_replies c) 0) (c\<lparr>cn_decoder := d\<rparr>))) = (sv', c')" "\<not> going_on"
      using "1.prems"(1) r by (simp_all add: serve_frames.simps [of say sv])
    then show ?thesis using system_step.closed [OF "1.prems"(2,3)] by (simp add: r_into_rtranclp)
  next
    case (Inr opt)
    show ?thesis
    proof (cases opt)
      case None
      with Inr r "1.prems" show ?thesis
        by (auto simp: serve_frames.simps [of say sv] intro: r_into_rtranclp system_step.drained)
    next
      case (Some m)
      obtain sv1 c1 going where f: "serve_frame say m (sv, c\<lparr>cn_decoder := d\<rparr>) = ((sv1, c1), going)" by (metis prod.exhaust)
      have step: "system_step (system_of sv l hs) (system_of sv1 l (hs[i := (c1, going)]))"
        using "1.prems"(2,3) r Inr Some f by (auto intro: system_step.framed)
      show ?thesis
      proof (cases going)
        case True
        with "1.prems" r Inr Some f have "serve_frames say (sv1, c1) = ((sv', c'), going_on)" by (simp add: serve_frames.simps [of say sv])
        from "1.hyps" [OF r [symmetric] Inr Some f [symmetric] True this, of "hs[i := (c1, True)]"] "1.prems"(2) step True
        show ?thesis by (cases going_on) (auto intro: converse_rtranclp_into_rtranclp)
      next
        case False
        with "1.prems" r Inr Some f have "sv' = sv1" "c' = c1" "going_on" by (simp_all add: serve_frames.simps [of say sv])
        with step False show ?thesis by (simp add: r_into_rtranclp)
      qed
    qed
  qed
qed

lemma arrival_run:
  assumes "serve_arrival say a (sv, c) = ((sv', c'), going_on)" and "i < length hs" and "hs ! i = (c, False)" and "\<not> sv_stopping sv"
  shows "system_step\<^sup>*\<^sup>* (system_of sv l hs) (system_of sv' l (if going_on then hs[i := (c', False)] else without i hs))"
proof -
  have close: "system_step\<^sup>*\<^sup>* (system_of sv l hs) (system_of sv' l (without i hs))" if "finish (sv, x) = (sv', c')" for x
    using system_step.closed [OF assms(2,3) that] by (rule r_into_rtranclp)
  have same: "hs[i := (c, False)] = hs" using assms(3) by (metis list_update_id)
  show ?thesis
  proof (cases "\<exists>received d. wait_readable (ar_ready a) (cn_socket c) = Inr True \<and>
      receive_some (vo_receive_buffer_bytes (sv_options sv)) (ar_read a) (ar_stored a) (cn_socket c) = Inr received \<and>
      received \<noteq> [] \<and> decoder_feed received (cn_decoder c) = (d, success)")
    case True
    then obtain received d where w: "wait_readable (ar_ready a) (cn_socket c) = Inr True"
      "receive_some (vo_receive_buffer_bytes (sv_options sv)) (ar_read a) (ar_stored a) (cn_socket c) = Inr received"
      "received \<noteq> []" "decoder_feed received (cn_decoder c) = (d, success)" by blast
    then have "serve_frames say (sv, c\<lparr>cn_decoder := d\<rparr>) = ((sv', c'), going_on)" using assms(1) by (simp add: serve_arrival_def)
    from frames_run [OF this, of i "hs[i := (c\<lparr>cn_decoder := d\<rparr>, True)]" l] assms(2)
      system_step.fed [OF assms(2,3,4) w, of l] show ?thesis
      by (cases going_on) (auto intro: converse_rtranclp_into_rtranclp)
  next
    case False
    with assms(1) close same show ?thesis
      by (auto simp: serve_arrival_def split: sum.splits if_splits prod.splits)
  qed
qed

lemma connection_run:
  assumes "serve_connection say arrivals (sv, c) = ((sv', c'), going_on)" and "i < length hs" and "hs ! i = (c, False)"
  shows "system_step\<^sup>*\<^sup>* (system_of sv l hs) (system_of sv' l (if going_on then hs[i := (c', False)] else without i hs))"
  using assms
proof (induction arrivals arbitrary: sv c hs)
  case Nil
  have "hs[i := (c, False)] = hs" using Nil.prems(3) by (metis list_update_id)
  with Nil show ?case
    by (auto simp: serve_connection.simps [of say "[]"] intro: r_into_rtranclp system_step.closed split: if_splits)
next
  case (Cons a later)
  show ?case
  proof (cases "sv_stopping sv")
    case True
    with Cons.prems show ?thesis
      by (auto simp: serve_connection.simps [of say "a # later"] intro: r_into_rtranclp system_step.closed)
  next
    case False
    obtain sv1 c1 on where a: "serve_arrival say a (sv, c) = ((sv1, c1), on)" by (metis prod.exhaust)
    note first = arrival_run [OF a Cons.prems(2,3) False]
    show ?thesis
    proof (cases on)
      case True
      with Cons.prems(1) False a have "serve_connection say later (sv1, c1) = ((sv', c'), going_on)"
        by (simp add: serve_connection.simps [of say "a # later"])
      from Cons.IH [OF this, of "hs[i := (c1, False)]"] Cons.prems(2) first True show ?thesis
        by (cases going_on) (auto intro: rtranclp_trans)
    next
      case off: False
      with Cons.prems(1) False a have "sv' = sv1" "\<not> going_on" by (simp_all add: serve_connection.simps [of say "a # later"])
      with first off show ?thesis by simp
    qed
  qed
qed

section \<open>Stopping\<close>

text \<open>Once the server is stopping, letting every handler reach the head of its loop brings the active count to
  zero, so \<open>stop\<close> returns.\<close>

lemma stop_drains:
  "within_budget (system_of sv l hs) \<Longrightarrow> sv_stopping sv \<Longrightarrow>
    \<exists>sv'. system_step\<^sup>*\<^sup>* (system_of sv l hs) (system_of sv' l []) \<and> stop_returns sv'"
proof (induction hs arbitrary: sv)
  case Nil
  then show ?case by (auto simp: within_budget_def stop_returns_def)
next
  case (Cons h hs)
  obtain c draining where h: "h = (c, draining)" by fastforce
  let ?sv = "fst (finish (sv, c))"
  have "system_step (system_of sv l (h # hs)) (system_of ?sv l (without 0 (h # hs)))"
    by (rule system_step.closed [of 0 _ c draining sv c _ "snd (finish (sv, c))"]) (simp_all add: h)
  moreover have "within_budget (system_of ?sv l hs)" "sv_stopping ?sv"
    using Cons.prems by (auto simp: within_budget_def finish_def)
  ultimately show ?case using Cons.IH [of ?sv] by (auto simp: without_def intro: converse_rtranclp_into_rtranclp)
qed

end
