(* ===== verification/Remote_Calls.thy ===== *)
theory Remote_Calls
  imports Server_Laws
begin

text \<open>
  A call of the client is a call of the broker.  The client frames its request, the server decodes it from
  whatever chunks the transport delivers, runs the operation and frames the acknowledgement, and the
  client decodes that from whatever chunks it receives.  The locale \<open>rpc\<close> proves the composition
  once for every operation that has a codec for its request and its acknowledgement; it is
  interpreted for the ten operations of the protocol.
\<close>

section \<open>Delivery\<close>

text \<open>A poll that times out, or one that delivers a chunk that fits the receive buffer.\<close>

definition arrives :: "nat \<Rightarrow> arrival \<Rightarrow> bool" where
  "arrives capacity a \<longleftrightarrow> ar_ready a = 0 \<or>
    0 < ar_ready a \<and> ar_stored a \<noteq> [] \<and> ar_read a = int (length (ar_stored a)) \<and>
    length (ar_stored a) \<le> capacity \<and> length (ar_stored a) \<le> kChunkBytes"

definition delivered :: "arrival list \<Rightarrow> bytes" where
  "delivered as = concat (map (\<lambda>a. if ar_ready a = 0 then [] else ar_stored a) as)"

lemma delivered_simps [simp]:
  "delivered [] = []" "delivered (a # as) = (if ar_ready a = 0 then [] else ar_stored a) @ delivered as"
  by (simp_all add: delivered_def)

lemma receive_arrived:
  "arrives capacity a \<Longrightarrow> ar_ready a \<noteq> 0 \<Longrightarrow> socket_valid s \<Longrightarrow>
    wait_readable (ar_ready a) s = Inr True \<and> receive_some capacity (ar_read a) (ar_stored a) s = Inr (ar_stored a) \<and> ar_stored a \<noteq> []"
  by (auto simp: arrives_def wait_readable_def receive_some_def Let_def min_def)

lemma wait_timeout: "socket_valid s \<Longrightarrow> wait_readable 0 s = Inr False"
  by (simp add: wait_readable_def)

definition idle :: "frame_decoder \<Rightarrow> bool" where
  "idle d \<longleftrightarrow> \<not> fd_failed d \<and> pending d = []"

lemma idle_reset: "idle decoder_reset"
  by (simp add: idle_def decoder_reset_def pending_def)

lemma idle_next: "idle d \<Longrightarrow> decoder_next d = (d, Inr None)"
  by (simp add: idle_def decoder_next_def length_pending kFrameHeaderBytes_def)

text \<open>One more chunk of a frame: either the frame is still incomplete or it is complete and nothing is left.\<close>

lemma chunk_cases:
  assumes "\<not> fd_failed d" and "pending d @ chunk @ future = frame m" and "frame_ok m"
  obtains d1 where "decoder_feed chunk d = (d1, success)" "\<not> fd_failed d1" "pending d1 = pending d @ chunk"
    "length (pending d1) < length (frame m)" "decoder_next d1 = (d1, Inr None)"
  | d1 d2 where "decoder_feed chunk d = (d1, success)" "decoder_next d1 = (d2, Inr (Some m))" "idle d2" "future = []"
proof -
  obtain t n p where m: "m = (t, n, p)" by (cases m)
  have len: "length (pending d) + length chunk + length future = kFrameHeaderBytes + length p"
    using arg_cong [OF assms(2), of length] by (simp add: m length_frame)
  with assms(3) have "length (pending d) + length chunk \<le> kFrameHeaderBytes + kMaxPayloadBytes"
    by (simp add: frame_ok_def m)
  from feed_pending [OF assms(1) this] obtain d1 where d1: "decoder_feed chunk d = (d1, success)" "\<not> fd_failed d1"
    "pending d1 = pending d @ chunk" by blast
  show thesis
  proof (cases "future = []")
    case True
    then have "pending d1 = frame (t, n, p) @ []" using d1(3) assms(2) by (simp add: m)
    from next_complete [OF d1(2) this] assms(3) obtain d2 where "decoder_next d1 = (d2, Inr (Some m))" "idle d2"
      by (auto simp: m idle_def)
    with d1(1) True that(2) show thesis by blast
  next
    case False
    then have short: "length (pending d1) < length (frame m)" using len d1(3) by (cases future) (simp_all add: m length_frame)
    have "decoder_next d1 = (d1, Inr None)"
      by (rule next_incomplete [of d1 future t n p "[]"]) (use d1 assms short in \<open>simp_all add: m\<close>)
    with d1 short that(1) show thesis by blast
  qed
qed

section \<open>The server receives a frame\<close>

lemma serve_quiet:
  assumes "list_all (\<lambda>a. ar_ready a = 0) as" and "socket_valid (cn_socket c)" and "\<not> sv_stopping sv"
  shows "serve_connection say as (sv, c) = ((sv, c), True)"
  using assms
  by (induction as) (simp_all add: serve_connection.simps [of say "[]"] serve_connection.simps [of say "_ # _"]
      serve_arrival_def wait_timeout)

lemma quiet_arrivals:
  "list_all (arrives capacity) as \<Longrightarrow> delivered as = [] \<Longrightarrow> list_all (\<lambda>a. ar_ready a = 0) as"
  by (induction as) (auto simp: arrives_def split: if_splits)

lemma serve_delivered:
  assumes "list_all (arrives (vo_receive_buffer_bytes (sv_options sv))) as" and "\<not> fd_failed d"
    and "pending d @ delivered as = frame m" and "length (pending d) < length (frame m)" and "frame_ok m"
    and "socket_valid (cn_socket c)" and "\<not> sv_stopping sv" and "socket_valid (cn_socket c')" and "\<not> sv_stopping sv'"
    and serve: "\<And>d. serve_frame say m (sv, c\<lparr>cn_decoder := d\<rparr>) = ((sv', c'\<lparr>cn_decoder := d\<rparr>), True)"
  shows "\<exists>d'. idle d' \<and> serve_connection say as (sv, c\<lparr>cn_decoder := d\<rparr>) = ((sv', c'\<lparr>cn_decoder := d'\<rparr>), True)"
  using assms(1-4)
proof (induction as arbitrary: d)
  case (Cons a as)
  note one = serve_connection.simps [of say "a # as"]
  show ?case
  proof (cases "ar_ready a = 0")
    case True
    with Cons.prems assms(6,7) Cons.IH [of d] show ?thesis by (simp add: one serve_arrival_def wait_timeout)
  next
    case False
    from Cons.prems(1) have "arrives (vo_receive_buffer_bytes (sv_options sv)) a" by simp
    note got = receive_arrived [OF this False assms(6)]
    have "pending d @ ar_stored a @ delivered as = frame m" using Cons.prems(3) False by simp
    from Cons.prems(2) this assms(5) show ?thesis
    proof (cases rule: chunk_cases)
      case (1 d1)
      have "serve_frames say (sv, c\<lparr>cn_decoder := d1\<rparr>) = ((sv, c\<lparr>cn_decoder := d1\<rparr>), True)"
        using 1 by (simp add: serve_frames.simps)
      with 1 got assms(7) have "serve_connection say (a # as) (sv, c\<lparr>cn_decoder := d\<rparr>) = serve_connection say as (sv, c\<lparr>cn_decoder := d1\<rparr>)"
        by (simp add: one serve_arrival_def)
      with Cons.IH [of d1] Cons.prems 1 False show ?thesis by simp
    next
      case (2 d1 d2)
      have "serve_frames say (sv', c'\<lparr>cn_decoder := d2\<rparr>) = ((sv', c'\<lparr>cn_decoder := d2\<rparr>), True)"
        using idle_next [OF 2(3)] by (simp add: serve_frames.simps)
      then have "serve_frames say (sv, c\<lparr>cn_decoder := d1\<rparr>) = ((sv', c'\<lparr>cn_decoder := d2\<rparr>), True)"
        using 2 serve [of d2] by (simp add: serve_frames.simps [of say sv])
      with 2 got assms(7) have "serve_connection say (a # as) (sv, c\<lparr>cn_decoder := d\<rparr>) = serve_connection say as (sv', c'\<lparr>cn_decoder := d2\<rparr>)"
        by (simp add: one serve_arrival_def)
      moreover have "list_all (\<lambda>a. ar_ready a = 0) as" using quiet_arrivals Cons.prems(1) 2(4) by auto
      ultimately show ?thesis using serve_quiet [of as "c'\<lparr>cn_decoder := d2\<rparr>" sv'] assms(8,9) 2(3) by auto
    qed
  qed
qed simp

section \<open>The client receives a frame\<close>

lemma await_delivered:
  assumes "list_all (arrives kClientBufferBytes) as" and "\<not> fd_failed (cl_decoder cl)"
    and "pending (cl_decoder cl) @ delivered as = frame m" and "decoder_next (cl_decoder cl) = (cl_decoder cl, Inr None)"
    and "length (pending (cl_decoder cl)) < length (frame m)" and "frame_ok m" and "socket_valid (cl_socket cl)"
  shows "\<exists>d'. idle d' \<and> await dec ack_type n as cl = (cl\<lparr>cl_decoder := d'\<rparr>, Some (reply_value dec ack_type n m))"
  using assms
proof (induction as arbitrary: cl)
  case (Cons a as)
  note one = await.simps [of dec ack_type n "a # as" cl]
  show ?case
  proof (cases "ar_ready a = 0")
    case True
    with Cons show ?thesis by (simp add: one wait_timeout)
  next
    case False
    from Cons.prems(1) have "arrives kClientBufferBytes a" by simp
    note got = receive_arrived [OF this False Cons.prems(7)]
    have "pending (cl_decoder cl) @ ar_stored a @ delivered as = frame m" using Cons.prems(3) False by simp
    from Cons.prems(2) this Cons.prems(6) show ?thesis
    proof (cases rule: chunk_cases)
      case (1 d1)
      have "await dec ack_type n (a # as) cl = await dec ack_type n as (cl\<lparr>cl_decoder := d1\<rparr>)"
        using 1 got Cons.prems(4) by (simp add: one)
      with Cons.IH [of "cl\<lparr>cl_decoder := d1\<rparr>"] Cons.prems 1 False show ?thesis by simp
    next
      case (2 d1 d2)
      then have "await dec ack_type n (a # as) cl = (cl\<lparr>cl_decoder := d2\<rparr>, Some (reply_value dec ack_type n m))"
        using got Cons.prems(4) by (simp add: one await.simps [of dec ack_type n as])
      with 2(3) show ?thesis by blast
    qed
  qed
qed simp

section \<open>Remote calls\<close>

locale rpc = request: codec enc_q dec_q ok_q + reply: codec enc_a dec_a ok_a
  for enc_q :: "'q \<Rightarrow> bytes" and dec_q ok_q and enc_a :: "'a \<Rightarrow> bytes" and dec_a ok_a +
  fixes act :: "wording \<Rightarrow> 'q result \<Rightarrow> broker \<Rightarrow> broker \<times> 'a" and request_type ack_type :: message_type
  assumes dispatched: "dispatch request_type = operation dec_q act enc_a ack_type"
    and no_error: "ack_type \<noteq> MT_ErrorResponse"
begin

lemma serve_request:
  assumes "ok_q q" and "act (say (cn_replies c)) (Inr q) (sv_broker sv) = (b', ack)" and "cn_greeted c"
    and "frame_ok (ack_type, n, enc_a ack)" and "send_all (frame (ack_type, n, enc_a ack)) (cn_socket c) = (s', success)"
  shows "serve_frame say (request_type, n, enc_q q) (sv, c) =
    ((sv\<lparr>sv_handled := sv_handled sv + 1, sv_broker := b'\<rparr>, c\<lparr>cn_socket := s', cn_replies := Suc (cn_replies c)\<rparr>), True)"
  using assms request.whole [of q]
  by (simp add: serve_frame_def dispatched operation_def sent_def send_ack_def send_message_def encode_frame_ok expect_end_def Let_def)

lemma reply_decodes: "ok_a ack \<Longrightarrow> reply_value dec_a ack_type n (ack_type, n, enc_a ack) = Inr ack"
  using reply.payload_exact [of "enc_a ack" ack] no_error by (simp add: reply_value_def)

lemma remote_call:
  fixes sv :: server and c :: connection and cl :: client and up down :: "arrival list"
  defines "n \<equiv> cl_correlation cl + 1"
  assumes results: "ok_q q" "act (say (cn_replies c)) (Inr q) (sv_broker sv) = (b', ack)" "ok_a ack"
    and size: "length (enc_q q) \<le> kMaxPayloadBytes" "length (enc_a ack) \<le> kMaxPayloadBytes"
    and server: "cn_greeted c" "\<not> sv_stopping sv" "idle (cn_decoder c)" "socket_valid (cn_socket c)"
      "sends_through (kFrameHeaderBytes + length (enc_a ack)) (cn_socket c)"
    and client: "idle (cl_decoder cl)" "socket_valid (cl_socket cl)" "sends_through (kFrameHeaderBytes + length (enc_q q)) (cl_socket cl)"
    and wire: "list_all (arrives (vo_receive_buffer_bytes (sv_options sv))) up" "list_all (arrives kClientBufferBytes) down"
      "delivered up = frame (request_type, n, enc_q q)" "delivered down = frame (ack_type, n, enc_a ack)"
  shows "\<exists>sv' c' cl'. serve_connection say up (sv, c) = ((sv', c'), True) \<and> sv_broker sv' = b' \<and>
    sk_written (cn_socket c') = sk_written (cn_socket c) @ delivered down \<and>
    call request_type ack_type enc_q dec_a q down cl = (cl', Some (Inr ack)) \<and>
    sk_written (cl_socket cl') = sk_written (cl_socket cl) @ delivered up \<and> cl_correlation cl' = n \<and>
    idle (cn_decoder c') \<and> idle (cl_decoder cl')"
proof -
  let ?up = "(request_type, n, enc_q q)" and ?down = "(ack_type, n, enc_a ack)"
  have ok: "frame_ok ?up" "frame_ok ?down" using size by (simp_all add: frame_ok_def)
  have some: "0 < length (frame ?up)" "0 < length (frame ?down)" by (simp_all add: length_frame kFrameHeaderBytes_def)
  obtain s' where s': "send_all (frame ?down) (cn_socket c) = (s', success)" "sk_written s' = sk_written (cn_socket c) @ frame ?down"
      "sk_handle s' = sk_handle (cn_socket c)"
    using send_all_succeeds [OF server(4), of "frame ?down" 0] server(5) by (auto simp: length_frame)
  let ?sv = "sv\<lparr>sv_handled := sv_handled sv + 1, sv_broker := b'\<rparr>"
  let ?c = "c\<lparr>cn_socket := s', cn_replies := Suc (cn_replies c)\<rparr>"
  have "serve_frame say ?up (sv, c\<lparr>cn_decoder := d\<rparr>) = ((?sv, ?c\<lparr>cn_decoder := d\<rparr>), True)" for d
    using serve_request [of q say "c\<lparr>cn_decoder := d\<rparr>" sv b' ack n s'] results server(1) ok(2) s'(1) by simp
  from serve_delivered [OF wire(1) _ _ _ ok(1) server(4,2) _ _ this, of "cn_decoder c"] server s'(3) wire(3) some
  obtain d where d: "idle d" "serve_connection say up (sv, c) = ((?sv, ?c\<lparr>cn_decoder := d\<rparr>), True)"
    by (auto simp: idle_def socket_valid_def)
  obtain s2 where s2: "send_all (frame ?up) (cl_socket cl) = (s2, success)" "sk_written s2 = sk_written (cl_socket cl) @ frame ?up"
      "sk_handle s2 = sk_handle (cl_socket cl)"
    using send_all_succeeds [OF client(2), of "frame ?up" 0] client(3) by (auto simp: length_frame)
  let ?cl = "cl\<lparr>cl_correlation := n, cl_socket := s2\<rparr>"
  obtain d2 where d2: "idle d2" "await dec_a ack_type n down ?cl = (?cl\<lparr>cl_decoder := d2\<rparr>, Some (reply_value dec_a ack_type n ?down))"
    using await_delivered [OF wire(2), of ?cl ?down dec_a ack_type n] client(1,2) s2(3) wire(4) ok(2) some idle_next [OF client(1)]
    by (auto simp: idle_def socket_valid_def)
  have "call request_type ack_type enc_q dec_a q down cl = (?cl\<lparr>cl_decoder := d2\<rparr>, Some (Inr ack))"
    using d2(2) s2(1) reply_decodes [OF results(3)] ok(1) by (simp add: call_def exchange_def encode_frame_ok n_def)
  with d d2(1) s'(2) s2(2) wire(3,4) show ?thesis
    by (intro exI [of _ ?sv] exI [of _ "?c\<lparr>cn_decoder := d\<rparr>"] exI [of _ "?cl\<lparr>cl_decoder := d2\<rparr>"]) simp
qed

end

interpretation publish_rpc: rpc encode_publish_capacity_request decode_publish_capacity_request publish_capacity_request_ok
  encode_publish_capacity_ack decode_publish_capacity_ack publish_capacity_ack_ok serve_publish_capacity MT_PublishCapacity MT_PublishCapacityAck
  by unfold_locales simp_all

interpretation policy_rpc: rpc encode_set_policy_request decode_set_policy_request set_policy_request_ok
  encode_set_policy_ack decode_set_policy_ack set_policy_ack_ok serve_set_policy MT_SetPolicy MT_SetPolicyAck
  by unfold_locales simp_all

interpretation submit_rpc: rpc encode_submit_requests_request decode_submit_requests_request submit_requests_request_ok
  encode_submit_requests_ack decode_submit_requests_ack submit_requests_ack_ok serve_submit_requests MT_SubmitRequests MT_SubmitRequestsAck
  by unfold_locales simp_all

interpretation arbitrate_rpc: rpc encode_arbitrate_request decode_arbitrate_request "\<lambda>_. True"
  encode_arbitrate_ack decode_arbitrate_ack arbitrate_ack_ok serve_arbitrate MT_Arbitrate MT_ArbitrateAck
  by unfold_locales simp_all

interpretation query_rpc: rpc encode_query_grant_request decode_query_grant_request "\<lambda>_. True"
  encode_query_grant_ack decode_query_grant_ack query_grant_ack_ok serve_query_grant MT_QueryGrant MT_QueryGrantAck
  by unfold_locales simp_all

interpretation accounting_rpc: rpc encode_query_accounting_request decode_query_accounting_request "\<lambda>_. True"
  encode_query_accounting_ack decode_query_accounting_ack query_accounting_ack_ok serve_query_accounting MT_QueryAccounting MT_QueryAccountingAck
  by unfold_locales simp_all

interpretation release_rpc: rpc encode_release_request decode_release_request "\<lambda>_. True"
  encode_release_ack decode_release_ack release_ack_ok serve_release MT_Release MT_ReleaseAck
  by unfold_locales simp_all

interpretation revoke_rpc: rpc encode_revoke_request decode_revoke_request revoke_request_ok
  encode_revoke_ack decode_revoke_ack revoke_ack_ok serve_revoke MT_Revoke MT_RevokeAck
  by unfold_locales simp_all

interpretation fence_rpc: rpc encode_fence_publisher_request decode_fence_publisher_request fence_publisher_request_ok
  encode_fence_publisher_ack decode_fence_publisher_ack fence_publisher_ack_ok serve_fence_publisher MT_FencePublisher MT_FencePublisherAck
  by unfold_locales simp_all

interpretation explain_rpc: rpc encode_explain_request decode_explain_request "\<lambda>_. True"
  encode_explain_ack decode_explain_ack explain_ack_ok serve_explain MT_Explain MT_ExplainAck
  by unfold_locales simp_all

section \<open>A remote release\<close>

definition released_ack :: "release_outcome \<Rightarrow> release_ack" where
  "released_ack res = \<lparr> la_status = ok_status ''released'', la_state = rl_state res,
     la_already_released = rl_already_released res, la_released = rl_released res \<rparr>"

lemma literal_ok: "length s \<le> 512 \<Longrightarrow> list_all (\<lambda>b. 0x20 \<le> b \<and> b < 0x7F) (ascii s) \<Longrightarrow> wire_status_ok (ok_status s)"
  using validate_text_ascii [of "ascii s" 512]
  by (simp add: wire_status_ok_def text_ok_def string_ok_def kMaxStringBytesInFrame_def ok_status_def validate_text_success
      is_valid_text_bounded_def ascii_def)

lemma released_ack_ok: "release_ack_ok (released_ack res) \<longleftrightarrow> bw_ok (rl_released res)"
  using literal_ok [of "''released''"] by (simp add: release_ack_ok_def released_ack_def ascii_def)

lemma release_sizes [simp]:
  "length (encode_release_request q) = 16" "length (encode_release_ack (released_ack res)) = 24"
  by (simp_all add: encode_release_request_def encode_release_ack_def released_ack_def encode_wire_status_def ok_status_def ascii_def
      write_text_def w_bytes_def write_enum_def w_bool_def w_bandwidth_def w_u8_def w_u16_def w_u32_def w_u64_def)

lemma release_called:
  fixes sv :: server and c :: connection and cl :: client
  assumes run: "release i g (sv_broker sv) = (b', Inr res)" and "bw_ok (rl_released res)"
    and server: "cn_greeted c" "\<not> sv_stopping sv" "idle (cn_decoder c)" "socket_valid (cn_socket c)" "sends_through 1024 (cn_socket c)"
    and client: "idle (cl_decoder cl)" "socket_valid (cl_socket cl)" "sends_through 1024 (cl_socket cl)"
    and wire: "list_all (arrives (vo_receive_buffer_bytes (sv_options sv))) up" "list_all (arrives kClientBufferBytes) down"
      "delivered up = frame (MT_Release, cl_correlation cl + 1, encode_release_request \<lparr> lq_grant = i, lq_generation = g \<rparr>)"
      "delivered down = frame (MT_ReleaseAck, cl_correlation cl + 1, encode_release_ack (released_ack res))"
  shows "\<exists>sv' c' cl'. serve_connection say up (sv, c) = ((sv', c'), True) \<and> sv_broker sv' = b' \<and>
    sk_written (cn_socket c') = sk_written (cn_socket c) @ delivered down \<and>
    client_release i g down cl = (cl', Some (Inr (released_ack res))) \<and>
    sk_written (cl_socket cl') = sk_written (cl_socket cl) @ delivered up \<and> cl_correlation cl' = cl_correlation cl + 1 \<and>
    idle (cn_decoder c') \<and> idle (cl_decoder cl')"
proof -
  have "serve_release (say (cn_replies c)) (Inr \<lparr> lq_grant = i, lq_generation = g \<rparr>) (sv_broker sv) = (b', released_ack res)"
    using run by (simp add: serve_release_def released_ack_def)
  moreover have "release_ack_ok (released_ack res)" using assms(2) by (simp add: released_ack_ok)
  moreover have "sends_through (kFrameHeaderBytes + length (encode_release_ack (released_ack res))) (cn_socket c)"
    "sends_through (kFrameHeaderBytes + length (encode_release_request \<lparr> lq_grant = i, lq_generation = g \<rparr>)) (cl_socket cl)"
    using server(5) client(3) by (simp_all add: sends_through_def kFrameHeaderBytes_def)
  ultimately show ?thesis unfolding client_release_def
    using server client wire by (intro release_rpc.remote_call) (simp_all add: kMaxPayloadBytes_def)
qed

section \<open>An acknowledgement that the client cannot read\<close>

text \<open>The view of an unknown grant holds a default grant, whose boot identity is unset.  It is encoded, but the
  decoder insists on a set boot identity.\<close>

lemma rbind_fail: "dec bs = (rest, Inl e) \<Longrightarrow> rbind dec k bs = (rest, Inl e)"
  by (simp add: rbind_def opbind_def)

lemma unset_boot_unread: "\<exists>bs. decode_boot_id (encode_boot_id boot_unset @ rest) = (bs, fail EC_InvalidIdentity)"
  by (simp add: decode_boot_id_def encode_boot_id_def codec_read string_ok_def boot_unset_def kBootSize_def
      kMaxStringBytesInFrame_def boot_from_bytes_eq boot_valid_def)

lemma default_authority_unread:
  "\<exists>bs. decode_authority (encode_authority default_authority @ rest) = (bs, fail EC_InvalidIdentity)"
proof -
  obtain bs where "decode_boot_id (encode_boot_id boot_unset @ w_u64 0 @ w_u64 0 @ rest) = (bs, fail EC_InvalidIdentity)"
    using unset_boot_unread by blast
  then show ?thesis by (simp add: decode_authority_def encode_authority_def default_authority_def codec_read rbind_fail)
qed

lemma default_grant_unread: "\<exists>bs. decode_grant (encode_grant default_grant @ rest) = (bs, fail EC_InvalidIdentity)"
proof -
  obtain bs where "decode_authority (encode_authority default_authority @ rest) = (bs, fail EC_InvalidIdentity)"
    using default_authority_unread by blast
  then show ?thesis
    by (simp add: decode_grant_def encode_grant_def default_grant_def codec_read rbind_fail no_allocation_def allocation_ok_def reason_ok_def)
qed

lemma unknown_grant_unread:
  assumes "om_find (br_grants b) i = None" and "text_ok 512 (say 0)"
  shows "reply_value decode_query_grant_ack MT_QueryGrantAck n
    (MT_QueryGrantAck, n, encode_query_grant_ack (snd (serve_query_grant say (Inr \<lparr> gq_grant = i, gq_generation = g \<rparr>) b))) =
    fail EC_InvalidIdentity"
proof -
  obtain bs where bs: "decode_grant (encode_grant default_grant) = (bs, fail EC_InvalidIdentity)"
    using default_grant_unread [of "[]"] by auto
  have "wire_status_ok (error_status (say 0) EC_Ok)" using assms(2) by (simp add: wire_status_ok_def error_status_def)
  with bs show ?thesis
    using assms(1) by (simp add: reply_value_def serve_query_grant_def query_grant_def Let_def decode_payload_def
        encode_query_grant_ack_def decode_query_grant_ack_def codec_read rbind_fail rbind_def [of decode_query_grant_ack])
qed

end
