(* ===== verification/Durability.thy ===== *)
theory Durability
  imports Recovery_Laws Store_Laws
begin

text \<open>
  The journal refines a ledger.  \<open>ledger_of\<close> abstracts a coordinator to what a restart is meant to preserve: the
  epoch, the policy, the obligations, the requests and their outcomes, the fences, and capacity evidence
  and grants up to the demotion every restart performs.  An operation \<open>logs\<close> its effect when the
  records it appends, replayed on the state before it, lead to the ledger after it.  By induction over a
  run the ledger of the running coordinator is always the ledger of the coordinator that would be
  recovered from its store.
\<close>

section \<open>The ledger\<close>

record ledger =
  ld_epoch :: ident
  ld_policy :: "policy option"
  ld_capacities :: "(capacity_target, capacity_snapshot) omap"
  ld_obligations :: "(u64, obligation) omap"
  ld_retired :: "(u64, u64) omap"
  ld_requests :: "(request_key, bandwidth_request) omap"
  ld_idempotency :: "(request_key, submit_outcome) omap"
  ld_content_hashes :: "(request_key, u64) omap"
  ld_grants :: "(u64, grant) omap"
  ld_fences :: "boot_fence list"
  ld_fence_hashes :: "u64 set"

definition replayed_outcome :: "submit_outcome \<Rightarrow> submit_outcome" where
  "replayed_outcome res = res\<lparr>so_disposition := ID_Replay\<rparr>"

abbreviation demoted :: "grant \<Rightarrow> grant" where
  "demoted \<equiv> demote (\<lambda>_. True)"

definition ledger_of :: "broker \<Rightarrow> ledger" where
  "ledger_of b = \<lparr> ld_epoch = br_epoch b, ld_policy = br_policy b,
     ld_capacities = om_map_values stale_evidence (br_capacities b), ld_obligations = br_obligations b,
     ld_retired = br_retired_obligations b, ld_requests = br_requests b,
     ld_idempotency = om_map_values replayed_outcome (br_idempotency b), ld_content_hashes = br_content_hashes b,
     ld_grants = om_map_values demoted (br_grants b), ld_fences = br_fences b, ld_fence_hashes = br_fence_hashes b \<rparr>"

lemma om_map_values_set: "om_map_values f (om_set k v m) = om_set k (f v) (om_map_values f m)"
  by (induction k v m rule: om_set.induct) (auto simp: om_map_values_def)

lemma om_map_values_map: "om_map_values f (om_map_values g m) = om_map_values (f \<circ> g) m"
  by (auto simp: om_map_values_def)

lemma demoted_demote: "demoted \<circ> demote p = demoted"
  by (auto simp: demote_def is_live_def)

lemma stale_stale: "stale_evidence \<circ> stale_evidence = stale_evidence"
  by (auto simp: stale_evidence_def)

lemmas ledger_maps = om_map_values_set om_map_values_map demoted_demote stale_stale

section \<open>Replaying depends on the ledger only\<close>

definition alike :: "broker \<times> status \<Rightarrow> broker \<times> status \<Rightarrow> bool" where
  "alike x y \<longleftrightarrow> snd x = snd y \<and> ledger_of (fst x) = ledger_of (fst y)"

lemma alike_decoded:
  "ledger_of x = ledger_of y \<Longrightarrow> (\<And>v. ledger_of (f v x) = ledger_of (f v y)) \<Longrightarrow> alike (decoded dec p f x) (decoded dec p f y)"
  by (simp add: alike_def decoded_def split: sum.split)

lemma alike_apply:
  assumes "ledger_of x = ledger_of y"
  shows "alike (apply_payload t p x) (apply_payload t p y)"
proof (cases "t = RT_ObligationRetired")
  case True
  then show ?thesis using assms by (auto simp: alike_def ledger_of_def split: sum.split prod.split)
next
  case False
  then show ?thesis
    by (cases t; simp; intro alike_decoded assms)
      (use assms in \<open>auto simp: ledger_of_def ledger_maps restore_grant_def restore_fence_def restore_idempotency_def
        Let_def split: prod.split\<close>)
qed

lemma ledger_ticks [simp]: "ledger_of (b\<lparr>br_tick := x, br_audit_sequence := y\<rparr>) = ledger_of b"
  by (simp add: ledger_of_def)

lemma alike_replay:
  "ledger_of x = ledger_of y \<Longrightarrow> alike (replay_records rs x) (replay_records rs y)"
proof (induction rs arbitrary: x y)
  case Nil
  then show ?case by (simp add: replay_records_def alike_def opret_def)
next
  case (Cons r rs)
  have a: "alike (apply_payload (re_type r) (re_payload r) x) (apply_payload (re_type r) (re_payload r) y)"
    by (rule alike_apply [OF Cons.prems])
  obtain x1 s where x1: "apply_payload (re_type r) (re_payload r) x = (x1, s)" by fastforce
  obtain y1 where y1: "apply_payload (re_type r) (re_payload r) y = (y1, s)" "ledger_of x1 = ledger_of y1"
    using a x1 by (cases "apply_payload (re_type r) (re_payload r) y") (auto simp: alike_def)
  show ?case
  proof (cases s)
    case (Inl e)
    with x1 y1 show ?thesis by (simp add: replay_records_def replay_record_def opbind_def alike_def)
  next
    case (Inr u)
    with x1 y1 Cons.IH show ?thesis by (simp add: replay_records_def replay_record_def opbind_def opmod_def)
  qed
qed

lemma replay_append:
  "replay_records (rs @ ss) x = opbind (replay_records rs) (\<lambda>_. replay_records ss) x"
  by (induction rs arbitrary: x) (auto simp: replay_records_def opbind_def opret_def split: prod.split sum.split)

section \<open>What an operation appends\<close>

definition journalling :: "broker \<Rightarrow> bool" where
  "journalling b \<longleftrightarrow> (\<exists>st seq. br_store b = Some st \<and> st_journal st = Some seq)"

definition journal_bytes :: "broker \<Rightarrow> bytes" where
  "journal_bytes b = (case br_store b of None \<Rightarrow> [] | Some st \<Rightarrow>
     (case st_journal st of None \<Rightarrow> [] | Some seq \<Rightarrow> file_of (dr_journals (st_dir st)) seq))"

definition wrote :: "broker \<Rightarrow> durable_record list \<Rightarrow> broker \<Rightarrow> bool" where
  "wrote b rs b' \<longleftrightarrow> br_audit_sequence b \<le> br_audit_sequence b' \<and>
    journal_bytes b' = journal_bytes b @ concat (map bytes_of rs) \<and>
    br_audit_sequence b' = (if rs = [] then br_audit_sequence b else rh_sequence (re_header (last rs))) \<and>
    (\<forall>r \<in> set rs. br_audit_sequence b < rh_sequence (re_header r) \<and> rh_sequence (re_header r) \<le> br_audit_sequence b') \<and>
    (\<exists>st st' seq. br_store b = Some st \<and> br_store b' = Some st' \<and> st_journal st = Some seq \<and> st_journal st' = Some seq \<and>
      (\<forall>snap js old. clean_store snap (js @ [(seq, old)]) (st_dir st) \<and>
          length (snd (clean_file (seq, old @ rs))) \<le> kMaxStoreFileBytes \<longrightarrow>
        clean_store snap (js @ [(seq, old @ rs)]) (st_dir st')))"

lemma wrote_nothing: "journalling b \<Longrightarrow> br_store b' = br_store b \<Longrightarrow> br_audit_sequence b' = br_audit_sequence b \<Longrightarrow> wrote b [] b'"
  by (auto simp: wrote_def journalling_def journal_bytes_def)

lemma wrote_cong:
  "br_store c = br_store b \<Longrightarrow> br_audit_sequence c = br_audit_sequence b \<Longrightarrow> br_store c' = br_store b' \<Longrightarrow>
    br_audit_sequence c' = br_audit_sequence b' \<Longrightarrow> wrote c rs c' = wrote b rs b'"
  by (simp add: wrote_def journal_bytes_def)

lemma wrote_trans:
  assumes "wrote b rs b'" and "wrote b' ss b''"
  shows "wrote b (rs @ ss) b''"
proof -
  obtain st st' seq where 1: "br_store b = Some st" "br_store b' = Some st'" "st_journal st = Some seq" "st_journal st' = Some seq"
    "\<And>snap js old. clean_store snap (js @ [(seq, old)]) (st_dir st) \<Longrightarrow> length (snd (clean_file (seq, old @ rs))) \<le> kMaxStoreFileBytes \<Longrightarrow>
        clean_store snap (js @ [(seq, old @ rs)]) (st_dir st')"
    using assms(1) by (auto simp: wrote_def)
  obtain st'' where 2: "br_store b'' = Some st''" "st_journal st'' = Some seq"
    "\<And>snap js old. clean_store snap (js @ [(seq, old)]) (st_dir st') \<Longrightarrow> length (snd (clean_file (seq, old @ ss))) \<le> kMaxStoreFileBytes \<Longrightarrow>
        clean_store snap (js @ [(seq, old @ ss)]) (st_dir st'')"
    using assms(2) 1 by (auto simp: wrote_def)
  have "clean_store snap (js @ [(seq, old @ rs @ ss)]) (st_dir st'')"
    if c: "clean_store snap (js @ [(seq, old)]) (st_dir st)" and l: "length (snd (clean_file (seq, old @ rs @ ss))) \<le> kMaxStoreFileBytes"
    for snap js old
  proof -
    have "length (snd (clean_file (seq, old @ rs))) \<le> kMaxStoreFileBytes" using l by (simp add: clean_file_def)
    from 2(3) [OF 1(5) [OF c this]] l show ?thesis by simp
  qed
  moreover have "journal_bytes b'' = journal_bytes b @ concat (map bytes_of (rs @ ss))" using assms by (simp add: wrote_def)
  moreover have "\<forall>r \<in> set (rs @ ss). br_audit_sequence b < rh_sequence (re_header r) \<and> rh_sequence (re_header r) \<le> br_audit_sequence b''"
    "br_audit_sequence b \<le> br_audit_sequence b''"
    using assms unfolding wrote_def by (auto intro: le_less_trans order_trans simp del: if_split_asm)
  moreover have "br_audit_sequence b'' = (if rs @ ss = [] then br_audit_sequence b else rh_sequence (re_header (last (rs @ ss))))"
    using assms by (auto simp: wrote_def split: if_splits)
  ultimately show ?thesis using 1 2 by (simp add: wrote_def)
qed

lemma persist_wrote:
  assumes "persist t p b = (b', success)" and "journalling b"
  shows "\<exists>h. wrote b [\<lparr> re_type = t, re_header = h, re_payload = p \<rparr>] b'"
proof -
  obtain st seq where st: "br_store b = Some st" "st_journal st = Some seq" using assms(2) by (auto simp: journalling_def)
  let ?n = "br_audit_sequence b + 1" let ?h = "record_header_of ?n b"
  let ?r = "\<lparr> re_type = t, re_header = ?h, re_payload = p \<rparr>"
  from assms(1) st(1) obtain st' where n: "?n \<noteq> 0" and a: "store_append t ?h p st = (st', success)"
    and b': "b' = b\<lparr>br_store := Some st', br_audit_sequence := ?n\<rparr>"
    by (auto simp: persist_def id_make_def split: if_splits sum.splits prod.splits)
  have less: "br_audit_sequence b < ?n" using n word_next [of "br_audit_sequence b"] by (auto simp: kMaxValue_def)
  note app = append_success [OF a]
  have "clean_store snap (js @ [(seq, old @ [?r])]) (st_dir st')"
    if c: "clean_store snap (js @ [(seq, old)]) (st_dir st)" and l: "length (snd (clean_file (seq, old @ [?r]))) \<le> kMaxStoreFileBytes"
    for snap js old
  proof (rule append_clean [OF c st(2) a])
    have "\<forall>a \<in> set (map fst (map clean_file js)). a < seq"
      using c by (auto simp: clean_store_def sorted_wrt_append clean_file_def)
    from om_find_last [OF this] c have "file_of (dr_journals (st_dir st)) seq = snd (clean_file (seq, old))"
      by (simp add: clean_store_def file_of_def clean_file_def)
    moreover have "st_dir st' = extend_journal seq (bytes_of ?r) (st_dir st)" using app st(2) by (auto simp: bytes_of_def)
    ultimately show "length (file_of (dr_journals (st_dir st')) seq) \<le> kMaxStoreFileBytes"
      using l by (simp add: extend_journal_def file_of_def om_find_set clean_file_def)
  qed
  moreover have "journal_bytes b' = journal_bytes b @ bytes_of ?r"
    using app st b' by (auto simp: journal_bytes_def bytes_of_def extend_journal_def file_of_def om_find_set)
  ultimately show ?thesis using st b' less app by (intro exI [of _ ?h]) (auto simp: wrote_def record_header_of_def)
qed

section \<open>Operations that log their effect\<close>

definition encodable :: "broker \<Rightarrow> bool" where
  "encodable b \<longleftrightarrow> coherent b \<and> journalling b \<and> (\<forall>(i, g) \<in> set (br_grants b). grant_ok g)"

text \<open>Replaying the records the step appended leads from the ledger before it to the ledger after it.\<close>

definition tracks :: "broker \<Rightarrow> broker \<Rightarrow> bool" where
  "tracks b b' \<longleftrightarrow> (encodable b \<longrightarrow> encodable b' \<and>
    (\<exists>rs x. wrote b rs b' \<and> replay_records rs b = (x, success) \<and> ledger_of x = ledger_of b'))"

interpretation track: progress tracks
proof
  show "tracks b b" for b
    using wrote_nothing [of b b] by (auto simp: tracks_def encodable_def replay_records_def opret_def intro!: exI [of _ "[]"])
  show "tracks b b''" if t: "tracks b b'" "tracks b' b''" for b b' b''
  proof (unfold tracks_def, intro impI)
    assume e: "encodable b"
    with t(1) obtain rs x where 1: "encodable b'" "wrote b rs b'" "replay_records rs b = (x, success)" "ledger_of x = ledger_of b'"
      by (auto simp: tracks_def)
    with t(2) obtain ss y where 2: "encodable b''" "wrote b' ss b''" "replay_records ss b' = (y, success)" "ledger_of y = ledger_of b''"
      by (auto simp: tracks_def)
    obtain z where "replay_records ss x = (z, success)" "ledger_of z = ledger_of y"
      using alike_replay [OF 1(4), of ss] 2(3) by (cases "replay_records ss x") (auto simp: alike_def)
    with 1 2 show "encodable b'' \<and> (\<exists>rs x. wrote b rs b'' \<and> replay_records rs b = (x, success) \<and> ledger_of x = ledger_of b'')"
      by (intro conjI exI [of _ "rs @ ss"] exI [of _ z]) (simp_all add: replay_append opbind_def wrote_trans [OF 1(2) 2(2)])
  qed
qed

text \<open>One record: the memory may change before and after it is appended.\<close>

lemma log_one:
  assumes "persist t p b0 = (b1, success)" and "br_store b0 = br_store b" and "br_audit_sequence b0 = br_audit_sequence b"
    and "br_store b' = br_store b1" and "br_audit_sequence b' = br_audit_sequence b1"
    and "apply_payload t p b = (x, success)" and "ledger_of x = ledger_of b'" and "encodable b \<Longrightarrow> encodable b'"
  shows "tracks b b'"
proof (unfold tracks_def, intro impI)
  assume e: "encodable b"
  then have "journalling b0" using assms(2) by (simp add: encodable_def journalling_def)
  from persist_wrote [OF assms(1) this] obtain h where w: "wrote b0 [\<lparr> re_type = t, re_header = h, re_payload = p \<rparr>] b1" by blast
  then have "wrote b [\<lparr> re_type = t, re_header = h, re_payload = p \<rparr>] b'" using wrote_cong [of b0 b b1 b'] assms(2-5) by simp
  with assms(6-8) e show "encodable b' \<and> (\<exists>rs x. wrote b rs b' \<and> replay_records rs b = (x, success) \<and> ledger_of x = ledger_of b')"
    by (intro conjI exI [of _ "[_]"]) (auto simp: replay_records_def replay_record_def opbind_def opmod_def opret_def)
qed

lemma decoded_codec: "codec enc dec ok \<Longrightarrow> ok v \<Longrightarrow> decoded dec (enc v) f b = (f v b, success)"
  using codec.whole by (simp add: decoded_def r_corrupt_def codec.whole)

definition grants_ok :: "broker \<Rightarrow> bool" where
  "grants_ok b \<longleftrightarrow> (\<forall>(i, g) \<in> set (br_grants b). grant_ok g)"

lemma encodable_alt: "encodable b \<longleftrightarrow> coherent b \<and> journalling b \<and> grants_ok b"
  by (simp add: encodable_def grants_ok_def)

lemma grants_ok_same: "br_grants b' = br_grants b \<Longrightarrow> grants_ok b' = grants_ok b"
  by (simp add: grants_ok_def)

lemma grants_ok_set: "grants_ok b \<Longrightarrow> grant_ok g \<Longrightarrow> br_grants b' = om_set i g (br_grants b) \<Longrightarrow> grants_ok b'"
  using set_om_set [of i g "br_grants b"] by (auto simp: grants_ok_def)

lemma grant_ok_demote: "grant_ok g \<Longrightarrow> grant_ok (demote q g)"
  by (simp add: demote_def grant_ok_def)

lemma grants_ok_demote: "grants_ok b \<Longrightarrow> br_grants b' = om_map_values (demote q) (br_grants b) \<Longrightarrow> grants_ok b'"
  by (auto simp: grants_ok_def om_map_values_def grant_ok_demote)

lemma wrote_journalling: "wrote b rs b' \<Longrightarrow> journalling b'"
  by (auto simp: wrote_def journalling_def)

lemma log_record:
  assumes "persist t p b0 = (b1, success)" and "br_store b0 = br_store b" and "br_audit_sequence b0 = br_audit_sequence b"
    and "br_store b' = br_store b1" and "br_audit_sequence b' = br_audit_sequence b1"
    and "apply_payload t p b = (x, success)" and "ledger_of x = ledger_of b'"
    and "coherent b \<Longrightarrow> coherent b'" and "grants_ok b \<Longrightarrow> grants_ok b'"
  shows "tracks b b'"
proof (rule log_one [OF assms(1-7)])
  assume e: "encodable b"
  then have "journalling b0" using assms(2) by (simp add: encodable_def journalling_def)
  from persist_wrote [OF assms(1) this] have "journalling b1" by (auto dest: wrote_journalling)
  with assms(4,8,9) e show "encodable b'" by (simp add: encodable_alt journalling_def)
qed

definition logs :: "(broker, 'a) op \<Rightarrow> bool" where
  "logs m \<longleftrightarrow> (\<forall>b b' r. m b = (b', Inr r) \<longrightarrow> tracks b b')"

lemma logsI: "(\<And>b b' r. m b = (b', Inr r) \<Longrightarrow> tracks b b') \<Longrightarrow> logs m"
  by (simp add: logs_def)

lemma logsD: "logs m \<Longrightarrow> m b = (b', Inr r) \<Longrightarrow> tracks b b'"
  by (auto simp: logs_def)

lemma logs_bind: "logs m \<Longrightarrow> (\<And>x. logs (k x)) \<Longrightarrow> logs (opbind m k)"
  unfolding logs_def opbind_success using track.trans by blast

lemma logs_for: "(\<And>x. logs (f x)) \<Longrightarrow> logs (opfor f xs)"
proof (induction xs)
  case Nil
  show ?case by (simp add: logs_def opret_def track.refl)
qed (simp add: logs_bind)

lemma coherent_step: "steps advances m \<Longrightarrow> m b = (b', r) \<Longrightarrow> coherent b \<Longrightarrow> coherent b'"
  by (auto dest: stepsD simp: advances_def)

subsection \<open>Configuration\<close>

lemma set_policy_logs: "policy_ok p \<Longrightarrow> logs (set_policy p)"
proof (rule logsI)
  fix b b' r assume ok: "policy_ok p" and run: "set_policy p b = (b', Inr r)"
  from run have "b' = b \<or> (\<exists>b1. persist RT_PolicySet (encode_policy p) b = (b1, success) \<and> b' = b1\<lparr>br_policy := Some p\<rparr>)"
    by (auto simp: set_policy_def opbind_success oplift_def opget_def opmod_def opret_def Let_def split: option.splits if_splits)
  then show "tracks b b'"
  proof (elim disjE exE conjE)
    fix b1 assume p: "persist RT_PolicySet (encode_policy p) b = (b1, success)" and b': "b' = b1\<lparr>br_policy := Some p\<rparr>"
    note f = persist_fields [OF p]
    show ?thesis
    proof (rule log_record [OF p refl refl])
      show "apply_payload RT_PolicySet (encode_policy p) b = (b\<lparr>br_policy := Some p\<rparr>, success)"
        by (simp add: decoded_codec [OF c_policy.codec_axioms ok])
      show "ledger_of (b\<lparr>br_policy := Some p\<rparr>) = ledger_of b'" using f by (simp add: b' ledger_of_def)
      show "coherent b \<Longrightarrow> coherent b'" by (rule coherent_step [OF set_policy_advances run])
    qed (simp_all add: b' f grants_ok_def)
  qed (simp add: track.refl)
qed

lemma publish_capacity_logs: "snapshot_ok s \<Longrightarrow> logs (publish_capacity s)"
proof (rule logsI)
  fix b b' r assume ok: "snapshot_ok s" and run: "publish_capacity s b = (b', Inr r)"
  from run obtain b1 where p: "persist RT_CapacityPublished (encode_capacity_snapshot s) b = (b1, success)"
    and b': "b' = b1\<lparr>br_capacities := om_set (cs_target s) s (br_capacities b1),
      br_grants := om_map_values (demote (\<lambda>g. gr_target g = cs_target s)) (br_grants b1),
      br_accounting := om_erase (cs_target s) (br_accounting b1)\<rparr>"
    by (auto simp: publish_capacity_def opbind_success op_eval split: if_splits sum.splits prod.splits)
  note f = persist_fields [OF p]
  show "tracks b b'"
  proof (rule log_record [OF p refl refl])
    show "apply_payload RT_CapacityPublished (encode_capacity_snapshot s) b =
        (b\<lparr>br_capacities := om_set (cs_target s) s (br_capacities b)\<rparr>, success)"
      by (simp add: decoded_codec [OF c_snapshot.codec_axioms ok])
    show "ledger_of (b\<lparr>br_capacities := om_set (cs_target s) s (br_capacities b)\<rparr>) = ledger_of b'"
      using f by (simp add: b' ledger_of_def ledger_maps)
    show "coherent b \<Longrightarrow> coherent b'" by (rule coherent_step [OF publish_capacity_advances run])
    show "grants_ok b \<Longrightarrow> grants_ok b'" by (rule grants_ok_demote) (use f in \<open>simp_all add: b'\<close>)
  qed (simp_all add: b')
qed

lemma upsert_obligation_logs: "obligation_ok ob \<Longrightarrow> logs (upsert_obligation ob)"
proof (rule logsI)
  fix b b' r assume ok: "obligation_ok ob" and run: "upsert_obligation ob b = (b', Inr r)"
  from run obtain b1 where p: "persist RT_ObligationUpserted (encode_obligation ob) b = (b1, success)"
    and b': "b' = b1\<lparr>br_obligations := om_set (ob_reservation ob) ob (br_obligations b1),
      br_retired_obligations := om_erase (ob_reservation ob) (br_retired_obligations b1)\<rparr>"
    by (auto simp: upsert_obligation_def op_eval split: if_splits sum.splits prod.splits)
  note f = persist_fields [OF p]
  show "tracks b b'"
  proof (rule log_record [OF p refl refl])
    show "apply_payload RT_ObligationUpserted (encode_obligation ob) b =
        (b\<lparr>br_obligations := om_set (ob_reservation ob) ob (br_obligations b),
          br_retired_obligations := om_erase (ob_reservation ob) (br_retired_obligations b)\<rparr>, success)"
      by (simp add: decoded_codec [OF c_obligation.codec_axioms ok])
    show "coherent b \<Longrightarrow> coherent b'" by (rule coherent_step [OF upsert_obligation_advances run])
  qed (use f in \<open>simp_all add: b' ledger_of_def grants_ok_def\<close>)
qed

lemma retire_obligation_logs: "logs (retire_obligation i n)"
proof (rule logsI)
  fix b b' r assume run: "retire_obligation i n b = (b', Inr r)"
  from run obtain b1 where p: "persist RT_ObligationRetired (encode_reference (i, n)) b = (b1, success)"
    and b': "b' = b1\<lparr>br_obligations := om_erase i (br_obligations b1), br_retired_obligations := om_set i n (br_retired_obligations b1)\<rparr>"
    by (auto simp: retire_obligation_def op_eval split: if_splits sum.splits prod.splits option.splits)
  note f = persist_fields [OF p]
  show "tracks b b'"
  proof (rule log_record [OF p refl refl])
    show "apply_payload RT_ObligationRetired (encode_reference (i, n)) b =
        (b\<lparr>br_obligations := om_erase i (br_obligations b), br_retired_obligations := om_set i n (br_retired_obligations b)\<rparr>, success)"
      by (simp add: decode_encode_reference)
    show "coherent b \<Longrightarrow> coherent b'" by (rule coherent_step [OF retire_obligation_advances run])
  qed (use f in \<open>simp_all add: b' ledger_of_def grants_ok_def\<close>)
qed

subsection \<open>Requests\<close>

lemma submit_logs: "request_ok q \<Longrightarrow> logs (submit q)"
proof (rule logsI)
  fix b b' res assume ok: "request_ok q" and run: "submit q b = (b', Inr res)"
  let ?key = "request_key (rq_id q) (rq_generation q)" let ?h = "request_content_hash q" let ?o = "first_outcome q b"
  let ?e = "outcome_record ?h ?o"
  from run have "b' = b \<or> (\<exists>b1 b2. persist RT_RequestAccepted (encode_request q) b = (b1, success) \<and>
      persist RT_IdempotencyRecord (encode_idempotency ?e) b1 = (b2, success) \<and>
      b' = b2\<lparr>br_requests := om_set ?key q (br_requests b2), br_content_hashes := om_set ?key ?h (br_content_hashes b2),
        br_wait_rounds := om_set ?key 0 (br_wait_rounds b2), br_idempotency := om_set ?key ?o (br_idempotency b2)\<rparr>)"
    by (auto simp: submit_def opbind_success oplift_def opget_def opmod_def opret_def Let_def split: option.splits if_splits)
  then show "tracks b b'"
  proof (elim disjE exE conjE)
    fix b1 b2 assume 1: "persist RT_RequestAccepted (encode_request q) b = (b1, success)"
      and 2: "persist RT_IdempotencyRecord (encode_idempotency ?e) b1 = (b2, success)"
      and b': "b' = b2\<lparr>br_requests := om_set ?key q (br_requests b2), br_content_hashes := om_set ?key ?h (br_content_hashes b2),
        br_wait_rounds := om_set ?key 0 (br_wait_rounds b2), br_idempotency := om_set ?key ?o (br_idempotency b2)\<rparr>"
    note f = persist_fields [OF 1] persist_fields [OF 2]
    let ?m = "b1\<lparr>br_requests := om_set ?key q (br_requests b1)\<rparr>"
    have "tracks b ?m"
    proof (rule log_record [OF 1 refl refl])
      show "apply_payload RT_RequestAccepted (encode_request q) b = (b\<lparr>br_requests := om_set ?key q (br_requests b)\<rparr>, success)"
        by (simp add: decoded_codec [OF c_request.codec_axioms ok])
      show "coherent b \<Longrightarrow> coherent ?m"
        using coherent_cong [of ?m "b\<lparr>br_requests := om_set ?key q (br_requests b)\<rparr>"] coherent_request [of b q] f by simp
    qed (use f in \<open>simp_all add: ledger_of_def grants_ok_def\<close>)
    moreover have "tracks ?m b'"
    proof (rule log_record [OF 2])
      have "idempotency_ok ?e" by (simp add: idempotency_ok_def outcome_record_def first_outcome_def reason_ok_def Let_def)
      then show "apply_payload RT_IdempotencyRecord (encode_idempotency ?e) ?m = (restore_idempotency ?e ?m, success)"
        by (simp add: decoded_codec [OF c_idempotency_record.codec_axioms])
      show "ledger_of (restore_idempotency ?e ?m) = ledger_of b'"
        using f by (simp add: b' ledger_of_def restore_idempotency_def restore_outcome_def outcome_record_def first_outcome_def
            replayed_outcome_def om_map_values_set Let_def)
      show "coherent ?m \<Longrightarrow> coherent b'" using coherent_cong [of b' ?m] f by (simp add: b')
    qed (use f in \<open>simp_all add: b' grants_ok_def\<close>)
    ultimately show ?thesis by (rule track.trans)
  qed (simp add: track.refl)
qed

lemma forget_request_tracks:
  assumes "persist RT_RequestRetired (encode_request_key key) (b\<lparr>br_requests := om_erase key (br_requests b), br_wait_rounds := w\<rparr>) = (b', success)"
    and "key = request_key i n"
  shows "tracks b b'"
proof (rule log_record [OF assms(1)])
  note f = persist_fields [OF assms(1)]
  show "apply_payload RT_RequestRetired (encode_request_key key) b = (b\<lparr>br_requests := om_erase key (br_requests b)\<rparr>, success)"
    by (simp add: decoded_codec [OF c_key.codec_axioms] assms(2) request_key_def)
  show "coherent b \<Longrightarrow> coherent b'"
    using coherent_erase [of b key] coherent_cong [of b' "b\<lparr>br_requests := om_erase key (br_requests b)\<rparr>"] f by simp
  show "ledger_of (b\<lparr>br_requests := om_erase key (br_requests b)\<rparr>) = ledger_of b'" using f by (simp add: ledger_of_def)
  show "grants_ok b \<Longrightarrow> grants_ok b'" using f by (simp add: grants_ok_def)
qed simp_all

lemma retire_request_logs: "logs (retire_request i n)"
  by (rule logsI) (auto simp: retire_request_def Let_def opbind_success oplift_def opget_def opmod_def split: if_splits
      dest: forget_request_tracks)

subsection \<open>Grants\<close>

lemma tracksI: "(encodable b \<Longrightarrow> tracks b b') \<Longrightarrow> tracks b b'"
  by (simp add: tracks_def)

lemma grant_payload: "t \<in> {RT_GrantRevoked, RT_GrantReleased, RT_GrantRevalidated} \<Longrightarrow> grant_ok g \<Longrightarrow>
    apply_payload t (encode_grant g) b = (restore_grant g b, success)"
  by (auto simp: decoded_codec [OF c_grant.codec_axioms])

lemma put_grant_tracks:
  assumes p: "persist t (encode_grant g') (b\<lparr>br_grants := om_set i g' (br_grants b)\<rparr>) = (b', success)"
    and t: "t \<in> {RT_GrantRevoked, RT_GrantReleased, RT_GrantRevalidated}"
    and g: "om_find (br_grants b) i = Some g" "gr_id g' = gr_id g" and ok: "grant_ok g \<Longrightarrow> grant_ok g'"
  shows "tracks b b'"
proof (rule tracksI)
  assume e: "encodable b"
  then have id: "gr_id g' = i" "i < br_next_grant_id b" using coherent_find [OF _ g(1)] g(2) by (auto simp: encodable_def)
  have g': "grant_ok g'" using e om_find_some [OF g(1)] ok by (auto simp: encodable_def)
  note f = persist_fields [OF p]
  show "tracks b b'"
  proof (rule log_record [OF p _ _ _ _ grant_payload [OF t g']])
    show "ledger_of (restore_grant g' b) = ledger_of b'" using f id by (simp add: ledger_of_def restore_grant_def)
    show "coherent b \<Longrightarrow> coherent b'"
      using coherent_grant [OF _ id] coherent_cong [of b' "b\<lparr>br_grants := om_set i g' (br_grants b)\<rparr>"] f by simp
    show "grants_ok b \<Longrightarrow> grants_ok b'" by (rule grants_ok_set [OF _ g']) (use f in simp_all)
  qed simp_all
qed

lemma withdraw_tracks:
  assumes g: "om_find (br_grants b) i = Some g" and run: "withdraw i t r s b = (b', Inr y)"
    and t: "t \<in> {RT_GrantRevoked, RT_GrantReleased, RT_GrantRevalidated}" and r: "reason_ok r"
  shows "tracks b b'"
proof -
  obtain g1 where g1: "advance_generation g = Inr g1"
    using g run by (cases "advance_generation g") (auto simp: withdraw_def grant_ref_def op_eval)
  obtain h where h: "transition_to s (g1\<lparr>gr_reason := r\<rparr>) = Inr h"
    using g run g1 by (cases "transition_to s (g1\<lparr>gr_reason := r\<rparr>)") (auto simp: withdraw_def grant_ref_def put_grant_def op_eval Let_def)
  have hs: "h = g1\<lparr>gr_reason := r, gr_state := s\<rparr>" using h by (simp add: transition_to_def split: if_splits)
  obtain n where n: "g1 = g\<lparr>gr_generation := n\<rparr>" using g1 by (auto simp: advance_generation_def bindr_eq_Inr)
  from run have "persist t (encode_grant h) (b\<lparr>br_grants := om_set i h (br_grants b)\<rparr>) = (b', success)"
    unfolding withdraw_eval [OF g g1 h] by (auto simp: opbind_success persist_grant_def opret_def)
  then show ?thesis by (rule put_grant_tracks [OF _ t g]) (use r in \<open>simp_all add: hs n grant_ok_def\<close>)
qed

lemma retire_accounting_logs: "logs (retire_accounting t g)"
proof (rule logsI)
  fix b b' r assume "retire_accounting t g b = (b', Inr r)"
  then obtain a where b': "b' = b\<lparr>br_accounting := a\<rparr>"
    by (cases "om_find (br_accounting b) t") (auto simp: retire_accounting_def split: prod.splits intro: that [of "br_accounting b"])
  have "encodable b \<Longrightarrow> encodable b'" using coherent_cong [of b' b] by (simp add: encodable_def journalling_def b')
  then show "tracks b b'"
    using wrote_nothing [of b b']
    by (auto simp: tracks_def b' ledger_of_def encodable_def replay_records_def opret_def intro!: exI [of _ "[]"])
qed

lemma revoke_logs: "reason_ok reason \<Longrightarrow> logs (revoke i n reason detail)"
proof (rule logsI)
  fix b b' r assume ok: "reason_ok reason" and run: "revoke i n reason detail b = (b', Inr r)"
  then obtain b0 g where "current_grant i n b = (b0, Inr g)" by (auto simp: revoke_def opbind_success oplift_def)
  note g = current_grantD [OF this]
  with run have rest: "b' = b \<or> (\<exists>b1 x y. withdraw i RT_GrantRevoked reason GS_Revoked b = (b1, Inr (x, y)) \<and>
      retire_accounting (gr_target y) x b1 = (b', success))"
    by (auto simp: revoke_def opbind_success oplift_def opret_def Let_def current_grant_eq split: if_splits)
  then show "tracks b b'"
  proof (elim disjE exE conjE)
    fix b1 x y assume w: "withdraw i RT_GrantRevoked reason GS_Revoked b = (b1, Inr (x, y))" and a: "retire_accounting (gr_target y) x b1 = (b', success)"
    have "tracks b b1" using withdraw_tracks [OF _ w _ ok] g by simp
    moreover have "tracks b1 b'" using retire_accounting_logs a by (auto simp: logs_def)
    ultimately show ?thesis by (rule track.trans)
  qed (simp add: track.refl)
qed

lemma release_logs: "logs (release i n)"
proof (rule logsI)
  fix b b' r assume run: "release i n b = (b', Inr r)"
  then obtain b0 g where "current_grant i n b = (b0, Inr g)" by (auto simp: release_def opbind_success)
  note g = current_grantD [OF this]
  with run have rest: "b' = b \<or> (\<exists>b1 x y b2. withdraw i RT_GrantReleased OR_Released GS_Released b = (b1, Inr (x, y)) \<and>
      retire_accounting (gr_target y) x b1 = (b2, success) \<and>
      persist RT_RequestRetired (encode_request_key (request_key (gr_request y) (gr_request_generation y)))
        (b2\<lparr>br_requests := om_erase (request_key (gr_request y) (gr_request_generation y)) (br_requests b2),
          br_wait_rounds := om_erase (request_key (gr_request y) (gr_request_generation y)) (br_wait_rounds b2)\<rparr>) = (b', success))"
    by (auto simp: release_def opbind_success oplift_def opget_def opmod_def opret_def Let_def current_grant_eq split: if_splits)
  have ok: "reason_ok OR_Released" by (simp add: reason_ok_def)
  from rest show "tracks b b'"
  proof (elim disjE exE conjE)
    fix b1 x y b2
    assume w: "withdraw i RT_GrantReleased OR_Released GS_Released b = (b1, Inr (x, y))"
      and a: "retire_accounting (gr_target y) x b1 = (b2, success)"
      and p: "persist RT_RequestRetired (encode_request_key (request_key (gr_request y) (gr_request_generation y)))
        (b2\<lparr>br_requests := om_erase (request_key (gr_request y) (gr_request_generation y)) (br_requests b2),
          br_wait_rounds := om_erase (request_key (gr_request y) (gr_request_generation y)) (br_wait_rounds b2)\<rparr>) = (b', success)"
    have "tracks b b1" using withdraw_tracks [OF _ w _ ok] g by simp
    moreover have "tracks b1 b2" using retire_accounting_logs a by (auto simp: logs_def)
    moreover have "tracks b2 b'" by (rule forget_request_tracks [OF p refl])
    ultimately show ?thesis by (blast intro: track.trans)
  qed (simp add: track.refl)
qed

lemma revalidate_logs:
  assumes run: "revalidate i n b = (b', Inr r)" and ok: "\<forall>e \<in> set (br_requests b). request_ok (snd e)"
  shows "tracks b b'"
proof -
  from run obtain b0 g where "current_grant i n b = (b0, Inr g)" by (auto simp: revalidate_def opbind_success)
  note g = current_grantD [OF this]
  with run obtain q s p g1 where q: "om_find (br_requests b) (request_key (gr_request g) (gr_request_generation g)) = Some q"
    and g1: "advance_generation g = Inr g1"
    and p: "persist RT_GrantRevalidated (encode_grant (revalidated (br_tick b) (rebind_authority b p s (rq_authority q)) g1))
      (b\<lparr>br_grants := om_set i (revalidated (br_tick b) (rebind_authority b p s (rq_authority q)) g1) (br_grants b)\<rparr>) = (b', success)"
    by (auto simp: revalidate_def opbind_success oplift_def opget_def opret_def put_grant_def opmod_def persist_grant_def Let_def
        current_grant_eq split: if_splits option.splits prod.splits)
  have "authority_ok (rq_authority q)" using ok om_find_some [OF q] by (force simp: request_ok_def)
  then have "authority_ok (rebind_authority b p s (rq_authority q))" by (simp add: rebind_authority_def authority_ok_def)
  moreover obtain m where "g1 = g\<lparr>gr_generation := m\<rparr>" using g1 by (auto simp: advance_generation_def bindr_eq_Inr)
  ultimately show ?thesis using g by (intro put_grant_tracks [OF p]) (auto simp: revalidated_def grant_ok_def reason_ok_def)
qed

subsection \<open>Fencing and the epoch\<close>

lemma fence_grants_tracks:
  "distinct keys \<Longrightarrow> \<forall>i \<in> set keys. om_find (br_grants b) i \<noteq> None \<Longrightarrow> opfor fence_grant keys b = (b', Inr u) \<Longrightarrow> tracks b b'"
proof (induction keys arbitrary: b)
  case (Cons i keys)
  from Cons.prems(3) obtain b1 v where 1: "fence_grant i b = (b1, Inr v)" and 2: "opfor fence_grant keys b1 = (b', Inr u)"
    by (auto simp: opbind_success)
  obtain g where g: "om_find (br_grants b) i = Some g" using Cons.prems(2) by auto
  from 1 obtain b0 x h where w: "withdraw i RT_GrantRevoked OR_Fenced GS_Fenced b = (b0, Inr (x, h))"
    and a: "retire_accounting (gr_target h) x b0 = (b1, Inr v)" by (auto simp: fence_grant_def opbind_success)
  have "tracks b b0" by (rule withdraw_tracks [OF g w]) (simp_all add: reason_ok_def)
  moreover have "tracks b0 b1" using retire_accounting_logs a by (auto simp: logs_def)
  moreover from fence_grant_success [OF g 1] Cons.prems(1,2)
  have "\<forall>j \<in> set keys. om_find (br_grants b1) j \<noteq> None" by (auto simp: om_find_set)
  then have "tracks b1 b'" using Cons.IH [OF _ _ 2] Cons.prems(1) by simp
  ultimately show ?case by (blast intro: track.trans)
qed (simp add: opret_def track.refl)

lemma fence_publisher_logs: "boot_ok boot \<Longrightarrow> string_ok 128 reason \<Longrightarrow> logs (fence_publisher publisher boot reason)"
proof (rule logsI)
  fix b b' r assume ok: "boot_ok boot" "string_ok 128 reason" and run: "fence_publisher publisher boot reason b = (b', Inr r)"
  let ?f = "\<lparr> bf_publisher = publisher, bf_boot = boot, bf_sequence = br_audit_sequence b + 1, bf_tick = br_tick b, bf_reason = reason \<rparr>"
  from run have "b' = b \<or> (\<exists>b1. persist RT_PublisherFenced (encode_fence ?f) b = (b1, success) \<and>
      opfor fence_grant (fenced_keys boot (b1\<lparr>br_fence_hashes := insert (boot_hash boot) (br_fence_hashes b1), br_fences := br_fences b1 @ [?f]\<rparr>))
        (b1\<lparr>br_fence_hashes := insert (boot_hash boot) (br_fence_hashes b1), br_fences := br_fences b1 @ [?f]\<rparr>) = (b', Inr r))"
    by (auto simp: fence_publisher_def opbind_success oplift_def opget_def opmod_def opret_def Let_def split: if_splits)
  then show "tracks b b'"
  proof (elim disjE exE conjE)
    fix b1 :: broker
    let ?b = "b1\<lparr>br_fence_hashes := insert (boot_hash boot) (br_fence_hashes b1), br_fences := br_fences b1 @ [?f]\<rparr>"
    assume p: "persist RT_PublisherFenced (encode_fence ?f) b = (b1, success)" and loop: "opfor fence_grant (fenced_keys boot ?b) ?b = (b', Inr r)"
    note f = persist_fields [OF p]
    have first: "tracks b ?b"
    proof (rule log_record [OF p refl refl])
      have "fence_ok ?f" using ok by (simp add: fence_ok_def)
      then show "apply_payload RT_PublisherFenced (encode_fence ?f) b = (restore_fence ?f b, success)"
        by (simp add: decoded_codec [OF c_fence_record.codec_axioms])
      show "coherent b \<Longrightarrow> coherent ?b" using coherent_cong [of ?b b] f by simp
    qed (use f in \<open>simp_all add: ledger_of_def restore_fence_def grants_ok_def\<close>)
    show ?thesis
    proof (rule tracksI)
      assume "encodable b"
      with first have c: "coherent ?b" by (simp add: tracks_def encodable_def)
      have "\<forall>i \<in> set (fenced_keys boot ?b). om_find (br_grants ?b) i \<noteq> None"
        using c om_find_mem [of "br_grants ?b"] by (force simp: fenced_keys_def coherent_def)
      with fence_grants_tracks [OF _ _ loop] fenced_keys_withdrawable(1) [OF c] have "tracks ?b b'" by blast
      with first show "tracks b b'" by (rule track.trans)
    qed
  qed (simp add: track.refl)
qed

lemma advance_epoch_logs: "logs advance_epoch"
proof (rule logsI)
  fix b b' r assume run: "advance_epoch b = (b', Inr r)"
  from run obtain b1 where p: "persist RT_EpochAdvanced (write_id r) b = (b1, success)"
    and b': "b' = b1\<lparr>br_epoch := r, br_tick := br_tick b1 + 1,
      br_grants := om_map_values (demote (\<lambda>g. gr_state g \<noteq> GS_RevalidationRequired)) (br_grants b1),
      br_accounting := [], br_capacities := om_map_values stale_evidence (br_capacities b1)\<rparr>"
    by (auto simp: advance_epoch_def opbind_success oplift_def opget_def opmod_def opret_def)
  note f = persist_fields [OF p]
  show "tracks b b'"
  proof (rule log_record [OF p refl refl])
    show "apply_payload RT_EpochAdvanced (write_id r) b = (b\<lparr>br_epoch := r\<rparr>, success)"
      by (simp add: decoded_codec [OF c_u64.codec_axioms])
    show "ledger_of (b\<lparr>br_epoch := r\<rparr>) = ledger_of b'" using f by (simp add: b' ledger_of_def ledger_maps)
    show "coherent b \<Longrightarrow> coherent b'" by (rule coherent_step [OF advance_epoch_advances run])
    show "grants_ok b \<Longrightarrow> grants_ok b'" by (rule grants_ok_demote) (use f in \<open>simp_all add: b'\<close>)
  qed (simp_all add: b')
qed

section \<open>What recovery returns\<close>

definition replay_from :: "snapshot_image option \<Rightarrow> durable_record list \<Rightarrow> unit bop" where
  "replay_from snap records =
    opbind (case snap of None \<Rightarrow> opret () | Some img \<Rightarrow> load_snapshot img) (\<lambda>_. replay_records records)"

text \<open>Recovery of the store would lead to the ledger and to the audit sequence of the running coordinator; the
  journal in use is the one recovery would create, or it holds records already.\<close>

definition recoverable :: "broker_config \<Rightarrow> broker \<Rightarrow> bool" where
  "recoverable config b \<longleftrightarrow> (\<exists>st snap js seq old x. br_store b = Some st \<and> st_journal st = Some seq \<and>
    clean_store snap (js @ [(seq, old)]) (st_dir st) \<and> base_sequence snap \<le> br_audit_sequence b \<and>
    last_of snap (newer (base_sequence snap) (concat (map snd js) @ old)) 0 = br_audit_sequence b \<and>
    (if old = [] then seq = br_audit_sequence b + 1 else seq \<le> br_audit_sequence b) \<and>
    replay_from snap (newer (base_sequence snap) (concat (map snd js) @ old)) (new_broker config) = (x, success) \<and>
    ledger_of x = ledger_of b \<and> br_audit_sequence x = br_audit_sequence b)"

text \<open>The audit sequence after a replay is the largest that was seen.\<close>

lemma apply_payload_audit: "br_audit_sequence (fst (apply_payload t p b)) = br_audit_sequence b"
  by (cases t) (auto simp: decoded_def restore_grant_def restore_fence_def restore_idempotency_def Let_def split: sum.split prod.split)

lemma replay_audit:
  "replay_records rs x = (z, Inr u) \<Longrightarrow>
    br_audit_sequence z = fold (\<lambda>r n. max n (rh_sequence (re_header r))) rs (br_audit_sequence x)"
proof (induction rs arbitrary: x)
  case (Cons r rs)
  from Cons.prems obtain y v where y: "apply_payload (re_type r) (re_payload r) x = (y, Inr v)"
    and z: "replay_records rs (y\<lparr>br_tick := max (br_tick y) (rh_tick (re_header r)),
      br_audit_sequence := max (br_audit_sequence y) (rh_sequence (re_header r))\<rparr>) = (z, Inr u)"
    by (auto simp: replay_records_def replay_record_def opbind_success opmod_def)
  have "br_audit_sequence y = br_audit_sequence x" using apply_payload_audit [of "re_type r" "re_payload r" x] y by simp
  with Cons.IH [OF z] show ?case by simp
qed (simp add: replay_records_def opret_def)

lemma fold_max_last:
  "\<forall>r \<in> set rs. f r \<le> m \<Longrightarrow> (n :: u64) \<le> m \<Longrightarrow> m = (if rs = [] then n else f (last rs)) \<Longrightarrow> fold (\<lambda>r n. max n (f r)) rs n = m"
proof (induction rs arbitrary: n)
  case (Cons r rs)
  then show ?case by (cases "rs = []") (simp_all add: max_def)
qed simp

lemma wrote_audit:
  assumes "wrote b rs b'" and "replay_records rs x = (z, success)" and "br_audit_sequence x = br_audit_sequence b"
  shows "br_audit_sequence z = br_audit_sequence b'"
proof -
  from assms(1) have "fold (\<lambda>r n. max n (rh_sequence (re_header r))) rs (br_audit_sequence b) = br_audit_sequence b'"
    unfolding wrote_def by (intro fold_max_last) auto
  with replay_audit [OF assms(2)] assms(3) show ?thesis by simp
qed

lemma replay_from_append:
  "replay_from snap (rs @ ss) b = opbind (replay_from snap rs) (\<lambda>_. replay_records ss) b"
  by (auto simp: replay_from_def opbind_def replay_append split: prod.split sum.split)

lemma recoverable_kept:
  assumes rec: "recoverable config b" and e: "encodable b" and t: "tracks b b'"
    and size: "length (journal_bytes b') \<le> kMaxStoreFileBytes"
  shows "recoverable config b'"
proof -
  obtain st snap js seq old x where st: "br_store b = Some st" "st_journal st = Some seq"
    and c: "clean_store snap (js @ [(seq, old)]) (st_dir st)" and base: "base_sequence snap \<le> br_audit_sequence b"
    and final: "last_of snap (newer (base_sequence snap) (concat (map snd js) @ old)) 0 = br_audit_sequence b"
    and seq: "if old = [] then seq = br_audit_sequence b + 1 else seq \<le> br_audit_sequence b"
    and x: "replay_from snap (newer (base_sequence snap) (concat (map snd js) @ old)) (new_broker config) = (x, success)"
      "ledger_of x = ledger_of b" "br_audit_sequence x = br_audit_sequence b"
    using rec by (auto simp: recoverable_def)
  obtain rs y where w: "wrote b rs b'" and y: "replay_records rs b = (y, success)" "ledger_of y = ledger_of b'"
    using t e by (auto simp: tracks_def)
  have "\<forall>a \<in> set (map fst (map clean_file js)). a < seq"
    using c by (auto simp: clean_store_def sorted_wrt_append clean_file_def)
  from om_find_last [OF this] c have "journal_bytes b = snd (clean_file (seq, old))"
    by (simp add: journal_bytes_def st clean_store_def file_of_def clean_file_def)
  with w size have "length (snd (clean_file (seq, old @ rs))) \<le> kMaxStoreFileBytes"
    by (simp add: wrote_def clean_file_def)
  with w st c obtain st' where st': "br_store b' = Some st'" "st_journal st' = Some seq"
    "clean_store snap (js @ [(seq, old @ rs)]) (st_dir st')" by (auto simp: wrote_def)
  have "newer (base_sequence snap) rs = rs" using w base by (fastforce simp: newer_def wrote_def intro: filter_True)
  then have new: "newer (base_sequence snap) (concat (map snd js) @ old @ rs) = newer (base_sequence snap) (concat (map snd js) @ old) @ rs"
    by (simp add: newer_def)
  obtain z where z: "replay_records rs x = (z, success)" "ledger_of z = ledger_of y"
    using alike_replay [OF x(2), of rs] y(1) by (cases "replay_records rs x") (auto simp: alike_def)
  then have "replay_from snap (newer (base_sequence snap) (concat (map snd js) @ old @ rs)) (new_broker config) = (z, success)"
    "ledger_of z = ledger_of b'" using x(1) y(2) by (simp_all add: new replay_from_append opbind_def)
  moreover have "br_audit_sequence z = br_audit_sequence b'" by (rule wrote_audit [OF w z(1) x(3)])
  moreover have "base_sequence snap \<le> br_audit_sequence b'" using base w by (auto simp: wrote_def)
  moreover have "last_of snap (newer (base_sequence snap) (concat (map snd js) @ old @ rs)) 0 = br_audit_sequence b'"
    using w final by (auto simp: new wrote_def last_of_def)
  moreover have "if old @ rs = [] then seq = br_audit_sequence b' + 1 else seq \<le> br_audit_sequence b'"
    using w seq by (cases "rs = []") (auto simp: wrote_def intro: inc_le split: if_splits)
  ultimately show ?thesis using st' unfolding recoverable_def by blast
qed

lemma fold_alike:
  assumes step: "\<And>v x y. ledger_of x = ledger_of y \<Longrightarrow> ledger_of (f v x) = ledger_of (f v y)"
  shows "ledger_of x = ledger_of y \<Longrightarrow> ledger_of (fold f vs x) = ledger_of (fold f vs y)"
proof (induction vs arbitrary: x y)
  case (Cons v vs)
  from Cons.IH [OF step [OF Cons.prems]] show ?case by simp
qed simp

lemma restore_alike:
  assumes "ledger_of x = ledger_of y"
  shows "ledger_of (x\<lparr>br_capacities := om_set (cs_target s) s (br_capacities x)\<rparr>) = ledger_of (y\<lparr>br_capacities := om_set (cs_target s) s (br_capacities y)\<rparr>)"
    "ledger_of (x\<lparr>br_obligations := om_set (ob_reservation ob) ob (br_obligations x)\<rparr>) = ledger_of (y\<lparr>br_obligations := om_set (ob_reservation ob) ob (br_obligations y)\<rparr>)"
    "ledger_of (restore_request rw x) = ledger_of (restore_request rw y)" "ledger_of (restore_grant g x) = ledger_of (restore_grant g y)"
    "ledger_of (restore_fence f x) = ledger_of (restore_fence f y)" "ledger_of (restore_idempotency e x) = ledger_of (restore_idempotency e y)"
    "ledger_of ((case rg of (i, n) \<Rightarrow> \<lambda>b. b\<lparr>br_retired_obligations := om_set i n (br_retired_obligations b)\<rparr>) x) =
     ledger_of ((case rg of (i, n) \<Rightarrow> \<lambda>b. b\<lparr>br_retired_obligations := om_set i n (br_retired_obligations b)\<rparr>) y)"
  using assms by (simp_all add: ledger_of_def restore_idempotency_def restore_fence_def restore_grant_def restore_request_def
      om_map_values_set Let_def split: prod.split)

lemma install_alike: "ledger_of x = ledger_of y \<Longrightarrow> ledger_of (install_state m x) = ledger_of (install_state m y)"
  unfolding install_state_def
  by (intro fold_alike restore_alike; (assumption | simp add: ledger_of_def split: option.split))

lemma load_alike: "ledger_of x = ledger_of y \<Longrightarrow> alike (load_snapshot img x) (load_snapshot img y)"
  by (auto simp: load_snapshot_def alike_def intro: install_alike split: sum.split)

lemma alike_replay_from:
  assumes "ledger_of x = ledger_of y"
  shows "alike (replay_from snap rs x) (replay_from snap rs y)"
proof (cases snap)
  case None
  with alike_replay [OF assms] show ?thesis by (simp add: replay_from_def opbind_def opret_def)
next
  case (Some img)
  obtain x1 s where x1: "load_snapshot img x = (x1, s)" by fastforce
  obtain y1 where "load_snapshot img y = (y1, s)" "ledger_of x1 = ledger_of y1"
    using load_alike [OF assms, of img] x1 by (cases "load_snapshot img y") (auto simp: alike_def)
  with x1 Some alike_replay [of x1 y1 rs] show ?thesis
    by (cases s) (simp_all add: replay_from_def opbind_def alike_def)
qed

text \<open>The coordinator recovered from the store has the ledger of the coordinator that wrote it, goes on with the
  same audit sequence, and has the directory as it was with an empty journal at the end.\<close>

lemma recover_clean_state:
  assumes "clean_store snap js d"
  shows "\<exists>st res. store_recover (reopen d options) = (st, Inr res) \<and> rv_snapshot res = snap \<and>
    rv_records res = newer (base_sequence snap) (concat (map snd js)) \<and> st_io st = [] \<and> st_journal_records st = 0 \<and>
    st_options st = options \<and>
    (let seq = last_of snap (newer (base_sequence snap) (concat (map snd js))) 0 + 1 in st_journal st = Some seq \<and>
      st_dir st = d\<lparr>dr_journals := om_set seq (journal_header seq) (dr_journals d)\<rparr>)"
proof -
  let ?st = "reopen d options"
  obtain m where m: "dr_manifest (st_dir ?st) = Some (encode_manifest m)" using assms by (auto simp: clean_store_def)
  have snap: "snapshots_hold snap (dr_snapshots (st_dir ?st))" using assms by (simp add: clean_store_def)
  have "scan_journals (dr_journals (st_dir ?st)) (base_sequence snap) ?st =
      (?st, Inr (newer (base_sequence snap) (concat (map snd js)), False))"
    using assms scan_journals_clean [of ?st js "[]" "base_sequence snap"] by (simp add: clean_store_def op_eval)
  from recover_quiet [OF reopen_simps(1) m snap this] show ?thesis by (auto simp: Let_def)
qed

lemma load_audit:
  "load_snapshot img x = (x', success) \<Longrightarrow> load_snapshot img y = (y', success) \<Longrightarrow> br_audit_sequence x' = br_audit_sequence y'"
proof -
  have keep: "br_audit_sequence (fold f vs b) = br_audit_sequence b" if "\<And>v b. br_audit_sequence (f v b) = br_audit_sequence b" for f vs b
    using that by (induction vs arbitrary: b) simp_all
  have "br_audit_sequence (install_state m b) = sm_audit_sequence m" for m b
    unfolding install_state_def
    by (simp add: keep restore_request_def restore_grant_def restore_fence_def restore_idempotency_def Let_def split: prod.split)
  then show "load_snapshot img x = (x', success) \<Longrightarrow> load_snapshot img y = (y', success) \<Longrightarrow> br_audit_sequence x' = br_audit_sequence y'"
    by (auto simp: load_snapshot_def split: sum.splits)
qed

lemma replay_from_audit:
  assumes "replay_from snap rs x = (x', success)" and "replay_from snap rs y = (y', success)"
    and "br_audit_sequence x = br_audit_sequence y"
  shows "br_audit_sequence x' = br_audit_sequence y'"
proof -
  obtain x1 where x1: "(case snap of None \<Rightarrow> opret () | Some img \<Rightarrow> load_snapshot img) x = (x1, success)" "replay_records rs x1 = (x', success)"
    using assms(1) by (auto simp: replay_from_def opbind_success)
  obtain y1 where y1: "(case snap of None \<Rightarrow> opret () | Some img \<Rightarrow> load_snapshot img) y = (y1, success)" "replay_records rs y1 = (y', success)"
    using assms(2) by (auto simp: replay_from_def opbind_success)
  have "br_audit_sequence x1 = br_audit_sequence y1"
  proof (cases snap)
    case None
    with x1(1) y1(1) assms(3) show ?thesis by (simp add: opret_def)
  next
    case (Some img)
    with x1(1) y1(1) show ?thesis by (intro load_audit [of img x x1 y y1]) simp_all
  qed
  with replay_audit [OF x1(2)] replay_audit [OF y1(2)] show ?thesis by simp
qed

text \<open>Neither the snapshot nor the records touch the store.\<close>

lemma replay_from_store:
  assumes "replay_from snap rs x = (z, success)"
  shows "br_store z = br_store x"
proof -
  have keep: "br_store (fold f vs b) = br_store b" if "\<And>v b. br_store (f v b) = br_store b" for f vs b
    using that by (induction vs arbitrary: b) simp_all
  have load: "br_store (install_state m b) = br_store b" for m b
    unfolding install_state_def
    by (simp add: keep restore_request_def restore_grant_def restore_fence_def restore_idempotency_def Let_def split: prod.split)
  have payload: "br_store (fst (apply_payload t p b)) = br_store b" for t p b
    by (cases t) (auto simp: decoded_def restore_grant_def restore_fence_def restore_idempotency_def Let_def split: sum.split prod.split)
  have replay: "replay_records rs y = (z, success) \<Longrightarrow> br_store z = br_store y" for y
  proof (induction rs arbitrary: y)
    case (Cons r rs)
    from Cons.prems obtain y1 v where "apply_payload (re_type r) (re_payload r) y = (y1, Inr v)"
      and "replay_records rs (y1\<lparr>br_tick := max (br_tick y1) (rh_tick (re_header r)),
        br_audit_sequence := max (br_audit_sequence y1) (rh_sequence (re_header r))\<rparr>) = (z, success)"
      by (auto simp: replay_records_def replay_record_def opbind_success opmod_def)
    with Cons.IH payload [of "re_type r" "re_payload r" y] show ?case by fastforce
  qed (simp add: replay_records_def opret_def)
  from assms load replay show ?thesis
    by (auto simp: replay_from_def opbind_success opret_def load_snapshot_def split: option.splits sum.splits)
qed

lemma recovered_state:
  assumes rec: "recoverable config b" and st: "br_store b = Some st"
    and dir: "bc_store_directory config \<noteq> []" "length (bc_store_directory config) \<le> 1024"
  shows "\<exists>x had st1. recover_state config (Some (st_dir st)) [] (new_broker config) = (x, Inr had) \<and> ledger_of x = ledger_of b \<and>
    br_audit_sequence x = br_audit_sequence b \<and> br_store x = Some st1 \<and> st_io st1 = [] \<and> st_journal_records st1 = 0 \<and>
    st_options st1 = store_options_of config \<and> st_journal st1 = Some (br_audit_sequence b + 1) \<and>
    st_dir st1 = (st_dir st)\<lparr>dr_journals := om_set (br_audit_sequence b + 1) (journal_header (br_audit_sequence b + 1)) (dr_journals (st_dir st))\<rparr>"
proof -
  obtain snap js seq old x where c: "clean_store snap (js @ [(seq, old)]) (st_dir st)"
    and final: "last_of snap (newer (base_sequence snap) (concat (map snd js) @ old)) 0 = br_audit_sequence b"
    and x: "replay_from snap (newer (base_sequence snap) (concat (map snd js) @ old)) (new_broker config) = (x, success)"
      "ledger_of x = ledger_of b" "br_audit_sequence x = br_audit_sequence b"
    using rec st by (auto simp: recoverable_def)
  obtain st1 res where r: "store_recover (reopen (st_dir st) (store_options_of config)) = (st1, Inr res)" "rv_snapshot res = snap"
      "rv_records res = newer (base_sequence snap) (concat (map snd js) @ old)" and st1: "st_io st1 = []" "st_journal_records st1 = 0" "st_options st1 = store_options_of config" "st_journal st1 = Some (br_audit_sequence b + 1)"
      "st_dir st1 = (st_dir st)\<lparr>dr_journals := om_set (br_audit_sequence b + 1) (journal_header (br_audit_sequence b + 1)) (dr_journals (st_dir st))\<rparr>"
    using recover_clean_state [OF c, of "store_options_of config"] final by (auto simp: Let_def)
  let ?b = "(new_broker config)\<lparr>br_store := Some st1, br_recoveries := 1, br_journal_truncations := rp_truncations (rv_report res)\<rparr>"
  have "ledger_of ?b = ledger_of (new_broker config)" by (simp add: ledger_of_def)
  from alike_replay_from [OF this, of snap "rv_records res"] x r(3)
  obtain z where z: "replay_from snap (rv_records res) ?b = (z, success)" "ledger_of z = ledger_of b"
    by (cases "replay_from snap (rv_records res) ?b") (auto simp: alike_def)
  have audit: "br_audit_sequence z = br_audit_sequence b"
    using replay_from_audit [OF z(1), of "new_broker config" x] x(1,3) r(3) by simp
  have "br_store z = br_store ?b" by (rule replay_from_store [OF z(1)])
  have "restore res ((new_broker config)\<lparr>br_store := Some st1\<rparr>) = (z, Inr (snap \<noteq> None \<or> rv_records res \<noteq> []))"
  proof -
    from z(1) obtain y u where "(case snap of None \<Rightarrow> opret () | Some img \<Rightarrow> load_snapshot img) ?b = (y, Inr u)"
      and "replay_records (rv_records res) y = (z, success)" by (auto simp: replay_from_def opbind_success)
    then show ?thesis unfolding restore_def mod_bind r(2) by (simp add: opbind_eval opret_def)
  qed
  then have "recover_state config (Some (st_dir st)) [] (new_broker config) = (z, Inr (snap \<noteq> None \<or> rv_records res \<noteq> []))"
    using dir r(1) by (simp add: recover_state_def store_open_def recover_store_def opbind_def oplift_def reopen_def)
  with z(2) audit st1 \<open>br_store z = br_store ?b\<close> show ?thesis by auto
qed

end
