(* ===== verification/Round_Durability.thy ===== *)
theory Round_Durability
  imports Durability
begin

text \<open>
  Rounds are journalled faithfully.  Half way through a round the tables are not coherent (the next
  grant identity is advanced at its end), so the steps of a round are related by \<open>follows\<close>, which is
  \<open>tracks\<close> without the invariants; at the end of a round that reports success both are
  restored.  The compaction at the end of a round is a step of its own.
\<close>

section \<open>Replay without the invariants\<close>

definition follows :: "broker \<Rightarrow> broker \<Rightarrow> bool" where
  "follows b b' \<longleftrightarrow> (journalling b \<longrightarrow>
    (\<exists>rs x. wrote b rs b' \<and> replay_records rs b = (x, success) \<and> ledger_of x = ledger_of b'))"

lemma follow_memory:
  assumes "br_store b' = br_store b" and "br_audit_sequence b' = br_audit_sequence b" and "ledger_of b' = ledger_of b"
  shows "follows b b'"
  using wrote_nothing [of b b'] assms by (auto simp: follows_def replay_records_def opret_def intro!: exI [of _ "[]"])

interpretation follow: progress follows
proof
  show "follows b b" for b by (rule follow_memory) simp_all
  show "follows b b''" if f: "follows b b'" "follows b' b''" for b b' b''
  proof (unfold follows_def, intro impI)
    assume "journalling b"
    with f(1) obtain rs x where 1: "wrote b rs b'" "replay_records rs b = (x, success)" "ledger_of x = ledger_of b'"
      by (auto simp: follows_def)
    with f(2) obtain ss y where 2: "wrote b' ss b''" "replay_records ss b' = (y, success)" "ledger_of y = ledger_of b''"
      using wrote_journalling by (auto simp: follows_def)
    obtain z where "replay_records ss x = (z, success)" "ledger_of z = ledger_of y"
      using alike_replay [OF 1(3), of ss] 2(2) by (cases "replay_records ss x") (auto simp: alike_def)
    with 1 2 show "\<exists>rs x. wrote b rs b'' \<and> replay_records rs b = (x, success) \<and> ledger_of x = ledger_of b''"
      by (intro exI [of _ "rs @ ss"] exI [of _ z]) (simp add: replay_append opbind_def wrote_trans [OF 1(1) 2(1)])
  qed
qed

lemma follow_record:
  assumes "persist t p b0 = (b1, success)" and "br_store b0 = br_store b" and "br_audit_sequence b0 = br_audit_sequence b"
    and "apply_payload t p b = (x, success)" and "ledger_of x = ledger_of b1"
  shows "follows b b1"
proof (unfold follows_def, intro impI)
  assume "journalling b"
  then have "journalling b0" using assms(2) by (simp add: journalling_def)
  from persist_wrote [OF assms(1) this] obtain h where "wrote b0 [\<lparr> re_type = t, re_header = h, re_payload = p \<rparr>] b1" by blast
  then have "wrote b [\<lparr> re_type = t, re_header = h, re_payload = p \<rparr>] b1" using wrote_cong [of b0 b b1 b1] assms(2,3) by simp
  with assms(4,5) show "\<exists>rs x. wrote b rs b1 \<and> replay_records rs b = (x, success) \<and> ledger_of x = ledger_of b1"
    by (intro exI [of _ "[_]"]) (auto simp: replay_records_def replay_record_def opbind_def opmod_def opret_def)
qed

lemma tracks_followed:
  assumes "follows b b'" and "encodable b \<Longrightarrow> coherent b' \<and> grants_ok b'"
  shows "tracks b b'"
  using assms wrote_journalling by (auto simp: tracks_def follows_def encodable_alt)

section \<open>The decisions\<close>

lemma decided_payload:
  "grant_ok g \<Longrightarrow> apply_payload (grant_record_type had s) (encode_grant g) b = (restore_grant g b, success)"
  by (auto simp: grant_record_type_def decoded_codec [OF c_grant.codec_axioms])

lemma store_decided_follows:
  assumes "store_decided_grant (Some g) b = (b', Inr u)" and "grant_ok g"
  shows "follows b b'"
proof -
  let ?b = "b\<lparr>br_grants := om_set (gr_id g) g (br_grants b)\<rparr>"
  from assms(1) obtain had where p: "persist (grant_record_type had (gr_state g)) (encode_grant g) ?b = (b', success)"
    by (auto simp: store_decided_grant_def opbind_success opget_def put_grant_def opmod_def persist_grant_def)
  show ?thesis
    by (rule follow_record [OF p _ _ decided_payload [OF assms(2)]])
      (use persist_fields [OF p] in \<open>simp_all add: ledger_of_def restore_grant_def\<close>)
qed

lemma apply_decision_follows:
  assumes "apply_decision input acc d b = (b', Inr u)" and "\<forall>g. ad_grant d = Some g \<longrightarrow> grant_ok g"
  shows "follows b b'"
proof -
  from assms(1) obtain b1 where s: "store_decided_grant (ad_grant d) b = (b1, success)"
    and rest: "br_store b' = br_store b1" "br_audit_sequence b' = br_audit_sequence b1" "ledger_of b' = ledger_of b1"
    by (auto simp: apply_decision_def Let_def opbind_success opget_def opmod_def oplift_def opret_def ledger_of_def split: option.splits)
  have "follows b b1"
    using s store_decided_follows assms(2) by (cases "ad_grant d") (auto simp: store_decided_grant_def [of None] opret_def follow.refl)
  moreover have "follows b1 b'" using rest by (rule follow_memory)
  ultimately show ?thesis by (rule follow.trans)
qed

lemma apply_decisions_follow:
  "opfor (apply_decision input acc) ds b = (b', Inr u) \<Longrightarrow> \<forall>g \<in> set (decided ds). grant_ok g \<Longrightarrow> follows b b'"
proof (induction ds arbitrary: b)
  case (Cons d ds)
  from Cons.prems(1) obtain b1 v where 1: "apply_decision input acc d b = (b1, Inr v)"
    and 2: "opfor (apply_decision input acc) ds b1 = (b', Inr u)" by (auto simp: opbind_success)
  have "follows b b1" by (rule apply_decision_follows [OF 1]) (use Cons.prems(2) in auto)
  moreover have "follows b1 b'" by (rule Cons.IH [OF 2]) (use Cons.prems(2) in \<open>auto split: option.splits\<close>)
  ultimately show ?case by (rule follow.trans)
qed (simp add: opret_def follow.refl)

text \<open>After the decisions are applied every decided grant is in the table.\<close>

lemma apply_decisions_grants:
  "opfor (apply_decision input acc) ds b = (b', Inr u) \<Longrightarrow> distinct (map gr_id (decided ds)) \<Longrightarrow>
    (\<forall>g \<in> set (decided ds). om_find (br_grants b') (gr_id g) = Some g) \<and>
    (\<forall>i. i \<notin> gr_id ` set (decided ds) \<longrightarrow> om_find (br_grants b') i = om_find (br_grants b) i)"
proof (induction ds arbitrary: b)
  case (Cons d ds)
  from Cons.prems(1) obtain b1 v where 1: "apply_decision input acc d b = (b1, Inr v)"
    and 2: "opfor (apply_decision input acc) ds b1 = (b', Inr u)" by (auto simp: opbind_success)
  have "br_grants b1 = br_grants (decided_tables d b)"
    using apply_decision_frame [of d b input acc] 1 by (simp add: keeps_tables_def)
  moreover have "distinct (map gr_id (decided ds))" using Cons.prems(2) by (auto split: option.splits)
  ultimately show ?case using Cons.IH [OF 2] Cons.prems(2)
    by (auto simp: decided_tables_def om_find_set split: option.splits)
qed (simp add: opret_def)

lemma commit_follows:
  assumes "commit_round target out b = (b', Inr u)" and "accounting_ok (ao_accounting out)"
  shows "follows b b' \<and> br_grants b' = br_grants b"
proof -
  let ?ro = "\<lparr> ro_decision = ao_decision out, ro_target = target, ro_tick = ao_tick out, ro_accounting = ao_accounting out,
      ro_next_grant_id = ao_next_grant_id out, ro_next_recall_id = ao_next_recall_id out \<rparr>"
  from assms(1) obtain n r q a l where p: "persist RT_RoundCommitted (encode_round ?ro)
      (b\<lparr>br_next_grant_id := n, br_next_recall_id := r, br_next_decision_id := q, br_accounting := a, br_last_decision := l\<rparr>) = (b', success)"
    by (auto simp: commit_round_def opbind_success opmod_def)
  have ok: "round_ok ?ro" using assms(2) by (simp add: round_ok_def)
  have "\<exists>x. apply_payload RT_RoundCommitted (encode_round ?ro) b = (x, success) \<and> ledger_of x = ledger_of b"
    by (simp add: decoded_codec [OF c_round_record.codec_axioms ok] ledger_of_def)
  then obtain x where x: "apply_payload RT_RoundCommitted (encode_round ?ro) b = (x, success)" "ledger_of x = ledger_of b" by blast
  have "follows b b'"
    by (rule follow_record [OF p _ _ x(1)]) (use persist_fields [OF p] x(2) in \<open>simp_all add: ledger_of_def\<close>)
  with persist_fields [OF p] show ?thesis by simp
qed

section \<open>Before the decisions\<close>

text \<open>Revoking orphans leaves the capacity evidence alone.\<close>

definition same_evidence :: "broker \<Rightarrow> broker \<Rightarrow> bool" where
  "same_evidence b b' \<longleftrightarrow> br_capacities b' = br_capacities b"

interpretation evidence: progress same_evidence
  by unfold_locales (simp_all add: same_evidence_def)

lemma persist_evidence: "steps same_evidence (persist t p)"
  unfolding steps_def same_evidence_def
proof
  fix b show "br_capacities (fst (persist t p b)) = br_capacities b" by (cases rule: persist_state [of t p b]) simp
qed

lemma withdraw_evidence: "steps same_evidence (withdraw i t r s)"
proof -
  have "steps same_evidence (grant_ref i)" by (simp add: steps_def grant_ref_def same_evidence_def split: option.split)
  moreover have "steps same_evidence (put_grant i g)" for g unfolding put_grant_def by (rule evidence.mod) (simp add: same_evidence_def)
  ultimately show ?thesis unfolding withdraw_def persist_grant_def Let_def by (intro evidence.intros persist_evidence)
qed

lemma orphans_evidence: "steps same_evidence (revoke_orphans target is)"
proof -
  have "steps same_evidence (retire_accounting target g)" for g
    by (auto simp: steps_def retire_accounting_def same_evidence_def split: option.split prod.split)
  then show ?thesis by (induction "is") (auto intro!: evidence.intros withdraw_evidence)
qed

lemma revoke_orphans_tracks:
  "distinct is \<Longrightarrow> \<forall>i \<in> set is. om_find (br_grants b) i \<noteq> None \<Longrightarrow> revoke_orphans target is b = (b', Inr n) \<Longrightarrow> tracks b b'"
proof (induction "is" arbitrary: b n)
  case (Cons i "is")
  from Cons.prems(3) obtain b1 x h b2 m where w: "withdraw i RT_GrantRevoked OR_Revoked GS_Revoked b = (b1, Inr (x, h))"
    and a: "retire_accounting target x b1 = (b2, success)" and r: "revoke_orphans target is b2 = (b', Inr m)"
    by (auto simp: opbind_success opret_def)
  obtain g where g: "om_find (br_grants b) i = Some g" using Cons.prems(2) by auto
  have "tracks b b1" by (rule withdraw_tracks [OF g w]) (simp_all add: reason_ok_def)
  moreover have "tracks b1 b2" using retire_accounting_logs a by (auto simp: logs_def)
  moreover have "keeps_tables b1 b2" using tables.run [OF retire_tables] a by (metis fst_conv)
  then have "br_grants b2 = om_set i h (br_grants b)" using withdraw_success [OF g w] by (simp add: keeps_tables_def)
  then have "tracks b2 b'" using Cons.IH [OF _ _ r] Cons.prems(1,2) by (auto simp: om_find_set)
  ultimately show ?case by (blast intro: track.trans)
qed (simp add: opret_def track.refl)

lemma om_set_found: "om_ok m \<Longrightarrow> om_find m k = Some v \<Longrightarrow> om_set k v m = m"
proof (induction k v m rule: om_set.induct)
  case (2 k v a w m)
  then show ?case by (fastforce simp: om_ok_def dest: om_find_some)
qed simp

lemma round_snapshot_follows:
  assumes "round_snapshot target b = (b', Inr s)" and "om_ok (br_capacities b)"
  shows "follows b b'"
proof -
  from assms(1) have "b' = b \<or> (\<exists>s. om_find (br_capacities b) target = Some s \<and>
      b' = b\<lparr>br_capacities := om_set target (stale_evidence s) (br_capacities b)\<rparr>)"
    by (auto simp: round_snapshot_def Let_def opbind_success opget_def opmod_def oplift_def opret_def split: option.splits if_splits)
  then show ?thesis
  proof (elim disjE exE conjE)
    fix s assume s: "om_find (br_capacities b) target = Some s"
      and b': "b' = b\<lparr>br_capacities := om_set target (stale_evidence s) (br_capacities b)\<rparr>"
    have "om_set target (stale_evidence s) (om_map_values stale_evidence (br_capacities b)) = om_map_values stale_evidence (br_capacities b)"
      using assms(2) s by (intro om_set_found) (simp_all add: om_ok_map_values om_find_map_values)
    then have "ledger_of b' = ledger_of b" by (simp add: b' ledger_of_def om_map_values_set stale_evidence_def)
    then show ?thesis by (simp add: b' follow_memory)
  qed (simp add: follow.refl)
qed

section \<open>The round\<close>

text \<open>A round without the compaction at its end.\<close>

definition decide_round :: "capacity_target \<Rightarrow> policy \<Rightarrow> nat \<Rightarrow> capacity_snapshot \<Rightarrow> round_summary bop" where
  "decide_round target p orphan_recalls s =
    opbind (opmod (\<lambda>b. b\<lparr>br_tick := br_tick b + 1\<rparr>)) (\<lambda>_.
    opbind (opget br_next_decision_id) (\<lambda>next.
    opbind (oplift (id_make next)) (\<lambda>decision.
    opbind (opget (round_input target s p decision)) (\<lambda>input.
    opbind (oplift (arbitrate input)) (\<lambda>res.
    opbind (opfor (apply_decision input (ao_accounting res)) (ao_decisions res)) (\<lambda>_.
    opbind (commit_round target res) (\<lambda>_.
      opret (summarise target orphan_recalls res))))))))"

definition commit_only :: "capacity_target \<Rightarrow> round_summary bop" where
  "commit_only target =
    opbind (oplift (target_validate target)) (\<lambda>_.
    opbind (opget br_policy) (\<lambda>installed. case installed of
      None \<Rightarrow> oplift (fail EC_PolicyInvalid)
    | Some p \<Rightarrow>
        opbind (opget (orphans target)) (\<lambda>is.
        opbind (revoke_orphans target is) (\<lambda>orphan_recalls.
        opbind (round_snapshot target) (\<lambda>s.
          decide_round target p orphan_recalls s)))))"

lemma arbitrate_commits:
  "broker_arbitrate target b = (b', Inr w) \<longleftrightarrow>
    (\<exists>b1. commit_only target b = (b1, Inr w) \<and> compact_if_needed b1 = (b', success))"
  unfolding broker_arbitrate_def commit_only_def run_round_def decide_round_def
  by (auto simp: opbind_success opget_def opmod_def oplift_def opret_def split: option.splits)

lemma decide_round_effect:
  assumes run: "decide_round target p m s b = (b', Inr w)" and c: "coherent b"
    and acc: "accounting_ok (rs_accounting w)"
  shows "coherent b'" and "grants_ok b' \<Longrightarrow> follows b b'"
proof -
  let ?b = "b\<lparr>br_tick := br_tick b + 1\<rparr>"
  from run obtain decision out b2 where a: "arbitrate (round_input target s p decision ?b) = Inr out"
    and ds: "opfor (apply_decision (round_input target s p decision ?b) (ao_accounting out)) (ao_decisions out) ?b = (b2, success)"
    and co: "commit_round target out b2 = (b', success)" and w: "w = summarise target m out"
    by (auto simp: decide_round_def opbind_success opget_def opmod_def oplift_def opret_def)
  have c1: "coherent ?b" using c by (simp add: coherent_def)
  note dec = round_decides [OF c1 a]
  have "accounting_ok (ao_accounting out)" using acc by (simp add: w summarise_def Let_def)
  note com = commit_follows [OF co this]
  have adv: "advances (with_next (ao_next_grant_id out) ?b) (with_next (ao_next_grant_id out) b2)"
      "br_next_grant_id b2 = br_next_grant_id ?b"
    using apply_decisions_advance [OF dec(1,3)] ds by (metis fst_conv)+
  then have "coherent (with_next (ao_next_grant_id out) b2)" using coherent_with_next [OF c1 dec(2)] by (simp add: advances_def)
  with commit_coherent [of out b2 target] dec(2) adv(2) co show "coherent b'" by simp
  assume grants: "grants_ok b'"
  have "\<forall>g \<in> set (decided (ao_decisions out)). om_find (br_grants b2) (gr_id g) = Some g"
    using apply_decisions_grants [OF ds dec(1)] by blast
  with grants com have ok: "\<forall>g \<in> set (decided (ao_decisions out)). grant_ok g" by (auto simp: grants_ok_def dest: om_find_some)
  have "follows b ?b" by (rule follow_memory) (simp_all add: ledger_of_def)
  moreover have "follows ?b b2" by (rule apply_decisions_follow [OF ds ok])
  ultimately show "follows b b'" using com by (blast intro: follow.trans)
qed

text \<open>A round that reports success is replayed to its ledger.\<close>

lemma round_tracks:
  assumes run: "commit_only target b = (b', Inr w)" and caps: "om_ok (br_capacities b)" and acc: "accounting_ok (rs_accounting w)"
    and grants: "\<forall>e \<in> set (br_grants b'). grant_ok (snd e)"
  shows "tracks b b'"
proof (rule tracksI)
  assume e: "encodable b"
  then have c: "coherent b" by (simp add: encodable_def)
  from run obtain p n b1 s b2 where o: "revoke_orphans target (orphans target b) b = (b1, Inr n)"
    and r: "round_snapshot target b1 = (b2, Inr s)" and rr: "decide_round target p n s b2 = (b', Inr w)"
    by (auto simp: commit_only_def opbind_success oplift_def opget_def split: option.splits)
  have t1: "tracks b b1"
    using revoke_orphans_tracks [OF orphans_withdrawable(1) [OF c] _ o] orphans_withdrawable(2) [OF c] by (auto simp: withdrawable_def)
  have "om_ok (br_capacities b1)" using stepsD [OF orphans_evidence o] caps by (simp add: same_evidence_def)
  note f2 = round_snapshot_follows [OF r this]
  have ok': "grants_ok b'" using grants by (auto simp: grants_ok_def)
  have "coherent b1" using t1 e by (simp add: tracks_def encodable_def)
  then have c2: "coherent b2" using stepsD [OF round_snapshot_advances r] by (simp add: advances_def)
  note d = decide_round_effect [OF rr c2 acc]
  show "tracks b b'"
    by (rule track.trans [OF t1], rule tracks_followed) (use d ok' f2 in \<open>auto intro: follow.trans\<close>)
qed

end
