(* ===== verification/Snapshots.thy ===== *)
theory Snapshots
  imports Durability
begin

text \<open>
  Compaction writes the whole state as one image (\<open>Impl::snapshot_payload\<close>).  The image is encoded and decoded by
  a codec like any other, and installing it in an empty coordinator rebuilds every durable table: the
  coordinator restored from an image has the ledger of the coordinator that wrote it.
\<close>

section \<open>The codec of a state image\<close>

lemma codec_corrupt: "codec enc dec ok \<Longrightarrow> codec enc (r_corrupt dec) ok"
proof (intro codec.intro)
  assume c: "codec enc dec ok"
  show "r_corrupt dec (enc x @ rest) = (rest, Inr x)" if "ok x" for x rest
    using codec.round [OF c that] by (simp add: r_corrupt_def)
  show "ok x \<and> bs = enc x @ rest" if "r_corrupt dec bs = (rest, Inr x)" for bs x rest
    using codec.canonical [OF c, of bs rest x] that by (auto simp: r_corrupt_def split: prod.splits sum.splits)
qed

declare codec.read_bind [OF codec_corrupt [OF c_request.codec_axioms], codec_read]
  codec.reads_bind [OF codec_corrupt [OF c_request.codec_axioms], codec_canon]

interpretation c_waiting: codec encode_waiting_request decode_waiting_request "\<lambda>(r, _). request_ok r"
  by (rule codecI, auto simp: encode_waiting_request_def decode_waiting_request_def codec_read codec_canon split: prod.splits)

lemmas state_parts = codec_option [OF codec_corrupt [OF c_policy.codec_axioms]] codec_vector [OF codec_corrupt [OF c_snapshot.codec_axioms]]
  codec_vector [OF codec_corrupt [OF c_obligation.codec_axioms]] codec_vector [OF c_waiting.codec_axioms]
  codec_vector [OF codec_corrupt [OF c_grant.codec_axioms]] codec_vector [OF c_fence_record.codec_axioms]
  codec_vector [OF c_idempotency_record.codec_axioms] codec_vector [OF c_key.codec_axioms]

lemmas state_read = state_parts [THEN codec.read_bind]
lemmas state_canon = state_parts [THEN codec.reads_bind]

interpretation c_state: codec encode_state decode_state state_ok
  by (rule codecI, simp add: encode_state_def decode_state_def state_ok_def codec_read state_read,
    simp add: encode_state_def decode_state_def state_ok_def codec_canon state_canon)

section \<open>Rebuilding a table\<close>

lemma rebuild_from:
  assumes "\<forall>e \<in> set m. key (h e) = fst e" and "sorted_wrt (<) (map fst acc @ map fst m)"
  shows "fold (\<lambda>x. om_set (key x) (val x)) (map h m) acc = acc @ map (\<lambda>e. (fst e, val (h e))) m"
  using assms
proof (induction m arbitrary: acc)
  case (Cons e m)
  then have "om_set (key (h e)) (val (h e)) acc = acc @ [(fst e, val (h e))]"
    by (simp add: sorted_wrt_append om_set_after)
  with Cons.IH [of "acc @ [(fst e, val (h e))]"] Cons.prems show ?case by simp
qed simp

lemma rebuild:
  "om_ok m \<Longrightarrow> \<forall>e \<in> set m. key (h e) = fst e \<Longrightarrow>
    fold (\<lambda>x. om_set (key x) (val x)) (map h m) [] = map (\<lambda>e. (fst e, val (h e))) m"
  using rebuild_from [of m key h "[]" val] by (simp add: om_ok_def strict_sorted_iff)

section \<open>Installing an image\<close>

lemma fold_capacities: "fold (\<lambda>s b. b\<lparr>br_capacities := om_set (cs_target s) s (br_capacities b)\<rparr>) ss b =
    b\<lparr>br_capacities := fold (\<lambda>s. om_set (cs_target s) s) ss (br_capacities b)\<rparr>"
  by (induction ss arbitrary: b) simp_all

lemma fold_obligations: "fold (\<lambda>ob b. b\<lparr>br_obligations := om_set (ob_reservation ob) ob (br_obligations b)\<rparr>) os b =
    b\<lparr>br_obligations := fold (\<lambda>ob. om_set (ob_reservation ob) ob) os (br_obligations b)\<rparr>"
  by (induction os arbitrary: b) simp_all

lemma fold_retired: "fold (\<lambda>(i, n) b. b\<lparr>br_retired_obligations := om_set i n (br_retired_obligations b)\<rparr>) rs b =
    b\<lparr>br_retired_obligations := fold (\<lambda>e. om_set (fst e) (snd e)) rs (br_retired_obligations b)\<rparr>"
  by (induction rs arbitrary: b) auto

lemma fold_requests: "fold restore_request rws b =
    b\<lparr>br_wait_rounds := fold (\<lambda>rw. om_set (request_key (rq_id (fst rw)) (rq_generation (fst rw))) (snd rw)) rws (br_wait_rounds b),
      br_requests := fold (\<lambda>rw. om_set (request_key (rq_id (fst rw)) (rq_generation (fst rw))) (fst rw)) rws (br_requests b)\<rparr>"
  by (induction rws arbitrary: b) (simp_all add: restore_request_def Let_def)

lemma fold_grants: "fold restore_grant gs b = b\<lparr>br_grants := fold (\<lambda>g. om_set (gr_id g) g) gs (br_grants b),
    br_next_grant_id := fold (\<lambda>g n. max n (gr_id g + 1)) gs (br_next_grant_id b)\<rparr>"
  by (induction gs arbitrary: b) (simp_all add: restore_grant_def)

lemma fold_fences: "fold restore_fence fs b =
    b\<lparr>br_fence_hashes := br_fence_hashes b \<union> (boot_hash \<circ> bf_boot) ` set fs, br_fences := br_fences b @ fs\<rparr>"
  by (induction fs arbitrary: b) (simp_all add: restore_fence_def)

lemma fold_idempotency: "fold restore_idempotency es b =
    b\<lparr>br_idempotency := fold (\<lambda>e. om_set (request_key (ir_request e) (ir_generation e)) (restore_outcome e)) es (br_idempotency b),
      br_content_hashes := fold (\<lambda>e. om_set (request_key (ir_request e) (ir_generation e)) (ir_content_hash e)) es (br_content_hashes b)\<rparr>"
  by (induction es arbitrary: b) (simp_all add: restore_idempotency_def Let_def)

text \<open>The tables are ordered maps under the keys the operations use, every recorded outcome has its content hash,
  and the fenced hashes are those of the recorded fences.\<close>

definition keyed :: "broker \<Rightarrow> bool" where
  "keyed b \<longleftrightarrow> coherent b \<and>
    om_ok (br_capacities b) \<and> (\<forall>e \<in> set (br_capacities b). cs_target (snd e) = fst e) \<and>
    om_ok (br_obligations b) \<and> (\<forall>e \<in> set (br_obligations b). ob_reservation (snd e) = fst e) \<and>
    om_ok (br_retired_obligations b) \<and>
    om_ok (br_idempotency b) \<and> (\<forall>e \<in> set (br_idempotency b). request_key (so_request (snd e)) (so_generation (snd e)) = fst e) \<and>
    br_content_hashes b = map (\<lambda>e. (fst e, found_or 0 (br_content_hashes b) (fst e))) (br_idempotency b) \<and>
    br_fence_hashes b = (boot_hash \<circ> bf_boot) ` set (br_fences b)"

lemma snapshot_restores:
  assumes "keyed b" and "state_ok (state_image_of b)"
  shows "\<exists>x. load_snapshot \<lparr> si_header = h, si_sequence = n, si_payload = snapshot_payload b \<rparr> (new_broker config) = (x, success) \<and>
    ledger_of x = ledger_of b \<and> br_tick x = br_tick b \<and> br_audit_sequence x = br_audit_sequence b \<and>
    br_incarnation x = br_incarnation b"
proof -
  let ?m = "state_image_of b"
  have "decode_payload decode_state (snapshot_payload b) = Inr ?m"
    using c_state.payload_exact [of "snapshot_payload b" ?m] assms(2) by (simp add: snapshot_payload_def)
  then have load: "load_snapshot \<lparr> si_header = h, si_sequence = n, si_payload = snapshot_payload b \<rparr> (new_broker config) =
      (install_state ?m (new_broker config), success)" by (simp add: load_snapshot_def)
  have caps: "fold (\<lambda>s. om_set (cs_target s) s) (map snd (br_capacities b)) [] = br_capacities b"
    using rebuild [of "br_capacities b" cs_target snd "\<lambda>s. s"] assms(1) by (simp add: keyed_def)
  have obs: "fold (\<lambda>ob. om_set (ob_reservation ob) ob) (map snd (br_obligations b)) [] = br_obligations b"
    using rebuild [of "br_obligations b" ob_reservation snd "\<lambda>s. s"] assms(1) by (simp add: keyed_def)
  have ret: "fold (\<lambda>e. om_set (fst e) (snd e)) (br_retired_obligations b) [] = br_retired_obligations b"
    using rebuild [of "br_retired_obligations b" fst "\<lambda>e. e" snd] assms(1) by (simp add: keyed_def)
  have reqs: "fold (\<lambda>rw. om_set (request_key (rq_id (fst rw)) (rq_generation (fst rw))) (fst rw))
      (map (\<lambda>(key, r). (r, found_or 0 (br_wait_rounds b) key)) (br_requests b)) [] = br_requests b"
    using rebuild [of "br_requests b" "\<lambda>rw. request_key (rq_id (fst rw)) (rq_generation (fst rw))"
        "\<lambda>(key, r). (r, found_or 0 (br_wait_rounds b) key)" fst] assms(1)
    by (auto simp: keyed_def coherent_def case_prod_beta)
  have grs: "fold (\<lambda>g. om_set (gr_id g) g) (map snd (br_grants b)) [] = br_grants b"
    using rebuild [of "br_grants b" gr_id snd "\<lambda>s. s"] assms(1) by (auto simp: keyed_def coherent_def case_prod_beta)
  have ids: "fold (\<lambda>e. om_set (request_key (ir_request e) (ir_generation e)) (restore_outcome e))
      (map (idempotency_entry (br_content_hashes b)) (br_idempotency b)) [] = om_map_values replayed_outcome (br_idempotency b)"
    using rebuild [of "br_idempotency b" "\<lambda>e. request_key (ir_request e) (ir_generation e)" "idempotency_entry (br_content_hashes b)" restore_outcome] assms(1)
    by (simp add: keyed_def idempotency_entry_def restore_outcome_def Let_def om_map_values_def case_prod_beta replayed_outcome_def)
  have hashes: "fold (\<lambda>e. om_set (request_key (ir_request e) (ir_generation e)) (ir_content_hash e))
      (map (idempotency_entry (br_content_hashes b)) (br_idempotency b)) [] = br_content_hashes b"
    using rebuild [of "br_idempotency b" "\<lambda>e. request_key (ir_request e) (ir_generation e)" "idempotency_entry (br_content_hashes b)" ir_content_hash] assms(1)
    by (simp add: keyed_def idempotency_entry_def Let_def)
  have outs: "om_map_values replayed_outcome (om_map_values replayed_outcome m) = om_map_values replayed_outcome m"
    for m :: "(request_key, submit_outcome) omap" by (auto simp: om_map_values_def replayed_outcome_def)
  have fen: "br_fence_hashes b = (boot_hash \<circ> bf_boot) ` set (br_fences b)" using assms(1) by (simp add: keyed_def)
  have "ledger_of (install_state ?m (new_broker config)) = ledger_of b"
    by (simp add: install_state_def fold_capacities fold_obligations fold_retired fold_requests fold_grants fold_fences fold_idempotency
        state_image_of_def new_broker_def ledger_of_def caps obs ret reqs grs ids hashes outs fen split: option.split)
  moreover have "br_tick (install_state ?m (new_broker config)) = br_tick b"
      "br_audit_sequence (install_state ?m (new_broker config)) = br_audit_sequence b"
      "br_incarnation (install_state ?m (new_broker config)) = br_incarnation b"
    by (simp_all add: install_state_def fold_capacities fold_obligations fold_retired fold_requests fold_grants fold_fences fold_idempotency
        state_image_of_def)
  ultimately show ?thesis using load by simp
qed

end
