(* ===== verification/Compaction.thy ===== *)
theory Compaction
  imports Snapshots
begin

text \<open>
  Compaction replaces the journal by a snapshot (\<open>Store::compact\<close>, \<open>Impl::maybe_compact\<close>): afterwards the
  directory holds the image of the state as its newest snapshot, at most one older snapshot, and one
  empty journal, and recovery from it leads to the ledger of the coordinator that compacted.
\<close>

section \<open>The files after a compaction\<close>

lemma erase_front: "om_ok m \<Longrightarrow> fold om_erase (take n (map fst m)) m = drop n m"
proof (induction m arbitrary: n)
  case (Cons e m)
  then show ?case by (cases e; cases n) (simp_all add: om_ok_def)
qed simp

lemma remove_journals_quiet:
  "st_io st = [] \<Longrightarrow> opfor remove_journal ks st =
    (with_dir (\<lambda>d. d\<lparr>dr_journals := fold om_erase ks (dr_journals d)\<rparr>) st, success)"
  by (induction ks arbitrary: st) (simp_all add: remove_journal_def op_eval with_dir_def)

lemma remove_snapshots_quiet:
  "st_io st = [] \<Longrightarrow> opfor remove_snapshot ks st =
    (with_dir (\<lambda>d. d\<lparr>dr_snapshots := fold om_erase ks (dr_snapshots d)\<rparr>) st, success)"
  by (induction ks arbitrary: st) (simp_all add: remove_snapshot_def op_eval with_dir_def)

lemma om_set_newest:
  "om_ok m \<Longrightarrow> \<forall>k \<in> fst ` set m. k \<le> n \<Longrightarrow> \<exists>older. om_set n v m = older @ [(n, v)]"
proof (induction m)
  case (Cons e m)
  obtain k w where e: "e = (k, w)" by fastforce
  have "om_ok m" "\<forall>j \<in> fst ` set m. j \<le> n" using Cons.prems by (auto simp: om_ok_def)
  from Cons.IH [OF this] obtain older where o: "om_set n v m = older @ [(n, v)]" by blast
  show ?case
  proof (cases "k = n")
    case True
    then have "m = []" using Cons.prems by (cases m) (auto simp: e om_ok_def)
    then show ?thesis by (simp add: e True)
  next
    case False
    then have "k < n" using Cons.prems by (auto simp: e)
    then show ?thesis using o by (intro exI [of _ "(k, w) # older"]) (auto simp: e)
  qed
qed simp

lemma length_encode_snapshot: "length (encode_snapshot img) = kSnapshotHeaderBytes + length (si_payload img) + 4"
  by (simp add: encode_snapshot_def Let_def kSnapshotMagic_def kSnapshotHeaderBytes_def)

lemma compact_quiet:
  assumes io: "st_io st = []" and img: "image_ok img" "length (encode_snapshot img) \<le> kMaxStoreFileBytes"
    and files: "om_ok (dr_snapshots (st_dir st))" "\<forall>k \<in> fst ` set (dr_snapshots (st_dir st)). k \<le> si_sequence img"
      "om_ok (dr_journals (st_dir st))" "\<forall>k \<in> fst ` set (dr_journals (st_dir st)). k \<le> si_sequence img"
    and fresh: "si_sequence img \<noteq> kMaxValue"
  shows "\<exists>st'. store_compact img st = (st', success) \<and> st_journal st' = Some (si_sequence img + 1) \<and>
    clean_store (Some img) [(si_sequence img + 1, [])] (st_dir st')"
proof -
  let ?n = "si_sequence img" let ?d = "st_dir st"
  let ?snaps = "om_set ?n (encode_snapshot img) (dr_snapshots ?d)"
  obtain older where o: "?snaps = older @ [(?n, encode_snapshot img)]" using om_set_newest [OF files(1,2)] by blast
  have all: "filter (\<lambda>seq. seq \<le> ?n) (map fst (dr_journals ?d)) = map fst (dr_journals ?d)"
    using files(4) by (intro filter_True) simp
  have none: "fold om_erase (map fst (dr_journals ?d)) (dr_journals ?d) = []"
    using erase_front [OF files(3), of "length (dr_journals ?d)"] by simp
  have kept: "fold om_erase (take (length ?snaps - kMaxSnapshotCount) (map fst ?snaps)) ?snaps = drop (length ?snaps - kMaxSnapshotCount) ?snaps"
    by (rule erase_front [OF om_ok_set [OF files(1)]])
  have newest: "drop (length ?snaps - kMaxSnapshotCount) ?snaps = drop (length ?snaps - kMaxSnapshotCount) older @ [(?n, encode_snapshot img)]"
    by (simp add: o kMaxSnapshotCount_def)
  have "?n + 1 \<noteq> 0" using gen_next_less [of ?n "?n + 1"] fresh by (cases "?n = 0") (auto simp: gen_next_def)
  then have journal: "clean_journal (?n + 1, [])"
    by (simp add: clean_journal_def clean_file_def length_journal_header kJournalHeaderBytes_def kMaxStoreFileBytes_def)
  have "\<exists>st'. store_compact img st = (st', success) \<and> st_journal st' = Some (?n + 1) \<and> st_dir st' = ?d\<lparr>
      dr_manifest := Some (encode_manifest ?n), dr_snapshots := drop (length ?snaps - kMaxSnapshotCount) ?snaps,
      dr_journals := [(?n + 1, journal_header (?n + 1))]\<rparr>"
    using io img(1) kept
    by (simp add: store_compact_def image_ok_def write_file_def write_manifest_def list_files_def prune_snapshots_def Let_def op_eval
        with_dir_def remove_journals_quiet remove_snapshots_quiet create_journal_quiet all none)
  moreover have "snapshots_hold (Some img) (drop (length ?snaps - kMaxSnapshotCount) ?snaps)"
    unfolding newest using img by (simp add: snapshots_hold_def)
  ultimately show ?thesis using journal by (auto simp: clean_store_def clean_file_def)
qed

section \<open>A coordinator that compacts\<close>

text \<open>The store works, its files are not newer than the last journalled record, and the image fits into a file.\<close>

definition compactable :: "store \<Rightarrow> broker \<Rightarrow> bool" where
  "compactable st b \<longleftrightarrow> st_io st = [] \<and> om_ok (dr_snapshots (st_dir st)) \<and> om_ok (dr_journals (st_dir st)) \<and>
    (\<forall>k \<in> fst ` set (dr_snapshots (st_dir st)) \<union> fst ` set (dr_journals (st_dir st)). k \<le> br_audit_sequence b) \<and>
    rp_last_sequence (store_report st) \<le> br_audit_sequence b \<and> br_audit_sequence b \<noteq> kMaxValue \<and>
    kSnapshotHeaderBytes + length (snapshot_payload b) + 4 \<le> kMaxStoreFileBytes"

lemma compact_recoverable:
  assumes st: "br_store b = Some st" and c: "compactable st b" and k: "keyed b" "state_ok (state_image_of b)"
  shows "\<exists>b'. maybe_compact b = (b', success) \<and> ledger_of b' = ledger_of b \<and> recoverable config b'"
proof -
  let ?n = "br_audit_sequence b"
  let ?img = "\<lparr> si_header = record_header_of ?n b, si_sequence = ?n, si_payload = snapshot_payload b \<rparr>"
  have img: "image_ok ?img" "length (encode_snapshot ?img) \<le> kMaxStoreFileBytes"
    using c by (simp_all add: image_ok_def compactable_def record_header_of_def length_encode_snapshot)
  obtain st' where st': "store_compact ?img st = (st', success)" "st_journal st' = Some (?n + 1)"
      "clean_store (Some ?img) [(?n + 1, [])] (st_dir st')"
    using compact_quiet [OF _ img, of st] c by (auto simp: compactable_def ball_Un)
  let ?b = "b\<lparr>br_store := Some st', br_snapshots_written := br_snapshots_written b + 1\<rparr>"
  have "max (if valid_id (rp_last_sequence (store_report st)) then rp_last_sequence (store_report st) else 0) ?n = ?n"
    using c by (simp add: compactable_def max_def)
  then have run: "maybe_compact b = (?b, success)" using st st'(1) by (simp add: maybe_compact_def Let_def)
  obtain x where x: "load_snapshot ?img (new_broker config) = (x, success)" "ledger_of x = ledger_of b" "br_audit_sequence x = ?n"
    using snapshot_restores [OF k, of "record_header_of ?n b" ?n config] by blast
  have "replay_from (Some ?img) (newer ?n (concat (map snd []) @ [])) (new_broker config) = (x, success)"
    using x(1) by (simp add: replay_from_def newer_def replay_records_def opbind_def opret_def)
  then have "recoverable config ?b" unfolding recoverable_def
    using st'(2,3) x(2,3)
    by (intro exI [of _ st'] exI [of _ "Some ?img"] exI [of _ "[]"] exI [of _ "?n + 1"] exI [of _ x])
      (simp add: base_sequence_def last_of_def newer_def ledger_of_def)
  with run show ?thesis by (intro exI [of _ ?b]) (simp add: ledger_of_def)
qed

end
