(* ===== verification/Durable_Runs.thy ===== *)
theory Durable_Runs
  imports Round_Durability Compaction
begin

text \<open>
  Runs of a coordinator with a store: the operations that report success, rounds and compactions included,
  on arguments that fit the limits of the formats.  Whatever the run, what a restart recovers has the
  ledger of the running coordinator.
\<close>

section \<open>Operations\<close>

inductive durable_step :: "broker \<Rightarrow> broker \<Rightarrow> bool" where
  "set_policy p b = (b', Inr u) \<Longrightarrow> policy_ok p \<Longrightarrow> durable_step b b'"
| "publish_capacity s b = (b', Inr u) \<Longrightarrow> snapshot_ok s \<Longrightarrow> durable_step b b'"
| "upsert_obligation ob b = (b', Inr u) \<Longrightarrow> obligation_ok ob \<Longrightarrow> durable_step b b'"
| "retire_obligation i n b = (b', Inr u) \<Longrightarrow> durable_step b b'"
| "submit q b = (b', Inr res) \<Longrightarrow> request_ok q \<Longrightarrow> durable_step b b'"
| "retire_request i n b = (b', Inr u) \<Longrightarrow> durable_step b b'"
| "release i n b = (b', Inr x) \<Longrightarrow> durable_step b b'"
| "revoke i n reason detail b = (b', Inr y) \<Longrightarrow> reason_ok reason \<Longrightarrow> durable_step b b'"
| "revalidate i n b = (b', Inr y) \<Longrightarrow> \<forall>e \<in> set (br_requests b). request_ok (snd e) \<Longrightarrow> durable_step b b'"
| "fence_publisher publisher boot text b = (b', Inr u) \<Longrightarrow> boot_ok boot \<Longrightarrow> string_ok 128 text \<Longrightarrow> durable_step b b'"
| "advance_epoch b = (b', Inr e) \<Longrightarrow> durable_step b b'"
| "commit_only target b = (b', Inr w) \<Longrightarrow> om_ok (br_capacities b) \<Longrightarrow> accounting_ok (rs_accounting w) \<Longrightarrow>
    \<forall>e \<in> set (br_grants b'). grant_ok (snd e) \<Longrightarrow> durable_step b b'"

lemma durable_tracks: "durable_step b b' \<Longrightarrow> tracks b b'"
proof (induction rule: durable_step.induct)
  case (9 i n b b' y)
  then show ?case by (rule revalidate_logs)
next
  case (12 target b b' w)
  then show ?case by (rule round_tracks)
next
  case (1 p b b' u)
  show ?case by (rule logsD [OF set_policy_logs [OF 1(2)] 1(1)])
next
  case (2 s b b' u)
  show ?case by (rule logsD [OF publish_capacity_logs [OF 2(2)] 2(1)])
next
  case (3 ob b b' u)
  show ?case by (rule logsD [OF upsert_obligation_logs [OF 3(2)] 3(1)])
next
  case (5 q b b' res)
  show ?case by (rule logsD [OF submit_logs [OF 5(2)] 5(1)])
next
  case (8 i n reason detail b b' y)
  show ?case by (rule logsD [OF revoke_logs [OF 8(2)] 8(1)])
next
  case (10 publisher boot why b b' u)
  show ?case by (rule logsD [OF fence_publisher_logs [OF 10(2,3)] 10(1)])
qed (erule logsD [OF retire_obligation_logs] logsD [OF retire_request_logs] logsD [OF release_logs] logsD [OF advance_epoch_logs])+

section \<open>Runs\<close>

text \<open>The journal file stays within the size recovery accepts; a compaction starts it over.\<close>

inductive persistent_step :: "broker \<Rightarrow> broker \<Rightarrow> bool" where
  operation: "durable_step b b' \<Longrightarrow> length (journal_bytes b') \<le> kMaxStoreFileBytes \<Longrightarrow> persistent_step b b'"
| compaction: "br_store b = Some st \<Longrightarrow> compactable st b \<Longrightarrow> keyed b \<Longrightarrow> state_ok (state_image_of b) \<Longrightarrow>
    maybe_compact b = (b', success) \<Longrightarrow> persistent_step b b'"

lemma compact_tables: "maybe_compact b = (b', r) \<Longrightarrow> br_grants b' = br_grants b \<and> ledger_of b' = ledger_of b"
  by (auto simp: maybe_compact_def Let_def ledger_of_def split: option.splits prod.splits sum.splits)

lemma persistent_keeps:
  "persistent_step b b' \<Longrightarrow> encodable b \<and> recoverable config b \<Longrightarrow> encodable b' \<and> recoverable config b'"
proof (induction rule: persistent_step.induct)
  case (operation b b')
  have t: "tracks b b'" by (rule durable_tracks [OF operation(1)])
  with operation(3) have "encodable b'" by (simp add: tracks_def)
  moreover have "recoverable config b'" by (rule recoverable_kept [OF _ _ t operation(2)]) (use operation(3) in simp_all)
  ultimately show ?case by blast
next
  case (compaction b st b')
  from compact_recoverable [OF compaction(1-4), of config] compaction(5) have r: "recoverable config b'" by auto
  then have "journalling b'" by (auto simp: recoverable_def journalling_def)
  moreover have "coherent b'" using stepsD [OF maybe_compact_advances compaction(5)] compaction(6) by (simp add: advances_def encodable_def)
  ultimately show ?case using r compact_tables [OF compaction(5)] compaction(6) by (simp add: encodable_def)
qed

lemma persistent_run:
  "persistent_step\<^sup>*\<^sup>* b b' \<Longrightarrow> encodable b \<and> recoverable config b \<Longrightarrow> encodable b' \<and> recoverable config b'"
  by (induction rule: rtranclp_induct) (simp, blast dest: persistent_keeps)

text \<open>A round of the coordinator is a step, followed by a compaction when the store asks for one.\<close>

lemma arbitrate_persistent:
  assumes "broker_arbitrate target b = (b', Inr w)" and "om_ok (br_capacities b)" and "accounting_ok (rs_accounting w)"
    and "\<forall>e \<in> set (br_grants b'). grant_ok (snd e)"
    and "\<And>b1. commit_only target b = (b1, Inr w) \<Longrightarrow> length (journal_bytes b1) \<le> kMaxStoreFileBytes \<and>
      keyed b1 \<and> state_ok (state_image_of b1) \<and> (\<forall>st. br_store b1 = Some st \<longrightarrow> compactable st b1)"
  shows "persistent_step\<^sup>*\<^sup>* b b'"
proof -
  from assms(1) obtain b1 where b1: "commit_only target b = (b1, Inr w)" and c: "compact_if_needed b1 = (b', success)"
    by (auto simp: arbitrate_commits)
  note lim = assms(5) [OF b1]
  have cases: "b' = b1 \<or> (\<exists>st. br_store b1 = Some st \<and> maybe_compact b1 = (b', success))"
    using c by (auto simp: compact_if_needed_def opbind_success opget_def opret_def split: option.splits if_splits)
  then have "br_grants b' = br_grants b1" using compact_tables by blast
  then have "durable_step b b1" using durable_step.intros(12) [OF b1] assms(2-4) by simp
  then have "persistent_step b b1" using lim by (simp add: persistent_step.operation)
  moreover have "persistent_step\<^sup>*\<^sup>* b1 b'" using cases lim by (auto intro: persistent_step.compaction)
  ultimately show ?thesis by (rule converse_rtranclp_into_rtranclp)
qed

section \<open>A fresh store\<close>

text \<open>The store that recovery leaves behind in a directory that did not exist.\<close>

lemma fresh_recover:
  "\<exists>st res. store_recover (new_store None [] options) = (st, Inr res) \<and> rv_snapshot res = None \<and> rv_records res = [] \<and>
    st_io st = [] \<and> st_journal st = Some 1 \<and> st_journal_records st = 0 \<and> st_options st = options \<and>
    st_dir st = \<lparr> dr_manifest = Some (encode_manifest 0), dr_snapshots = [], dr_journals = [(1, journal_header 1)] \<rparr>"
  by (simp add: store_recover_def new_store_def empty_dir_def read_manifest_def list_files_def check_layout_def write_manifest_def
      write_file_def finish_recovery_def create_journal_quiet with_dir_def recovered_report_def empty_report_def Let_def op_eval)

lemma fresh_state:
  assumes "bc_store_directory config \<noteq> []" and "length (bc_store_directory config) \<le> 1024"
  shows "\<exists>b st. recover_state config None [] (new_broker config) = (b, Inr False) \<and> br_store b = Some st \<and>
    b = (new_broker config)\<lparr>br_store := br_store b, br_recoveries := br_recoveries b, br_journal_truncations := br_journal_truncations b\<rparr> \<and>
    st_io st = [] \<and> st_journal st = Some 1 \<and> st_journal_records st = 0 \<and> st_options st = store_options_of config \<and>
    st_dir st = \<lparr> dr_manifest = Some (encode_manifest 0), dr_snapshots = [], dr_journals = [(1, journal_header 1)] \<rparr>"
proof -
  obtain st res where r: "store_recover (new_store None [] (store_options_of config)) = (st, Inr res)" "rv_snapshot res = None" "rv_records res = []"
    and st: "st_io st = []" "st_journal st = Some 1" "st_journal_records st = 0" "st_options st = store_options_of config"
      "st_dir st = \<lparr> dr_manifest = Some (encode_manifest 0), dr_snapshots = [], dr_journals = [(1, journal_header 1)] \<rparr>"
    using fresh_recover by blast
  then show ?thesis using assms
    by (simp add: recover_state_def store_open_def recover_store_def restore_def replay_records_def op_eval)
qed

lemma epoch_tracks: "persist RT_EpochAdvanced (write_id e) (b\<lparr>br_epoch := e\<rparr>) = (b', success) \<Longrightarrow> tracks b b'"
proof -
  assume p: "persist RT_EpochAdvanced (write_id e) (b\<lparr>br_epoch := e\<rparr>) = (b', success)"
  note f = persist_fields [OF p]
  show "tracks b b'"
  proof (rule log_record [OF p _ _ refl refl])
    show "apply_payload RT_EpochAdvanced (write_id e) b = (b\<lparr>br_epoch := e\<rparr>, success)"
      by (simp add: decoded_codec [OF c_u64.codec_axioms])
  qed (use f coherent_cong [of b' b] in \<open>simp_all add: ledger_of_def grants_ok_def\<close>)
qed

lemma boot_tracks: "persist RT_CoordinatorBoot (encode_boot boot) b = (b', success) \<Longrightarrow> tracks b b'"
proof -
  assume p: "persist RT_CoordinatorBoot (encode_boot boot) b = (b', success)"
  note f = persist_fields [OF p]
  show "tracks b b'"
  proof (rule log_record [OF p refl refl refl refl])
    show "apply_payload RT_CoordinatorBoot (encode_boot boot) b = (b, success)"
      by (simp add: decoded_codec [OF c_boot_record.codec_axioms])
  qed (use f coherent_cong [of b' b] in \<open>simp_all add: ledger_of_def grants_ok_def\<close>)
qed

lemma persist_size:
  assumes "persist t p b = (b', success)" and "journalling b"
  shows "length (journal_bytes b') = length (journal_bytes b) + kRecordHeaderBytes + length p + 4"
proof -
  obtain h where "wrote b [\<lparr> re_type = t, re_header = h, re_payload = p \<rparr>] b'" using persist_wrote [OF assms] by blast
  then show ?thesis using length_bytes_of [of "\<lparr> re_type = t, re_header = h, re_payload = p \<rparr>"] by (simp add: wrote_def)
qed

lemma persist_succeeds:
  assumes "br_store b = Some st" and "st_io st = []" and "st_journal st = Some seq" and "st_journal_records st < so_max_journal_records (st_options st)"
    and "length p \<le> kMaxPayloadBytes" and "br_audit_sequence b + 1 \<noteq> 0"
  shows "\<exists>st'. persist t p b = (b\<lparr>br_store := Some st', br_audit_sequence := br_audit_sequence b + 1\<rparr>, success) \<and>
    st_io st' = [] \<and> st_journal st' = Some seq \<and> st_journal_records st' = st_journal_records st + 1 \<and> st_options st' = st_options st"
proof -
  obtain st' where "store_append t (record_header_of (br_audit_sequence b + 1) b) p st = (st', success)"
    "st_io st' = []" "st_journal st' = Some seq" "st_journal_records st' = st_journal_records st + 1" "st_options st' = st_options st"
    using assms by (simp add: store_append_def write_journal_def op_eval with_dir_def record_header_of_def valid_id_def)
  then show ?thesis using assms(1,6) by (intro exI [of _ st']) (simp add: persist_def id_make_def valid_id_def)
qed

lemma flush_same:
  assumes "broker_flush b = (b', r)" and "br_store b = Some st"
  shows "\<exists>st'. b' = b\<lparr>br_store := Some st'\<rparr> \<and> st_dir st' = st_dir st \<and> st_journal st' = st_journal st"
  using assms
  by (auto simp: broker_flush_def store_flush_def next_io_def op_eval split: option.splits prod.splits if_splits list.splits io_result.splits)

lemma recoverable_same:
  assumes "br_store b = Some st" and "st_dir st' = st_dir st" and "st_journal st' = st_journal st"
  shows "encodable (b\<lparr>br_store := Some st'\<rparr>) = encodable b" and "recoverable config (b\<lparr>br_store := Some st'\<rparr>) = recoverable config b"
  using assms coherent_cong [of "b\<lparr>br_store := Some st'\<rparr>" b]
  by (simp_all add: encodable_def journalling_def recoverable_def ledger_of_def)

lemma counter_irrelevant [simp]:
  "encodable (b\<lparr>br_snapshots_written := n\<rparr>) = encodable b" "recoverable config (b\<lparr>br_snapshots_written := n\<rparr>) = recoverable config b"
  "ledger_of (b\<lparr>br_snapshots_written := n\<rparr>) = ledger_of b"
proof -
  show l: "ledger_of (b\<lparr>br_snapshots_written := n\<rparr>) = ledger_of b" by (simp add: ledger_of_def)
  show "encodable (b\<lparr>br_snapshots_written := n\<rparr>) = encodable b"
    using coherent_cong [of "b\<lparr>br_snapshots_written := n\<rparr>" b] by (simp add: encodable_def journalling_def)
  have "br_store (b\<lparr>br_snapshots_written := n\<rparr>) = br_store b" "br_audit_sequence (b\<lparr>br_snapshots_written := n\<rparr>) = br_audit_sequence b"
    by simp_all
  then show "recoverable config (b\<lparr>br_snapshots_written := n\<rparr>) = recoverable config b" by (simp only: recoverable_def l)
qed

text \<open>The epoch may have been advanced in memory before the boot is announced.\<close>

lemma announce_recoverable:
  assumes run: "announce_boot (b\<lparr>br_epoch := e\<rparr>) = (b', Inr u)" and e: "encodable b" "recoverable config b"
    and size: "length (journal_bytes b) \<le> 1024"
  shows "encodable b' \<and> recoverable config b' \<and> ledger_of b' = (ledger_of b)\<lparr>ld_epoch := e\<rparr>"
proof -
  have "br_store b \<noteq> None" using e(1) by (auto simp: encodable_def journalling_def)
  with run obtain b1 boot b2 where p1: "persist RT_EpochAdvanced (write_id e) (b\<lparr>br_epoch := e\<rparr>) = (b1, success)"
    and p2: "persist RT_CoordinatorBoot (encode_boot boot) b1 = (b2, success)" and fl: "broker_flush b2 = (b', Inr u)"
    by (auto simp: announce_boot_def opbind_success opget_def)
  have t1: "tracks b b1" by (rule epoch_tracks [OF p1])
  have t: "tracks b b2" by (rule track.trans [OF t1 boot_tracks [OF p2]])
  have j: "journalling b" "journalling b1" using e(1) t1 by (auto simp: tracks_def encodable_def)
  have "length (encode_boot boot) = 32" "length (write_id e) = 8" by (simp_all add: encode_boot_def w_u64_def)
  moreover have "length (journal_bytes b1) = length (journal_bytes b) + kRecordHeaderBytes + length (write_id e) + 4"
    using persist_size [OF p1] j(1) by (simp add: journalling_def journal_bytes_def)
  ultimately have "length (journal_bytes b2) \<le> kMaxStoreFileBytes"
    using persist_size [OF p2 j(2)] size
    by (simp add: kRecordHeaderBytes_def kMaxStoreFileBytes_def)
  with recoverable_kept [OF e(2,1) t] e(1) t have r: "encodable b2" "recoverable config b2" by (simp_all add: tracks_def)
  then obtain st where st: "br_store b2 = Some st" by (auto simp: recoverable_def)
  from flush_same [OF fl this] obtain st' where b': "b' = b2\<lparr>br_store := Some st'\<rparr>" "st_dir st' = st_dir st" "st_journal st' = st_journal st"
    by blast
  have "ledger_of b' = (ledger_of b)\<lparr>ld_epoch := e\<rparr>"
    using persist_fields [OF p1] persist_fields [OF p2] by (simp add: b'(1) ledger_of_def)
  with recoverable_same [OF st b'(2,3)] r b'(1) show ?thesis by metis
qed

lemma fresh_open:
  assumes open_: "broker_open config None [] = Inr b" and dir: "bc_store_directory config \<noteq> []"
  shows "encodable b \<and> recoverable config b \<and> length (bc_store_directory config) \<le> 1024"
proof -
  from open_ obtain b1 had where rec: "recover_state config None [] (new_broker config) = (b1, Inr had)"
    by (auto simp: broker_open_def open_steps_def opbind_success oplift_def split: prod.splits sum.splits)
  have len: "length (bc_store_directory config) \<le> 1024"
    using rec dir by (auto simp: recover_state_def opbind_success oplift_def store_open_def split: if_splits)
  obtain st where b1: "had = False" "br_store b1 = Some st"
      "b1 = (new_broker config)\<lparr>br_store := br_store b1, br_recoveries := br_recoveries b1, br_journal_truncations := br_journal_truncations b1\<rparr>"
      "st_journal st = Some 1" "st_dir st = \<lparr> dr_manifest = Some (encode_manifest 0), dr_snapshots = [], dr_journals = [(1, journal_header 1)] \<rparr>"
    using fresh_state [OF dir len] rec by auto
  let ?b = "(demote_restored b1)\<lparr>br_tick := br_tick b1 + 1\<rparr>"
  from open_ rec b1(1) obtain b2 where an: "announce_boot ?b = (b2, success)" and b: "b = b2\<lparr>br_snapshots_written := 0\<rparr>"
    by (auto simp: broker_open_def open_steps_def opbind_success oplift_def opmod_def opret_def restart_epoch_def demote_restored_def
        split: prod.splits sum.splits)
  have grants: "br_grants ?b = []" "br_requests ?b = []" "br_store ?b = Some st" "ledger_of ?b = ledger_of (new_broker config)"
      "br_audit_sequence ?b = br_audit_sequence (new_broker config)" "br_audit_sequence ?b = 0"
    by (subst b1(3), simp add: demote_restored_def new_broker_def om_map_values_def ledger_of_def b1(2))+
  have e: "encodable ?b" using grants b1(4) by (simp add: encodable_def coherent_def journalling_def)
  have "clean_store None ([] @ [(1, [])]) (st_dir st)"
    by (simp add: clean_store_def b1(5) snapshots_hold_def clean_file_def clean_journal_def length_journal_header kJournalHeaderBytes_def
        kMaxStoreFileBytes_def exI [of _ 0])
  then have "recoverable config ?b" unfolding recoverable_def using grants(3-6) b1(4)
    by (intro exI [of _ st] exI [of _ None] exI [of _ "[]"] exI [of _ 1] exI [of _ "[]"] exI [of _ "new_broker config"])
      (simp add: base_sequence_def last_of_def replay_from_def newer_def replay_records_def opbind_def opret_def)
  moreover have "length (journal_bytes ?b) \<le> 1024"
    using grants(3) b1(4,5) by (simp add: journal_bytes_def file_of_def length_journal_header kJournalHeaderBytes_def)
  moreover have "?b\<lparr>br_epoch := br_epoch ?b\<rparr> = ?b" by simp
  ultimately have "encodable b2 \<and> recoverable config b2" using announce_recoverable [of "br_epoch ?b" ?b] an e by metis
  then have "encodable b \<and> recoverable config b" by (simp add: b)
  with len show ?thesis by blast
qed

end
