(* ===== verification/Restarts.thy ===== *)
theory Restarts
  imports Durable_Runs
begin

text \<open>
  Restarts.  A coordinator that is stopped between two operations and opened again on its directory has
  the ledger it had, in a later epoch, and its store is again recoverable: recovery continues the audit
  sequence, keeps every file and starts an empty journal behind them.  So the store refines the coordinator
  over any number of incarnations, each with the operations, rounds and compactions of a run.
\<close>

section \<open>The directory after recovery\<close>

lemma restart_clean:
  assumes c: "clean_store snap (js @ [(seq, old)]) d" and seq: "if old = [] then seq = n + 1 else seq \<le> n" and n: "n + 1 \<noteq> (0 :: u64)"
  shows "\<exists>js'. clean_store snap (js' @ [(n + 1, [])]) (d\<lparr>dr_journals := om_set (n + 1) (journal_header (n + 1)) (dr_journals d)\<rparr>) \<and>
    concat (map snd js') = concat (map snd js) @ old"
proof -
  have below: "\<forall>a \<in> set (map fst (map clean_file js)). a < seq"
    using c by (auto simp: clean_store_def sorted_wrt_append clean_file_def)
  have journal: "clean_journal (n + 1, [])" "clean_file (n + 1, []) = (n + 1, journal_header (n + 1))"
    using n by (simp_all add: clean_journal_def clean_file_def length_journal_header kJournalHeaderBytes_def kMaxStoreFileBytes_def)
  show ?thesis
  proof (cases "old = []")
    case True
    with seq c om_set_last [OF below] journal show ?thesis
      by (intro exI [of _ js]) (simp add: clean_store_def clean_file_def)
  next
    case False
    have "n < n + 1" using n word_next [of n] by (auto simp: kMaxValue_def)
    with seq False have "seq < n + 1" by (simp add: le_less_trans)
    with below have after: "\<forall>a \<in> set (map fst (map clean_file (js @ [(seq, old)]))). a < n + 1" by (auto simp: clean_file_def)
    from om_set_after [OF this] c journal after show ?thesis
      by (intro exI [of _ "js @ [(seq, old)]"]) (auto simp: clean_store_def sorted_wrt_append clean_file_def)
  qed
qed

section \<open>Opening again\<close>

lemma ledger_demoted: "ledger_of ((demote_restored b)\<lparr>br_tick := t\<rparr>) = ledger_of b"
  by (simp add: ledger_of_def demote_restored_def ledger_maps)

lemma ledger_grants: "ledger_of x = ledger_of b \<Longrightarrow> om_map_values demoted (br_grants x) = om_map_values demoted (br_grants b)"
  by (simp add: ledger_of_def)

text \<open>The tables of the recovered coordinator meet the invariant because those of the one that wrote them did.\<close>

lemma restored_encodable:
  assumes rec: "recover_state config d io (new_broker config) = (x, Inr had)" and l: "ledger_of x = ledger_of b"
    and e: "encodable b" and st: "br_store x = Some st" "st_journal st = Some seq"
  shows "encodable ((demote_restored x)\<lparr>br_tick := t\<rparr>)"
proof -
  let ?x = "(demote_restored x)\<lparr>br_tick := t\<rparr>"
  have grants: "br_grants ?x = om_map_values demoted (br_grants b)"
    using ledger_grants [OF l] by (simp add: demote_restored_def)
  have "restored_ok x" using recover_ok [of "new_broker config" config d io] rec by (simp add: new_broker_def)
  then have "restored_ok ?x"
    using demote_restored_ok [of x] restored_same [of ?x "demote_restored x"] by (simp add: keeps_def)
  moreover have "om_find (br_grants b) kMaxValue = None"
  proof (rule ccontr)
    assume "om_find (br_grants b) kMaxValue \<noteq> None"
    then obtain g where "(kMaxValue, g) \<in> set (br_grants b)" using om_find_some by fastforce
    then have "kMaxValue < br_next_grant_id b" using e by (auto simp: encodable_def coherent_def)
    then show False using unsigned_less [of "br_next_grant_id b", where 'a = nat] by (simp add: kMaxValue_def word_less_nat_alt)
  qed
  then have "om_find (br_grants ?x) kMaxValue = None" by (simp add: grants om_find_map_values)
  ultimately have "coherent ?x" by (rule restored_coherent)
  moreover have "grants_ok ?x" by (rule grants_ok_demote [OF _ grants]) (use e in \<open>simp add: encodable_alt\<close>)
  moreover have "journalling ?x" using st by (simp add: journalling_def demote_restored_def)
  ultimately show ?thesis by (simp add: encodable_alt)
qed

lemma restored_recoverable:
  assumes rec: "recoverable config b" and st: "br_store b = Some st" and n: "br_audit_sequence b + 1 \<noteq> 0"
    and x: "ledger_of x = ledger_of b" "br_audit_sequence x = br_audit_sequence b" "br_store x = Some st1"
      "st_journal st1 = Some (br_audit_sequence b + 1)"
      "st_dir st1 = (st_dir st)\<lparr>dr_journals := om_set (br_audit_sequence b + 1) (journal_header (br_audit_sequence b + 1)) (dr_journals (st_dir st))\<rparr>"
  shows "recoverable config ((demote_restored x)\<lparr>br_tick := t\<rparr>)"
    and "journal_bytes ((demote_restored x)\<lparr>br_tick := t\<rparr>) = journal_header (br_audit_sequence b + 1)"
proof -
  let ?x = "(demote_restored x)\<lparr>br_tick := t\<rparr>" and ?n = "br_audit_sequence b"
  obtain snap js seq old z where c: "clean_store snap (js @ [(seq, old)]) (st_dir st)" and base: "base_sequence snap \<le> ?n"
    and final: "last_of snap (newer (base_sequence snap) (concat (map snd js) @ old)) 0 = ?n"
    and seq: "if old = [] then seq = ?n + 1 else seq \<le> ?n"
    and z: "replay_from snap (newer (base_sequence snap) (concat (map snd js) @ old)) (new_broker config) = (z, success)"
      "ledger_of z = ledger_of b" "br_audit_sequence z = ?n"
    using rec st by (auto simp: recoverable_def)
  obtain js' where js': "clean_store snap (js' @ [(?n + 1, [])]) (st_dir st1)" "concat (map snd js') = concat (map snd js) @ old"
    using restart_clean [OF c seq n] x(5) by auto
  have same: "br_store ?x = Some st1" "br_audit_sequence ?x = ?n" using x by (simp_all add: demote_restored_def)
  show "recoverable config ?x"
    unfolding recoverable_def using same js' x(4) base final z ledger_demoted [of t x] x(1)
    by (intro exI [of _ st1] exI [of _ snap] exI [of _ js'] exI [of _ "?n + 1"] exI [of _ "[]"] exI [of _ z]) simp
  show "journal_bytes ?x = journal_header (?n + 1)"
    using x(4,5) by (simp add: journal_bytes_def same(1) file_of_def om_find_set)
qed

lemma restart_epoch_cases:
  assumes "restart_epoch had b = (b', success)"
  shows "\<exists>epoch. (epoch = br_epoch b \<or> next_fabric_epoch (br_epoch b) = Inr epoch) \<and> b' = b\<lparr>br_epoch := epoch\<rparr>"
  using assms by (auto simp: restart_epoch_def opbind_success opget_def oplift_def opmod_def opret_def split: if_splits)

text \<open>Opening the directory of a coordinator again.\<close>

lemma reopened:
  assumes rec: "recoverable config b" and e: "encodable b" and st: "br_store b = Some st" and dir: "bc_store_directory config \<noteq> []"
    and open_: "broker_open config (Some (st_dir st)) [] = Inr b'"
  shows "encodable b' \<and> recoverable config b' \<and> ledger_of b' = (ledger_of b)\<lparr>ld_epoch := br_epoch b'\<rparr> \<and> br_epoch b \<le> br_epoch b'"
proof -
  from open_ obtain x had where x: "recover_state config (Some (st_dir st)) [] (new_broker config) = (x, Inr had)"
    by (auto simp: broker_open_def open_steps_def opbind_success oplift_def split: prod.splits sum.splits)
  have "length (bc_store_directory config) \<le> 1024"
    using x dir by (auto simp: recover_state_def opbind_success oplift_def store_open_def split: if_splits)
  from recovered_state [OF rec st dir this] x obtain st1 where r: "ledger_of x = ledger_of b" "br_audit_sequence x = br_audit_sequence b"
      "br_store x = Some st1" "st_journal st1 = Some (br_audit_sequence b + 1)"
      "st_dir st1 = (st_dir st)\<lparr>dr_journals := om_set (br_audit_sequence b + 1) (journal_header (br_audit_sequence b + 1)) (dr_journals (st_dir st))\<rparr>"
    by auto
  let ?x = "(demote_restored x)\<lparr>br_tick := br_tick x + 1\<rparr>"
  from open_ x obtain y b2 where y: "restart_epoch had (demote_restored x) = (y, success)"
    and b2: "announce_boot (y\<lparr>br_tick := br_tick y + 1\<rparr>) = (b2, success)" and b': "b' = b2\<lparr>br_snapshots_written := 0\<rparr>"
    by (auto simp: broker_open_def open_steps_def opbind_success oplift_def opmod_def opret_def split: prod.splits sum.splits)
  have demoted: "br_epoch (demote_restored x) = br_epoch x" "br_tick (demote_restored x) = br_tick x" by (simp_all add: demote_restored_def)
  obtain epoch where epoch: "epoch = br_epoch x \<or> next_fabric_epoch (br_epoch x) = Inr epoch" and yx: "y = (demote_restored x)\<lparr>br_epoch := epoch\<rparr>"
    using restart_epoch_cases [OF y] demoted by auto
  have "y\<lparr>br_tick := br_tick y + 1\<rparr> = ?x\<lparr>br_epoch := epoch\<rparr>" by (simp add: yx demoted)
  with b2 have an: "announce_boot (?x\<lparr>br_epoch := epoch\<rparr>) = (b2, success)" by simp
  have "br_audit_sequence b + 1 \<noteq> 0"
    using an r(2,3) by (auto simp: announce_boot_def opbind_success opget_def persist_def id_make_def valid_id_def demote_restored_def split: if_splits)
  note again = restored_recoverable [OF rec st this r, of "br_tick x + 1"]
  have "encodable ?x" by (rule restored_encodable [OF x r(1) e r(3,4)])
  from announce_recoverable [OF an this again(1)] have "encodable b2 \<and> recoverable config b2 \<and> ledger_of b2 = (ledger_of b)\<lparr>ld_epoch := epoch\<rparr>"
    using again(2) ledger_demoted [of _ x] r(1) by (simp add: length_journal_header kJournalHeaderBytes_def)
  moreover have "br_epoch b \<le> epoch"
  proof -
    have "br_epoch x = br_epoch b" using r(1) by (simp add: ledger_of_def)
    with epoch word_next [of "br_epoch b"] show ?thesis by (auto simp: next_fabric_epoch_def id_make_def kMaxValue_def split: if_splits)
  qed
  moreover have "br_epoch b2 = epoch" using calculation(1) by (simp add: ledger_of_def)
  ultimately show ?thesis by (simp add: b')
qed

text \<open>On a store without faults the directory does open, as long as the epoch and the audit sequence can be advanced.\<close>

lemma reopens:
  assumes rec: "recoverable config b" and st: "br_store b = Some st" and dir: "bc_store_directory config \<noteq> []" "length (bc_store_directory config) \<le> 1024"
    and ok: "check_config config = success" "valid_id (br_epoch b)" "br_epoch b \<noteq> kMaxValue"
    and n: "br_audit_sequence b + 1 \<noteq> 0" "br_audit_sequence b + 2 \<noteq> 0"
  shows "\<exists>b'. broker_open config (Some (st_dir st)) [] = Inr b'"
proof -
  obtain x had st1 where x: "recover_state config (Some (st_dir st)) [] (new_broker config) = (x, Inr had)" "ledger_of x = ledger_of b"
    "br_audit_sequence x = br_audit_sequence b" "br_store x = Some st1" and st1: "st_io st1 = []" "st_journal_records st1 = 0"
    "st_options st1 = store_options_of config" "st_journal st1 = Some (br_audit_sequence b + 1)"
    using recovered_state [OF rec st dir] by blast
  have epoch: "br_epoch x = br_epoch b" using x(2) by (simp add: ledger_of_def)
  obtain y where y: "restart_epoch had (demote_restored x) = (y, success)" "br_store y = Some st1" "br_audit_sequence y = br_audit_sequence b"
    using ok(2,3) epoch word_next [of "br_epoch b"] x(3,4)
    by (cases had) (auto simp: restart_epoch_def opbind_def opget_def oplift_def opmod_def opret_def demote_restored_def next_fabric_epoch_def
        id_make_def valid_id_def kMaxValue_def)
  let ?y = "y\<lparr>br_tick := br_tick y + 1\<rparr>"
  have records: "st_journal_records st1 < so_max_journal_records (st_options st1)" "st_journal_records st1 + 1 < so_max_journal_records (st_options st1)"
    using st1 by (simp_all add: store_options_of_def kMaxJournalRecords_def)
  obtain st2 where p1: "persist RT_EpochAdvanced (write_id (br_epoch ?y)) ?y = (?y\<lparr>br_store := Some st2, br_audit_sequence := br_audit_sequence b + 1\<rparr>, success)"
    and st2: "st_io st2 = []" "st_journal st2 = Some (br_audit_sequence b + 1)" "st_journal_records st2 = st_journal_records st1 + 1" "st_options st2 = st_options st1"
    using persist_succeeds [of ?y st1 "br_audit_sequence b + 1" "write_id (br_epoch ?y)" RT_EpochAdvanced] y(2,3) st1 records n(1)
    by (auto simp: w_u64_def kMaxPayloadBytes_def)
  let ?z = "?y\<lparr>br_store := Some st2, br_audit_sequence := br_audit_sequence b + 1\<rparr>"
  let ?boot = "\<lparr> bt_coordinator = br_incarnation ?z, bt_epoch = br_epoch ?z, bt_tick = br_tick ?z, bt_sequence = br_audit_sequence ?z + 1 \<rparr>"
  obtain st3 where p2: "persist RT_CoordinatorBoot (encode_boot ?boot) ?z = (?z\<lparr>br_store := Some st3, br_audit_sequence := br_audit_sequence ?z + 1\<rparr>, success)"
    and st3: "st_io st3 = []"
    using persist_succeeds [of ?z st2 "br_audit_sequence b + 1" "encode_boot ?boot" RT_CoordinatorBoot] st2 records n(2)
    by (auto simp: w_u64_def encode_boot_def kMaxPayloadBytes_def add.assoc)
  have "\<exists>b2. announce_boot ?y = (b2, success)"
    using p1 p2 st3 y(2) by (simp add: announce_boot_def op_eval broker_flush_def store_flush_def)
  with x(1) y(1) ok(1) show ?thesis by (auto simp: broker_open_def open_steps_def op_eval)
qed

section \<open>Incarnations\<close>

text \<open>The coordinators that serve a directory: the first one creates it, every later one opens what its predecessor
  left.  A later configuration may differ in everything but the directory and the first epoch.\<close>

inductive serves :: "broker_config \<Rightarrow> broker \<Rightarrow> bool" where
  first: "broker_open config None [] = Inr b \<Longrightarrow> bc_store_directory config \<noteq> [] \<Longrightarrow> serves config b"
| runs: "serves config b \<Longrightarrow> persistent_step b b' \<Longrightarrow> serves config b'"
| restarts: "serves config b \<Longrightarrow> br_store b = Some st \<Longrightarrow> bc_epoch config' = bc_epoch config \<Longrightarrow>
    bc_store_directory config' = bc_store_directory config \<Longrightarrow> broker_open config' (Some (st_dir st)) [] = Inr b' \<Longrightarrow> serves config' b'"

lemma recoverable_config:
  assumes "recoverable config b" and "bc_epoch config' = bc_epoch config"
  shows "recoverable config' b"
proof -
  obtain st snap js seq old x where st: "br_store b = Some st" "st_journal st = Some seq"
      "clean_store snap (js @ [(seq, old)]) (st_dir st)" "base_sequence snap \<le> br_audit_sequence b"
      "last_of snap (newer (base_sequence snap) (concat (map snd js) @ old)) 0 = br_audit_sequence b"
      "if old = [] then seq = br_audit_sequence b + 1 else seq \<le> br_audit_sequence b"
    and x: "replay_from snap (newer (base_sequence snap) (concat (map snd js) @ old)) (new_broker config) = (x, success)"
      "ledger_of x = ledger_of b" "br_audit_sequence x = br_audit_sequence b"
    using assms(1) unfolding recoverable_def by blast
  have "ledger_of (new_broker config) = ledger_of (new_broker config')" using assms(2) by (simp add: ledger_of_def new_broker_def)
  from alike_replay_from [OF this, of snap "newer (base_sequence snap) (concat (map snd js) @ old)"] x obtain y
    where y: "replay_from snap (newer (base_sequence snap) (concat (map snd js) @ old)) (new_broker config') = (y, success)" "ledger_of y = ledger_of b"
    by (cases "replay_from snap (newer (base_sequence snap) (concat (map snd js) @ old)) (new_broker config')") (auto simp: alike_def)
  have "br_audit_sequence y = br_audit_sequence x" by (rule replay_from_audit [OF y(1) x(1)]) (simp add: new_broker_def)
  with st y x(3) show ?thesis unfolding recoverable_def by metis
qed

lemma serves_recoverable:
  "serves config b \<Longrightarrow> encodable b \<and> recoverable config b \<and> bc_store_directory config \<noteq> [] \<and> length (bc_store_directory config) \<le> 1024"
proof (induction rule: serves.induct)
  case (first config b)
  with fresh_open [OF first] show ?case by blast
next
  case (runs config b b')
  with persistent_keeps [OF runs(2)] show ?case by blast
next
  case (restarts config b st config' b')
  from restarts recoverable_config have "recoverable config' b" by blast
  from reopened [OF this _ restarts(2) _ restarts(5)] restarts show ?case by simp
qed

end
