(* ===== verification/Broker_Examples.thy ===== *)
theory Broker_Examples
  imports Durable_Runs Remote_Calls Store_Examples Examples
begin

text \<open>
  Concrete coordinators, connections and streams, used by the witnesses of the properties of the
  runtime, the server and the client.
\<close>

section \<open>A coordinator in memory\<close>

definition ex_config :: broker_config where
  "ex_config = \<lparr> bc_epoch = 1, bc_incarnation = 5, bc_store_directory = [], bc_max_idempotency_entries = 16,
     bc_journal_compaction_records = 1000, bc_fsync_on_commit = True \<rparr>"

text \<open>A policy is installed, and the publisher \<open>3\<close> holds a live grant.\<close>

definition ex_live :: grant where
  "ex_live = ex_old\<lparr>gr_authority := ex_authority\<rparr>"

definition ex_broker :: broker where
  "ex_broker = (new_broker ex_config)\<lparr>br_policy := Some ex_policy, br_grants := [(40, ex_live)], br_next_grant_id := 41\<rparr>"

lemma ex_broker_sel [simp]:
  "br_store ex_broker = None" "br_epoch ex_broker = 1" "br_policy ex_broker = Some ex_policy" "br_requests ex_broker = []"
  "br_grants ex_broker = [(40, ex_live)]" "br_idempotency ex_broker = []" "br_fence_hashes ex_broker = {}" "br_fences ex_broker = []"
  "br_config ex_broker = ex_config" "br_accounting ex_broker = []" "br_tick ex_broker = 0"
  by (simp_all add: ex_broker_def new_broker_def ex_config_def)

lemma ex_live_sel [simp]:
  "gr_id ex_live = 40" "gr_generation ex_live = 3" "gr_state ex_live = GS_GrantedGuaranteed" "gr_authority ex_live = ex_authority"
  by (simp_all add: ex_live_def ex_old_def default_grant_def)

lemma ex_broker_coherent: "coherent ex_broker"
  by (simp add: coherent_def om_ok_def) (simp add: ex_broker_def)

lemma ex_withdraw:
  assumes "s \<in> {GS_Released, GS_Fenced}" and "br_store b = None" and "om_find (br_grants b) 40 = Some ex_live"
  shows "\<exists>b' g. withdraw 40 t r s b = (b', Inr (ex_live, g)) \<and> br_store b' = None \<and> br_accounting b' = br_accounting b"
  using assms
  by (auto simp: withdraw_def op_eval grant_ref_def put_grant_def persist_grant_def persist_memory Let_def advance_generation_def
      gen_next_def kMaxValue_def transition_to_def is_legal_grant_transition.simps)

lemma ex_release: "\<exists>b res. release 40 3 ex_broker = (b, Inr res) \<and> \<not> rl_already_released res \<and> rl_released res = 100"
proof -
  obtain b g where w: "withdraw 40 RT_GrantReleased OR_Released GS_Released ex_broker = (b, Inr (ex_live, g))" "br_store b = None"
      "br_accounting b = []"
    using ex_withdraw [of GS_Released ex_broker] by force
  then show ?thesis
    by (simp add: release_def op_eval current_grant_eq is_terminal_def retire_accounting_def persist_memory Let_def)
      (simp add: ex_live_def ex_old_def default_grant_def no_allocation_def total_allocation_def ga_total_def checked_add_def bindr_def kMaxBitsPerSecond_def)
qed

lemma ex_fence_grant:
  assumes "br_store b = None" and "om_find (br_grants b) 40 = Some ex_live" and "br_accounting b = []"
  shows "\<exists>b'. fence_grant 40 b = (b', success)"
proof -
  obtain b' g where "withdraw 40 RT_GrantRevoked OR_Fenced GS_Fenced b = (b', Inr (ex_live, g))" "br_accounting b' = []"
    using ex_withdraw [of GS_Fenced b RT_GrantRevoked OR_Fenced] assms by auto
  then show ?thesis by (simp add: fence_grant_def op_eval retire_accounting_def)
qed

lemma ex_fence: "\<exists>b. fence_publisher 3 ex_boot [] ex_broker = (b, success)"
proof -
  have keys: "fenced_keys ex_boot (ex_broker\<lparr>br_audit_sequence := x, br_fence_hashes := y, br_fences := z\<rparr>) = [40]" for x y z
    by (simp add: fenced_keys_def ex_authority_def is_live_def)
  obtain b where "fence_grant 40 (ex_broker\<lparr>br_audit_sequence := br_audit_sequence ex_broker + 1,
      br_fence_hashes := {boot_hash ex_boot}, br_fences := [\<lparr> bf_publisher = 3, bf_boot = ex_boot,
        bf_sequence = br_audit_sequence ex_broker + 1, bf_tick = 0, bf_reason = [] \<rparr>]\<rparr>) = (b, success)"
    using ex_fence_grant by force
  then show ?thesis
    using ex_boot_valid(1)
    by (simp add: fence_publisher_def op_eval valid_id_def persist_memory Let_def keys kMaxBootFenceRecords_def)
qed

lemma ex_submit: "\<exists>b res. submit (ex_request 1 ex_boot) ex_broker = (b, Inr res) \<and> so_disposition res = ID_New"
proof -
  have "av_fabric_epoch (rq_authority (ex_request 1 ex_boot)) = 1" by (simp add: ex_request_def ex_authority_def)
  then show ?thesis
    using ex_request_valid [OF ex_boot_valid(1), of 1]
    by (simp add: submit_def op_eval Let_def persist_memory ex_config_def first_outcome_def)
qed

lemma ex_released:
  "\<exists>b. coherent b \<and> gv_found (query_grant 40 3 b) \<and> 3 \<le> gr_generation (gv_grant (query_grant 40 3 b)) \<and>
    \<not> gv_authoritative (query_grant 40 3 b)"
proof -
  obtain b res where r: "release 40 3 ex_broker = (b, Inr res)" "\<not> rl_already_released res" using ex_release by blast
  from release_effect [OF r] obtain g where g: "om_find (br_grants b) 40 = Some g" "gr_state g = GS_Released" "3 < gr_generation g" by auto
  have "coherent b" using step_advances [OF coordinator_step.intros(8) [OF r(1)]] ex_broker_coherent by (simp add: advances_def)
  with g show ?thesis by (intro exI [of _ b]) (simp add: query_Some authorises_consumption_def)
qed

lemma ex_open: "\<exists>b. broker_open ex_config None [] = Inr b \<and> br_grants b = []"
  by (simp add: broker_open_def open_steps_def op_eval check_config_def ex_config_def valid_id_def recover_state_def new_broker_def
      restart_epoch_def announce_boot_def demote_restored_def om_map_values_def)

section \<open>A coordinator with a store\<close>

definition ex_durable_config :: broker_config where
  "ex_durable_config = ex_config\<lparr>bc_store_directory := [115]\<rparr>"

text \<open>A store without faults, with the records and at most the bytes in its journal.\<close>

definition works :: "nat \<Rightarrow> nat \<Rightarrow> broker \<Rightarrow> bool" where
  "works k n b \<longleftrightarrow> (\<exists>st seq. br_store b = Some st \<and> st_io st = [] \<and> st_journal st = Some seq \<and> st_journal_records st = k \<and>
    so_max_journal_records (st_options st) = kMaxJournalRecords \<and> length (journal_bytes b) \<le> n)"

lemma persist_works:
  assumes "works k n b" and "k < kMaxJournalRecords" and "length p \<le> 100" and "br_audit_sequence b + 1 \<noteq> 0" and k': "k' = k + 1" and n': "n' = n + 200"
  shows "\<exists>b'. persist t p b = (b', success) \<and> works k' n' b' \<and> br_audit_sequence b' = br_audit_sequence b + 1"
proof -
  obtain st seq where st: "br_store b = Some st" "st_io st = []" "st_journal st = Some seq" "st_journal_records st = k"
    "so_max_journal_records (st_options st) = kMaxJournalRecords" "length (journal_bytes b) \<le> n"
    using assms(1) by (auto simp: works_def)
  obtain st' where p: "persist t p b = (b\<lparr>br_store := Some st', br_audit_sequence := br_audit_sequence b + 1\<rparr>, success)"
    and a: "st_io st' = []" "st_journal st' = Some seq" "st_journal_records st' = k + 1" "st_options st' = st_options st"
    using persist_succeeds [OF st(1-3), of p t] st(4,5) assms(2-4) by (auto simp: kMaxPayloadBytes_def)
  have "journalling b" using st by (simp add: journalling_def)
  from persist_size [OF p this] st(6) assms(3) have "length (journal_bytes (b\<lparr>br_store := Some st', br_audit_sequence := br_audit_sequence b + 1\<rparr>)) \<le> n + 200"
    by (simp add: kRecordHeaderBytes_def)
  with p a st(5) k' n' show ?thesis by (simp add: works_def)
qed

lemma ex_started_store:
  "\<exists>b. broker_open ex_durable_config None [] = Inr b \<and> works 2 1424 b \<and> br_audit_sequence b = 2 \<and> br_epoch b = 1"
proof -
  have dir: "bc_store_directory ex_durable_config \<noteq> []" "length (bc_store_directory ex_durable_config) \<le> 1024"
    by (simp_all add: ex_durable_config_def)
  obtain b1 st where b1: "recover_state ex_durable_config None [] (new_broker ex_durable_config) = (b1, Inr False)" "br_store b1 = Some st"
      "b1 = (new_broker ex_durable_config)\<lparr>br_store := br_store b1, br_recoveries := br_recoveries b1, br_journal_truncations := br_journal_truncations b1\<rparr>"
      "st_io st = []" "st_journal st = Some 1" "st_journal_records st = 0" "st_options st = store_options_of ex_durable_config"
      "st_dir st = \<lparr> dr_manifest = Some (encode_manifest 0), dr_snapshots = [], dr_journals = [(1, journal_header 1)] \<rparr>"
    using fresh_state [OF dir] by blast
  let ?b = "(demote_restored b1)\<lparr>br_tick := br_tick b1 + 1\<rparr>"
  have "br_store ?b = Some st" "br_audit_sequence ?b = 0" "br_epoch ?b = 1"
    by (subst b1(3), simp add: demote_restored_def new_broker_def ex_durable_config_def ex_config_def b1(2))+
  note fields = this
  then have "works 0 1024 ?b"
    using b1 by (simp add: works_def store_options_of_def journal_bytes_def file_of_def length_journal_header kJournalHeaderBytes_def)
  from persist_works [OF this, where p = "write_id 1" and t = RT_EpochAdvanced and k' = 1 and n' = 1224] fields
  obtain b2 where p2: "persist RT_EpochAdvanced (write_id 1) ?b = (b2, success)" "works 1 1224 b2" "br_audit_sequence b2 = 1"
    by (auto simp: kMaxJournalRecords_def w_u64_def)
  let ?boot = "\<lparr> bt_coordinator = br_incarnation b2, bt_epoch = br_epoch b2, bt_tick = br_tick b2, bt_sequence = br_audit_sequence b2 + 1 \<rparr>"
  from persist_works [OF p2(2), where p = "encode_boot ?boot" and t = RT_CoordinatorBoot and k' = 2 and n' = 1424] p2(3)
  obtain b3 where p3: "persist RT_CoordinatorBoot (encode_boot ?boot) b2 = (b3, success)" "works 2 1424 b3" "br_audit_sequence b3 = 2"
    by (auto simp: kMaxJournalRecords_def encode_boot_def w_u64_def)
  have "broker_flush b3 = (b3, success)"
    using p3(2) by (auto simp: works_def broker_flush_def store_flush_def op_eval)
  then have "announce_boot ?b = (b3, success)" using fields p2(1) p3(1) by (simp add: announce_boot_def op_eval)
  then have "broker_open ex_durable_config None [] = Inr (b3\<lparr>br_snapshots_written := 0\<rparr>)"
    using b1(1) by (simp add: broker_open_def open_steps_def op_eval check_config_def ex_durable_config_def ex_config_def valid_id_def restart_epoch_def
        demote_restored_def)
  moreover have "br_epoch b3 = 1" using persist_fields [OF p3(1)] persist_fields [OF p2(1)] fields by simp
  ultimately show ?thesis using p3 by (simp add: works_def journal_bytes_def)
qed

lemma ex_durable_config_ok: "check_config ex_durable_config = success"
  by (simp add: check_config_def ex_durable_config_def ex_config_def valid_id_def)

lemma ex_durable_epoch:
  assumes "works 2 1424 b" and "br_audit_sequence b = 2" and "br_epoch b = 1"
  shows "\<exists>b' st. advance_epoch b = (b', Inr 2) \<and> br_store b' = Some st \<and> br_epoch b' = 2 \<and> br_audit_sequence b' = 3 \<and>
    length (journal_bytes b') \<le> kMaxStoreFileBytes"
proof -
  obtain b' where p: "persist RT_EpochAdvanced (write_id 2) b = (b', success)" "works 3 1624 b'" "br_audit_sequence b' = 3"
    using persist_works [OF assms(1), where p = "write_id 2" and t = RT_EpochAdvanced and k' = 3 and n' = 1624] assms(2) by (auto simp: kMaxJournalRecords_def w_u64_def)
  have "next_fabric_epoch 1 = Inr 2" by (simp add: next_fabric_epoch_def id_make_def kMaxValue_def valid_id_def)
  then show ?thesis using p assms(3) by (auto simp: advance_epoch_def op_eval works_def journal_bytes_def kMaxStoreFileBytes_def)
qed

text \<open>A coordinator whose state fits a snapshot.\<close>

definition ex_plain :: broker where
  "ex_plain = ex_broker\<lparr>br_tick := 4, br_audit_sequence := 6\<rparr>"

lemma ex_names_ok: "text_ok kMaxNameBytes [0x61]" "text_ok kMaxNameBytes [0x62]"
  using ex_class_text by (simp_all add: text_ok_def string_ok_def validate_text_success is_valid_text_bounded_def kMaxNameBytes_def kMaxStringBytesInFrame_def)

lemma ex_policy_ok: "policy_ok ex_policy"
  by (simp add: policy_ok_def ex_policy_def vector_ok_def priority_class_ok_def fairness_group_ok_def ex_class_def ex_group_def ex_names_ok
      kMaxPriorityClasses_def kMaxFairnessGroups_def kMaxBitsPerSecond_def provenance_ok_def provenance_valid_def default_provenance_def)

lemma ex_live_ok: "grant_ok ex_live"
  using ex_boot_valid(1)
  by (simp add: grant_ok_def ex_live_def ex_old_def default_grant_def allocation_ok_def no_allocation_def reason_ok_def authority_ok_def
      ex_authority_def boot_ok_def kMaxBitsPerSecond_def) (simp add: ex_boot_def kBootSize_def)

lemma ex_plain_ok: "keyed ex_plain" "state_ok (state_image_of ex_plain)"
proof -
  show "keyed ex_plain"
    by (simp add: keyed_def coherent_def ex_plain_def om_ok_def) (simp add: ex_broker_def new_broker_def om_ok_def)
  have "vector_ok n P []" for n and P :: "'b \<Rightarrow> bool" by (simp add: vector_ok_def)
  then show "state_ok (state_image_of ex_plain)"
    by (simp add: state_ok_def state_image_of_def ex_plain_def ex_policy_ok)
      (simp add: ex_broker_def new_broker_def vector_ok_def ex_live_ok kMaxGrantsPerResource_def kMaxResources_def)
qed

section \<open>A server\<close>

definition ex_server_options :: server_options where
  "ex_server_options = \<lparr> vo_port = 0, vo_session_token = [], vo_max_connections = 2, vo_receive_buffer_bytes = 4096 \<rparr>"

definition ex_server :: server where
  "ex_server = \<lparr> sv_broker = ex_broker, sv_options = ex_server_options, sv_active = 1, sv_stopping = False, sv_handled = 0 \<rparr>"

definition ex_socket :: socket where
  "ex_socket = \<lparr> sk_handle = 4, sk_written = [], sk_sends = replicate 1024 512 \<rparr>"

definition ex_connection :: connection where
  "ex_connection = (new_connection ex_socket)\<lparr>cn_publisher := 3, cn_boot := ex_boot, cn_greeted := True\<rparr>"

definition ex_bind :: bind_calls where
  "ex_bind = \<lparr> bd_socket = 6, bd_bind = 0, bd_listen = 0, bd_getsockname = 0, bd_port = 4000 \<rparr>"

abbreviation ex_listener :: listener where
  "ex_listener \<equiv> \<lparr> ls_handle = 6, ls_port = 4000 \<rparr>"

lemma ex_accepted:
  assumes "sv_active sv < vo_max_connections (sv_options sv)" and "\<not> sv_stopping sv"
  shows "system_step (system_of sv ex_listener []) (system_of (sv\<lparr>sv_active := sv_active sv + 1\<rparr>) ex_listener [(new_connection ex_socket, False)])"
  using system_step.accepting [OF assms(2), of 1 4 "replicate 1024 512" ex_listener "sv\<lparr>sv_active := sv_active sv + 1\<rparr>" "Some (new_connection ex_socket)" "[]"] assms(1)
  by (simp add: accept_one_def listener_valid_def kInvalidSocket_def accept_connection_def ex_socket_def)

lemma ex_started:
  "\<exists>sv l s. start ex_broker ex_server_options ex_bind = Inr (sv, l) \<and>
    system_step\<^sup>*\<^sup>* \<lparr> sy_server = sv, sy_listener = l, sy_handlers = [] \<rparr> s \<and> length (sy_handlers s) = 1"
proof -
  let ?sv = "ex_server\<lparr>sv_active := 0\<rparr>"
  have "start ex_broker ex_server_options ex_bind = Inr (?sv, ex_listener)"
    by (simp add: start_def initialise_networking_def ex_server_options_def kMaxConnections_def kMaxOutboundQueueBytes_def bind_loopback_def
        ex_bind_def kInvalidSocket_def ex_server_def)
  moreover have "system_step\<^sup>*\<^sup>* (system_of ?sv ex_listener []) (system_of (?sv\<lparr>sv_active := sv_active ?sv + 1\<rparr>) ex_listener [(new_connection ex_socket, False)])"
    by (rule r_into_rtranclp, rule ex_accepted) (simp_all add: ex_server_def ex_server_options_def)
  ultimately show ?thesis by (intro exI conjI) (assumption+, simp)
qed

lemma ex_sound:
  assumes "coherent b"
  shows "\<exists>s'. sound_step\<^sup>*\<^sup>* (system_of (ex_server\<lparr>sv_active := 0, sv_broker := b\<rparr>) ex_listener []) s' \<and> length (sy_handlers s') = 1"
proof -
  let ?sv = "ex_server\<lparr>sv_active := 0, sv_broker := b\<rparr>"
  have "system_step (system_of ?sv ex_listener []) (system_of (?sv\<lparr>sv_active := sv_active ?sv + 1\<rparr>) ex_listener [(new_connection ex_socket, False)])"
    by (rule ex_accepted) (simp_all add: ex_server_def ex_server_options_def)
  with assms have "sound_step (system_of ?sv ex_listener []) (system_of (?sv\<lparr>sv_active := sv_active ?sv + 1\<rparr>) ex_listener [(new_connection ex_socket, False)])"
    by (simp add: sound_step_def)
  from r_into_rtranclp [of sound_step, OF this] show ?thesis by (intro exI conjI) (assumption, simp)
qed

lemma ex_shut_out: "\<exists>s s'. sound_step\<^sup>*\<^sup>* s s' \<and> shut_out ex_boot s \<and> length (sy_handlers s') = 1"
proof -
  obtain b where b: "fence_publisher 3 ex_boot [] ex_broker = (b, success)" using ex_fence by blast
  from step_advances [OF coordinator_step.intros(11) [OF b]] ex_broker_coherent have c: "coherent b" by (simp add: advances_def)
  have "boot_hash ex_boot \<in> br_fence_hashes b"
    using fence_effect [OF ex_broker_coherent _ b] by (simp add: is_fenced_def split: if_splits)
  with c have "shut_out ex_boot (system_of (ex_server\<lparr>sv_active := 0, sv_broker := b\<rparr>) ex_listener [])"
    by (simp add: shut_out_def greeted_under_def)
  with ex_sound [OF c] show ?thesis by blast
qed

lemma ex_network:
  "\<exists>s s'. sound_step\<^sup>*\<^sup>* s s' \<and> length (sy_handlers s') = 1 \<and> coherent (sv_broker (sy_server s)) \<and>
    gv_found (query_grant 40 3 (sv_broker (sy_server s))) \<and> 3 \<le> gr_generation (gv_grant (query_grant 40 3 (sv_broker (sy_server s)))) \<and>
    \<not> gv_authoritative (query_grant 40 3 (sv_broker (sy_server s)))"
proof -
  obtain b where b: "coherent b" "gv_found (query_grant 40 3 b)" "3 \<le> gr_generation (gv_grant (query_grant 40 3 b))"
    "\<not> gv_authoritative (query_grant 40 3 b)"
    using ex_released by blast
  let ?s = "system_of (ex_server\<lparr>sv_active := 0, sv_broker := b\<rparr>) ex_listener []"
  obtain s' where "sound_step\<^sup>*\<^sup>* ?s s'" "length (sy_handlers s') = 1" using ex_sound [OF b(1)] by blast
  with b show ?thesis by (intro exI [of _ ?s] exI [of _ s']) simp
qed

lemma ex_hangup:
  "\<exists>c'. serve_connection (\<lambda>_ _. []) [\<lparr> ar_ready = 1, ar_read = 0, ar_stored = [] \<rparr>] (ex_server, ex_connection) =
    ((ex_server\<lparr>sv_active := 0\<rparr>, c'), False)"
  by (simp add: serve_connection.simps serve_arrival_def ex_server_def ex_connection_def new_connection_def ex_socket_def wait_readable_def
      receive_some_def socket_valid_def finish_def ex_server_options_def Let_def)

section \<open>A remote call\<close>

definition ex_client :: client where
  "ex_client = \<lparr> cl_socket = ex_socket, cl_options = \<lparr> lo_host = [49], lo_port = 4000, lo_session_token = [], lo_publisher = 3, lo_boot = ex_boot \<rparr>,
     cl_decoder = decoder_reset, cl_session = empty_hello_ack (ok_status []), cl_correlation = 0 \<rparr>"

text \<open>A stream that arrives after a timeout, in two chunks.\<close>

definition in_chunks :: "bytes \<Rightarrow> arrival list" where
  "in_chunks data = [\<lparr> ar_ready = 0, ar_read = 0, ar_stored = [] \<rparr>,
     \<lparr> ar_ready = 1, ar_read = 5, ar_stored = take 5 data \<rparr>,
     \<lparr> ar_ready = 1, ar_read = int (length data) - 5, ar_stored = drop 5 data \<rparr>]"

lemma in_chunks_delivered: "delivered (in_chunks data) = data"
  by (simp add: in_chunks_def)

lemma in_chunks_arrive:
  "5 < length data \<Longrightarrow> length data \<le> capacity \<Longrightarrow> length data \<le> kChunkBytes \<Longrightarrow> list_all (arrives capacity) (in_chunks data)"
  by (auto simp: in_chunks_def arrives_def)

lemma ex_peers:
  "cn_greeted ex_connection" "\<not> sv_stopping ex_server" "idle (cn_decoder ex_connection)" "socket_valid (cn_socket ex_connection)"
  "sends_through 1024 (cn_socket ex_connection)" "idle (cl_decoder ex_client)" "socket_valid (cl_socket ex_client)"
  "sends_through 1024 (cl_socket ex_client)"
  using idle_reset
  by (simp_all add: ex_connection_def new_connection_def ex_server_def ex_client_def ex_socket_def socket_valid_def sends_through_def list_all_iff)

lemma ex_server_broker: "sv_broker ex_server = ex_broker"
  by (simp add: ex_server_def)

lemma ex_exchange:
  fixes q :: release_request
  shows "list_all (arrives (vo_receive_buffer_bytes (sv_options ex_server))) (in_chunks (frame (MT_Release, n, encode_release_request q)))"
    and "list_all (arrives kClientBufferBytes) (in_chunks (frame (MT_ReleaseAck, n, encode_release_ack (released_ack res))))"
  by (intro in_chunks_arrive; simp add: length_frame kFrameHeaderBytes_def ex_server_def ex_server_options_def kChunkBytes_def kClientBufferBytes_def)+

end
