(* ===== verification/Texts.thy ===== *)
theory Texts
  imports Printing Explanation Frame
begin

text \<open>
  The texts of the program: the names of its enumerators (\<open>to_string\<close> of \<open>error.cpp\<close>, \<open>grant.cpp\<close>,
  \<open>capacity.cpp\<close>, \<open>policy.cpp\<close>, \<open>request.cpp\<close>, \<open>wire.cpp\<close>), the printers of quantities and targets, and the
  descriptions of an accounting record and of an explanation.

  No two enumerators share a name (locale \<open>labels\<close>, once for all enumerations), every printed text is
  plain ASCII, so that what \<open>bounded\<close> leaves of it passes the text validation of the decoders at the other
  end of a connection, and the description of a valid capacity target determines the target.
\<close>

section \<open>Names of enumerators\<close>

primrec error_to_string :: "error_code \<Rightarrow> string" where
  "error_to_string EC_Ok = ''ok''"
| "error_to_string EC_InvalidArgument = ''invalid_argument''"
| "error_to_string EC_InvalidIdentity = ''invalid_identity''"
| "error_to_string EC_IdentityConflict = ''identity_conflict''"
| "error_to_string EC_GenerationMismatch = ''generation_mismatch''"
| "error_to_string EC_EpochMismatch = ''epoch_mismatch''"
| "error_to_string EC_BootFenced = ''boot_fenced''"
| "error_to_string EC_PolicyGenerationMismatch = ''policy_generation_mismatch''"
| "error_to_string EC_ResourceGenerationMismatch = ''resource_generation_mismatch''"
| "error_to_string EC_RequesterGenerationMismatch = ''requester_generation_mismatch''"
| "error_to_string EC_ReservationGenerationMismatch = ''reservation_generation_mismatch''"
| "error_to_string EC_TenantConfigGenerationMismatch = ''tenant_config_generation_mismatch''"
| "error_to_string EC_CapacityUnknown = ''capacity_unknown''"
| "error_to_string EC_CapacityInsufficient = ''capacity_insufficient''"
| "error_to_string EC_ContradictoryRequest = ''contradictory_request''"
| "error_to_string EC_NumericOverflow = ''numeric_overflow''"
| "error_to_string EC_OutOfRange = ''out_of_range''"
| "error_to_string EC_BoundsExceeded = ''bounds_exceeded''"
| "error_to_string EC_NotFound = ''not_found''"
| "error_to_string EC_AlreadyExists = ''already_exists''"
| "error_to_string EC_InvalidStateTransition = ''invalid_state_transition''"
| "error_to_string EC_StaleGrant = ''stale_grant''"
| "error_to_string EC_GrantRevoked = ''grant_revoked''"
| "error_to_string EC_GrantFenced = ''grant_fenced''"
| "error_to_string EC_DuplicateRelease = ''duplicate_release''"
| "error_to_string EC_PolicyInvalid = ''policy_invalid''"
| "error_to_string EC_PersistenceCorrupt = ''persistence_corrupt''"
| "error_to_string EC_PersistenceIo = ''persistence_io''"
| "error_to_string EC_PersistenceVersionUnsupported = ''persistence_version_unsupported''"
| "error_to_string EC_ProtocolMalformed = ''protocol_malformed''"
| "error_to_string EC_ProtocolVersionUnsupported = ''protocol_version_unsupported''"
| "error_to_string EC_ProtocolPayloadTooLarge = ''protocol_payload_too_large''"
| "error_to_string EC_ProtocolTruncated = ''protocol_truncated''"
| "error_to_string EC_ProtocolChecksum = ''protocol_checksum''"
| "error_to_string EC_HandshakeRejected = ''handshake_rejected''"
| "error_to_string EC_UnknownSession = ''unknown_session''"
| "error_to_string EC_ConnectionClosed = ''connection_closed''"
| "error_to_string EC_IoError = ''io_error''"
| "error_to_string EC_ResourceExhausted = ''resource_exhausted''"
| "error_to_string EC_Cancelled = ''cancelled''"
| "error_to_string EC_ShuttingDown = ''shutting_down''"
| "error_to_string EC_InternalError = ''internal_error''"
| "error_to_string EC_AccountingInvariantViolation = ''accounting_invariant_violation''"
| "error_to_string EC_NotAuthoritative = ''not_authoritative''"
| "error_to_string EC_RevalidationRequired = ''revalidation_required''"
| "error_to_string EC_Unsupported = ''unsupported''"
| "error_to_string EC_NoCapacityAuthority = ''no_capacity_authority''"
| "error_to_string EC_CapacityWithdrawn = ''capacity_withdrawn''"

primrec grant_state_to_string :: "grant_state \<Rightarrow> string" where
  "grant_state_to_string GS_Requested = ''requested''"
| "grant_state_to_string GS_Validated = ''validated''"
| "grant_state_to_string GS_Queued = ''queued''"
| "grant_state_to_string GS_GrantedGuaranteed = ''granted_guaranteed''"
| "grant_state_to_string GS_GrantedBorrowed = ''granted_borrowed''"
| "grant_state_to_string GS_RecallPending = ''recall_pending''"
| "grant_state_to_string GS_RevalidationRequired = ''revalidation_required''"
| "grant_state_to_string GS_Released = ''released''"
| "grant_state_to_string GS_Expired = ''expired''"
| "grant_state_to_string GS_Revoked = ''revoked''"
| "grant_state_to_string GS_Fenced = ''fenced''"
| "grant_state_to_string GS_Stale = ''stale''"
| "grant_state_to_string GS_Rejected = ''rejected''"

primrec allocation_kind_to_string :: "allocation_kind \<Rightarrow> string" where
  "allocation_kind_to_string AK_None = ''none''"
| "allocation_kind_to_string AK_Guaranteed = ''guaranteed''"
| "allocation_kind_to_string AK_Discretionary = ''discretionary''"
| "allocation_kind_to_string AK_Borrowed = ''borrowed''"
| "allocation_kind_to_string AK_Contingent = ''contingent''"

primrec outcome_reason_to_string :: "outcome_reason \<Rightarrow> string" where
  "outcome_reason_to_string OR_None = ''none''"
| "outcome_reason_to_string OR_SatisfiedFully = ''satisfied_fully''"
| "outcome_reason_to_string OR_SatisfiedAtMaximum = ''satisfied_at_maximum''"
| "outcome_reason_to_string OR_PartiallySatisfied = ''partially_satisfied''"
| "outcome_reason_to_string OR_MinimumGuaranteedOnly = ''minimum_guaranteed_only''"
| "outcome_reason_to_string OR_BelowMinimumWaiting = ''below_minimum_waiting''"
| "outcome_reason_to_string OR_ZeroCapacityAvailable = ''zero_capacity_available''"
| "outcome_reason_to_string OR_CapacityUnknown = ''capacity_unknown''"
| "outcome_reason_to_string OR_CapacityWithdrawn = ''capacity_withdrawn''"
| "outcome_reason_to_string OR_HeadroomPreserved = ''headroom_preserved''"
| "outcome_reason_to_string OR_EmergencyReservePreserved = ''emergency_reserve_preserved''"
| "outcome_reason_to_string OR_GroupCapReached = ''group_cap_reached''"
| "outcome_reason_to_string OR_FairnessLimited = ''fairness_limited''"
| "outcome_reason_to_string OR_BorrowPoolExhausted = ''borrow_pool_exhausted''"
| "outcome_reason_to_string OR_OversubscriptionDisabled = ''oversubscription_disabled''"
| "outcome_reason_to_string OR_WaitingForStrongerClass = ''waiting_for_stronger_class''"
| "outcome_reason_to_string OR_DeferredByHysteresis = ''deferred_by_hysteresis''"
| "outcome_reason_to_string OR_RecalledByStrongerClass = ''recalled_by_stronger_class''"
| "outcome_reason_to_string OR_RecalledByObligationReturn = ''recalled_by_obligation_return''"
| "outcome_reason_to_string OR_RecalledByCapacityReduction = ''recalled_by_capacity_reduction''"
| "outcome_reason_to_string OR_RecalledByPolicyChange = ''recalled_by_policy_change''"
| "outcome_reason_to_string OR_RefusedContradictory = ''refused_contradictory''"
| "outcome_reason_to_string OR_RefusedDuplicateIdentity = ''refused_duplicate_identity''"
| "outcome_reason_to_string OR_RefusedIdentityConflict = ''refused_identity_conflict''"
| "outcome_reason_to_string OR_RefusedUnknownPriorityClass = ''refused_unknown_priority_class''"
| "outcome_reason_to_string OR_RefusedUnknownFairnessGroup = ''refused_unknown_fairness_group''"
| "outcome_reason_to_string OR_RefusedTenantMismatch = ''refused_tenant_mismatch''"
| "outcome_reason_to_string OR_RefusedStaleEpoch = ''refused_stale_epoch''"
| "outcome_reason_to_string OR_RefusedStaleResourceGeneration = ''refused_stale_resource_generation''"
| "outcome_reason_to_string OR_RefusedStalePolicyGeneration = ''refused_stale_policy_generation''"
| "outcome_reason_to_string OR_RefusedStaleRequester = ''refused_stale_requester''"
| "outcome_reason_to_string OR_RefusedStaleReservation = ''refused_stale_reservation''"
| "outcome_reason_to_string OR_RefusedStaleTenantConfig = ''refused_stale_tenant_config''"
| "outcome_reason_to_string OR_RefusedBootFenced = ''refused_boot_fenced''"
| "outcome_reason_to_string OR_RefusedBelowQuantum = ''refused_below_quantum''"
| "outcome_reason_to_string OR_RefusedNoCapacityAuthority = ''refused_no_capacity_authority''"
| "outcome_reason_to_string OR_Expired = ''expired''"
| "outcome_reason_to_string OR_Released = ''released''"
| "outcome_reason_to_string OR_Revoked = ''revoked''"
| "outcome_reason_to_string OR_Fenced = ''fenced''"
| "outcome_reason_to_string OR_Stale = ''stale''"
| "outcome_reason_to_string OR_RevalidationRequired = ''revalidation_required''"
| "outcome_reason_to_string (OR_Unnamed raw) = ''none''"

primrec evidence_to_string :: "evidence_state \<Rightarrow> string" where
  "evidence_to_string EV_Unknown = ''unknown''"
| "evidence_to_string EV_Known = ''known''"
| "evidence_to_string EV_Stale = ''stale''"

primrec scheduling_mode_to_string :: "scheduling_mode \<Rightarrow> string" where
  "scheduling_mode_to_string StrictPriority = ''strict_priority''"
| "scheduling_mode_to_string WeightedFairShare = ''weighted_fair_share''"

primrec guarantee_class_to_string :: "guarantee_class \<Rightarrow> string" where
  "guarantee_class_to_string GC_Unspecified = ''unspecified''"
| "guarantee_class_to_string GC_Guaranteed = ''guaranteed''"
| "guarantee_class_to_string GC_BestEffort = ''best_effort''"

primrec recall_tolerance_to_string :: "recall_tolerance \<Rightarrow> string" where
  "recall_tolerance_to_string RT_Unspecified = ''unspecified''"
| "recall_tolerance_to_string RT_Immediate = ''immediate''"
| "recall_tolerance_to_string RT_GracePeriod = ''grace_period''"
| "recall_tolerance_to_string RT_NoRecall = ''no_recall''"

primrec message_type_to_string :: "message_type \<Rightarrow> string" where
  "message_type_to_string MT_Hello = ''hello''"
| "message_type_to_string MT_HelloAck = ''hello_ack''"
| "message_type_to_string MT_PublishCapacity = ''publish_capacity''"
| "message_type_to_string MT_PublishCapacityAck = ''publish_capacity_ack''"
| "message_type_to_string MT_SetPolicy = ''set_policy''"
| "message_type_to_string MT_SetPolicyAck = ''set_policy_ack''"
| "message_type_to_string MT_SubmitRequests = ''submit_requests''"
| "message_type_to_string MT_SubmitRequestsAck = ''submit_requests_ack''"
| "message_type_to_string MT_Arbitrate = ''arbitrate''"
| "message_type_to_string MT_ArbitrateAck = ''arbitrate_ack''"
| "message_type_to_string MT_QueryGrant = ''query_grant''"
| "message_type_to_string MT_QueryGrantAck = ''query_grant_ack''"
| "message_type_to_string MT_QueryAccounting = ''query_accounting''"
| "message_type_to_string MT_QueryAccountingAck = ''query_accounting_ack''"
| "message_type_to_string MT_Release = ''release''"
| "message_type_to_string MT_ReleaseAck = ''release_ack''"
| "message_type_to_string MT_Revoke = ''revoke''"
| "message_type_to_string MT_RevokeAck = ''revoke_ack''"
| "message_type_to_string MT_FencePublisher = ''fence_publisher''"
| "message_type_to_string MT_FencePublisherAck = ''fence_publisher_ack''"
| "message_type_to_string MT_Explain = ''explain''"
| "message_type_to_string MT_ExplainAck = ''explain_ack''"
| "message_type_to_string MT_Shutdown = ''shutdown''"
| "message_type_to_string MT_ShutdownAck = ''shutdown_ack''"
| "message_type_to_string MT_ErrorResponse = ''error''"

section \<open>Errors\<close>

text \<open>The two constructors of \<open>Error\<close>: the code with its own name, or with a message cut to the limit.\<close>

definition error_of_code :: "error_code \<Rightarrow> error_code \<times> bytes" where
  "error_of_code c = (c, ascii (error_to_string c))"

definition error_of_message :: "error_code \<Rightarrow> bytes \<Rightarrow> error_code \<times> bytes" where
  "error_of_message c message = (c, if length message > 512 then take 512 message else message)"

section \<open>Quantities, targets and bytes\<close>

definition bandwidth_to_string :: "bandwidth \<Rightarrow> bytes" where
  "bandwidth_to_string b = decimal b @ ascii '' bps''"

definition has_pool :: "capacity_target \<Rightarrow> bool" where
  "has_pool t = valid_id (ct_pool t)"

definition target_describe :: "capacity_target \<Rightarrow> bytes" where
  "target_describe t =
    ascii ''resource='' @ id_to_string (ct_resource t) @ ascii ''/gen='' @ decimal (unat (ct_resource_generation t)) @
    (if has_pool t then ascii '',pool='' @ id_to_string (ct_pool t) @ ascii ''/gen='' @ decimal (unat (ct_pool_generation t)) else [])"

definition to_hex :: "bytes \<Rightarrow> bytes" where
  "to_hex data = concat (map (\<lambda>x. [kHexDigits ! unat (drop_bit 4 x AND 0x0F), kHexDigits ! unat (x AND 0x0F)]) data)"

text \<open>The cut of \<open>arbitrator.cpp\<close> for the texts of a decision.\<close>

definition bounded :: "bytes \<Rightarrow> bytes" where
  "bounded message = (if length message > kMaxExplanationTextBytes then take kMaxExplanationTextBytes message else message)"

section \<open>Descriptions\<close>

definition describe_accounting :: "resource_accounting \<Rightarrow> bytes" where
  "describe_accounting a =
    ascii ''target='' @ target_describe (ac_target a) @
    ascii '',evidence='' @ ascii (evidence_to_string (ac_evidence a)) @
    ascii '',effective='' @ bandwidth_to_string (ac_effective_physical a) @
    ascii '',reserved='' @ bandwidth_to_string (ac_obligations_reserved a) @
    ascii '',allocatable='' @ bandwidth_to_string (ac_allocatable a) @
    ascii '',emergency='' @ bandwidth_to_string (ac_emergency_reserve a) @
    ascii '',headroom='' @ bandwidth_to_string (ac_headroom a) @
    ascii '',arbitrable='' @ bandwidth_to_string (ac_arbitrable a) @
    ascii '',guaranteed='' @ bandwidth_to_string (ac_guaranteed_granted a) @
    ascii '',discretionary='' @ bandwidth_to_string (ac_discretionary_granted a) @
    ascii '',borrowed='' @ bandwidth_to_string (ac_borrowed_granted a) @
    ascii '',contingent='' @ bandwidth_to_string (ac_contingent_granted a) @
    ascii '',unallocated='' @ bandwidth_to_string (ac_unallocated a) @
    ascii '',authorized='' @ bandwidth_to_string (ac_authorized_consumption a)"

definition describe_explanation :: "explanation_message \<Rightarrow> bytes" where
  "describe_explanation e =
    ascii ''request='' @ id_to_string (xp_request e) @ ascii ''/'' @ decimal (unat (xp_request_generation e)) @
    ascii '' target='' @ target_describe (xp_target e) @
    ascii '' state='' @ ascii (grant_state_to_string (xp_state e)) @
    ascii '' reason='' @ ascii (outcome_reason_to_string (xp_reason e)) @
    ascii '' effective='' @ bandwidth_to_string (xp_effective_physical e) @
    ascii '' obligations='' @ bandwidth_to_string (xp_obligations_applied e) @
    ascii '' arbitrable='' @ bandwidth_to_string (xp_arbitrable e) @
    ascii '' guaranteed='' @ bandwidth_to_string (xp_guaranteed e) @
    ascii '' discretionary='' @ bandwidth_to_string (xp_discretionary e) @
    ascii '' borrowed='' @ bandwidth_to_string (xp_borrowed e) @
    ascii '' contingent='' @ bandwidth_to_string (xp_contingent e) @
    ascii '' denied='' @ bandwidth_to_string (xp_denied e) @
    ascii '' priority='' @ id_to_string (xp_priority e) @
    ascii '' group='' @ id_to_string (xp_fairness_group e) @
    ascii '' policy='' @ id_to_string (xp_policy e) @ ascii ''/'' @ decimal (unat (xp_policy_generation e)) @
    (if xm_binding_reason e \<noteq> [] then ascii '' binding='' @ xm_binding_reason e else [])"

section \<open>No two enumerators share a name\<close>

definition is_printable :: "u8 \<Rightarrow> bool" where
  "is_printable b \<longleftrightarrow> 0x20 \<le> b \<and> b < 0x7F"

definition printable :: "bytes \<Rightarrow> bool" where
  "printable cs = list_all is_printable cs"

text \<open>The same test on the characters of a literal.\<close>

definition printable_literal :: "string \<Rightarrow> bool" where
  "printable_literal cs = list_all (\<lambda>c. 0x20 \<le> (of_char c :: nat) \<and> (of_char c :: nat) < 0x7F) cs"

lemma printable_append [simp]: "printable [] = True" "printable (xs @ ys) \<longleftrightarrow> printable xs \<and> printable ys"
  by (simp_all add: printable_def)

lemma printable_valid: "printable cs \<Longrightarrow> length cs \<le> n \<Longrightarrow> validate_text cs n = success"
  by (rule validate_text_ascii) (simp_all add: printable_def is_printable_def [abs_def])

lemma unat_of_char: "unat (of_char c :: u8) = of_char c"
proof -
  have "(of_char c :: u8) = of_nat (of_char c)" by (simp add: of_nat_of_char)
  then show ?thesis by (simp add: unsigned_of_nat take_bit_nat_eq_self)
qed

lemma printable_ascii: "printable (ascii cs) \<longleftrightarrow> printable_literal cs"
  by (simp add: printable_def is_printable_def printable_literal_def ascii_def list_all_iff word_le_nat_alt word_less_nat_alt unat_of_char)

lemma ascii_inj: "ascii xs = ascii ys \<longleftrightarrow> xs = ys"
proof -
  have "inj (of_char :: char \<Rightarrow> u8)" by (metis injI unat_of_char of_char_eq_iff)
  then show ?thesis by (simp add: ascii_def inj_map_eq_map)
qed

text \<open>An enumeration with the enumerators that have a name.\<close>

locale labels =
  fixes name :: "'a \<Rightarrow> string" and enumerators :: "'a list"
  assumes distinct_names: "distinct (map name enumerators)"
    and printable_names: "list_all (\<lambda>x. printable_literal (name x)) enumerators"
begin

lemma name_inj: "x \<in> set enumerators \<Longrightarrow> y \<in> set enumerators \<Longrightarrow> name x = name y \<longleftrightarrow> x = y"
  using distinct_names by (auto simp: distinct_map dest: inj_onD)

lemma name_printable: "x \<in> set enumerators \<Longrightarrow> printable (ascii (name x))"
  using printable_names by (simp add: list_all_iff printable_ascii)

lemma name_found: "x \<in> set enumerators \<Longrightarrow> List.find (\<lambda>y. name y = name x) enumerators = Some x"
  using distinct_names
proof (induction enumerators)
  case (Cons y ys)
  then show ?case by (cases "name y = name x") (auto simp: image_iff)
qed simp

end

definition error_codes :: "error_code list" where
  "error_codes =
    [EC_Ok, EC_InvalidArgument, EC_InvalidIdentity, EC_IdentityConflict, EC_GenerationMismatch,
     EC_EpochMismatch, EC_BootFenced, EC_PolicyGenerationMismatch, EC_ResourceGenerationMismatch,
     EC_RequesterGenerationMismatch, EC_ReservationGenerationMismatch,
     EC_TenantConfigGenerationMismatch, EC_CapacityUnknown, EC_CapacityInsufficient,
     EC_ContradictoryRequest, EC_NumericOverflow, EC_OutOfRange, EC_BoundsExceeded, EC_NotFound,
     EC_AlreadyExists, EC_InvalidStateTransition, EC_StaleGrant, EC_GrantRevoked, EC_GrantFenced,
     EC_DuplicateRelease, EC_PolicyInvalid, EC_PersistenceCorrupt, EC_PersistenceIo,
     EC_PersistenceVersionUnsupported, EC_ProtocolMalformed, EC_ProtocolVersionUnsupported,
     EC_ProtocolPayloadTooLarge, EC_ProtocolTruncated, EC_ProtocolChecksum, EC_HandshakeRejected,
     EC_UnknownSession, EC_ConnectionClosed, EC_IoError, EC_ResourceExhausted, EC_Cancelled,
     EC_ShuttingDown, EC_InternalError, EC_AccountingInvariantViolation, EC_NotAuthoritative,
     EC_RevalidationRequired, EC_Unsupported, EC_NoCapacityAuthority, EC_CapacityWithdrawn]"

definition grant_states :: "grant_state list" where
  "grant_states =
    [GS_Requested, GS_Validated, GS_Queued, GS_GrantedGuaranteed, GS_GrantedBorrowed, GS_RecallPending,
     GS_RevalidationRequired, GS_Released, GS_Expired, GS_Revoked, GS_Fenced, GS_Stale, GS_Rejected]"

definition outcome_reasons :: "outcome_reason list" where
  "outcome_reasons =
    [OR_None, OR_SatisfiedFully, OR_SatisfiedAtMaximum, OR_PartiallySatisfied, OR_MinimumGuaranteedOnly,
     OR_BelowMinimumWaiting, OR_ZeroCapacityAvailable, OR_CapacityUnknown, OR_CapacityWithdrawn,
     OR_HeadroomPreserved, OR_EmergencyReservePreserved, OR_GroupCapReached, OR_FairnessLimited,
     OR_BorrowPoolExhausted, OR_OversubscriptionDisabled, OR_WaitingForStrongerClass,
     OR_DeferredByHysteresis, OR_RecalledByStrongerClass, OR_RecalledByObligationReturn,
     OR_RecalledByCapacityReduction, OR_RecalledByPolicyChange, OR_RefusedContradictory,
     OR_RefusedDuplicateIdentity, OR_RefusedIdentityConflict, OR_RefusedUnknownPriorityClass,
     OR_RefusedUnknownFairnessGroup, OR_RefusedTenantMismatch, OR_RefusedStaleEpoch,
     OR_RefusedStaleResourceGeneration, OR_RefusedStalePolicyGeneration, OR_RefusedStaleRequester,
     OR_RefusedStaleReservation, OR_RefusedStaleTenantConfig, OR_RefusedBootFenced,
     OR_RefusedBelowQuantum, OR_RefusedNoCapacityAuthority, OR_Expired, OR_Released, OR_Revoked,
     OR_Fenced, OR_Stale, OR_RevalidationRequired]"

interpretation errors: labels error_to_string error_codes
  by unfold_locales (code_simp+)

interpretation states: labels grant_state_to_string grant_states
  by unfold_locales (code_simp+)

interpretation reasons: labels outcome_reason_to_string outcome_reasons
  by unfold_locales (code_simp+)

interpretation messages: labels message_type_to_string message_types
  by unfold_locales (code_simp+)

interpretation kinds: labels node_kind_to_string "[NK_Unknown, NK_Operator, NK_CapacityPublisher, NK_Requester, NK_Coordinator, NK_Recovery]"
  by unfold_locales (code_simp+)

interpretation allocations: labels allocation_kind_to_string "[AK_None, AK_Guaranteed, AK_Discretionary, AK_Borrowed, AK_Contingent]"
  by unfold_locales (code_simp+)

interpretation evidences: labels evidence_to_string "[EV_Unknown, EV_Known, EV_Stale]"
  by unfold_locales (code_simp+)

interpretation modes: labels scheduling_mode_to_string "[StrictPriority, WeightedFairShare]"
  by unfold_locales (code_simp+)

interpretation guarantees: labels guarantee_class_to_string "[GC_Unspecified, GC_Guaranteed, GC_BestEffort]"
  by unfold_locales (code_simp+)

interpretation tolerances: labels recall_tolerance_to_string "[RT_Unspecified, RT_Immediate, RT_GracePeriod, RT_NoRecall]"
  by unfold_locales (code_simp+)

text \<open>Every error code has its own name, so a client can tell them apart by name.\<close>

lemma error_names: "error_to_string c = error_to_string d \<longleftrightarrow> c = d"
proof -
  have "c \<in> set error_codes" for c by (cases c) (simp_all add: error_codes_def)
  then show ?thesis using errors.name_inj by simp
qed

section \<open>Printed texts are valid texts\<close>

lemma printable_decimal [simp]: "printable (decimal n)"
proof -
  have "is_digit b \<Longrightarrow> is_printable b" for b unfolding is_digit_def is_printable_def by unat_arith
  then show ?thesis using decimal_digits [of n] by (auto simp: printable_def list_all_iff)
qed

lemma printable_bounded: "printable cs \<Longrightarrow> validate_text (bounded cs) kMaxExplanationTextBytes = success"
  by (rule printable_valid) (auto simp: bounded_def printable_def list_all_iff dest: in_set_takeD)

lemmas printed_texts = printable_ascii id_to_string_def bandwidth_to_string_def printable_literal_def

lemma printable_target [simp]: "printable (target_describe t)"
  by (simp add: target_describe_def printed_texts)

lemma printable_reason: "printable (ascii (outcome_reason_to_string r))"
  by (cases "r \<in> set outcome_reasons", rule reasons.name_printable)
    (assumption, cases r, simp_all add: outcome_reasons_def printed_texts)

lemma printable_mismatch: "printable (describe_mismatch a b)"
proof -
  have "printable (fold (\<lambda>(differs, field) out. if differs then append_mismatch field out else out) named out)"
    if "printable out" "\<forall>(differs, field) \<in> set named. printable_literal field" for named out
    using that by (induction named arbitrary: out) (auto simp: append_mismatch_def printable_ascii printable_literal_def)
  moreover have "list_all printable_literal (map snd (field_differences a b))"
    by (simp only: field_differences_def list.map snd_conv) code_simp
  ultimately have "printable (fold (\<lambda>(differs, field) out. if differs then append_mismatch field out else out) (field_differences a b) [])"
    by (simp add: list_all_iff case_prod_beta)
  then show ?thesis by (simp add: describe_mismatch_def Let_def printed_texts)
qed

lemma printable_state: "printable (ascii (grant_state_to_string s))"
  by (rule states.name_printable) (cases s, simp_all add: grant_states_def)

lemma printable_evidence: "printable (ascii (evidence_to_string v))"
  by (rule evidences.name_printable) (cases v, simp_all)

lemma printable_accounting: "printable (describe_accounting a)"
  by (simp add: describe_accounting_def printable_evidence) (simp add: printed_texts)

lemma printable_explanation: "printable (xm_binding_reason e) \<Longrightarrow> printable (describe_explanation e)"
  by (simp add: describe_explanation_def printable_state printable_reason) (simp add: printed_texts)

text \<open>The texts the engine attaches to a decision pass the validation of the decoders whatever the authority
  vectors, targets and reasons are.\<close>

lemma decision_texts_valid:
  "validate_text (bounded (describe_mismatch a b)) kMaxExplanationTextBytes = success"
  "validate_text (bounded (target_describe t)) kMaxExplanationTextBytes = success"
  "validate_text (bounded (ascii (outcome_reason_to_string r))) kMaxExplanationTextBytes = success"
  by (simp_all add: printable_bounded printable_mismatch printable_reason)

section \<open>What a description determines\<close>

text \<open>A number ends where the digits end.\<close>

lemma decimal_prefix:
  assumes "decimal m @ xs = decimal n @ ys" and "xs = [] \<or> \<not> is_digit (hd xs)" and "ys = [] \<or> \<not> is_digit (hd ys)"
  shows "m = n \<and> xs = ys"
proof -
  have take: "takeWhile is_digit (decimal k @ zs) = decimal k" if "zs = [] \<or> \<not> is_digit (hd zs)" for k zs
    using that decimal_digits [of k] by (cases zs) (simp_all add: takeWhile_append2 list_all_iff)
  from assms have "decimal m = decimal n" by (metis take)
  moreover from this have "m = n" using decimal_digits by metis
  ultimately show ?thesis using assms(1) by simp
qed

lemma to_hex_boot: "to_hex b = boot_to_string b"
  by (simp add: to_hex_def boot_to_string_def)

lemma bandwidth_text_inj: "bandwidth_to_string a = bandwidth_to_string b \<longleftrightarrow> a = b"
  using decimal_prefix [of a "ascii '' bps''" b "ascii '' bps''"]
  by (auto simp: bandwidth_to_string_def ascii_def is_digit_def)

text \<open>Valid targets with the same description are equal.\<close>

lemma target_describe_inj:
  assumes "target_valid s" and "target_valid t" and "target_describe s = target_describe t"
  shows "s = t"
proof -
  define pool where "pool t = (if has_pool t then ascii '',pool='' @ id_to_string (ct_pool t) @ ascii ''/gen='' @ decimal (unat (ct_pool_generation t)) else [])" for t
  have stop: "\<not> is_digit (hd (ascii ''/gen='' @ zs))" "pool t = [] \<or> \<not> is_digit (hd (pool t))" for zs t
    by (simp_all add: pool_def ascii_def is_digit_def)
  have d: "target_describe t = ascii ''resource='' @ decimal (unat (ct_resource t)) @ ascii ''/gen='' @ decimal (unat (ct_resource_generation t)) @ pool t" for t
    by (simp add: target_describe_def pool_def id_to_string_def)
  from assms(3) have e: "decimal (unat (ct_resource s)) @ ascii ''/gen='' @ decimal (unat (ct_resource_generation s)) @ pool s =
      decimal (unat (ct_resource t)) @ ascii ''/gen='' @ decimal (unat (ct_resource_generation t)) @ pool t"
    unfolding d by (simp only: same_append_eq)
  from decimal_prefix [OF e disjI2 disjI2, OF stop(1) stop(1)] have "unat (ct_resource s) = unat (ct_resource t)"
    "decimal (unat (ct_resource_generation s)) @ pool s = decimal (unat (ct_resource_generation t)) @ pool t"
    by (simp_all only: same_append_eq)
  from this(1) decimal_prefix [OF this(2) stop(2) stop(2)] have r: "ct_resource s = ct_resource t" "ct_resource_generation s = ct_resource_generation t"
    and p: "pool s = pool t"
    by (simp_all add: word_unat_eq_iff)
  have "has_pool s = has_pool t" using p by (auto simp: pool_def ascii_def split: if_splits)
  moreover have "ct_pool s = ct_pool t \<and> ct_pool_generation s = ct_pool_generation t" if "has_pool s"
  proof -
    from p calculation that have e: "decimal (unat (ct_pool s)) @ ascii ''/gen='' @ decimal (unat (ct_pool_generation s)) @ [] =
        decimal (unat (ct_pool t)) @ ascii ''/gen='' @ decimal (unat (ct_pool_generation t)) @ []"
      by (simp add: pool_def id_to_string_def)
    from decimal_prefix [OF e disjI2 disjI2, OF stop(1) stop(1)] have "unat (ct_pool s) = unat (ct_pool t)"
      "decimal (unat (ct_pool_generation s)) @ [] = decimal (unat (ct_pool_generation t)) @ []" by simp_all
    with decimal_prefix [OF this(2)] show ?thesis by (simp add: word_unat_eq_iff)
  qed
  ultimately show ?thesis
    using r assms(1,2) by (cases s, cases t) (auto simp: target_valid_def has_pool_def valid_id_def split: if_splits)
qed

end
