(* ===== verification/Tools.thy ===== *)
theory Tools
  imports Texts Store_Names Server_Laws
begin

text \<open>
  The command line tools (\<open>bb_coordinator.cpp\<close>, \<open>bb_requester.cpp\<close>, \<open>bb_inspect.cpp\<close>): parsing of the
  arguments, the steps each \<open>main\<close> makes with the library, the lines it prints on its standard output
  and its exit code.  Arguments are the strings after the name of the program; what the operating
  system answers is an argument as in the theories below.  Diagnostics on the error stream are left out.

  The theory shows that the arguments written for some options parse to those options, which exit
  codes a process can have and what it has printed by then, and that the broker of a coordinator
  process moves only by its own operations.
\<close>

section \<open>Arguments\<close>

text \<open>The chain of comparisons with the names of the options is a table here.  An exit code, or the value the program goes on with.\<close>

type_synonym 'a or_exit = "nat + 'a"

definition parse_u64 :: "bytes \<Rightarrow> u64 or_exit" where
  "parse_u64 message = (case parse_u64_decimal message of Inl _ \<Rightarrow> Inl 2 | Inr n \<Rightarrow> Inr n)"

definition with_u64 :: "(u64 \<Rightarrow> 'o \<Rightarrow> 'o) \<Rightarrow> bytes \<Rightarrow> 'o \<Rightarrow> 'o or_exit" where
  "with_u64 assign message options = (case parse_u64 message of Inl c \<Rightarrow> Inl c | Inr n \<Rightarrow> Inr (assign n options))"

definition with_text :: "(bytes \<Rightarrow> 'o \<Rightarrow> 'o) \<Rightarrow> bytes \<Rightarrow> 'o \<Rightarrow> 'o or_exit" where
  "with_text assign message options = Inr (assign message options)"

text \<open>The loop of both programs: an option with a value (\<open>next_value\<close>; a missing value ends the program), a flag,
  or an unrecognised argument.\<close>

fun parse_arguments ::
  "(bytes \<Rightarrow> (bytes \<Rightarrow> 'o \<Rightarrow> 'o or_exit) option) \<Rightarrow> (bytes \<Rightarrow> ('o \<Rightarrow> 'o) option) \<Rightarrow> bytes list \<Rightarrow> 'o \<Rightarrow> 'o or_exit" where
  "parse_arguments valued flag [] options = Inr options"
| "parse_arguments valued flag (name # rest) options =
    (case valued name of
       Some assign \<Rightarrow> (case rest of
           [] \<Rightarrow> Inl 2
         | message # later \<Rightarrow> (case assign message options of
             Inl c \<Rightarrow> Inl c
           | Inr options' \<Rightarrow> parse_arguments valued flag later options'))
     | None \<Rightarrow> (case flag name of
           Some assign \<Rightarrow> parse_arguments valued flag rest (assign options)
         | None \<Rightarrow> Inl 2))"

section \<open>The coordinator process\<close>

record coordinator_options =
  oc_port :: u16
  oc_store :: bytes
  oc_incarnation :: u64
  oc_epoch :: u64
  oc_token :: bytes
  oc_fsync :: bool

definition default_coordinator_options :: coordinator_options where
  "default_coordinator_options = \<lparr> oc_port = 0, oc_store = [], oc_incarnation = 1, oc_epoch = 1, oc_token = [], oc_fsync = True \<rparr>"

definition coordinator_valued :: "bytes \<Rightarrow> (bytes \<Rightarrow> coordinator_options \<Rightarrow> coordinator_options or_exit) option" where
  "coordinator_valued = map_of
    [(ascii ''--port'', with_u64 (\<lambda>n o'. o'\<lparr>oc_port := ucast n\<rparr>)),
     (ascii ''--store'', with_text (\<lambda>s o'. o'\<lparr>oc_store := s\<rparr>)),
     (ascii ''--incarnation'', with_u64 (\<lambda>n o'. o'\<lparr>oc_incarnation := n\<rparr>)),
     (ascii ''--epoch'', with_u64 (\<lambda>n o'. o'\<lparr>oc_epoch := n\<rparr>)),
     (ascii ''--token'', with_text (\<lambda>s o'. o'\<lparr>oc_token := s\<rparr>))]"

definition coordinator_flag :: "bytes \<Rightarrow> (coordinator_options \<Rightarrow> coordinator_options) option" where
  "coordinator_flag name = (if name = ascii ''--no-fsync'' then Some (\<lambda>o'. o'\<lparr>oc_fsync := False\<rparr>) else None)"

definition coordinator_parse :: "bytes list \<Rightarrow> coordinator_options or_exit" where
  "coordinator_parse arguments = parse_arguments coordinator_valued coordinator_flag arguments default_coordinator_options"

definition config_of :: "coordinator_options \<Rightarrow> broker_config" where
  "config_of options = \<lparr> bc_epoch = oc_epoch options, bc_incarnation = oc_incarnation options,
     bc_store_directory = oc_store options, bc_max_idempotency_entries = kMaxIdempotencyEntries,
     bc_journal_compaction_records = 50000, bc_fsync_on_commit = oc_fsync options \<rparr>"

definition server_options_of :: "coordinator_options \<Rightarrow> server_options" where
  "server_options_of options = \<lparr> vo_port = oc_port options, vo_session_token = oc_token options,
     vo_max_connections = kMaxConnections, vo_receive_buffer_bytes = 64 * 1024 \<rparr>"

definition ready_line :: "listener \<Rightarrow> broker \<Rightarrow> bytes" where
  "ready_line l b =
    ascii ''READY '' @ decimal (unat (ls_port l)) @ ascii '' '' @ decimal (unat (co_epoch (broker_status b))) @
    ascii '' '' @ decimal (unat (co_incarnation (broker_status b)))"

text \<open>From the arguments to the line that announces the listener.\<close>

definition coordinator_start ::
  "bytes list \<Rightarrow> store_dir option \<Rightarrow> io_result list \<Rightarrow> bind_calls \<Rightarrow> (server \<times> listener) or_exit" where
  "coordinator_start arguments directory io calls =
    (case coordinator_parse arguments of
       Inl c \<Rightarrow> Inl c
     | Inr options \<Rightarrow> (case broker_open (config_of options) directory io of
         Inl _ \<Rightarrow> Inl 1
       | Inr b \<Rightarrow> (case start b (server_options_of options) calls of
           Inl _ \<Rightarrow> Inl 1
         | Inr started \<Rightarrow> Inr started)))"

text \<open>The loop over the input, line by line as \<open>fgets\<close> returns them: it is left at a line that starts with the
  command, or at the end of the stream if that is closed; otherwise the process is still reading.\<close>

fun leaves_loop :: "bytes \<Rightarrow> bytes list \<Rightarrow> bool \<Rightarrow> bool" where
  "leaves_loop command [] ended = ended"
| "leaves_loop command (line # lines) ended = (if take (length command) line = command then True else leaves_loop command lines ended)"

text \<open>After \<open>stop\<close> has returned: the last flush, the line printed and the exit code.\<close>

definition coordinator_finish :: "server \<Rightarrow> broker \<times> bytes list \<times> nat" where
  "coordinator_finish sv =
    (case broker_flush (sv_broker sv) of
       (b, Inl _) \<Rightarrow> (b, [], 1)
     | (b, Inr _) \<Rightarrow> (b, [ascii ''STOPPED''], 0))"

text \<open>A process: it fails to start, or it serves, asks the server to stop, waits for the handlers and finishes.\<close>

inductive coordinator_process ::
  "bytes list \<Rightarrow> store_dir option \<Rightarrow> io_result list \<Rightarrow> bind_calls \<Rightarrow> bytes list \<Rightarrow> bool \<Rightarrow> bytes list \<times> nat \<Rightarrow> bool" where
  refused: "coordinator_start arguments directory io calls = Inl c \<Longrightarrow>
    coordinator_process arguments directory io calls lines ended ([], c)"
| served: "coordinator_start arguments directory io calls = Inr (sv, l) \<Longrightarrow>
    system_step\<^sup>*\<^sup>* (system_of sv l []) (system_of sv1 l1 hs1) \<Longrightarrow>
    leaves_loop (ascii ''stop'') lines ended \<Longrightarrow> stop_request (sv1, l1) = (sv2, l2) \<Longrightarrow>
    system_step\<^sup>*\<^sup>* (system_of sv2 l2 hs1) (system_of sv3 l3 hs3) \<Longrightarrow> stop_returns sv3 \<Longrightarrow>
    coordinator_finish sv3 = (b, printed, c) \<Longrightarrow>
    coordinator_process arguments directory io calls lines ended (ready_line l (sv_broker sv) # printed, c)"

inductive_cases coordinator_processE: "coordinator_process arguments directory io calls lines ended (printed, c)"

section \<open>The inspection tool\<close>

definition default_store_options :: store_options where
  "default_store_options = \<lparr> so_fsync_on_commit = True, so_compaction_records = 50000, so_max_journal_records = kMaxJournalRecords \<rparr>"

definition yes_no :: "bool \<Rightarrow> bytes" where
  "yes_no b = (if b then ascii ''yes'' else ascii ''no'')"

text \<open>\<open>version_supported\<close> is initialised to true and never assigned.\<close>

definition version_supported :: "recovery_report \<Rightarrow> bool" where
  "version_supported report = True"

definition BB_STORE_FORMAT_VERSION :: nat where "BB_STORE_FORMAT_VERSION = 1"

definition report_lines :: "bytes \<Rightarrow> recovery_report \<Rightarrow> bytes list" where
  "report_lines directory report =
    [ascii ''store='' @ directory,
     ascii ''format_version='' @ decimal BB_STORE_FORMAT_VERSION,
     ascii ''manifest_present='' @ yes_no (rp_manifest_present report),
     ascii ''snapshot_present='' @ yes_no (rp_snapshot_loaded report),
     ascii ''snapshot_corrupt='' @ yes_no (rp_snapshot_corrupt report),
     ascii ''snapshot_sequence='' @ decimal (unat (rp_snapshot_sequence report)),
     ascii ''journal_records='' @ decimal (rp_journal_records report),
     ascii ''journal_truncated='' @ yes_no (rp_journal_truncated report),
     ascii ''truncations='' @ decimal (rp_truncations report),
     ascii ''recoverable='' @ yes_no (version_supported report)]"

definition inspect_main :: "bytes list \<Rightarrow> store_dir option \<Rightarrow> io_result list \<Rightarrow> bytes list \<times> nat" where
  "inspect_main arguments directory io =
    (case arguments of
       [name] \<Rightarrow> (case store_open name directory io default_store_options of
           Inl _ \<Rightarrow> ([], 1)
         | Inr st \<Rightarrow> (case snd (store_inspect st) of
             Inl _ \<Rightarrow> ([], 1)
           | Inr report \<Rightarrow> (report_lines name report, 0)))
     | _ \<Rightarrow> ([], 2))"

section \<open>The requester process\<close>

record requester_options =
  og_host :: bytes
  og_port :: u16
  og_publisher :: u64
  og_boot :: bytes
  og_token :: bytes
  og_request_id :: u64
  og_minimum :: int
  og_desired :: int
  og_maximum :: int
  og_priority :: u64
  og_tenant :: u64
  og_group :: u64
  og_resource :: u64
  og_resource_generation :: u64
  og_policy :: u64
  og_policy_generation :: u64
  og_hold :: bool

definition default_requester_options :: requester_options where
  "default_requester_options = \<lparr> og_host = ascii ''127.0.0.1'', og_port = 0, og_publisher = 1, og_boot = [], og_token = [],
     og_request_id = 1, og_minimum = 0, og_desired = 0, og_maximum = 0, og_priority = 1, og_tenant = 1, og_group = 1,
     og_resource = 1, og_resource_generation = 1, og_policy = 1, og_policy_generation = 1, og_hold = False \<rparr>"

text \<open>The amounts are converted from unsigned to signed, the port is cut to sixteen bits.\<close>

definition requester_valued :: "bytes \<Rightarrow> (bytes \<Rightarrow> requester_options \<Rightarrow> requester_options or_exit) option" where
  "requester_valued = map_of
    [(ascii ''--host'', with_text (\<lambda>s o'. o'\<lparr>og_host := s\<rparr>)),
     (ascii ''--port'', with_u64 (\<lambda>n o'. o'\<lparr>og_port := ucast n\<rparr>)),
     (ascii ''--publisher'', with_u64 (\<lambda>n o'. o'\<lparr>og_publisher := n\<rparr>)),
     (ascii ''--boot'', with_text (\<lambda>s o'. o'\<lparr>og_boot := s\<rparr>)),
     (ascii ''--token'', with_text (\<lambda>s o'. o'\<lparr>og_token := s\<rparr>)),
     (ascii ''--request-id'', with_u64 (\<lambda>n o'. o'\<lparr>og_request_id := n\<rparr>)),
     (ascii ''--min'', with_u64 (\<lambda>n o'. o'\<lparr>og_minimum := sint n\<rparr>)),
     (ascii ''--desired'', with_u64 (\<lambda>n o'. o'\<lparr>og_desired := sint n\<rparr>)),
     (ascii ''--max'', with_u64 (\<lambda>n o'. o'\<lparr>og_maximum := sint n\<rparr>)),
     (ascii ''--priority'', with_u64 (\<lambda>n o'. o'\<lparr>og_priority := n\<rparr>)),
     (ascii ''--tenant'', with_u64 (\<lambda>n o'. o'\<lparr>og_tenant := n\<rparr>)),
     (ascii ''--group'', with_u64 (\<lambda>n o'. o'\<lparr>og_group := n\<rparr>)),
     (ascii ''--resource'', with_u64 (\<lambda>n o'. o'\<lparr>og_resource := n\<rparr>)),
     (ascii ''--resource-generation'', with_u64 (\<lambda>n o'. o'\<lparr>og_resource_generation := n\<rparr>)),
     (ascii ''--policy'', with_u64 (\<lambda>n o'. o'\<lparr>og_policy := n\<rparr>)),
     (ascii ''--policy-generation'', with_u64 (\<lambda>n o'. o'\<lparr>og_policy_generation := n\<rparr>))]"

definition requester_flag :: "bytes \<Rightarrow> (requester_options \<Rightarrow> requester_options) option" where
  "requester_flag name = (if name = ascii ''--hold'' then Some (\<lambda>o'. o'\<lparr>og_hold := True\<rparr>) else None)"

definition requester_parse :: "bytes list \<Rightarrow> requester_options or_exit" where
  "requester_parse arguments = parse_arguments requester_valued requester_flag arguments default_requester_options"

definition requester_boot :: "(nat \<Rightarrow> bytes) \<Rightarrow> requester_options \<Rightarrow> boot_id result" where
  "requester_boot fill options = (if og_boot options = [] then value_of (generate_boot_id fill) else boot_parse (og_boot options))"

definition client_options_of :: "requester_options \<Rightarrow> boot_id \<Rightarrow> client_options" where
  "client_options_of options boot = \<lparr> lo_host = og_host options, lo_port = og_port options, lo_session_token = og_token options,
     lo_publisher = og_publisher options, lo_boot = boot \<rparr>"

definition target_of :: "requester_options \<Rightarrow> capacity_target" where
  "target_of options = CapacityTarget (og_resource options) (og_resource_generation options) 0 0"

definition requester_authority :: "requester_options \<Rightarrow> boot_id \<Rightarrow> hello_ack \<Rightarrow> authority_vector" where
  "requester_authority options boot hello = default_authority\<lparr> av_fabric_epoch := ha_epoch hello,
     av_resource := og_resource options, av_resource_generation := og_resource_generation options,
     av_policy := og_policy options, av_policy_generation := og_policy_generation options,
     av_request := og_request_id options, av_request_generation := gen_initial,
     av_fairness_group := og_group options, av_fairness_config_generation := gen_initial,
     av_tenant_config_generation := gen_initial, av_publisher := og_publisher options,
     av_publisher_boot := boot, av_publisher_sequence := 1 \<rparr>"

text \<open>\<open>value()\<close> of a failed conversion reads an empty optional: the behaviour is undefined.\<close>

definition request_of :: "requester_options \<Rightarrow> boot_id \<Rightarrow> hello_ack \<Rightarrow> bandwidth_request result" where
  "request_of options boot hello =
    bindr (value_of (from_bits_per_second (og_minimum options))) (\<lambda>minimum.
    bindr (value_of (from_bits_per_second (og_desired options))) (\<lambda>desired.
    bindr (value_of (from_bits_per_second (og_maximum options))) (\<lambda>maximum.
      Inr \<lparr> rq_id = og_request_id options, rq_generation = gen_initial, rq_authority = requester_authority options boot hello,
        rq_target = target_of options, rq_minimum = minimum, rq_desired = desired, rq_maximum = maximum,
        rq_guarantee_class = GC_Unspecified, rq_priority = og_priority options, rq_tenant = og_tenant options,
        rq_fairness_group = og_group options, rq_borrowing_eligible = False, rq_preemptible = True,
        rq_recall_tolerance = RT_Unspecified, rq_reservation = None, rq_window = None, rq_latency_slo = 0,
        rq_labels = [], rq_provenance = default_provenance \<rparr>)))"

text \<open>How a process ends: with an exit code, in undefined behaviour, or not yet, when a call is still waiting.\<close>

datatype process_end = Exited nat | Crashed | Waiting

type_synonym process = "bytes list \<times> process_end"

definition printing :: "bytes list \<Rightarrow> process \<Rightarrow> process" where
  "printing lines p = (lines @ fst p, snd p)"

definition decision_line :: "decision_message \<Rightarrow> bytes" where
  "decision_line d =
    (case ad_grant d of
       None \<Rightarrow> ascii ''NOGRANT '' @ decimal (unat (ad_request d)) @ ascii '' '' @ ascii (outcome_reason_to_string (ad_reason d))
     | Some g \<Rightarrow>
         ascii ''GRANT '' @ decimal (unat (gr_id g)) @ ascii '' '' @ decimal (unat (gr_generation g)) @ ascii '' '' @
         (case ga_total (gr_allocation g) of Inl _ \<Rightarrow> ascii ''-1'' | Inr amount \<Rightarrow> decimal amount) @ ascii '' '' @
         ascii (grant_state_to_string (gr_state g)))"

text \<open>The connection, the chunks that arrive during the three calls, and the input that \<open>--hold\<close> reads.\<close>

record requester_world =
  rw_resolved :: int
  rw_addresses :: "(int \<times> int) list"
  rw_sends :: "int list"
  rw_hello :: "arrival list"
  rw_submit :: "arrival list"
  rw_round :: "arrival list"
  rw_lines :: "bytes list"
  rw_closed :: bool

definition requester_round :: "requester_world \<Rightarrow> requester_options \<Rightarrow> client \<Rightarrow> process" where
  "requester_round world options cl =
    (let refused = (\<lambda>c. ([ascii ''REFUSED arbitrate '' @ ascii (error_to_string c)], Exited 5)) in
     case client_arbitrate (target_of options) (rw_round world) cl of
       (_, None) \<Rightarrow> ([], Waiting)
     | (_, Some (Inl e)) \<Rightarrow> refused (code_of e)
     | (_, Some (Inr ack)) \<Rightarrow>
         if ws_code (aa_status ack) \<noteq> EC_Ok then refused (ws_code (aa_status ack))
         else printing (map decision_line (aa_decisions ack))
           (if \<not> og_hold options then ([ascii ''DONE''], Exited 0)
            else if leaves_loop (ascii ''quit'') (rw_lines world) (rw_closed world) then ([ascii ''HOLDING'', ascii ''DONE''], Exited 0)
            else ([ascii ''HOLDING''], Waiting)))"

definition requester_submit :: "requester_world \<Rightarrow> requester_options \<Rightarrow> boot_id \<Rightarrow> hello_ack \<Rightarrow> client \<Rightarrow> process" where
  "requester_submit world options boot hello cl =
    (let refused = (\<lambda>c. ([ascii ''REFUSED submit '' @ ascii (error_to_string c)], Exited 4)) in
     case request_of options boot hello of
       Inl _ \<Rightarrow> ([], Crashed)
     | Inr request \<Rightarrow> (case client_submit [request] (rw_submit world) cl of
         (_, None) \<Rightarrow> ([], Waiting)
       | (_, Some (Inl e)) \<Rightarrow> refused (code_of e)
       | (cl', Some (Inr ack)) \<Rightarrow>
           if ws_code (ba_status ack) \<noteq> EC_Ok then refused (ws_code (ba_status ack))
           else printing [ascii ''SUBMITTED '' @ decimal (unat (og_request_id options)) @ ascii '' '' @ decimal (unat (ba_accepted ack))]
             (requester_round world options cl')))"

definition requester_session :: "requester_world \<Rightarrow> requester_options \<Rightarrow> boot_id \<Rightarrow> process" where
  "requester_session world options boot =
    (case connect (client_options_of options boot) (rw_resolved world) (rw_addresses world) (rw_sends world) of
       Inl e \<Rightarrow> ([ascii ''ERROR connect '' @ ascii (error_to_string (code_of e))], Exited 1)
     | Inr cl \<Rightarrow> (case handshake (rw_hello world) cl of
         (_, None) \<Rightarrow> ([], Waiting)
       | (_, Some (Inl e)) \<Rightarrow> ([ascii ''REFUSED handshake '' @ ascii (error_to_string (code_of e))], Exited 3)
       | (cl', Some (Inr hello)) \<Rightarrow>
           printing [ascii ''CONNECTED '' @ boot_to_string boot, ascii ''EPOCH '' @ decimal (unat (ha_epoch hello))]
             (requester_submit world options boot hello cl')))"

definition requester_main :: "(nat \<Rightarrow> bytes) \<Rightarrow> requester_world \<Rightarrow> bytes list \<Rightarrow> process" where
  "requester_main fill world arguments =
    (case requester_parse arguments of
       Inl c \<Rightarrow> ([], Exited c)
     | Inr options \<Rightarrow> (case requester_boot fill options of
         Inl Undefined \<Rightarrow> ([], Crashed)
       | Inl (Err _) \<Rightarrow> ([], Exited 2)
       | Inr boot \<Rightarrow> requester_session world options boot))"

section \<open>Parsing arguments\<close>

lemma parse_u64_decimal [simp]: "parse_u64 (decimal (unat n)) = Inr n"
  by (simp add: parse_u64_def parse_printed)

lemma parse_u64_u16: "parse_u64 (decimal (unat (p :: u16))) = Inr (ucast p)"
proof -
  have "unat p = unat (ucast p :: u64)" by (simp add: unsigned_ucast_eq take_bit_nat_eq_self unsigned_less [THEN less_le_trans])
  then show ?thesis by (simp only: parse_u64_decimal)
qed

text \<open>The arguments that set every option.\<close>

definition coordinator_arguments :: "coordinator_options \<Rightarrow> bytes list" where
  "coordinator_arguments options =
    [ascii ''--port'', decimal (unat (oc_port options)), ascii ''--store'', oc_store options,
     ascii ''--incarnation'', decimal (unat (oc_incarnation options)), ascii ''--epoch'', decimal (unat (oc_epoch options)),
     ascii ''--token'', oc_token options] @ (if oc_fsync options then [] else [ascii ''--no-fsync''])"

lemmas option_values = coordinator_valued_def coordinator_flag_def with_u64_def with_text_def ascii_inj parse_u64_u16

lemma port_kept: "ucast (ucast p :: u64) = (p :: u16)"
  by (rule bit_word_eqI) (simp add: bit_simps)

lemma coordinator_round_trip: "coordinator_parse (coordinator_arguments options) = Inr options"
  by (cases options) (simp add: coordinator_parse_def coordinator_arguments_def default_coordinator_options_def option_values port_kept)

text \<open>A port beyond sixteen bits is not refused: the remainder is used.\<close>

lemma port_truncated: "coordinator_parse [ascii ''--port'', decimal 65536] = Inr default_coordinator_options"
proof -
  have "parse_u64 (decimal 65536) = Inr 65536" using parse_u64_decimal [of 65536] by simp
  then show ?thesis by (simp add: coordinator_parse_def default_coordinator_options_def option_values)
qed

text \<open>Arguments that are refused end the program with exit code 2.\<close>

lemma parse_arguments_code:
  assumes "\<forall>name assign message options c. valued name = Some assign \<longrightarrow> assign message options = Inl c \<longrightarrow> c = 2"
  shows "parse_arguments valued flag arguments options = Inl c \<Longrightarrow> c = 2"
  using assms
  by (induction valued flag arguments options rule: parse_arguments.induct) (auto split: option.splits list.splits sum.splits)

lemma with_u64_code: "with_u64 assign message options = Inl c \<Longrightarrow> c = 2"
  by (auto simp: with_u64_def parse_u64_def split: sum.splits)

lemma coordinator_parse_code: "coordinator_parse arguments = Inl c \<Longrightarrow> c = 2"
  unfolding coordinator_parse_def
  by (erule parse_arguments_code [rotated])
    (auto simp: coordinator_valued_def with_text_def dest!: map_of_SomeD dest: with_u64_code)

section \<open>The coordinator process\<close>

lemma started_from:
  assumes "coordinator_start arguments directory io calls = Inr (sv, l)"
  shows "\<exists>options. coordinator_parse arguments = Inr options \<and> broker_open (config_of options) directory io = Inr (sv_broker sv) \<and>
    start (sv_broker sv) (server_options_of options) calls = Inr (sv, l)"
proof -
  obtain options b where o: "coordinator_parse arguments = Inr options" "broker_open (config_of options) directory io = Inr b"
      "start b (server_options_of options) calls = Inr (sv, l)"
    using assms by (auto simp: coordinator_start_def split: sum.splits)
  then have "sv_broker sv = b" by (auto simp: start_def initialise_networking_def split: if_splits)
  with o show ?thesis by simp
qed

lemma process_output:
  "coordinator_process arguments directory io calls lines ended (printed, c) \<Longrightarrow>
    c = 0 \<and> (\<exists>line. printed = [line, ascii ''STOPPED'']) \<or> c = 1 \<and> length printed \<le> 1 \<or> c = 2 \<and> printed = []"
  by (erule coordinator_processE)
    (auto simp: coordinator_start_def coordinator_finish_def split: sum.splits prod.splits dest: coordinator_parse_code)

lemma start_active: "start b options calls = Inr (sv, l) \<Longrightarrow> sv_active sv = 0"
  by (auto simp: start_def initialise_networking_def split: if_splits)

text \<open>A coordinator that has started can be stopped from every state it reaches: when its input ends, or asks it to,
  the process ends.  Nothing else ends it: a shutdown request stops the server and leaves the process reading.\<close>

lemma process_ends:
  assumes "coordinator_start arguments directory io calls = Inr (sv, l)" and "system_step\<^sup>*\<^sup>* (system_of sv l []) (system_of sv1 l1 hs1)"
    and "leaves_loop (ascii ''stop'') lines ended"
  shows "\<exists>printed c. coordinator_process arguments directory io calls lines ended (ready_line l (sv_broker sv) # printed, c)"
proof -
  obtain sv2 l2 where stop: "stop_request (sv1, l1) = (sv2, l2)" by fastforce
  have "sv_active sv = 0" using started_from [OF assms(1)] start_active by blast
  then have "within_budget (system_of sv l [])" by (simp add: within_budget_def)
  from run_budget [OF assms(2) this] stop have "within_budget (system_of sv2 l2 hs1)" "sv_stopping sv2"
    by (auto simp: stop_request_def within_budget_def)
  then obtain sv3 where "system_step\<^sup>*\<^sup>* (system_of sv2 l2 hs1) (system_of sv3 l2 [])" "stop_returns sv3"
    using stop_drains by blast
  moreover obtain b printed c where "coordinator_finish sv3 = (b, printed, c)" by (metis prod_cases3)
  ultimately show ?thesis using coordinator_process.served [OF assms stop] by blast
qed

lemma shutdown_leaves_process:
  "coordinator_start arguments directory io calls = Inr started \<Longrightarrow> \<not> coordinator_process arguments directory io calls [] False (printed, c)"
  by (auto elim: coordinator_processE)

text \<open>While it serves, its broker moves only by the operations of the coordinator, from what opening the store gave.\<close>

lemma process_broker:
  assumes "coordinator_start arguments directory io calls = Inr (sv, l)" and "sound_step\<^sup>*\<^sup>* (system_of sv l []) s"
  shows "\<exists>options b. coordinator_parse arguments = Inr options \<and> broker_open (config_of options) directory io = Inr b \<and>
    coordinator_step\<^sup>*\<^sup>* b (sv_broker (sy_server s))"
  using started_from [OF assms(1)] run_broker [OF assms(2)] by auto

section \<open>The inspection tool\<close>

lemma inspect_snapshots_keeps:
  "snd (inspect_snapshots files report st) = Inr report' \<Longrightarrow>
    rp_manifest_present report' = rp_manifest_present report \<and> rp_snapshot_loaded report' = rp_snapshot_loaded report"
  by (induction files report st rule: inspect_snapshots.induct) (auto split: prod.splits sum.splits)

lemma inspect_journals_keeps:
  "inspect_journals files report st = (st', Inr report') \<Longrightarrow>
    rp_manifest_present report' = rp_manifest_present report \<and> rp_snapshot_loaded report' = rp_snapshot_loaded report"
  by (induction files report arbitrary: st rule: inspect_journals.induct)
    (fastforce simp: opret_def opbind_success oplift_def)+

text \<open>The tool does not recover the store, and inspection keeps the report of the last recovery: whatever the
  directory holds, it prints that there is no manifest and no snapshot, and that the store is recoverable.\<close>

lemma inspect_blind:
  assumes "inspect_main [name] directory io = (printed, 0)"
  shows "printed ! 2 = ascii ''manifest_present=no'' \<and> printed ! 3 = ascii ''snapshot_present=no'' \<and>
    printed ! 9 = ascii ''recoverable=yes''"
proof -
  obtain st report where st: "store_open name directory io default_store_options = Inr st" "snd (store_inspect st) = Inr report"
      "printed = report_lines name report"
    using assms by (auto simp: inspect_main_def split: sum.splits)
  have "rp_manifest_present (st_report st) = False \<and> rp_snapshot_loaded (st_report st) = False"
    using st(1) by (auto simp: store_open_def new_store_def empty_report_def split: if_splits option.splits list.splits io_result.splits)
  moreover obtain st' where i: "store_inspect st = (st', Inr report)" using st(2) by (metis prod.collapse)
  then obtain files :: store_dir and st1 st2 r1 where snapshots: "inspect_snapshots (dr_snapshots files) ((st_report st)\<lparr>rp_durable := True\<rparr>) st1 = (st2, Inr r1)"
      and journals: "inspect_journals (dr_journals files) r1 st2 = (st', Inr report)"
    by (auto simp: store_inspect_def opbind_success opget_def)
  ultimately have "rp_manifest_present report = False \<and> rp_snapshot_loaded report = False"
    using inspect_journals_keeps [OF journals] inspect_snapshots_keeps [of "dr_snapshots files" "(st_report st)\<lparr>rp_durable := True\<rparr>" st1 r1] snapshots by simp
  then show ?thesis using st(3) by (simp add: report_lines_def yes_no_def version_supported_def ascii_def)
qed

section \<open>The requester process\<close>

lemma requester_valued_code: "requester_valued name = Some assign \<Longrightarrow> assign message options = Inl c \<Longrightarrow> c = 2"
  unfolding requester_valued_def by (drule map_of_SomeD) (auto simp: with_text_def dest: with_u64_code)

lemma requester_parse_code: "requester_parse arguments = Inl c \<Longrightarrow> c = 2"
  unfolding requester_parse_def by (erule parse_arguments_code [rotated]) (blast dest: requester_valued_code)

lemma round_output:
  "requester_round world options cl = (printed, Exited c) \<Longrightarrow>
    c = 0 \<and> printed \<noteq> [] \<and> last printed = ascii ''DONE'' \<or> c = 5 \<and> length printed = 1"
  by (auto simp: requester_round_def Let_def printing_def split: prod.splits option.splits sum.splits if_splits)

lemma submit_output:
  "requester_submit world options boot hello cl = (printed, Exited c) \<Longrightarrow>
    c = 4 \<and> length printed = 1 \<or> (\<exists>line rest cl'. printed = line # rest \<and> requester_round world options cl' = (rest, Exited c))"
  by (auto simp: requester_submit_def Let_def printing_def prod_eq_iff split: prod.splits option.splits sum.splits if_splits)

lemma session_output:
  "requester_session world options boot = (printed, Exited c) \<Longrightarrow>
    c \<in> {1, 3} \<and> length printed = 1 \<or>
    (\<exists>line line' rest hello cl'. printed = line # line' # rest \<and> requester_submit world options boot hello cl' = (rest, Exited c))"
  by (auto simp: requester_session_def printing_def prod_eq_iff split: prod.splits option.splits sum.splits)

text \<open>What a requester has printed when it ends.\<close>

lemma requester_output:
  assumes "requester_main fill world arguments = (printed, Exited c)"
  shows "c = 0 \<and> length printed \<ge> 4 \<and> last printed = ascii ''DONE'' \<or> c \<in> {1, 3} \<and> length printed = 1 \<or>
    c = 2 \<and> printed = [] \<or> c = 4 \<and> length printed = 3 \<or> c = 5 \<and> length printed = 4"
proof -
  have "c = 2 \<and> printed = [] \<or> (\<exists>options boot. requester_session world options boot = (printed, Exited c))"
    using assms by (auto simp: requester_main_def split: sum.splits failure.splits dest: requester_parse_code)
  then show ?thesis by (fastforce dest!: session_output submit_output round_output simp: Suc_le_eq)
qed

text \<open>An amount beyond the largest bandwidth is not refused: the empty result of the conversion is read.\<close>

lemma oversized_amount_crashes:
  assumes "og_maximum options > int kMaxBitsPerSecond"
  shows "requester_submit world options boot hello cl = ([], Crashed)"
proof -
  have "value_of (from_bits_per_second (og_maximum options)) = Inl Undefined"
    using assms by (simp add: from_bits_per_second_def value_of_def)
  then have "\<exists>e. request_of options boot hello = Inl e" by (auto simp: request_of_def bindr_def split: sum.splits)
  then show ?thesis by (auto simp: requester_submit_def Let_def)
qed

end
