(* ===== verification/Example_Program.thy ===== *)
theory Example_Program
  imports Tools
begin

text \<open>
  The end-to-end example (\<open>arbitrate_example.cpp\<close>): a coordinator in memory, a policy with two classes and
  two groups, ten megabits of capacity with a tenth kept as headroom, three competing requests, one
  round, the explanations, and the release of every grant.  The binding reasons of the explanations are
  an argument.
\<close>

section \<open>Inputs\<close>

definition plain_class :: priority_class where
  "plain_class = \<lparr> pc_id = 0, pc_name = [], pc_rank = 0, pc_weight = 1, pc_emergency = False,
     pc_preemptible = True, pc_borrowing_eligible = False, pc_allow_discretionary = True \<rparr>"

definition plain_group :: fairness_group_config where
  "plain_group = \<lparr> fg_id = 0, fg_tenant = 0, fg_name = [], fg_weight = 1, fg_maximum_cap = 0,
     fg_maximum_cap_permille = 0, fg_borrowing_eligible = False, fg_preemptible = True \<rparr>"

definition plain_policy :: policy where
  "plain_policy = \<lparr> po_id = 0, po_generation = 0, po_scheduling = StrictPriority, po_priority_classes = [],
     po_fairness_groups = [], po_headroom_target = 0, po_headroom_permille = 0, po_emergency_reserve_permille = 0,
     po_borrow = \<lparr> bp_enabled = False, bp_lend_obligations = False, bp_max_lend_permille = 0,
       bp_max_borrow_permille = 0, bp_borrow_from_headroom = False \<rparr>,
     po_starvation = \<lparr> sp_enabled = True, sp_aging_threshold_rounds = 8, sp_aging_weight_multiplier = 2, sp_maximum_promotions = 1 \<rparr>,
     po_preemption = \<lparr> pp_enabled = True, pp_recall_discretionary = True, pp_recall_grace_rounds = 0 \<rparr>,
     po_oversubscription = \<lparr> os_numerator = 1, os_denominator = 1 \<rparr>,
     po_minimum_allocation_quantum = 0, po_hysteresis_rounds = 0, po_fairness_config_generation = 0,
     po_tenant_config_generation = 0, po_provenance = default_provenance \<rparr>"

definition example_policy :: policy where
  "example_policy = plain_policy\<lparr>po_id := 1, po_generation := gen_initial, po_scheduling := StrictPriority,
     po_fairness_config_generation := gen_initial, po_tenant_config_generation := gen_initial,
     po_headroom_permille := 100, po_minimum_allocation_quantum := 1000,
     po_priority_classes := [plain_class\<lparr>pc_id := 1, pc_name := ascii ''background'', pc_rank := 10, pc_weight := 1\<rparr>,
       plain_class\<lparr>pc_id := 2, pc_name := ascii ''interactive'', pc_rank := 20, pc_weight := 4\<rparr>],
     po_fairness_groups := [plain_group\<lparr>fg_id := 1, fg_tenant := 1, fg_name := ascii ''team-a'', fg_weight := 1\<rparr>,
       plain_group\<lparr>fg_id := 2, fg_tenant := 2, fg_name := ascii ''team-b'', fg_weight := 3\<rparr>]\<rparr>"

text \<open>\<open>boot_id_from_u64 n n\<close> as a value.\<close>

definition example_boot :: "u64 \<Rightarrow> boot_id" where
  "example_boot n = (case boot_id_from_u64 n n of Inr boot \<Rightarrow> boot | Inl _ \<Rightarrow> boot_unset)"

definition example_target :: capacity_target where
  "example_target = CapacityTarget 1 gen_initial 0 0"

definition make_request ::
  "ident \<Rightarrow> ident \<Rightarrow> ident \<Rightarrow> ident \<Rightarrow> bandwidth \<Rightarrow> bandwidth \<Rightarrow> capacity_target \<Rightarrow> ident \<Rightarrow> policy \<Rightarrow> boot_id \<Rightarrow> bandwidth_request" where
  "make_request i fg tenant priority minimum desired target epoch p boot =
    \<lparr> rq_id = i, rq_generation = gen_initial,
      rq_authority = default_authority\<lparr>av_fabric_epoch := epoch, av_resource := ct_resource target,
        av_resource_generation := ct_resource_generation target, av_policy := po_id p, av_policy_generation := po_generation p,
        av_request := i, av_request_generation := gen_initial, av_fairness_group := fg,
        av_fairness_config_generation := po_fairness_config_generation p,
        av_tenant_config_generation := po_tenant_config_generation p, av_publisher := 1, av_publisher_boot := boot,
        av_publisher_sequence := 1\<rparr>,
      rq_target = target, rq_minimum = minimum, rq_desired = desired, rq_maximum = desired,
      rq_guarantee_class = GC_Unspecified, rq_priority = priority, rq_tenant = tenant, rq_fairness_group = fg,
      rq_borrowing_eligible = False, rq_preemptible = True, rq_recall_tolerance = RT_Unspecified, rq_reservation = None,
      rq_window = None, rq_latency_slo = 0, rq_labels = [], rq_provenance = default_provenance \<rparr>"

definition example_snapshot :: capacity_snapshot where
  "example_snapshot = \<lparr> cs_target = example_target, cs_snapshot = 1, cs_generation = gen_initial, cs_evidence = EV_Known,
     cs_physical_configured = Some 10000000, cs_administratively_unavailable = 0, cs_degraded_loss = 0,
     cs_headroom_target = 0, cs_reserved_committed = 0,
     cs_provenance = default_provenance\<lparr>pv_source_kind := NK_CapacityPublisher, pv_source_id := 1,
       pv_source_boot := example_boot 2, pv_epoch := 1, pv_coordinator := 1\<rparr>,
     cs_authority = default_authority\<lparr>av_fabric_epoch := 1, av_coordinator := 1, av_resource := 1,
       av_resource_generation := gen_initial, av_capacity_generation := gen_initial, av_publisher := 2,
       av_publisher_boot := example_boot 2\<rparr>,
     cs_observed_at = 0, cs_publisher_sequence = 0 \<rparr>"

definition example_requests :: "bandwidth_request list" where
  "example_requests =
    [make_request 1 1 1 2 2000000 6000000 example_target 1 example_policy (example_boot 1),
     make_request 2 2 2 2 500000 4000000 example_target 1 example_policy (example_boot 1),
     make_request 3 1 1 1 0 5000000 example_target 1 example_policy (example_boot 1)]"

definition example_config :: broker_config where
  "example_config = \<lparr> bc_epoch = 1, bc_incarnation = 1, bc_store_directory = [],
     bc_max_idempotency_entries = kMaxIdempotencyEntries, bc_journal_compaction_records = 50000, bc_fsync_on_commit = True \<rparr>"

section \<open>The program\<close>

definition example_setup :: "unit bop" where
  "example_setup =
    opbind (set_policy example_policy) (\<lambda>_.
    opbind (publish_capacity example_snapshot) (\<lambda>_.
      opfor (\<lambda>r. opbind (submit r) (\<lambda>_. opret ())) example_requests))"

definition example_round :: "round_summary bop" where
  "example_round = opbind example_setup (\<lambda>_. broker_arbitrate example_target)"

definition explanation_lines :: "(ident \<Rightarrow> bytes) \<Rightarrow> broker \<Rightarrow> bytes list" where
  "explanation_lines reasons b = concat (map (\<lambda>r. case explain (rq_id r) (rq_generation r) b of
      Inl _ \<Rightarrow> []
    | Inr e \<Rightarrow> [ascii ''explanation: '' @ describe_explanation
        (request_explanation.extend e \<lparr> xm_binding_reason = reasons (rq_id r), xm_authority_mismatch = [] \<rparr>)]) example_requests)"

definition example_lines :: "(ident \<Rightarrow> bytes) \<Rightarrow> round_summary \<Rightarrow> broker \<Rightarrow> bytes list" where
  "example_lines reasons r b =
    [ascii ''round: granted='' @ decimal (rs_granted r) @ ascii '' waiting='' @ decimal (rs_waiting r) @
       ascii '' refused='' @ decimal (rs_refused r) @ ascii '' tick='' @ decimal (unat (rs_tick r)),
     ascii ''accounting: '' @ describe_accounting (rs_accounting r)] @
    explanation_lines reasons b @
    [ascii ''live grants: '' @ decimal (length (grants_of example_target True b))]"

definition example_release :: "broker \<Rightarrow> broker \<times> status" where
  "example_release b = opfor (\<lambda>g. opbind (release (gr_id g) (gr_generation g)) (\<lambda>_. opret ())) (grants_of example_target True b) b"

definition example_main :: "(ident \<Rightarrow> bytes) \<Rightarrow> bytes list \<times> nat" where
  "example_main reasons =
    (case broker_open example_config None [] of
       Inl _ \<Rightarrow> ([], 1)
     | Inr b0 \<Rightarrow> (case example_round b0 of
         (_, Inl _) \<Rightarrow> ([], 1)
       | (b, Inr r) \<Rightarrow> (case example_release b of
           (_, Inl _) \<Rightarrow> (example_lines reasons r b, 1)
         | (b', Inr _) \<Rightarrow> (case accounting_of example_target b' of
             Inl _ \<Rightarrow> (example_lines reasons r b, 1)
           | Inr a \<Rightarrow> (example_lines reasons r b @
               [ascii ''after release: authorized='' @ decimal (ac_authorized_consumption a) @
                ascii '' unallocated='' @ decimal (ac_unallocated a)], 0)))))"

section \<open>The inputs are accepted\<close>

lemma example_boot_valid: "boot_valid (example_boot n)"
  using boot_id_from_u64_total [of n n] by (auto simp: example_boot_def)

lemma example_name_valid: "printable_literal cs \<Longrightarrow> length cs \<le> n \<Longrightarrow> validate_text (ascii cs) n = success"
  by (rule printable_valid) (simp_all add: printable_ascii, simp add: ascii_def)

lemma example_names:
  "validate_text (ascii ''background'') kMaxNameBytes = success" "validate_text (ascii ''interactive'') kMaxNameBytes = success"
  "validate_text (ascii ''team-a'') kMaxNameBytes = success" "validate_text (ascii ''team-b'') kMaxNameBytes = success"
  by (rule example_name_valid; simp add: printable_literal_def kMaxNameBytes_def)+

lemma example_policy_valid: "policy_validate example_policy = success"
  using example_names
  by (simp add: policy_validate_def example_policy_def plain_policy_def plain_class_def plain_group_def valid_id_def gen_initial_def
      validate_class_def validate_group_def validate_shares_def validate_borrow_def validate_starvation_def validate_preemption_def
      validate_oversubscription_def validate_quantum_def default_provenance_def Let_def fold_res_def
      kMaxPriorityClasses_def kMaxFairnessGroups_def kMaxHysteresisRounds_def ascii_def
      kMaxOversubscriptionNumerator_def kMaxPromotions_def kMaxAgingMultiplier_def kMaxAgingThresholdRounds_def kMaxPermille_def
      validate_weight_def kMaxWeight_def from_bits_per_second_def kMaxBitsPerSecond_def)

lemma example_snapshot_valid: "snapshot_validate example_snapshot = success"
  using example_boot_valid [of 2]
  by (simp add: snapshot_validate_def snapshot_amounts_validate_def example_snapshot_def example_target_def target_validate_def valid_id_def
      gen_initial_def default_authority_def default_provenance_def checked_sub_def)

lemma example_requests_valid: "\<forall>r \<in> set example_requests. request_validate r = success"
  using example_boot_valid [of 1]
  by (simp add: example_requests_def make_request_def request_validate_def validate_request_identity_def validate_request_amounts_def
      validate_request_binding_def validate_request_window_def validate_requester_authority_def Let_def example_target_def target_validate_def example_policy_def plain_policy_def
      valid_id_def gen_initial_def default_authority_def default_provenance_def)

lemma example_opened:
  "\<exists>b. broker_open example_config None [] = Inr b \<and> br_store b = None \<and> br_epoch b = 1 \<and> br_incarnation b = 1 \<and> br_config b = example_config \<and>
    br_policy b = None \<and> br_capacities b = [] \<and> br_requests b = [] \<and> br_idempotency b = [] \<and> br_grants b = [] \<and> coherent b"
  by (simp add: broker_open_def open_steps_def op_eval check_config_def example_config_def kMaxIdempotencyEntries_def valid_id_def recover_state_def new_broker_def
      restart_epoch_def announce_boot_def demote_restored_def om_map_values_def coherent_def)

lemma example_submit:
  assumes "br_store b = None" and "br_policy b \<noteq> None" and "br_epoch b = 1" and "br_config b = example_config"
    and "r \<in> set example_requests" and "om_find (br_idempotency b) (request_key (rq_id r) 1) = None" and "length (br_idempotency b) < 3"
  shows "\<exists>b' res. submit r b = (b', Inr res) \<and> br_store b' = None \<and> br_policy b' = br_policy b \<and> br_capacities b' = br_capacities b \<and> br_epoch b' = 1 \<and>
    br_config b' = example_config \<and> br_idempotency b' = om_set (request_key (rq_id r) 1) res (br_idempotency b) \<and>
    br_requests b' = om_set (request_key (rq_id r) 1) r (br_requests b)"
proof -
  have r: "request_validate r = success" "av_fabric_epoch (rq_authority r) = 1" "rq_generation r = 1"
    using assms(5) example_requests_valid by (auto simp: example_requests_def make_request_def gen_initial_def)
  then show ?thesis using assms
    by (simp add: submit_def op_eval Let_def persist_memory example_config_def kMaxIdempotencyEntries_def)
qed

lemma example_set_policy:
  "br_store b = None \<Longrightarrow> br_policy b = None \<Longrightarrow> set_policy example_policy b =
    (b\<lparr>br_audit_sequence := br_audit_sequence b + 1, br_policy := Some example_policy\<rparr>, success)"
  by (simp add: set_policy_def op_eval example_policy_valid persist_memory Let_def)

lemma example_publish:
  "br_store b = None \<Longrightarrow> br_epoch b = 1 \<Longrightarrow> br_incarnation b = 1 \<Longrightarrow> br_capacities b = [] \<Longrightarrow> \<exists>b'. publish_capacity example_snapshot b = (b', success) \<and>
    br_store b' = None \<and> br_policy b' = br_policy b \<and> br_epoch b' = 1 \<and> br_config b' = br_config b \<and>
    br_capacities b' = [(example_target, example_snapshot)] \<and> br_requests b' = br_requests b \<and> br_idempotency b' = br_idempotency b"
  using example_snapshot_valid
  by (simp add: publish_capacity_def op_eval persist_memory) (simp add: example_snapshot_def)

text \<open>The coordinator opens, takes the policy and the capacity, and accepts the three requests; the first error return of \<open>main\<close> that can be taken is the one after the round.\<close>

lemma example_setup_succeeds:
  "\<exists>b0 b. broker_open example_config None [] = Inr b0 \<and> example_setup b0 = (b, success) \<and> map snd (br_requests b) = example_requests \<and>
    br_policy b = Some example_policy \<and> br_capacities b = [(example_target, example_snapshot)]"
proof -
  obtain r1 r2 r3 where rs: "example_requests = [r1, r2, r3]" and ids: "rq_id r1 = 1" "rq_id r2 = 2" "rq_id r3 = 3"
    by (simp add: example_requests_def make_request_def)
  have mem: "r1 \<in> set example_requests" "r2 \<in> set example_requests" "r3 \<in> set example_requests" unfolding rs by simp_all
  obtain b0 where b0: "broker_open example_config None [] = Inr b0" "br_store b0 = None" "br_epoch b0 = 1" "br_incarnation b0 = 1"
    "br_config b0 = example_config" "br_policy b0 = None" "br_capacities b0 = []" "br_requests b0 = []" "br_idempotency b0 = []"
    using example_opened by auto
  obtain b2 where p: "publish_capacity example_snapshot (b0\<lparr>br_audit_sequence := br_audit_sequence b0 + 1, br_policy := Some example_policy\<rparr>) = (b2, success)"
    and b2: "br_store b2 = None" "br_policy b2 = Some example_policy" "br_epoch b2 = 1" "br_config b2 = example_config"
      "br_capacities b2 = [(example_target, example_snapshot)]" "br_requests b2 = []" "br_idempotency b2 = []"
    using example_publish [of "b0\<lparr>br_audit_sequence := br_audit_sequence b0 + 1, br_policy := Some example_policy\<rparr>"] b0 by auto
  obtain b3 o1 where s1: "submit r1 b2 = (b3, Inr o1)" "br_store b3 = None" "br_policy b3 = Some example_policy" "br_epoch b3 = 1" "br_config b3 = example_config"
      "br_capacities b3 = [(example_target, example_snapshot)]" "br_idempotency b3 = [(request_key 1 1, o1)]" "br_requests b3 = [(request_key 1 1, r1)]"
    using example_submit [OF _ _ _ _ mem(1), of b2] b2 ids by auto
  obtain b4 o2 where s2: "submit r2 b3 = (b4, Inr o2)" "br_store b4 = None" "br_policy b4 = Some example_policy" "br_epoch b4 = 1" "br_config b4 = example_config"
      "br_capacities b4 = [(example_target, example_snapshot)]" "br_idempotency b4 = [(request_key 1 1, o1), (request_key 2 1, o2)]"
      "br_requests b4 = [(request_key 1 1, r1), (request_key 2 1, r2)]"
    using example_submit [OF _ _ _ _ mem(2), of b3] s1 ids by (auto simp: request_key_def)
  obtain b5 o3 where s3: "submit r3 b4 = (b5, Inr o3)" "br_policy b5 = Some example_policy"
      "br_capacities b5 = [(example_target, example_snapshot)]"
      "br_requests b5 = [(request_key 1 1, r1), (request_key 2 1, r2), (request_key 3 1, r3)]"
    using example_submit [OF _ _ _ _ mem(3), of b4] s2 ids by (auto simp: request_key_def)
  have "example_setup b0 = (b5, success)"
    by (simp add: example_setup_def op_eval example_set_policy [OF b0(2,6)] p rs s1(1) s2(1) s3(1))
  with b0(1) s3 rs show ?thesis by auto
qed

section \<open>Releasing every grant\<close>

lemma opret_eq: "opret x b = (b', r) \<longleftrightarrow> b' = b \<and> r = Inr x"
  by (auto simp: opret_def)

text \<open>A list of live grants, each under its own identity, is released one by one; when the loop succeeds each is released and no other grant changed.\<close>

lemma release_each:
  assumes "opfor (\<lambda>g. opbind (release (gr_id g) (gr_generation g)) (\<lambda>_. opret ())) gs b = (b', success)"
    and "distinct (map gr_id gs)" and "\<forall>g \<in> set gs. om_find (br_grants b) (gr_id g) = Some g \<and> is_live (gr_state g)"
  shows "(\<forall>g \<in> set gs. \<exists>g'. om_find (br_grants b') (gr_id g) = Some g' \<and> gr_state g' = GS_Released) \<and>
    (\<forall>i. i \<notin> gr_id ` set gs \<longrightarrow> om_find (br_grants b') i = om_find (br_grants b) i)"
  using assms
proof (induction gs arbitrary: b)
  case Nil
  then show ?case by (simp add: opret_def)
next
  case (Cons g gs)
  from Cons.prems(1) obtain b1 res where r: "release (gr_id g) (gr_generation g) b = (b1, Inr res)"
    and rest: "opfor (\<lambda>g. opbind (release (gr_id g) (gr_generation g)) (\<lambda>_. opret ())) gs b1 = (b', success)"
    by (auto simp: opbind_success opret_eq)
  have found: "om_find (br_grants b) (gr_id g) = Some g" "is_live (gr_state g)" using Cons.prems(3) by auto
  have "\<not> rl_already_released res"
    using r found by (auto simp: release_def opbind_success current_grant_eq opget_def opret_def oplift_def is_live_def Let_def split: if_splits)
  from release_effect [OF r this] obtain g1 where g1: "om_find (br_grants b1) (gr_id g) = Some g1" "gr_state g1 = GS_Released"
    and others: "\<forall>j. j \<noteq> gr_id g \<longrightarrow> om_find (br_grants b1) j = om_find (br_grants b) j" by blast
  have "\<forall>h \<in> set gs. om_find (br_grants b1) (gr_id h) = Some h \<and> is_live (gr_state h)"
    using Cons.prems(2,3) others by (metis distinct.simps(2) image_eqI list.set_intros(2) list.simps(9) set_map)
  from Cons.IH [OF rest _ this] Cons.prems(2) g1 others show ?case by auto
qed

text \<open>The example's release loop leaves no live grant on the target.\<close>

lemma release_loop_advances: "steps advances (opfor (\<lambda>g. opbind (release (gr_id g) (gr_generation g)) (\<lambda>_. opret ())) gs)"
  by (rule advance.for_each) (rule advance.intros release_advances)+

lemma example_released:
  assumes "coherent b" and "example_release b = (b', success)"
  shows "grants_of example_target True b' = []"
proof -
  let ?live = "grants_of example_target True b"
  have "coherent b'" using stepsD [OF release_loop_advances assms(2) [unfolded example_release_def]] assms(1) by (simp add: advances_def)
  have ids: "\<forall>(i, g) \<in> set (br_grants b). gr_id g = i" and ok: "om_ok (br_grants b)" "om_ok (br_grants b')"
    and ids': "\<forall>(i, g) \<in> set (br_grants b'). gr_id g = i" using assms(1) \<open>coherent b'\<close> by (auto simp: coherent_def)
  have set_live: "g \<in> set ?live \<longleftrightarrow> (gr_id g, g) \<in> set (br_grants b) \<and> gr_target g = example_target \<and> is_live (gr_state g)" for g
    using ids by (force simp: grants_of_def)
  then have found: "\<forall>g \<in> set ?live. om_find (br_grants b) (gr_id g) = Some g \<and> is_live (gr_state g)"
    using om_find_mem [OF ok(1)] by blast
  have "map gr_id (map snd (br_grants b)) = map fst (br_grants b)" using ids by auto
  moreover have "distinct (map fst (br_grants b))" using ok(1) by (simp add: om_ok_def strict_sorted_iff)
  ultimately have "distinct (map gr_id (map snd (br_grants b)))" by (simp only:)
  from distinct_map_filter [OF this] have "distinct (map gr_id ?live)" by (simp add: grants_of_def distinct_map)
  from release_each [OF assms(2) [unfolded example_release_def] this found]
  have released: "\<forall>g \<in> set ?live. \<exists>g'. om_find (br_grants b') (gr_id g) = Some g' \<and> gr_state g' = GS_Released"
    and others: "\<forall>i. i \<notin> gr_id ` set ?live \<longrightarrow> om_find (br_grants b') i = om_find (br_grants b) i" by blast+
  have "\<not> is_live (gr_state g)" if g: "(gr_id g, g) \<in> set (br_grants b')" "gr_target g = example_target" for g
  proof (cases "gr_id g \<in> gr_id ` set ?live")
    case True
    then show ?thesis using released om_find_mem [OF ok(2) g(1)] by (auto simp: is_live_def)
  next
    case False
    then show ?thesis using others om_find_mem [OF ok(2) g(1)] om_find_some set_live g(2) by (metis image_eqI)
  qed
  then have "filter (\<lambda>g. gr_target g = example_target \<and> is_live (gr_state g)) (map snd (br_grants b')) = []"
    using ids' by (force simp: filter_empty_conv)
  then show ?thesis by (simp add: grants_of_def)
qed

end
