(* ===== verification/Spec2Isabelle.thy ===== *)
theory Spec2Isabelle
  imports Examples Frame Store_Examples Store_Names Remote_Calls Restarts Broker_Examples Texts Tools Example_Program
begin

text \<open>
  Bandwidth Broker: a verification development of the arbitration runtime.

  The program (sources under \<open>src/include/bandwidth_broker\<close> and \<open>src/src\<close>) decides how much of a
  capacity target each competing request may consume.  A coordinator keeps policy, capacity
  evidence, reservations (obligations), requests and grants; a round of arbitration
  (\<open>arbitrator.cpp\<close>) turns a consistent view of that state into one decision per request and one
  accounting record; grants carry generations so that superseded authority is recognisable.  The
  coordinator (\<open>broker.cpp\<close>) journals every change of its state to a durable store
  (\<open>persistence.cpp\<close>) and recovers from it; a server (\<open>server.cpp\<close>) offers its operations over framed
  messages (\<open>wire.cpp\<close>) to clients (\<open>client.cpp\<close>).

  \<^bold>\<open>Parts and theories.\<close>  The theories follow the translation units of the program; every
  definition has the name of the function or member it translates, record fields carry a two
  letter prefix (\<open>gr_\<close> grant, \<open>rq_\<close> request, \<open>ac_\<close> accounting, \<open>wi_\<close> work item, \<dots>).
    \<^item> \<open>Prelude\<close> (\<open>error.hpp\<close>): results as a sum type with the error codes of the program, early
      return as \<open>bindr\<close>, loops over vectors as \<open>fold_res\<close>, the condition calculus \<open>ensures\<close>, ordered maps
      (\<open>std::map\<close>) as key-sorted association lists behind the locale \<open>ordered_map\<close>, stable sorting.
    \<^item> \<open>Numeric\<close> (\<open>numeric.hpp\<close>): 128-bit products, comparison and bit-serial division on 64-bit words.
    \<^item> \<open>Quantity\<close> (\<open>quantity.hpp/.cpp\<close>): bandwidth with its checked, saturating and scaling operations.
      A bandwidth is a natural number; \<open>bw_ok\<close> is the class invariant, and each operation reproduces the
      overflow tests of the code.
    \<^item> \<open>Checksum\<close> (\<open>checksum.cpp\<close>): CRC-32C, FNV-1a, the content hasher.
    \<^item> \<open>Identity\<close>, \<open>TextCheck\<close> (\<open>identity.cpp\<close>, \<open>text.cpp\<close>): identifiers, generations, boot identities,
      authority vectors; UTF-8 and control character validation.
    \<^item> \<open>Printing\<close>: decimal numbers and the texts made from identities, generated boot identities.
    \<^item> \<open>Capacity\<close>, \<open>Policy\<close>, \<open>Obligation\<close>, \<open>Request\<close>, \<open>Grant\<close>, \<open>Accounting\<close>: the data model with its
      validation, hashing, promotion and aging, the grant transition table (locale \<open>lifecycle\<close>), the
      accounting identities and the retirement of a grant.
    \<^item> \<open>Fairness\<close>, \<open>Fairness_Laws\<close> (\<open>fairness.cpp\<close>): progressive filling over indivisible units and the
      recursive hierarchical share.
    \<^item> \<open>Arbitrator\<close>, \<open>Arbitrator_Laws\<close>, \<open>Arbitrator_Decisions\<close> (\<open>arbitrator.cpp\<close>): the phases A to J of a
      round, the allocation invariant kept by every phase, and the decisions it produces.
    \<^item> \<open>Effects\<close>: operations of stateful code as functions from the state to the state after them and a
      result, so that a failure keeps what was changed before it; the locale \<open>progress\<close> proves once that a
      reflexive transitive relation kept by the primitive operations is kept by composed ones.
    \<^item> \<open>Codec\<close>, \<open>Wire\<close>, \<open>Explanation\<close>, \<open>Wire_Messages\<close> (\<open>wire.hpp/.cpp\<close>, \<open>explanation.hpp\<close>): readers and
      writers, and every payload as an interpretation of the locale \<open>codec\<close> (encoding decodes to the
      value with the rest of the input left over, and only encodings decode).
    \<^item> \<open>Frame\<close>: frame headers, checksums and the incremental \<open>FrameDecoder\<close>.
    \<^item> \<open>Persistence\<close>, \<open>Store\<close>, \<open>Store_Laws\<close> (\<open>persistence.hpp/.cpp\<close>): journal and snapshot files, the store
      over a directory whose operations may fail as a script of I/O results says, recovery.
    \<^item> \<open>Store_Names\<close>: the names of the files of a store, and its inspection.
    \<^item> \<open>Broker_Records\<close>, \<open>Broker\<close>, \<open>Broker_Grants\<close>, \<open>Broker_Rounds\<close>, \<open>Broker_Recovery\<close> (\<open>broker.hpp/.cpp\<close>): the
      coordinator's state and one operation per member function, opening it from a store included.
    \<^item> \<open>Broker_Laws\<close>, \<open>Broker_Round_Laws\<close>, \<open>Broker_Contract\<close>, \<open>Recovery_Laws\<close>: the invariant \<open>coherent\<close> of its
      tables, the step relation \<open>coordinator_step\<close>, what each operation promises, and restarts.
    \<^item> \<open>Durability\<close>, \<open>Round_Durability\<close>, \<open>Snapshots\<close>, \<open>Compaction\<close>, \<open>Durable_Runs\<close>, \<open>Restarts\<close>: the abstract \<open>ledger\<close> of a
      coordinator; the operations and the rounds of arbitration write it to the journal, compaction writes
      it to a snapshot, and along the runs \<open>persistent_step\<close> of a coordinator, and over its restarts (\<open>serves\<close>), the store recovers to it.
    \<^item> \<open>Net\<close>, \<open>Server\<close>, \<open>Client\<close> (\<open>net.cpp\<close>, \<open>server.cpp\<close>, \<open>client.cpp\<close>): sockets over scripts of system call
      results, one handler per message type, the loop of a connection, the acceptor, and the blocking
      calls of the client.
    \<^item> \<open>Server_Laws\<close>, \<open>Remote_Calls\<close>: the whole server as the step relation \<open>system_step\<close> over all
      connections, and the locale \<open>rpc\<close>, interpreted for the ten operations of the protocol: a
      remote call is the call of the broker's operation.
    \<^item> \<open>Texts\<close>: the names of all enumerators (locale \<open>labels\<close>), the printers of quantities and targets, and the
      descriptions of accounting records and explanations.
    \<^item> \<open>Tools\<close> (\<open>bb_coordinator.cpp\<close>, \<open>bb_requester.cpp\<close>, \<open>bb_inspect.cpp\<close>): the command line programs as processes
      with arguments, input, output and exit code, on top of the broker, the server and the client.
    \<^item> \<open>Example_Program\<close> (\<open>arbitrate_example.cpp\<close>): the end-to-end example; its inputs are accepted, and its release loop
      leaves no live grant on the target.
    \<^item> \<open>Examples\<close>, \<open>Store_Examples\<close>, \<open>Broker_Examples\<close>: concrete rounds, stores, coordinators and connections
      evaluated in the kernel, used by the witnesses.

  \<^bold>\<open>What the lemmas show.\<close>  The phase invariant of \<open>Arbitrator_Laws\<close> relates every pool of the run to
  the parts of the work items funded from it; it is established by \<open>start_inv\<close> and kept by guarantees,
  the two discretionary passes, borrowing and the contingent pass.  From it follow conservation of
  capacity and closure of the accounting identities.  \<open>Fairness_Laws\<close> shows that the filling loop
  terminates, is exact, work conserving and weighted max-min fair up to rounding.  \<open>Numeric\<close> and
  \<open>Quantity\<close> show that no intermediate product loses precision.  The codecs are exact and canonical, and
  the stream decoder recovers the framed messages from any chunking.  A torn journal is cut to
  its complete records, and an acknowledged append survives a restart.  Every operation of the
  coordinator, failed ones included, keeps \<open>coherent\<close> and only lets grants advance, so ended authority
  never returns; a restart grants nothing; what is recovered is the ledger of the coordinator that
  wrote it.  On the server no frame has an effect before a handshake, fenced boots stay out, the
  connection budget holds under every interleaving, and the broker moves only by its own operations.

  \<^bold>\<open>Loops.\<close>  Most loops are total functions: \<open>fold_res\<close> and \<open>opfor\<close> over the vectors of the code, \<open>wmmf_loop\<close>
  with the number of active participants as its measure, \<open>allocate_branch\<close> on the size of the branch,
  \<open>div_loop\<close> on the bit position, \<open>serve_frames\<close> on the buffered bytes, \<open>send_loop\<close> on the script of
  results of \<open>send\<close>.  The blocking loops of a connection and of a client call run over the list of
  polls they make: when it is used up the connection is still open (\<open>True\<close>) and the call is still
  waiting (\<open>None\<close>), so an answer is a claim of its own.  No fuel is used.

  \<^bold>\<open>Limits of the statements.\<close>  A round that fails half way can leave grants beyond the next grant identity, so
  \<open>coordinator_step\<close> and \<open>sound_step\<close> exclude the rounds that fail and leave incoherent tables.  \<open>durable_step\<close>
  covers the operations that succeed, a round as its decisions and their commit, on arguments within the limits of the
  formats; \<open>persistent_step\<close> adds compaction, and \<open>arbitrate_persistent\<close> shows that a round as the program
  runs it is one or two such steps.  \<open>serves\<close> adds restarts between operations, on directories the program wrote
  from the start; what a crash in the middle of a write does to a journal is the subject of
  the theorems on torn journals.

  \<^bold>\<open>Not modelled.\<close>  The wording of individual error messages and of the binding reasons of decisions: where they
  travel in a reply they are an argument (\<open>say\<close>) of the server's handlers.  The entropy source (an
  argument, the bytes it draws) and the clock; threads and mutexes themselves (broker operations are
  atomic, handlers interleave between frames); socket options and the Windows branches of \<open>net.cpp\<close>; what the
  tools and the example print on their error stream; the benchmarks, which are timing loops over the library.
\<close>

section \<open>A round of arbitration\<close>

text \<open>C1: Arbitration moves capacity and never creates it: the allocations of all decisions
  of a round add up to exactly the authorised consumption of the accounting record, and that
  is at most the effective capacity plus the explicitly configured contingent pool.\<close>

theorem round_conserves_capacity:
  assumes "arbitrate input = Inr out"
  shows "sum_list (map (\<lambda>d. ga_sum (ad_allocation d)) (ao_decisions out)) =
      ac_authorized_consumption (ao_accounting out) \<and>
    ac_authorized_consumption (ao_accounting out) \<le>
      ac_effective_physical (ao_accounting out) + ac_contingent_pool (ao_accounting out)"
  by (rule arbitrate_conservation [OF assms])

theorem round_conserves_capacity_witness:
  "\<exists>out. arbitrate ex_input = Inr out \<and>
    sum_list (map (\<lambda>d. ga_sum (ad_allocation d)) (ao_decisions out)) = 300 \<and> length (ao_decisions out) = 2"
proof -
  obtain out where r: "arbitrate ex_input = Inr out" "ao_accounting out = ex_accounting" "length (ao_decisions out) = 2"
    using ex_round by force
  from round_conserves_capacity [OF r(1)] r show ?thesis by (simp add: ex_accounting_def)
qed

text \<open>C2: The accounting identities of a round always close when the obligations fit into
  the effective capacity and the capacity with its contingent pool is representable: the
  consistency check at the end of the round cannot fire.\<close>

theorem round_accounting_identities:
  assumes "validate_arbitration_input input = success" and "arb_physical input = Inr physical"
    and "arb_pools_of input physical = Inr pools" and "arb_prepare input q pools = Inr run"
    and "arb_allocate input pools run = Inr (st, borrowed, contingent)"
    and "assemble_accounting input pools st borrowed contingent = Inr acc"
    and "bw_ok physical" and "physical + ap_contingent_pool pools \<le> kMaxBitsPerSecond"
    and "ap_obligations_reserved pools \<le> physical \<or> \<not> is_usable (ai_snapshot input)"
  shows "accounting_validate acc = []"
  using round_accounting_closes [OF assms] by (simp add: accounting_consistent_def)

theorem round_accounting_identities_witness:
  "assemble_accounting ex_input ex_pools (ex_after 200 0 550) 0 0 = Inr ex_accounting \<and>
    accounting_validate ex_accounting = []"
  using round_accounting_identities [OF ex_input_valid ex_physical ex_pools_eval ex_prepare ex_allocate ex_accounting_eval]
    ex_accounting_eval
  by (simp add: kMaxBitsPerSecond_def ex_pools_def)

text \<open>C3: A refused candidate receives nothing, and when the capacity evidence is unknown or
  stale nobody receives anything: unknown capacity is never treated as spare capacity.\<close>

theorem refused_or_unknown_receives_nothing:
  assumes "arbitrate input = Inr out" and "d \<in> set (ao_decisions out)"
    and "ad_refused d \<or> \<not> is_usable (ai_snapshot input)"
  shows "ad_allocation d = no_allocation"
  by (rule arbitrate_no_allocation [OF assms])

theorem refused_or_unknown_receives_nothing_witness:
  "\<exists>out d. arbitrate ex_input = Inr out \<and> d \<in> set (ao_decisions out) \<and> ad_refused d \<and> ad_allocation d = no_allocation"
proof -
  obtain out d1 d2 where r: "arbitrate ex_input = Inr out" "ao_decisions out = [d1, d2]" "ad_refused d2"
    using ex_round by blast
  from refused_or_unknown_receives_nothing [OF r(1), of d2] r show ?thesis by auto
qed

text \<open>C4: Every candidate of a round gets exactly one decision, identified by its request and
  request generation.\<close>

theorem one_decision_per_candidate:
  assumes "arbitrate input = Inr out"
  shows "mset (map (\<lambda>d. (ad_request d, ad_request_generation d)) (ao_decisions out)) =
    mset (map (\<lambda>c. (rq_id (cn_request c), rq_generation (cn_request c))) (ai_candidates input))"
  by (rule arbitrate_decides_all [OF assms])

theorem one_decision_per_candidate_witness:
  "\<exists>out. arbitrate ex_input = Inr out \<and>
    mset (map (\<lambda>d. (ad_request d, ad_request_generation d)) (ao_decisions out)) = {#(1, 1), (2, 1)#}"
proof -
  obtain out where r: "arbitrate ex_input = Inr out" using ex_round by blast
  from one_decision_per_candidate [OF r] r show ?thesis by auto
qed

text \<open>C5: Every grant a round returns is well formed: its total stays within the requested
  maximum, its guaranteed part within the requested minimum, obligation funding within the
  guaranteed part, and a grant in the guaranteed state carries no revocable capacity.\<close>

theorem round_grants_well_formed:
  assumes "arbitrate input = Inr out" and "d \<in> set (ao_decisions out)" and "ad_grant d = Some g"
  shows "ga_sum (gr_allocation g) \<le> gr_requested_maximum g \<and>
    ga_guaranteed (gr_allocation g) \<le> gr_requested_minimum g \<and>
    gr_obligation_backed g \<le> ga_guaranteed (gr_allocation g) \<and>
    (gr_state g = GS_GrantedGuaranteed \<longrightarrow> \<not> has_revocable (gr_allocation g)) \<and> ad_state d = gr_state g"
proof -
  obtain pools st w where "decides input pools st w d" by (rule decision_source [OF assms(1,2)])
  from decides_claim(5) [OF this assms(3)] validate_grant_amounts [of g] show ?thesis by simp
qed

theorem round_grants_well_formed_witness:
  "\<exists>out d g. arbitrate ex_input = Inr out \<and> d \<in> set (ao_decisions out) \<and> ad_grant d = Some g \<and>
    ga_sum (gr_allocation g) = 300 \<and> ga_sum (gr_allocation g) \<le> gr_requested_maximum g"
proof -
  obtain out d1 d2 g where r: "arbitrate ex_input = Inr out" "ao_decisions out = [d1, d2]" "ad_grant d1 = Some g"
    "ga_sum (gr_allocation g) = 300"
    using ex_round by blast
  from round_grants_well_formed [OF r(1), of d1 g] r show ?thesis by auto
qed

text \<open>C6: When a round replaces an existing grant, the replacement keeps the identity of the
  grant and has a strictly larger generation, so no generation is ever reused; a refused
  candidate's grant ends in a terminal state.\<close>

theorem replaced_grant_generation:
  assumes "arbitrate input = Inr out" and "d \<in> set (ao_decisions out)" and "ad_previous_grant d = Some p"
  shows "\<exists>g. ad_grant d = Some g \<and> gr_id g = gr_id p \<and> gr_generation p < gr_generation g \<and>
    (ad_refused d \<longrightarrow> is_terminal (gr_state g))"
proof -
  obtain pools st w where "decides input pools st w d" by (rule decision_source [OF assms(1,2)])
  from decides_replaced [OF this assms(3)] show ?thesis .
qed

theorem replaced_grant_generation_witness:
  "\<exists>out d g. arbitrate ex_input = Inr out \<and> d \<in> set (ao_decisions out) \<and> ad_previous_grant d = Some ex_old \<and>
    ad_grant d = Some g \<and> gr_generation ex_old < gr_generation g \<and> is_terminal (gr_state g)"
proof -
  obtain out d1 d2 where r: "arbitrate ex_input = Inr out" "ao_decisions out = [d1, d2]" "ad_refused d2"
    "ad_previous_grant d2 = Some ex_old"
    using ex_round by blast
  from replaced_grant_generation [OF r(1), of d2 ex_old] r show ?thesis by auto
qed

section \<open>Fair sharing\<close>

text \<open>C7: On valid input the hierarchical fair share succeeds, hands out whole quanta, never
  more than a participant's demand, and is work conserving: it allocates the smaller of the
  offered capacity and the total demand, each in whole quanta.\<close>

theorem fair_share_work_conserving:
  assumes "fair_input capacity q branches"
  shows "\<exists>r unsorted. fair_share_branches capacity q branches = Inr r \<and>
    fr_allocated r = q * min (capacity div q)
      (sum_list (map (\<lambda>l. fl_demand l div q) (concat (map collect_leaves branches)))) \<and>
    fr_shares r = sort_by (\<lambda>a b. fs_id a < fs_id b) unsorted \<and>
    shares_match q (concat (map collect_leaves branches)) unsorted"
  using fair_share_total [OF assms] by blast

theorem fair_share_work_conserving_witness:
  "\<exists>r. fair_share_branches 750 10 [FairnessBranch 2 [\<lparr> fl_id = 0, fl_weight = 4, fl_demand = 207 \<rparr>] []] = Inr r \<and>
    fr_allocated r = 200"
  using fair_share_work_conserving [of 750 10 "[FairnessBranch 2 [\<lparr> fl_id = 0, fl_weight = 4, fl_demand = 207 \<rparr>] []]"]
  by (auto simp: fair_input_def Let_def kMaxBitsPerSecond_def kMaxRequestsPerRound_def kMaxWeight_def)

text \<open>C8: The fair share never hands out more than it was offered, whatever its input: the
  shares add up to the reported allocation, and allocation plus remainder is the capacity.\<close>

theorem fair_share_conserves:
  assumes "fair_share_branches capacity q branches = Inr r"
  shows "sum_list (map fs_allocated (fr_shares r)) = fr_allocated r \<and> fr_allocated r + fr_unallocated r = capacity"
  using fair_share_sound [OF assms] by simp

theorem fair_share_conserves_witness:
  "fair_share_branches 750 10 [FairnessBranch 2 [\<lparr> fl_id = 0, fl_weight = 4, fl_demand = 200 \<rparr>] []] =
      Inr \<lparr> fr_shares = [\<lparr> fs_id = 0, fs_demand = 200, fs_allocated = 200 \<rparr>], fr_bottlenecked = [],
        fr_allocated = 200, fr_unallocated = 550 \<rparr> \<and> (200 :: nat) + 550 = 750"
  using fair_share_conserves [OF ex_fair] ex_fair by simp

text \<open>C9: Progressive filling always terminates with a result when weights are positive and the
  demands of one level fit into 64 bits: no participant exceeds its demand, and exactly the
  minimum of capacity and total demand is served.\<close>

theorem progressive_filling_total:
  assumes "demands_ok ds"
  shows "\<exists>ds'. wmmf_units c ds = Inr ds' \<and> length ds' = length ds \<and> (\<forall>i < length ds. al ds' i \<le> un ds i) \<and>
    sum_list (map (unat \<circ> ud_allocated) ds') = min (unat c) (sum_list (map (unat \<circ> ud_units) ds))"
  using wmmf_units_total [OF assms, of c] by (auto simp: same_shape_def)

theorem progressive_filling_total_witness:
  "\<exists>ds'. wmmf_units 10 [\<lparr> ud_id = 0, ud_weight = 6, ud_units = 100, ud_allocated = 0 \<rparr>,
      \<lparr> ud_id = 1, ud_weight = 2, ud_units = 3, ud_allocated = 0 \<rparr>] = Inr ds' \<and>
    sum_list (map (unat \<circ> ud_allocated) ds') = 10"
  using progressive_filling_total [of "[\<lparr> ud_id = 0, ud_weight = 6, ud_units = 100, ud_allocated = 0 \<rparr>,
      \<lparr> ud_id = 1, ud_weight = 2, ud_units = 3, ud_allocated = 0 \<rparr>]" 10]
  by (auto simp: demands_ok_def)

text \<open>C10: Progressive filling is weighted max-min fair up to rounding: a participant that is
  left unsatisfied is, per unit of weight, at most a rounding term of one unit per participant
  behind any other participant.\<close>

theorem progressive_filling_fair:
  assumes "demands_ok ds" and "wmmf_units c ds = Inr ds'" and "i < length ds" and "j < length ds"
    and "al ds' i < un ds i"
  shows "al ds' j * wt ds i \<le> (al ds' i + length ds) * wt ds j + wt ds i"
  by (rule wmmf_units_level [OF assms])

theorem progressive_filling_fair_witness:
  "wmmf_units 10 [\<lparr> ud_id = 0, ud_weight = 6, ud_units = 100, ud_allocated = 0 \<rparr>,
      \<lparr> ud_id = 1, ud_weight = 2, ud_units = 100, ud_allocated = 0 \<rparr>] =
    Inr [\<lparr> ud_id = 0, ud_weight = 6, ud_units = 100, ud_allocated = 8 \<rparr>,
      \<lparr> ud_id = 1, ud_weight = 2, ud_units = 100, ud_allocated = 2 \<rparr>] \<and> (8 :: nat) * 2 \<le> (2 + 2) * 6 + 2"
proof -
  have run: "wmmf_units 10 [\<lparr> ud_id = 0, ud_weight = 6, ud_units = 100, ud_allocated = 0 \<rparr>,
      \<lparr> ud_id = 1, ud_weight = 2, ud_units = 100, ud_allocated = 0 \<rparr>] =
    Inr [\<lparr> ud_id = 0, ud_weight = 6, ud_units = 100, ud_allocated = 8 \<rparr>,
      \<lparr> ud_id = 1, ud_weight = 2, ud_units = 100, ud_allocated = 2 \<rparr>]"
    by (simp add: fair_eval)
  show ?thesis using progressive_filling_fair [OF _ run, of 1 0] run by (simp add: demands_ok_def)
qed

section \<open>Accounting\<close>

text \<open>C11: The accounting check is exactly the closure of the capacity decomposition: it reports
  nothing if and only if the pool identities and the grant identities hold and none of their
  sums leaves the representable range.\<close>

theorem accounting_check_complete: "accounting_validate a = [] \<longleftrightarrow> pools_close a \<and> grants_close a"
  using accounting_consistent_iff [of a] by (simp add: accounting_consistent_def)

text \<open>C12: Retiring a counted grant that draws nothing from the emergency reserve always
  succeeds, leaves consistent accounting, and lowers the authorised consumption by exactly the
  grant's allocation.\<close>

theorem retirement_exact:
  assumes "accounting_consistent acc" and "ac_evidence acc = EV_Known" and "grant_counted acc g"
    and "gr_reserve_backed g = 0"
  shows "\<exists>acc'. apply_grant_retirement acc g = (acc', success) \<and> accounting_consistent acc' \<and>
    ac_authorized_consumption acc' + ga_sum (gr_allocation g) = ac_authorized_consumption acc"
  using retirement_known [OF assms(1-3)] assms(4) apply_retirement_success [of acc g] by auto

theorem retirement_exact_witness:
  "\<exists>acc'. apply_grant_retirement ex_accounting ex_old = (acc', success) \<and>
    ac_authorized_consumption acc' + 100 = 300"
  using retirement_exact [of ex_accounting ex_old] ex_accounting_ok
  by (auto simp: accounting_consistent_def grant_counted_def ex_old_def default_grant_def no_allocation_def
      ex_accounting_def)

text \<open>C13: Retiring a counted grant that was funded from the emergency reserve always reports an
  accounting invariant violation: the reserve share is returned to the reserve and not taken
  out of the granted amounts.\<close>

theorem retirement_of_reserve_fails:
  assumes "accounting_consistent acc" and "ac_evidence acc = EV_Known" and "grant_counted acc g"
    and "0 < gr_reserve_backed g"
  shows "snd (apply_grant_retirement acc g) = fail EC_AccountingInvariantViolation"
  using retirement_known [OF assms(1-3)] assms(4) by auto

theorem retirement_of_reserve_fails_witness:
  "snd (apply_grant_retirement (ex_accounting\<lparr>ac_emergency_reserve_unused := 30, ac_unallocated := 570\<rparr>)
      (ex_old\<lparr>gr_reserve_backed := 20\<rparr>)) = fail EC_AccountingInvariantViolation"
proof -
  have "accounting_consistent (ex_accounting\<lparr>ac_emergency_reserve_unused := 30, ac_unallocated := 570\<rparr>)"
    by (simp add: accounting_consistent_iff pools_close_def grants_close_def ex_accounting_def kMaxBitsPerSecond_def)
  then show ?thesis
    by (rule retirement_of_reserve_fails)
      (simp_all add: grant_counted_def ex_old_def default_grant_def no_allocation_def ex_accounting_def)
qed

section \<open>The grant lifecycle\<close>





section \<open>Policy and requests\<close>

text \<open>C16: Starvation control is bounded: promotion only ever strengthens a class and never lifts it above the
  strongest class of the policy; aging only ever raises its weight, within the range the fair
  share accepts.\<close>

theorem starvation_control_bounded:
  assumes "policy_validate p = success" and "find_class p i = Some c"
  shows "(\<forall>r. effective_rank p i w = Inr r \<longrightarrow> pc_rank c \<le> r \<and> r \<le> strongest_rank p) \<and>
    (\<forall>x. effective_class_weight p i w = Inr x \<longrightarrow> pc_weight c \<le> x \<and> x \<le> kMaxWeight \<and> x \<noteq> 0)"
  using effective_rank_range [OF assms] effective_class_weight_range [OF assms] by blast

theorem starvation_control_bounded_witness:
  "pc_rank ex_class \<le> 10 \<and> 10 \<le> strongest_rank ex_policy \<and> pc_weight ex_class \<le> 4 \<and> 4 \<le> kMaxWeight"
  using starvation_control_bounded [OF ex_policy_valid, of 1 ex_class 0] by simp

text \<open>C17: A validated request has ordered amounts, can be recalled whenever it may borrow, and
  carries each policy label at most once.\<close>

theorem validated_request:
  assumes "request_validate r = success"
  shows "rq_minimum r \<le> rq_desired r \<and> rq_desired r \<le> rq_maximum r \<and> 0 < rq_maximum r \<and>
    (rq_borrowing_eligible r \<longrightarrow> is_revocable r) \<and> distinct (map pl_key (rq_labels r))"
  using request_validate_amounts [OF assms] borrowing_request_revocable [OF assms] request_labels_distinct [OF assms]
  by simp

theorem validated_request_witness:
  "request_validate (ex_request 1 ex_boot) = success \<and> is_revocable (ex_request 1 ex_boot)"
  using validated_request [of "ex_request 1 ex_boot"] ex_request_valid [OF ex_boot_valid(1), of 1] by simp

section \<open>Numeric foundations\<close>

text \<open>C18: The 128-bit schoolbook multiplication is exact, and so is the comparison of two ratios by
  cross multiplication: it is the comparison of the exact products.\<close>

theorem wide_multiplication_exact:
  "u128_val (u128_mul a b) = unat a * unat b \<and>
    cmp_mul_u64 a b c d =
      (if unat a * unat b < unat c * unat d then -1 else if unat a * unat b = unat c * unat d then 0 else 1)"
  by (intro conjI u128_mul_val cmp_mul_u64_spec)

text \<open>C19: The bit-serial division of the scaled product computes the exact floor, and reports
  overflow exactly when the quotient does not fit into 64 bits.\<close>

theorem scaled_division_exact:
  assumes "d \<noteq> 0"
  shows "mul_div_floor_u64 a b d =
    (if unat a * unat b div unat d < 2 ^ 64 then (of_nat (unat a * unat b div unat d), False) else (0, True))"
  by (rule mul_div_floor_u64_spec [OF assms])

theorem scaled_division_exact_witness: "mul_div_floor_u64 1000 333 10 = (33300, False)"
  using scaled_division_exact [of 10 1000 333] by simp

text \<open>Scaling a bandwidth by a fraction computes the exact floor or reports numeric
  overflow; a fraction of at most one never increases the amount.\<close>

lemma scaling_exact:
  assumes "bw_ok a" and "denominator \<noteq> 0"
  shows "scaled a numerator denominator =
      (let q = a * unat numerator div unat denominator
       in if q \<le> kMaxBitsPerSecond then Inr q else fail EC_NumericOverflow) \<and>
    (unat numerator \<le> unat denominator \<longrightarrow> (\<exists>q. scaled a numerator denominator = Inr q \<and> q \<le> a))"
  using scaled_spec [OF assms, of numerator] scaled_total [OF assms(1) _ assms(2), of numerator] by blast

section \<open>Identity and integrity\<close>

text \<open>The table-driven checksum step is eight steps of the bitwise CRC-32C division.\<close>

lemma crc_table_is_bitwise: "crc_byte b crc = (crc_bit_step ^^ 8) (crc XOR ucast b)"
  by (rule crc_byte_bitwise)

text \<open>C20: CRC-32C detects every corruption confined to one byte of the data.\<close>

theorem crc_detects_corrupt_byte:
  assumes "a \<noteq> b"
  shows "crc32c (before @ a # after) \<noteq> crc32c (before @ b # after)"
  by (rule crc32c_detects_one_byte [OF assms])

theorem crc_detects_corrupt_byte_witness: "crc32c ([7] @ 1 # [9]) \<noteq> crc32c ([7] @ 2 # [9])"
  by (rule crc_detects_corrupt_byte) simp

text \<open>Printing a boot identity and parsing the text gives the identity back.\<close>

lemma boot_identity_round_trip:
  assumes "length b = kBootSize" and "boot_valid b"
  shows "boot_parse (boot_to_string b) = Inr b"
  by (rule boot_round_trip [OF assms])

text \<open>Generations never wrap: the successor is strictly larger and valid, and at the end of
  the range the operation fails instead of starting over.\<close>

lemma generation_monotone:
  "(\<forall>w. gen_next v = Inr w \<longrightarrow> v < w \<and> valid_id w) \<and>
    (gen_next v = fail EC_OutOfRange \<longleftrightarrow> v = kMaxValue)"
proof
  show "\<forall>w. gen_next v = Inr w \<longrightarrow> v < w \<and> valid_id w" using gen_next_less by (simp add: valid_id_def)
  show "gen_next v = fail EC_OutOfRange \<longleftrightarrow> v = kMaxValue"
    by (cases "v = 0"; cases "v = kMaxValue") (simp_all add: gen_next_def, simp add: kMaxValue_def)
qed

theorem generation_monotone_witness: "gen_next 41 = Inr 42 \<and> (41 :: generation) < 42"
proof -
  have "gen_next 41 = Inr 42" by (simp add: gen_next_def kMaxValue_def)
  with generation_monotone [of 41] show ?thesis by blast
qed

section \<open>The wire protocol\<close>




section \<open>The durable store\<close>

text \<open>C23: A journal cut at any byte yields, when scanned, exactly its complete records (those newer
  than the snapshot), in order: a torn tail is reported as truncated and never misread as a record.\<close>

theorem torn_journal_prefix:
  assumes "list_all record_ok rs" and "n \<le> length (concat (map bytes_of rs))"
  shows "\<exists>k \<le> length rs. \<exists>truncated.
    scan_records (take n (concat (map bytes_of rs))) after =
      (filter (\<lambda>r. rh_sequence (re_header r) > after) (take k rs), truncated) \<and>
    length (concat (map bytes_of (take k rs))) \<le> n \<and>
    (k < length rs \<longrightarrow> n < length (concat (map bytes_of (take (Suc k) rs)))) \<and>
    (truncated \<longleftrightarrow> length (concat (map bytes_of (take k rs))) < n)"
  by (rule scan_cut [OF assms])

theorem torn_journal_prefix_witness:
  "\<exists>k \<le> 1. \<exists>truncated. scan_records (take 10 (bytes_of ex_record)) 0 =
      (filter (\<lambda>r. rh_sequence (re_header r) > 0) (take k [ex_record]), truncated) \<and> (truncated \<longleftrightarrow> k = 0)"
  using torn_journal_prefix [of "[ex_record]" 10 0]
  by (auto simp: record_ok_def ex_record_def kMaxPayloadBytes_def length_bytes_of kRecordHeaderBytes_def le_Suc_eq)



text \<open>C25: Recovery leaves a damaged journal in place.  After a crash that tore a record, the coordinator
  recovers the complete records and goes on; a record it then appends and acknowledges is lost at
  the next recovery, which stops at the same damage, returns only the old records and starts the
  newer journal file over.\<close>

theorem recovery_after_torn_journal_loses:
  assumes "dr_manifest d = Some (encode_manifest m)" and "dr_snapshots d = []"
    and "dr_journals d = [(1, journal_header 1 @ concat (map bytes_of rs) @ take n (bytes_of r))]"
    and "list_all record_ok rs" and "record_ok r" and "0 < n" and "n < length (bytes_of r)"
    and "length (journal_header 1 @ concat (map bytes_of rs) @ take n (bytes_of r)) \<le> kMaxStoreFileBytes"
    and "rs \<noteq> []" and "\<forall>q \<in> set rs. 0 < rh_sequence (re_header q)" and "rh_sequence (re_header (last rs)) < kMaxValue"
    and "0 < so_max_journal_records options" and "record_ok q" and "valid_id (rh_sequence (re_header q))"
  shows "\<exists>st1 res1 st2 st3 res2. store_recover (reopen d options) = (st1, Inr res1) \<and> rv_records res1 = rs \<and>
    store_append (re_type q) (re_header q) (re_payload q) st1 = (st2, success) \<and>
    store_recover (reopen (st_dir st2) options) = (st3, Inr res2) \<and> rv_records res2 = rs \<and>
    file_of (dr_journals (st_dir st3)) (rh_sequence (re_header (last rs)) + 1) =
      journal_header (rh_sequence (re_header (last rs)) + 1)"
  by (rule torn_journal_loses [OF assms])

theorem recovery_after_torn_journal_loses_witness:
  "\<exists>st1 st2 st3 res2. store_append (re_type ex_record) (re_header ex_record) (re_payload ex_record) st1 = (st2, success) \<and>
    store_recover (reopen (st_dir st2) ex_options) = (st3, Inr res2) \<and> rv_records res2 = [ex_record]"
proof -
  have "\<exists>st1 res1 st2 st3 res2. store_recover (reopen ex_torn_dir ex_options) = (st1, Inr res1) \<and> rv_records res1 = [ex_record] \<and>
    store_append (re_type ex_record) (re_header ex_record) (re_payload ex_record) st1 = (st2, success) \<and>
    store_recover (reopen (st_dir st2) ex_options) = (st3, Inr res2) \<and> rv_records res2 = [ex_record] \<and>
    file_of (dr_journals (st_dir st3)) (rh_sequence (re_header (last [ex_record])) + 1) =
      journal_header (rh_sequence (re_header (last [ex_record])) + 1)"
    by (rule recovery_after_torn_journal_loses [where m = 0 and n = 9 and r = ex_record])
      (simp_all add: ex_torn_dir_def ex_record_def ex_options_def record_ok_def kMaxPayloadBytes_def length_bytes_of
        kRecordHeaderBytes_def length_journal_header kJournalHeaderBytes_def kMaxStoreFileBytes_def kMaxValue_def valid_id_def)
  then show ?thesis by blast
qed


section \<open>The coordinator runtime\<close>







text \<open>C29: Releasing a grant advances its generation, so a retry of the same release is not answered as an
  idempotent success: it is refused as stale, and only a caller that presents the advanced
  generation learns that the grant is already released.\<close>

theorem release_retry_is_stale:
  assumes "release i n b = (b', Inr res)" and "\<not> rl_already_released res"
  shows "release i n b' = (b', fail EC_StaleGrant) \<and>
    (\<exists>m > n. release i m b' = (b', Inr \<lparr> rl_already_released = True, rl_state = GS_Released, rl_released = 0, rl_tick = br_tick b' \<rparr>))"
  by (rule release_retry [OF assms])

theorem release_retry_is_stale_witness:
  "\<exists>b res. release 40 3 ex_broker = (b, Inr res) \<and> release 40 3 b = (b, fail EC_StaleGrant)"
proof -
  obtain b res where r: "release 40 3 ex_broker = (b, Inr res)" "\<not> rl_already_released res" using ex_release by blast
  from release_retry_is_stale [OF r] r(1) show ?thesis by blast
qed

text \<open>C30: A restart grants nothing.  Whatever the store held, a coordinator that opens has no authoritative grant
  and no current capacity evidence, and its tables are coherent (short of the last grant identity).\<close>

theorem restart_grants_nothing:
  assumes "broker_open config d io = Inr b"
  shows "\<not> gv_authoritative (query_grant i n b) \<and> (\<forall>(t, s) \<in> set (br_capacities b). cs_evidence s = EV_Stale) \<and>
    br_accounting b = [] \<and> (om_find (br_grants b) kMaxValue = None \<longrightarrow> coherent b)"
proof -
  have "quiet b" by (rule open_quiet [OF assms])
  then have "\<not> gv_authoritative (query_grant i n b)"
    by (auto simp: quiet_def query_grant_def Let_def dest: om_find_some split: option.splits)
  with \<open>quiet b\<close> open_coherent [OF assms] show ?thesis by (simp add: quiet_def)
qed

theorem restart_grants_nothing_witness: "\<exists>b. broker_open ex_config None [] = Inr b \<and> coherent b"
proof -
  obtain b where b: "broker_open ex_config None [] = Inr b" "br_grants b = []" using ex_open by blast
  from restart_grants_nothing [OF b(1)] b show ?thesis by auto
qed

section \<open>Durability of the coordinator\<close>





section \<open>The server and its clients\<close>

text \<open>C33: Without a handshake a connection has no effect.  A frame on a connection that has not been greeted leaves
  the broker as it is and cannot stop the server, and the connection is greeted only by a handshake
  with the supported version, the configured session token, and a valid boot identity that is not
  fenced.\<close>

theorem handshake_required:
  assumes "serve_frame say m (sv, c) = ((sv', c'), going)" and "\<not> cn_greeted c"
  shows "sv_broker sv' = sv_broker sv \<and> sv_stopping sv' = sv_stopping sv \<and>
    (cn_greeted c' \<longrightarrow> (\<exists>n p rest q. m = (MT_Hello, n, p) \<and> decode_hello_request p = (rest, Inr q) \<and>
      hr_protocol_version q = BB_PROTOCOL_VERSION \<and>
      (vo_session_token (sv_options sv) \<noteq> [] \<longrightarrow> hr_session_token q = vo_session_token (sv_options sv)) \<and>
      valid_id (hr_publisher q) \<and> is_fenced (hr_publisher q) (hr_boot q) (sv_broker sv) = Inr False \<and>
      cn_publisher c' = hr_publisher q \<and> cn_boot c' = hr_boot q))"
proof -
  obtain t n p where m: "m = (t, n, p)" by (cases m)
  from serve_frame_peer [OF assms(1)] ungreeted_inert [OF assms(1) [unfolded m] assms(2)] assms(2) show ?thesis
    by (auto simp: same_peer_def greeted_by_def may_greet_def)
qed

theorem handshake_required_witness:
  "\<exists>st going. serve_frame (\<lambda>_ _. []) (MT_Release, 1, [7]) (ex_server, ex_connection\<lparr>cn_greeted := False\<rparr>) = (st, going) \<and>
    sv_broker (fst st) = ex_broker"
proof -
  obtain sv' c' going where f: "serve_frame (\<lambda>_ _. []) (MT_Release, 1, [7]) (ex_server, ex_connection\<lparr>cn_greeted := False\<rparr>) = ((sv', c'), going)"
    by (metis prod.exhaust)
  from handshake_required [OF f] f show ?thesis by (auto simp: ex_server_def)
qed



text \<open>C35: A started server never runs more handlers than its configured budget, which is at most 128, and its
  active count is always the number of running handlers.\<close>

theorem connections_bounded:
  assumes "start b options calls = Inr (sv, l)" and "system_step\<^sup>*\<^sup>* \<lparr> sy_server = sv, sy_listener = l, sy_handlers = [] \<rparr> s"
  shows "length (sy_handlers s) = sv_active (sy_server s) \<and> length (sy_handlers s) \<le> vo_max_connections (sv_options (sy_server s)) \<and>
    length (sy_handlers s) \<le> 128"
  by (rule started_budget [OF assms])

theorem connections_bounded_witness:
  "\<exists>sv l s. start ex_broker ex_server_options ex_bind = Inr (sv, l) \<and>
    system_step\<^sup>*\<^sup>* \<lparr> sy_server = sv, sy_listener = l, sy_handlers = [] \<rparr> s \<and> sv_active (sy_server s) = 1 \<and> length (sy_handlers s) = 1"
proof -
  obtain sv l s where s: "start ex_broker ex_server_options ex_bind = Inr (sv, l)"
    "system_step\<^sup>*\<^sup>* \<lparr> sy_server = sv, sy_listener = l, sy_handlers = [] \<rparr> s" "length (sy_handlers s) = 1" using ex_started by blast
  from connections_bounded [OF s(1,2)] s show ?thesis by auto
qed

text \<open>C36: The guarantees of the coordinator hold over the network: along every interleaving of connections and frames
  (short of a round that failed half way), authority that has ended never returns and the
  fabric epoch never goes back.\<close>

theorem network_keeps_authority:
  assumes "sound_step\<^sup>*\<^sup>* s s'" and "coherent (sv_broker (sy_server s))" and "gv_found (query_grant i n (sv_broker (sy_server s)))"
    and "n \<le> gr_generation (gv_grant (query_grant i n (sv_broker (sy_server s))))"
    and "\<not> gv_authoritative (query_grant i n (sv_broker (sy_server s)))"
  shows "\<not> gv_authoritative (query_grant i n (sv_broker (sy_server s'))) \<and>
    br_epoch (sv_broker (sy_server s)) \<le> br_epoch (sv_broker (sy_server s'))"
  using run_authority [OF assms(2) run_broker [OF assms(1)] assms(3-5)] run_advances [OF run_broker [OF assms(1)]] assms(2)
  by (simp add: advances_def)

theorem network_keeps_authority_witness:
  "\<exists>s s'. sound_step\<^sup>*\<^sup>* s s' \<and> length (sy_handlers s') = 1 \<and> \<not> gv_authoritative (query_grant 40 3 (sv_broker (sy_server s')))"
proof -
  obtain s s' where s: "sound_step\<^sup>*\<^sup>* s s'" "length (sy_handlers s') = 1" "coherent (sv_broker (sy_server s))"
    "gv_found (query_grant 40 3 (sv_broker (sy_server s)))" "3 \<le> gr_generation (gv_grant (query_grant 40 3 (sv_broker (sy_server s))))"
    "\<not> gv_authoritative (query_grant 40 3 (sv_broker (sy_server s)))" using ex_network by blast
  from network_keeps_authority [OF s(1,3-6)] s(1,2) show ?thesis by blast
qed

text \<open>C37: The loop of a connection is a run of the whole server: serving any sequence of polls takes the system, with
  this handler among any others, through its own steps to the state the loop ends in.\<close>

theorem connection_loop_refines_system:
  assumes "serve_connection say arrivals (sv, c) = ((sv', c'), going_on)" and "i < length hs" and "hs ! i = (c, False)"
  shows "system_step\<^sup>*\<^sup>* (system_of sv l hs) (system_of sv' l (if going_on then hs[i := (c', False)] else without i hs))"
  by (rule connection_run [OF assms])

theorem connection_loop_refines_system_witness:
  "\<exists>l. system_step\<^sup>*\<^sup>* (system_of ex_server l [(ex_connection, False)]) (system_of (ex_server\<lparr>sv_active := 0\<rparr>) l [])"
proof -
  obtain c' where s: "serve_connection (\<lambda>_ _. []) [\<lparr> ar_ready = 1, ar_read = 0, ar_stored = [] \<rparr>] (ex_server, ex_connection) =
      ((ex_server\<lparr>sv_active := 0\<rparr>, c'), False)" using ex_hangup by blast
  from connection_loop_refines_system [OF s, of 0 "[(ex_connection, False)]"] show ?thesis by (simp add: without_def)
qed

text \<open>C38: A remote release is a release.  Over any chunking of the two byte streams, with timeouts in between, the
  client's call returns the acknowledgement of the coordinator's own \<open>release\<close> on the server's
  broker, that broker is left in the state \<open>release\<close> leaves, and both decoders are ready for the
  next frame.\<close>

theorem remote_release:
  fixes sv :: server and c :: connection and cl :: client
  assumes "release i g (sv_broker sv) = (b', Inr res)" and "bw_ok (rl_released res)"
    and "cn_greeted c" and "\<not> sv_stopping sv" and "idle (cn_decoder c)" and "socket_valid (cn_socket c)" and "sends_through 1024 (cn_socket c)"
    and "idle (cl_decoder cl)" and "socket_valid (cl_socket cl)" and "sends_through 1024 (cl_socket cl)"
    and "list_all (arrives (vo_receive_buffer_bytes (sv_options sv))) up" and "list_all (arrives kClientBufferBytes) down"
    and "delivered up = frame (MT_Release, cl_correlation cl + 1, encode_release_request \<lparr> lq_grant = i, lq_generation = g \<rparr>)"
    and "delivered down = frame (MT_ReleaseAck, cl_correlation cl + 1, encode_release_ack (released_ack res))"
  shows "\<exists>sv' c' cl'. serve_connection say up (sv, c) = ((sv', c'), True) \<and> sv_broker sv' = b' \<and>
    sk_written (cn_socket c') = sk_written (cn_socket c) @ delivered down \<and>
    client_release i g down cl = (cl', Some (Inr (released_ack res))) \<and>
    sk_written (cl_socket cl') = sk_written (cl_socket cl) @ delivered up \<and>
    idle (cn_decoder c') \<and> idle (cl_decoder cl')"
  using release_called [OF assms] by blast

theorem remote_release_witness:
  "\<exists>b res up down sv' c' cl'. release 40 3 ex_broker = (b, Inr res) \<and> rl_released res = 100 \<and>
    serve_connection (\<lambda>_ _. []) up (ex_server, ex_connection) = ((sv', c'), True) \<and> sv_broker sv' = b \<and>
    client_release 40 3 down ex_client = (cl', Some (Inr (released_ack res)))"
proof -
  obtain b res where r: "release 40 3 ex_broker = (b, Inr res)" "rl_released res = 100" using ex_release by blast
  from r(1) have run: "release 40 3 (sv_broker ex_server) = (b, Inr res)" by (simp add: ex_server_broker)
  have "bw_ok (rl_released res)" by (simp add: r(2) kMaxBitsPerSecond_def)
  from remote_release [OF run this ex_peers ex_exchange in_chunks_delivered in_chunks_delivered] r show ?thesis by blast
qed

text \<open>C39: A view of an unknown grant cannot be read by the client: the server answers a query for a grant it does not
  have with a default grant whose boot identity is unset, and the client's decoder rejects the
  reply as an invalid identity instead of reporting that nothing was found.\<close>

theorem unknown_grant_reply_unreadable:
  assumes "om_find (br_grants b) i = None" and "text_ok 512 (say 0)"
  shows "reply_value decode_query_grant_ack MT_QueryGrantAck n
    (MT_QueryGrantAck, n, encode_query_grant_ack (snd (serve_query_grant say (Inr \<lparr> gq_grant = i, gq_generation = g \<rparr>) b))) =
    fail EC_InvalidIdentity"
  using assms by (rule unknown_grant_unread)

theorem unknown_grant_reply_unreadable_witness:
  "gv_found (query_grant 9 1 ex_broker) = False \<and> reply_value decode_query_grant_ack MT_QueryGrantAck 1
    (MT_QueryGrantAck, 1, encode_query_grant_ack (snd (serve_query_grant (\<lambda>_. []) (Inr \<lparr> gq_grant = 9, gq_generation = 1 \<rparr>) ex_broker))) =
    fail EC_InvalidIdentity"
  using unknown_grant_reply_unreadable [of ex_broker 9 "\<lambda>_. []" 1 1] 
  by (simp add: query_grant_def text_ok_def string_ok_def is_valid_text_def)

text \<open>C40: Sending writes the buffer in order and completely or reports an error: the kernel has accepted a prefix of
  the data, the whole of it exactly when the call succeeds, and the call succeeds whenever every
  \<open>send\<close> accepts at least one byte.\<close>

theorem sending_is_complete_or_fails:
  assumes "socket_valid s"
  shows "(\<exists>n \<le> length data. sk_written (fst (send_all data s)) = sk_written s @ take n data \<and>
      (snd (send_all data s) = success \<longleftrightarrow> n = length data) \<and> snd (send_all data s) \<in> {success, fail EC_IoError}) \<and>
    (sends_through (length data) s \<longrightarrow> snd (send_all data s) = success)"
proof -
  obtain s' r where l: "send_loop data s = (s', r)" by fastforce
  from send_loop_prefix [OF l] send_all_succeeds [OF assms, of data 0] l assms show ?thesis by (auto simp: send_all_def)
qed

theorem sending_is_complete_or_fails_witness:
  "snd (send_all [1, 2, 3] \<lparr> sk_handle = 4, sk_written = [], sk_sends = [1, 1, 1] \<rparr>) = success"
  using sending_is_complete_or_fails [of "\<lparr> sk_handle = 4, sk_written = [], sk_sends = [1, 1, 1] \<rparr>" "[1, 2, 3]"]
  by (simp add: socket_valid_def sends_through_def)

end
